(* ===== verification/Prelude.thy ===== *)
theory Prelude
  imports Main "HOL-Library.Word" "HOL-Library.Char_ord" "HOL-Library.List_Lexorder"
begin

text \<open>
  What every component of the development shares: the collections of simplification facts, Go's
  byte strings and the functions of \<open>strings\<close> and \<open>path\<close> the controllers call, formatted messages
  and errors, instants and durations, and the log of API calls an operation makes.

  A Go \<open>string\<close> is a sequence of bytes, which is what \<^typ>\<open>string\<close> is in HOL. Messages built
  with \<open>fmt.Sprintf\<close> are kept as the format and its arguments and are never rendered: no
  decision of the code depends on the rendered text, only on whether a message is empty.
\<close>

named_theorems op_defs \<open>definitions of operations, unfolded by the proofs about them\<close>
named_theorems go_simps \<open>characteristic equations of the modelled library functions\<close>

section \<open>Byte strings\<close>

text \<open>\<open>strings.HasPrefix\<close>.\<close>

definition hasPrefix :: "string \<Rightarrow> string \<Rightarrow> bool" where
  "hasPrefix s p = (take (length p) s = p)"

lemma hasPrefix_append [simp]: "hasPrefix (p @ s) p"
  by (simp add: hasPrefix_def)

lemma hasPrefix_iff: "hasPrefix s p \<longleftrightarrow> (\<exists>t. s = p @ t)"
  unfolding hasPrefix_def by (metis append_eq_conv_conj append_take_drop_id)

text \<open>\<open>strings.Contains\<close>.\<close>

fun containsStr :: "string \<Rightarrow> string \<Rightarrow> bool" where
  "containsStr [] p = (p = [])"
| "containsStr (c # s) p = (hasPrefix (c # s) p \<or> containsStr s p)"

text \<open>\<open>strings.Split\<close> at a one-byte separator.\<close>

fun splitOn :: "char \<Rightarrow> string \<Rightarrow> string list" where
  "splitOn d [] = [[]]"
| "splitOn d (c # s) =
     (if c = d then [] # splitOn d s
      else (case splitOn d s of [] \<Rightarrow> [[c]] | w # ws \<Rightarrow> (c # w) # ws))"

text \<open>\<open>strings.Join\<close>.\<close>

fun joinStr :: "string \<Rightarrow> string list \<Rightarrow> string" where
  "joinStr sep [] = []"
| "joinStr sep [w] = w"
| "joinStr sep (w # v # ws) = w @ sep @ joinStr sep (v # ws)"

lemma splitOn_not_Nil [simp]: "splitOn d s \<noteq> []"
  by (induction s) (auto split: list.splits)

lemma splitOn_no_sep: "w \<in> set (splitOn d s) \<Longrightarrow> d \<notin> set w"
  by (induction s arbitrary: w) (auto split: list.splits if_splits)

lemma splitOn_plain: "d \<notin> set s \<Longrightarrow> splitOn d s = [s]"
  by (induction s) auto

lemma splitOn_append: "d \<notin> set w \<Longrightarrow> splitOn d (w @ d # s) = w # splitOn d s"
  by (induction w) auto

lemma splitOn_joinStr:
  "ws \<noteq> [] \<Longrightarrow> \<forall>w \<in> set ws. d \<notin> set w \<Longrightarrow> splitOn d (joinStr [d] ws) = ws"
  by (induction "[d]" ws rule: joinStr.induct) (auto simp: splitOn_plain splitOn_append)

lemma joinStr_splitOn: "joinStr [d] (splitOn d s) = s"
proof (induction s)
  case (Cons c s)
  then show ?case by (cases "splitOn d s"; cases "tl (splitOn d s)") auto
qed simp

text \<open>\<open>strings.TrimLeft\<close>, \<open>TrimRight\<close> and \<open>Trim\<close> for a one-byte cutset.\<close>

definition trimLeft :: "char \<Rightarrow> string \<Rightarrow> string" where
  "trimLeft d s = dropWhile (\<lambda>c. c = d) s"

definition trimRight :: "char \<Rightarrow> string \<Rightarrow> string" where
  "trimRight d s = rev (dropWhile (\<lambda>c. c = d) (rev s))"

definition trimBoth :: "char \<Rightarrow> string \<Rightarrow> string" where
  "trimBoth d s = trimRight d (trimLeft d s)"

lemma trimRight_append:
  "trimRight d (a @ b) = (if trimRight d b = [] then trimRight d a else a @ trimRight d b)"
  by (auto simp: trimRight_def dropWhile_append dropWhile_eq_Nil_conv)

lemma set_trimRight: "set (trimRight d s) \<subseteq> set s"
  by (auto simp: trimRight_def dest: set_dropWhileD)

lemma set_trimLeft: "set (trimLeft d s) \<subseteq> set s"
  by (auto simp: trimLeft_def dest: set_dropWhileD)

lemma length_trimRight: "length (trimRight d s) \<le> length s"
  by (metis length_dropWhile_le length_rev trimRight_def)

lemma hd_dropWhile_eq: "dropWhile (\<lambda>c. c = d) s \<noteq> [] \<Longrightarrow> hd (dropWhile (\<lambda>c. c = d) s) \<noteq> d"
  by (induction s) auto

lemma last_trimRight: "trimRight d s \<noteq> [] \<Longrightarrow> last (trimRight d s) \<noteq> d"
  unfolding trimRight_def using hd_dropWhile_eq[of d "rev s"] by (simp add: last_rev)

lemma trimRight_prefix: "\<exists>t. s = trimRight d s @ t"
  unfolding trimRight_def
  by (metis rev_append rev_rev_ident takeWhile_dropWhile_id)

lemma hd_trimRight: "trimRight d s \<noteq> [] \<Longrightarrow> hd (trimRight d s) = hd s"
  by (metis hd_append2 trimRight_prefix)

lemma hd_trimLeft: "trimLeft d s \<noteq> [] \<Longrightarrow> hd (trimLeft d s) \<noteq> d"
  unfolding trimLeft_def by (rule hd_dropWhile_eq)

lemma trimRight_fix: "s = [] \<or> last s \<noteq> d \<Longrightarrow> trimRight d s = s"
  unfolding trimRight_def
  by (cases s rule: rev_cases) auto

lemma trimLeft_fix: "s = [] \<or> hd s \<noteq> d \<Longrightarrow> trimLeft d s = s"
  unfolding trimLeft_def by (cases s) auto

lemma hd_trimBoth: "trimBoth d s \<noteq> [] \<Longrightarrow> hd (trimBoth d s) \<noteq> d"
  by (metis hd_trimLeft hd_trimRight set_trimRight set_empty subset_empty trimBoth_def)

lemma last_trimBoth: "trimBoth d s \<noteq> [] \<Longrightarrow> last (trimBoth d s) \<noteq> d"
  by (simp add: last_trimRight trimBoth_def)

lemma set_trimBoth: "set (trimBoth d s) \<subseteq> set s"
  unfolding trimBoth_def using set_trimLeft set_trimRight by fastforce

lemma trimBoth_fix: "s = [] \<or> hd s \<noteq> d \<and> last s \<noteq> d \<Longrightarrow> trimBoth d s = s"
  unfolding trimBoth_def by (auto simp: trimLeft_fix trimRight_fix)

section \<open>First matches\<close>

lemma find_append:
  "find P (xs @ ys) = (case find P xs of Some x \<Rightarrow> Some x | None \<Rightarrow> find P ys)"
  by (induction xs) auto

lemma find_SomeD: "find P xs = Some x \<Longrightarrow> x \<in> set xs \<and> P x"
  by (induction xs) (auto split: if_splits)

lemma sorted_wrt_distinct:
  "distinct xs \<Longrightarrow> (\<And>x y. x \<in> set xs \<Longrightarrow> y \<in> set xs \<Longrightarrow> x \<noteq> y \<Longrightarrow> P x y) \<Longrightarrow> sorted_wrt P xs"
  by (induction xs) auto

section \<open>Messages and errors\<close>

text \<open>
  A message is a literal string, a number, a format with its arguments, or a list joined with a
  separator (\<open>strings.Join\<close> of formatted parts).
\<close>

datatype gofmt = Lit string | Num int | Fmt string "gofmt list" | Joined string "gofmt list"

fun emptyMsg :: "gofmt \<Rightarrow> bool" where
  "emptyMsg (Lit s) = (s = [])"
| "emptyMsg (Num n) = False"
| "emptyMsg (Fmt f as) = (f = [])"
| "emptyMsg (Joined sep ms) = (ms = [])"

text \<open>
  An error is its message and what \<open>errors.Is\<close>, \<open>errors.As\<close> and \<open>apierrors.IsNotFound\<close>
  can find in its chain: wrapping with \<open>%w\<close> keeps it.
\<close>

datatype ekind = NotFoundE | AlreadyExistsE | ForbiddenE | GatewayNotFoundE | ConfigE | TerminalE | OtherE

record goerr =
  ekind :: ekind
  emsg :: gofmt

definition errorf :: "string \<Rightarrow> gofmt list \<Rightarrow> goerr" where
  "errorf f as = \<lparr>ekind = OtherE, emsg = Fmt f as\<rparr>"

definition wrapf :: "string \<Rightarrow> gofmt list \<Rightarrow> goerr \<Rightarrow> goerr" where
  "wrapf f as e = \<lparr>ekind = ekind e, emsg = Fmt f (as @ [emsg e])\<rparr>"

definition isNotFound :: "goerr \<Rightarrow> bool" where
  "isNotFound e = (ekind e = NotFoundE)"

definition isAlreadyExists :: "goerr \<Rightarrow> bool" where
  "isAlreadyExists e = (ekind e = AlreadyExistsE)"

definition isForbidden :: "goerr \<Rightarrow> bool" where
  "isForbidden e = (ekind e = ForbiddenE)"

lemma ekind_errorf [simp]: "ekind (errorf f as) = OtherE"
  by (simp add: errorf_def)

lemma ekind_wrapf [simp]: "ekind (wrapf f as e) = ekind e"
  by (simp add: wrapf_def)

section \<open>Instants and durations\<close>

text \<open>
  An instant is a number of nanoseconds since the epoch. A \<open>time.Duration\<close> is an \<open>int64\<close> of
  nanoseconds: products wrap (\<open>wrap64\<close>) and \<open>Time.Sub\<close> saturates (\<open>sat64\<close>).
\<close>

type_synonym instant = int
type_synonym duration = int
type_synonym int32 = "32 word"

definition wrap64 :: "int \<Rightarrow> int" where
  "wrap64 x = (x + 2 ^ 63) mod 2 ^ 64 - 2 ^ 63"

definition sat64 :: "int \<Rightarrow> int" where
  "sat64 x = max (- (2 ^ 63)) (min (2 ^ 63 - 1) x)"

definition second :: duration where
  "second = 1000000000"

definition secondsOf :: "int32 \<Rightarrow> duration" where
  "secondsOf n = wrap64 (sint n * second)"

text \<open>Go's zero time, the first of January of the year 1.\<close>

definition zeroTime :: instant where
  "zeroTime = - 62135596800 * second"

definition timeSub :: "instant \<Rightarrow> instant \<Rightarrow> duration" where
  "timeSub a b = sat64 (a - b)"

lemma wrap64_id: "- (2 ^ 63) \<le> x \<Longrightarrow> x < 2 ^ 63 \<Longrightarrow> wrap64 x = x"
  by (simp add: wrap64_def)

lemma sint32_bounds: "- (2 ^ 31) \<le> sint (n :: int32) \<and> sint n < 2 ^ 31"
  using sint_range_size[of n] by (simp add: word_size)

lemma secondsOf_exact: "secondsOf n = sint n * 1000000000"
  unfolding secondsOf_def second_def
  using sint32_bounds[of n] by (intro wrap64_id) auto

lemma timeSub_pos_iff: "timeSub a b > 0 \<longleftrightarrow> a > b"
  by (auto simp: timeSub_def sat64_def)

section \<open>Logged effects\<close>

text \<open>
  An operation that talks to the API server returns the calls it made, in order, with its result;
  what the server answers is an argument of the operation. \<open>bindE\<close> is Go's
  \<^verbatim>\<open>if err != nil { return err }\<close>.
\<close>

type_synonym ('c, 'a) eact = "'c list \<times> (goerr + 'a)"

definition retE :: "'a \<Rightarrow> ('c, 'a) eact" where
  "retE x = ([], Inr x)"

definition failE :: "goerr \<Rightarrow> ('c, 'a) eact" where
  "failE e = ([], Inl e)"

definition bindE :: "('c, 'a) eact \<Rightarrow> ('a \<Rightarrow> ('c, 'b) eact) \<Rightarrow> ('c, 'b) eact" where
  "bindE m f = (case snd m of Inl e \<Rightarrow> (fst m, Inl e)
      | Inr x \<Rightarrow> (fst m @ fst (f x), snd (f x)))"

definition liftE :: "goerr + 'a \<Rightarrow> ('c, 'a) eact" where
  "liftE r = ([], r)"

text \<open>A loop whose body may return an error.\<close>

fun forE :: "('a \<Rightarrow> ('c, unit) eact) \<Rightarrow> 'a list \<Rightarrow> ('c, unit) eact" where
  "forE f [] = retE ()"
| "forE f (x # xs) = bindE (f x) (\<lambda>_. forE f xs)"

text \<open>\<^verbatim>\<open>fmt.Errorf("...: %w", err)\<close> around a failing step.\<close>

definition wrapE :: "string \<Rightarrow> gofmt list \<Rightarrow> ('c, 'a) eact \<Rightarrow> ('c, 'a) eact" where
  "wrapE f as m = (fst m, case snd m of Inl e \<Rightarrow> Inl (wrapf f as e) | Inr x \<Rightarrow> Inr x)"

lemma fst_retE [simp]: "fst (retE x) = []" and snd_retE [simp]: "snd (retE x) = Inr x"
  by (simp_all add: retE_def)

lemma fst_failE [simp]: "fst (failE e) = []" and snd_failE [simp]: "snd (failE e) = Inl e"
  by (simp_all add: failE_def)

lemma fst_liftE [simp]: "fst (liftE r) = []" and snd_liftE [simp]: "snd (liftE r) = r"
  by (simp_all add: liftE_def)

lemma fst_wrapE [simp]: "fst (wrapE f as m) = fst m"
  by (simp add: wrapE_def)

lemma snd_wrapE_Inr [simp]: "snd (wrapE f as m) = Inr x \<longleftrightarrow> snd m = Inr x"
  by (auto simp: wrapE_def split: sum.splits)

lemma snd_bindE_Inr:
  "snd (bindE m f) = Inr y \<longleftrightarrow> (\<exists>x. snd m = Inr x \<and> snd (f x) = Inr y)"
  by (auto simp: bindE_def split: sum.splits)

lemma bindE_calls:
  "\<forall>c \<in> set (fst m). P c \<Longrightarrow> (\<And>x. snd m = Inr x \<Longrightarrow> \<forall>c \<in> set (fst (f x)). P c)
   \<Longrightarrow> \<forall>c \<in> set (fst (bindE m f)). P c"
  by (auto simp: bindE_def split: sum.splits)

lemma forE_calls: "c \<in> set (fst (forE f xs)) \<Longrightarrow> \<exists>x \<in> set xs. c \<in> set (fst (f x))"
  by (induction xs) (auto simp: bindE_def split: sum.splits)

text \<open>A loop that ends without error ran its body on every element.\<close>

lemma forE_complete:
  "snd (forE f xs) = Inr () \<Longrightarrow> x \<in> set xs \<Longrightarrow> set (fst (f x)) \<subseteq> set (fst (forE f xs)) \<and> snd (f x) = Inr ()"
  by (induction xs) (auto simp: bindE_def split: sum.splits)

end
