(* ===== verification/Kube.thy ===== *)
theory Kube
  imports Prelude
begin

text \<open>
  The Kubernetes side of the program: object metadata, status conditions, pods, volumes and the
  Agent Sandbox resource, reduced to the fields the controllers read or write, and the interface
  of the apimachinery and controller-runtime functions they call. That code is not part of the
  repository, so its functions are the fields of the record \<open>klib\<close>, which every definition
  that needs them takes as an argument; the locale \<open>condition_store\<close> states the documented
  behaviour the controllers rely on.
\<close>

section \<open>Metadata\<close>

type_synonym key = "string \<times> string" \<comment> \<open>namespace and name\<close>
type_synonym labels = "string \<rightharpoonup> string"

record ownerref =
  or_apiVersion :: string
  or_kind :: string
  or_name :: string
  or_uid :: string
  or_controller :: "bool option"

record objmeta =
  m_name :: string
  m_namespace :: string
  m_uid :: string
  m_generation :: int
  m_labels :: labels
  m_owners :: "ownerref list"

definition newMeta :: "string \<Rightarrow> string \<Rightarrow> labels \<Rightarrow> objmeta" where
  "newMeta name ns ls = \<lparr>m_name = name, m_namespace = ns, m_uid = [], m_generation = 0,
     m_labels = ls, m_owners = []\<rparr>"

definition keyOf :: "objmeta \<Rightarrow> key" where
  "keyOf m = (m_namespace m, m_name m)"

text \<open>Reading a label of a Go map: the empty string when the key is absent.\<close>

definition label :: "objmeta \<Rightarrow> string \<Rightarrow> string" where
  "label m k = (case m_labels m k of None \<Rightarrow> [] | Some v \<Rightarrow> v)"

section \<open>Status conditions\<close>

datatype cstatus = CTrue | CFalse | CUnknown

record condition =
  c_type :: string
  c_status :: cstatus
  c_gen :: int
  c_reason :: string
  c_message :: gofmt

definition mkCond :: "string \<Rightarrow> cstatus \<Rightarrow> int \<Rightarrow> string \<Rightarrow> gofmt \<Rightarrow> condition" where
  "mkCond t s g r m = \<lparr>c_type = t, c_status = s, c_gen = g, c_reason = r, c_message = m\<rparr>"

lemma mkCond_sel [simp]:
  "c_type (mkCond t s g r m) = t" "c_status (mkCond t s g r m) = s"
  "c_gen (mkCond t s g r m) = g" "c_reason (mkCond t s g r m) = r"
  "c_message (mkCond t s g r m) = m"
  by (simp_all add: mkCond_def)

text \<open>
  The library functions: \<open>meta.SetStatusCondition\<close>, \<open>FindStatusCondition\<close> and
  \<open>RemoveStatusCondition\<close>, \<open>controllerutil.SetControllerReference\<close> (owner kind, owner, object)
  and \<open>validation.IsDNS1123Subdomain\<close> and \<open>IsValidLabelValue\<close>. The transition time a condition carries is not part
  of the model: no code under src/ reads it.
\<close>

record klib =
  setCond :: "condition list \<Rightarrow> condition \<Rightarrow> condition list"
  findCond :: "condition list \<Rightarrow> string \<Rightarrow> condition option"
  removeCond :: "condition list \<Rightarrow> string \<Rightarrow> condition list"
  setControllerReference :: "string \<Rightarrow> objmeta \<Rightarrow> objmeta \<Rightarrow> goerr + objmeta"
  isDNS1123Subdomain :: "string \<Rightarrow> string list"
  isValidLabelValue :: "string \<Rightarrow> string list"

text \<open>\<open>status.conditions\<close> is a list keyed by type; what the three functions promise of it.\<close>

locale condition_store =
  fixes K :: klib
  assumes find_nil: "findCond K [] t = None"
    and find_set: "findCond K (setCond K cs c) t = (if t = c_type c then Some c else findCond K cs t)"
    and find_remove: "findCond K (removeCond K cs t') t = (if t = t' then None else findCond K cs t)"
begin

lemma find_set_same [simp]: "findCond K (setCond K cs c) (c_type c) = Some c"
  by (simp add: find_set)

lemma find_set_other: "t \<noteq> c_type c \<Longrightarrow> findCond K (setCond K cs c) t = findCond K cs t"
  by (simp add: find_set)

lemma find_mkCond:
  "findCond K (setCond K cs (mkCond u s g r m)) t =
     (if t = u then Some (mkCond u s g r m) else findCond K cs t)"
  by (simp add: find_set)

lemma set_commute:
  "c_type c \<noteq> c_type d \<Longrightarrow>
   findCond K (setCond K (setCond K cs c) d) t = findCond K (setCond K (setCond K cs d) c) t"
  by (simp add: find_set)

end

text \<open>
  The list implementation of the interface: replace in place or append, first match, filter. The
  witnesses evaluate with it.
\<close>

fun setCondList :: "condition list \<Rightarrow> condition \<Rightarrow> condition list" where
  "setCondList [] c = [c]"
| "setCondList (d # ds) c = (if c_type d = c_type c then c # ds else d # setCondList ds c)"

fun findCondList :: "condition list \<Rightarrow> string \<Rightarrow> condition option" where
  "findCondList [] t = None"
| "findCondList (d # ds) t = (if c_type d = t then Some d else findCondList ds t)"

definition removeCondList :: "condition list \<Rightarrow> string \<Rightarrow> condition list" where
  "removeCondList cs t = filter (\<lambda>c. c_type c \<noteq> t) cs"

definition ownerRefTo :: "string \<Rightarrow> objmeta \<Rightarrow> ownerref" where
  "ownerRefTo kind owner = \<lparr>or_apiVersion = ''konveyor.io/v1alpha1'', or_kind = kind,
     or_name = m_name owner, or_uid = m_uid owner, or_controller = Some True\<rparr>"

text \<open>What \<open>SetControllerReference\<close> promises: it changes nothing but the owner references, and the
  owner becomes the object's controller.\<close>

locale owner_references =
  fixes K :: klib
  assumes owner_frame: "setControllerReference K kind owner m = Inr m' \<Longrightarrow>
      m_name m' = m_name m \<and> m_namespace m' = m_namespace m \<and> m_labels m' = m_labels m"
    and owner_set: "setControllerReference K kind owner m = Inr m' \<Longrightarrow>
      \<exists>ref \<in> set (m_owners m'). or_controller ref = Some True \<and> or_kind ref = kind
        \<and> or_name ref = m_name owner \<and> or_uid ref = m_uid owner"

text \<open>\<open>validation.IsDNS1123Subdomain\<close> returns the problems it finds. The controllers rely on what an
  accepted name cannot contain.\<close>

locale dns_names =
  fixes K :: klib
  assumes dns_no_slash: "isDNS1123Subdomain K n = [] \<Longrightarrow> CHR ''/'' \<notin> set n"

definition dnsLabel :: "string \<Rightarrow> bool" where
  "dnsLabel w \<longleftrightarrow> w \<noteq> [] \<and> list_all (\<lambda>c. c \<in> set ''abcdefghijklmnopqrstuvwxyz0123456789-'') w
     \<and> hd w \<noteq> CHR ''-'' \<and> last w \<noteq> CHR ''-''"

definition dnsProblems :: "string \<Rightarrow> string list" where
  "dnsProblems n = (if length n \<le> 253 \<and> list_all dnsLabel (splitOn CHR ''.'' n) then []
     else [''a lowercase RFC 1123 subdomain must consist of lower case alphanumeric characters''])"

lemma splitOn_chars: "c \<in> set s \<Longrightarrow> c = d \<or> (\<exists>w \<in> set (splitOn d s). c \<in> set w)"
  by (induction s) (auto split: list.splits)

lemma dnsProblems_chars: "dnsProblems n = [] \<Longrightarrow> CHR ''/'' \<notin> set n"
  using splitOn_chars[of "CHR ''/''" n "CHR ''.''"]
  by (fastforce simp: dnsProblems_def dnsLabel_def list_all_iff split: if_splits)

text \<open>\<open>validation.IsValidLabelValue\<close>: the controllers rely on the length limit only.\<close>

definition labelProblems :: "string \<Rightarrow> string list" where
  "labelProblems n = (if length n \<le> 63 then [] else [''must be no more than 63 characters''])"

definition refK :: klib where
  "refK = \<lparr>setCond = setCondList, findCond = findCondList, removeCond = removeCondList,
     setControllerReference = (\<lambda>kind owner m. Inr (m\<lparr>m_owners := [ownerRefTo kind owner]\<rparr>)),
     isDNS1123Subdomain = dnsProblems, isValidLabelValue = labelProblems\<rparr>"

lemma refK_sel [simp]:
  "setCond refK = setCondList" "findCond refK = findCondList" "removeCond refK = removeCondList"
  "setControllerReference refK = (\<lambda>kind owner m. Inr (m\<lparr>m_owners := [ownerRefTo kind owner]\<rparr>))"
  "isDNS1123Subdomain refK = dnsProblems" "isValidLabelValue refK = labelProblems"
  by (simp_all add: refK_def)

lemma findCondList_set:
  "findCondList (setCondList cs c) t = (if t = c_type c then Some c else findCondList cs t)"
  by (induction cs c rule: setCondList.induct) auto

lemma findCondList_remove:
  "findCondList (removeCondList cs t') t = (if t = t' then None else findCondList cs t)"
  by (induction cs) (auto simp: removeCondList_def)

interpretation refstore: condition_store refK
  by unfold_locales (simp_all add: findCondList_set findCondList_remove)

interpretation refowners: owner_references refK
  by unfold_locales (auto simp: ownerRefTo_def)

interpretation refnames: dns_names refK
  by unfold_locales (simp add: dnsProblems_chars)

section \<open>Volumes, containers, pods\<close>

record keytopath =
  kp_key :: string
  kp_path :: string
  kp_mode :: "int option"

datatype volsource =
    VSecret string "keytopath list"
  | VConfigMap string "keytopath list"
  | VEmptyDir int \<comment> \<open>size limit in bytes\<close>
  | VImage string

record volume =
  v_name :: string
  v_source :: volsource

record volmount =
  vm_name :: string
  vm_path :: string
  vm_subPath :: string
  vm_readOnly :: bool

datatype envsource = SecretKeyRef string string | OtherSource string

record envvar =
  ev_name :: string
  ev_value :: string
  ev_from :: "envsource option"

definition plainEnv :: "string \<Rightarrow> string \<Rightarrow> envvar" where
  "plainEnv n v = \<lparr>ev_name = n, ev_value = v, ev_from = None\<rparr>"

datatype envfrom = EnvFromSecret string | EnvFromOther string

record container =
  ct_name :: string
  ct_image :: string
  ct_command :: "string list"
  ct_args :: "string list"
  ct_env :: "envvar list"
  ct_envFrom :: "envfrom list"
  ct_mounts :: "volmount list"
  ct_ports :: "(string \<times> int) list"
  ct_readinessTCP :: "(int \<times> int) option" \<comment> \<open>port and period in seconds\<close>
  ct_termFallbackToLogs :: bool

record waiting =
  w_reason :: string
  w_message :: string

record terminated =
  t_exitCode :: int32
  t_message :: string

record containerstatus =
  cs_name :: string
  cs_waiting :: "waiting option"
  cs_running :: "instant option" \<comment> \<open>\<open>startedAt\<close>, \<open>zeroTime\<close> when unset\<close>
  cs_terminated :: "terminated option"

datatype podphase = PodPending | PodRunning | PodSucceeded | PodFailed | PodUnknown

record podcondition =
  pc_type :: string
  pc_status :: cstatus
  pc_reason :: string
  pc_message :: string

record pod =
  pod_meta :: objmeta
  pod_phase :: podphase
  pod_initStatuses :: "containerstatus list"
  pod_statuses :: "containerstatus list"
  pod_conditions :: "podcondition list"
  pod_startTime :: "instant option"

text \<open>The Agent Sandbox custom resource.\<close>

record sandbox =
  sb_meta :: objmeta
  sb_podLabels :: labels
  sb_restartNever :: bool
  sb_init :: "container list"
  sb_containers :: "container list"
  sb_volumes :: "volume list"
  sb_service :: bool
  sb_created :: instant
  sb_conditions :: "condition list"

record secret =
  sec_meta :: objmeta
  sec_data :: "(string \<times> string) list"

record configmap =
  cm_meta :: objmeta
  cm_data :: "(string \<times> string) list"
  cm_binary :: "(string \<times> string) list"

text \<open>A batch Job of one container, with its status conditions as pairs of type and status.\<close>

record job =
  jb_meta :: objmeta
  jb_backoffLimit :: int
  jb_deadline :: int \<comment> \<open>\<open>activeDeadlineSeconds\<close>\<close>
  jb_podLabels :: labels
  jb_restartNever :: bool
  jb_serviceAccount :: string
  jb_restricted :: bool \<comment> \<open>the security contexts the restricted Pod Security Standards ask for\<close>
  jb_container :: container
  jb_volumes :: "volume list"
  jb_conditions :: "(string \<times> cstatus) list"

text \<open>The RBAC objects of the enumeration Job.\<close>

record serviceaccount =
  sa_meta :: objmeta

record policyrule =
  pr_apiGroups :: "string list"
  pr_resources :: "string list"
  pr_verbs :: "string list"

record role =
  ro_meta :: objmeta
  ro_rules :: "policyrule list"

record subject =
  su_kind :: string
  su_name :: string
  su_namespace :: string

record rolebinding =
  rb_meta :: objmeta
  rb_refKind :: string
  rb_refName :: string
  rb_subjects :: "subject list"

section \<open>Results of a reconcile\<close>

record cresult =
  requeue :: bool
  requeueAfter :: duration

definition noRequeue :: cresult where
  "noRequeue = \<lparr>requeue = False, requeueAfter = 0\<rparr>"

definition requeueNow :: cresult where
  "requeueNow = \<lparr>requeue = True, requeueAfter = 0\<rparr>"

definition requeueIn :: "duration \<Rightarrow> cresult" where
  "requeueIn d = \<lparr>requeue = False, requeueAfter = d\<rparr>"

end
