(* ===== verification/ApiTypes.thy ===== *)
theory ApiTypes
  imports Kube
begin

text \<open>
  The konveyor.io/v1alpha1 resources (src/api/v1alpha1), one record per struct and one datatype
  per enumerated string, with a constructor for the unset value where the field is optional. An
  optional pointer is an \<open>option\<close>, a \<open>RawExtension\<close> is the bytes it carries.
\<close>

section \<open>Agent\<close>

datatype ParamType = ParamTypeUnset | ParamTypeString | ParamTypeNumber | ParamTypeBoolean

record Param =
  p_name :: string
  p_type :: ParamType
  p_description :: string
  p_default :: string
  p_required :: bool

record GitConfig =
  gc_userName :: string
  gc_userEmail :: string

datatype ExecutionMode = ModeUnset | ExecutionModeAuto | ExecutionModeApprove

record ExecutionLimits =
  el_maxTurns :: "int option"
  el_maxCost :: string

record ExecutionSpec =
  ex_mode :: ExecutionMode
  ex_askUser :: bool
  ex_limits :: ExecutionLimits

record AgentSpec =
  as_image :: string
  as_prompt :: string
  as_gateways :: "string list" \<comment> \<open>\<open>AgentGatewayRef.Ref\<close>\<close>
  as_skillCards :: "string list"
  as_skillCollections :: "string list"
  as_params :: "Param list"
  as_gitConfig :: "GitConfig option"
  as_execution :: "ExecutionLimits option"

record AgentStatus =
  ags_observedGeneration :: int
  ags_conditions :: "condition list"

record Agent =
  ag_meta :: objmeta
  ag_spec :: AgentSpec
  ag_status :: AgentStatus

section \<open>AgentRun\<close>

datatype AgentRunPhase = PhaseUnset | PhasePending | PhaseRunning | PhaseSucceeded | PhaseFailed

definition AgentRunConditionACPReady :: string where
  "AgentRunConditionACPReady = ''ACPReady''"

definition AgentRunConditionSucceeded :: string where
  "AgentRunConditionSucceeded = ''Succeeded''"

definition AgentRunConditionVerified :: string where
  "AgentRunConditionVerified = ''Verified''"

definition AgentRunReasonSucceeded :: string where
  "AgentRunReasonSucceeded = ''Succeeded''"

definition AgentRunReasonFailed :: string where
  "AgentRunReasonFailed = ''Failed''"

definition AgentRunReasonLimitReached :: string where
  "AgentRunReasonLimitReached = ''LimitReached''"

definition AgentRunReasonRefused :: string where
  "AgentRunReasonRefused = ''Refused''"

definition AgentRunReasonRunning :: string where
  "AgentRunReasonRunning = ''Running''"

definition AgentRunReasonStartupDeadlineExceeded :: string where
  "AgentRunReasonStartupDeadlineExceeded = ''StartupDeadlineExceeded''"

definition AgentRunReasonVerificationPassed :: string where
  "AgentRunReasonVerificationPassed = ''VerificationPassed''"

definition AgentRunReasonVerificationFailed :: string where
  "AgentRunReasonVerificationFailed = ''VerificationFailed''"

definition AgentRunReasonVerificationIncomplete :: string where
  "AgentRunReasonVerificationIncomplete = ''VerificationIncomplete''"

definition AgentRunReasonVerificationNotRun :: string where
  "AgentRunReasonVerificationNotRun = ''VerificationNotRun''"

definition AgentRunReasonVerificationNotReported :: string where
  "AgentRunReasonVerificationNotReported = ''VerificationNotReported''"

lemmas condition_types =
  AgentRunConditionACPReady_def AgentRunConditionSucceeded_def AgentRunConditionVerified_def

record ParamValue =
  pv_name :: string
  pv_value :: string

record FileMount =
  fm_secretName :: string
  fm_configMapName :: string
  fm_mountPath :: string
  fm_subPath :: string
  fm_items :: "keytopath list"

record AgentRunSpec =
  rs_agentRef :: string
  rs_gateway :: string
  rs_params :: "ParamValue list"
  rs_instructions :: string
  rs_execution :: "ExecutionSpec option"
  rs_workflowParams :: "string option"
  rs_env :: "envvar list"
  rs_envFrom :: "envfrom list"
  rs_fileMounts :: "FileMount list"
  rs_gitConfig :: "GitConfig option"
  rs_ttlSecondsAfterFinished :: "int32 option"
  rs_startupDeadlineSeconds :: "int32 option"

record AgentRunStatus =
  st_phase :: AgentRunPhase
  st_observedGeneration :: int
  st_sandboxName :: string
  st_startTime :: "instant option"
  st_completionTime :: "instant option"
  st_duration :: "int option"
  st_secretKeyRef :: "string option"
  st_conditions :: "condition list"
  st_terminationData :: "string option"

record AgentRun =
  run_meta :: objmeta
  run_spec :: AgentRunSpec
  run_status :: AgentRunStatus

abbreviation run_phase :: "AgentRun \<Rightarrow> AgentRunPhase" where
  "run_phase r \<equiv> st_phase (run_status r)"

section \<open>AgentWorkflow and AgentWorkflowRun\<close>

record AgentWorkflowStage =
  ws_name :: string
  ws_agentRef :: string
  ws_instructions :: string
  ws_execution :: "ExecutionSpec option"

record AgentWorkflowSpec =
  wfs_guide :: string
  wfs_stages :: "AgentWorkflowStage list"
  wfs_params :: "Param list"

record AgentWorkflowStatus =
  wft_observedGeneration :: int
  wft_conditions :: "condition list"

record AgentWorkflow =
  wf_meta :: objmeta
  wf_spec :: AgentWorkflowSpec
  wf_status :: AgentWorkflowStatus

record AgentWorkflowRunStageStatus =
  ss_name :: string
  ss_phase :: AgentRunPhase
  ss_agentRunName :: string
  ss_agentRef :: string
  ss_instructions :: string
  ss_execution :: "ExecutionSpec option"

record AgentWorkflowRunSpec =
  wrs_workflowRef :: string
  wrs_gateway :: string
  wrs_params :: "ParamValue list"
  wrs_env :: "envvar list"
  wrs_envFrom :: "envfrom list"
  wrs_fileMounts :: "FileMount list"
  wrs_ttlSecondsAfterFinished :: "int32 option"

record AgentWorkflowRunStatus =
  wst_phase :: AgentRunPhase
  wst_observedGeneration :: int
  wst_currentStage :: string
  wst_stages :: "AgentWorkflowRunStageStatus list"
  wst_guide :: string
  wst_params :: "Param list"
  wst_startTime :: "instant option"
  wst_completionTime :: "instant option"
  wst_conditions :: "condition list"

record AgentWorkflowRun =
  wr_meta :: objmeta
  wr_spec :: AgentWorkflowRunSpec
  wr_status :: AgentWorkflowRunStatus

section \<open>Gateway, SkillCard, SkillCollection\<close>

record GatewayCredentialRef =
  cr_secretName :: string
  cr_key :: string

record GatewayModel =
  gm_name :: string
  gm_contextWindow :: int
  gm_tier :: string

record GatewaySpec =
  gs_provider :: string
  gs_endpoint :: string
  gs_credentialRef :: GatewayCredentialRef
  gs_model :: GatewayModel

record GatewayStatus =
  gws_observedGeneration :: int
  gws_connectionVerified :: bool
  gws_verifiedCredentialHash :: string
  gws_conditions :: "condition list"

record Gateway =
  gw_meta :: objmeta
  gw_spec :: GatewaySpec
  gw_status :: GatewayStatus

datatype SkillCardType = SkillTypeUnset | SkillCardTypeSkill | SkillCardTypeRule

record SkillCardSpec =
  sc_image :: string
  sc_subPath :: string
  sc_source :: string
  sc_ref :: string
  sc_inline :: string
  sc_displayName :: string
  sc_version :: string
  sc_description :: string
  sc_type :: SkillCardType
  sc_tags :: "string list"

record SkillCardStatus =
  scs_observedGeneration :: int
  scs_resolvedImage :: string
  scs_deliveryMode :: string
  scs_conditions :: "condition list"

record SkillCard =
  card_meta :: objmeta
  card_spec :: SkillCardSpec
  card_status :: SkillCardStatus

record SkillCollectionSkillRef =
  sr_name :: string
  sr_skillCardRef :: string
  sr_image :: string
  sr_source :: string
  sr_ref :: string
  sr_subPath :: string
  sr_type :: SkillCardType

record SkillCollectionSpec =
  sl_version :: string
  sl_image :: string
  sl_type :: SkillCardType
  sl_skills :: "SkillCollectionSkillRef list"

record SkillCollectionStatus =
  sls_observedGeneration :: int
  sls_conditions :: "condition list"
  sls_resolvedSkills :: "string list"

record SkillCollection =
  col_meta :: objmeta
  col_spec :: SkillCollectionSpec
  col_status :: SkillCollectionStatus

section \<open>Names the controllers share (internal/controller/doc.go)\<close>

definition ConditionTypeReady :: string where
  "ConditionTypeReady = ''Ready''"

definition ConditionTypeGatewayConfigured :: string where
  "ConditionTypeGatewayConfigured = ''GatewayConfigured''"

definition ConditionTypeResolvable :: string where
  "ConditionTypeResolvable = ''Resolvable''"

definition labelManagedBy :: string where
  "labelManagedBy = ''app.kubernetes.io/managed-by''"

definition managedByLabel :: string where
  "managedByLabel = ''agentic-controller''"

definition labelAgentRun :: string where
  "labelAgentRun = ''konveyor.io/agentrun''"

definition labelAgent :: string where
  "labelAgent = ''konveyor.io/agent''"

definition labelAgentWorkflowRun :: string where
  "labelAgentWorkflowRun = ''konveyor.io/agentworkflowrun''"

definition labelStage :: string where
  "labelStage = ''konveyor.io/stage''"

definition labelGateway :: string where
  "labelGateway = ''konveyor.io/gateway''"

text \<open>\<open>LabelSkillCollection\<close> of the api module, under the controller's name for it.\<close>

definition labelSkillCollection :: string where
  "labelSkillCollection = ''konveyor.io/skillcollection''"

definition labelComponent :: string where
  "labelComponent = ''app.kubernetes.io/component''"

lemmas label_names = labelManagedBy_def managedByLabel_def labelAgentRun_def labelAgent_def
  labelAgentWorkflowRun_def labelStage_def labelGateway_def labelSkillCollection_def labelComponent_def

section \<open>The order of phases\<close>

text \<open>
  Progress of a run: unset, Pending, Running, then one of the two terminal phases, which are
  incomparable.
\<close>

fun phaseRank :: "AgentRunPhase \<Rightarrow> nat" where
  "phaseRank PhaseUnset = 0"
| "phaseRank PhasePending = 1"
| "phaseRank PhaseRunning = 2"
| "phaseRank PhaseSucceeded = 3"
| "phaseRank PhaseFailed = 3"

instantiation AgentRunPhase :: order
begin

definition less_eq_AgentRunPhase :: "AgentRunPhase \<Rightarrow> AgentRunPhase \<Rightarrow> bool" where
  "less_eq_AgentRunPhase p q \<longleftrightarrow> p = q \<or> phaseRank p < phaseRank q"

definition less_AgentRunPhase :: "AgentRunPhase \<Rightarrow> AgentRunPhase \<Rightarrow> bool" where
  "less_AgentRunPhase p q \<longleftrightarrow> phaseRank p < phaseRank q"

instance
  by standard (auto simp: less_eq_AgentRunPhase_def less_AgentRunPhase_def)

end

definition isTerminalPhase :: "AgentRunPhase \<Rightarrow> bool" where
  "isTerminalPhase p = (p = PhaseSucceeded \<or> p = PhaseFailed)"

lemma terminal_maximal: "isTerminalPhase p \<Longrightarrow> p \<le> q \<longleftrightarrow> q = p"
  by (cases p; cases q) (auto simp: isTerminalPhase_def less_eq_AgentRunPhase_def)

lemma phase_le_terminal: "isTerminalPhase q \<Longrightarrow> \<not> isTerminalPhase p \<Longrightarrow> p \<le> q"
  by (cases p; cases q) (auto simp: isTerminalPhase_def less_eq_AgentRunPhase_def)

end
