(* ===== verification/Cluster.thy ===== *)
theory Cluster
  imports ApiTypes
begin

text \<open>
  The API server as the controllers see it. Reads are functions of a record of the client
  (\<open>client.Client\<close>, served from the manager's cache) and of a second, optional record for the
  uncached reader (\<open>apiReader\<close>); what a write is answered is a function too. An operation returns
  the writes it made, in order, as values of \<open>call\<close>. The two reconcilers are the records of their
  Go structs, with the library functions, the clock and the random source beside the client. One
  reconcile reads the clock once.
\<close>

record kreader =
  rdRun :: "key \<Rightarrow> goerr + AgentRun"
  rdWorkflowRun :: "key \<Rightarrow> goerr + AgentWorkflowRun"
  rdSandbox :: "key \<Rightarrow> goerr + sandbox"
  rdPod :: "key \<Rightarrow> goerr + pod"
  rdPods :: "string \<Rightarrow> (string \<times> string) list \<Rightarrow> goerr + pod list"

text \<open>
  A write. The status patches carry the object as it was read and as it is written; the status
  subresource ignores everything but the status.
\<close>

datatype call =
    PatchRunStatus AgentRun AgentRun
  | PatchWorkflowRunStatus AgentWorkflowRun AgentWorkflowRun
  | CreateSecret secret
  | ApplyConfigMap configmap
  | CreateSandbox sandbox
  | CreateAgentRun AgentRun
  | DeleteObject string objmeta \<comment> \<open>kind and metadata\<close>
  | EmitEvent string gofmt
  | PatchAgentStatus Agent Agent
  | PatchWorkflowStatus AgentWorkflow AgentWorkflow
  | PatchGatewayStatus Gateway Gateway
  | PatchSkillCardStatus SkillCard SkillCard
  | PatchCollectionStatus SkillCollection SkillCollection
  | CreateJob job
  | DeleteJob string objmeta \<comment> \<open>propagation policy and metadata\<close>
  | ApplyServiceAccount serviceaccount
  | ApplyRole role
  | ApplyRoleBinding rolebinding
  | ApplySkillCard SkillCard

text \<open>
  \<open>createOrUpdate\<close> is controller-runtime's \<open>CreateOrUpdate\<close> for a ConfigMap: given the object's key
  and the function that mutates it, the object written or an error; so are \<open>updateAccount\<close>,
  \<open>updateRole\<close>, \<open>updateBinding\<close> and \<open>updateCard\<close> for the other kinds. \<open>answer\<close> is what any other
  write is answered, \<open>None\<close> for success. The list functions take a namespace and the labels that
  must match, or the value a field index is looked up for (\<open>listAgentsBy\<close>: the index field first).
\<close>

record kclient =
  getRun :: "key \<Rightarrow> goerr + AgentRun"
  getWorkflowRun :: "key \<Rightarrow> goerr + AgentWorkflowRun"
  getWorkflow :: "key \<Rightarrow> goerr + AgentWorkflow"
  getAgent :: "key \<Rightarrow> goerr + Agent"
  getGateway :: "key \<Rightarrow> goerr + Gateway"
  getSkillCard :: "key \<Rightarrow> goerr + SkillCard"
  getSkillCollection :: "key \<Rightarrow> goerr + SkillCollection"
  getSecret :: "key \<Rightarrow> goerr + secret"
  getConfigMap :: "key \<Rightarrow> goerr + configmap"
  getSandbox :: "key \<Rightarrow> goerr + sandbox"
  getPod :: "key \<Rightarrow> goerr + pod"
  listSandboxes :: "string \<Rightarrow> (string \<times> string) list \<Rightarrow> goerr + sandbox list"
  listConfigMaps :: "string \<Rightarrow> (string \<times> string) list \<Rightarrow> goerr + configmap list"
  listSecrets :: "string \<Rightarrow> (string \<times> string) list \<Rightarrow> goerr + secret list"
  listPods :: "string \<Rightarrow> (string \<times> string) list \<Rightarrow> goerr + pod list"
  listRuns :: "string \<Rightarrow> (string \<times> string) list \<Rightarrow> goerr + AgentRun list"
  listRunsForAgent :: "string \<Rightarrow> string \<Rightarrow> goerr + AgentRun list"
  listRunsForWorkflow :: "string \<Rightarrow> string \<Rightarrow> goerr + AgentWorkflowRun list"
  createOrUpdate :: "key \<Rightarrow> (configmap \<Rightarrow> goerr + configmap) \<Rightarrow> goerr + configmap"
  getJob :: "key \<Rightarrow> goerr + job"
  listJobs :: "string \<Rightarrow> (string \<times> string) list \<Rightarrow> goerr + job list"
  listSkillCards :: "string \<Rightarrow> (string \<times> string) list \<Rightarrow> goerr + SkillCard list"
  listAgentsBy :: "string \<Rightarrow> string \<Rightarrow> string \<Rightarrow> goerr + Agent list"
  listWorkflowsForAgent :: "string \<Rightarrow> string \<Rightarrow> goerr + AgentWorkflow list"
  listCollectionsForCard :: "string \<Rightarrow> string \<Rightarrow> goerr + SkillCollection list"
  listGatewaysForSecret :: "string \<Rightarrow> string \<Rightarrow> goerr + Gateway list"
  updateAccount :: "key \<Rightarrow> (serviceaccount \<Rightarrow> goerr + serviceaccount) \<Rightarrow> goerr + serviceaccount"
  updateRole :: "key \<Rightarrow> (role \<Rightarrow> goerr + role) \<Rightarrow> goerr + role"
  updateBinding :: "key \<Rightarrow> (rolebinding \<Rightarrow> goerr + rolebinding) \<Rightarrow> goerr + rolebinding"
  updateCard :: "key \<Rightarrow> (SkillCard \<Rightarrow> goerr + SkillCard) \<Rightarrow> goerr + SkillCard"
  answer :: "call \<Rightarrow> goerr option"

record AgentRunReconciler =
  rr_client :: kclient
  rr_lib :: klib
  rr_skillLoaderImage :: string
  rr_defaultTTL :: "duration option"
  rr_defaultStartupDeadline :: "duration option"
  rr_apiReader :: "kreader option"
  rr_now :: instant
  rr_rand :: "nat \<Rightarrow> goerr + nat list"

record AgentWorkflowRunReconciler =
  wrr_client :: kclient
  wrr_lib :: klib
  wrr_defaultTTL :: "duration option"
  wrr_apiReader :: "kreader option"
  wrr_now :: instant

type_synonym 'a act = "(call, 'a) eact"

text \<open>A write whose error is returned.\<close>

definition sendE :: "kclient \<Rightarrow> call \<Rightarrow> unit act" where
  "sendE C c = ([c], case answer C c of None \<Rightarrow> Inr () | Some e \<Rightarrow> Inl e)"

text \<open>A create that takes \<open>AlreadyExists\<close> for success.\<close>

definition createE :: "kclient \<Rightarrow> call \<Rightarrow> unit act" where
  "createE C c = ([c], case answer C c of None \<Rightarrow> Inr ()
     | Some e \<Rightarrow> if isAlreadyExists e then Inr () else Inl e)"

text \<open>A deletion: an object that is already gone counts as deleted.\<close>

definition deleteE :: "kclient \<Rightarrow> string \<Rightarrow> objmeta \<Rightarrow> unit act" where
  "deleteE C kind m = ([DeleteObject kind m], case answer C (DeleteObject kind m) of None \<Rightarrow> Inr ()
     | Some e \<Rightarrow> if isNotFound e then Inr () else Inl e)"

definition deleteJobE :: "kclient \<Rightarrow> string \<Rightarrow> objmeta \<Rightarrow> unit act" where
  "deleteJobE C policy m = ([DeleteJob policy m], case answer C (DeleteJob policy m) of None \<Rightarrow> Inr ()
     | Some e \<Rightarrow> if isNotFound e then Inr () else Inl e)"

text \<open>A step whose error is only logged.\<close>

definition logE :: "unit act \<Rightarrow> unit act" where
  "logE m = (fst m, Inr ())"

text \<open>\<open>CreateOrUpdate\<close>: what was written is logged, a failure leaves nothing behind.\<close>

definition applyE :: "kclient \<Rightarrow> key \<Rightarrow> (configmap \<Rightarrow> goerr + configmap) \<Rightarrow> unit act" where
  "applyE C k f = (case createOrUpdate C k f of Inl e \<Rightarrow> ([], Inl e) | Inr cm \<Rightarrow> ([ApplyConfigMap cm], Inr ()))"

lemma fst_sendE [simp]: "fst (sendE C c) = [c]"
  by (simp add: sendE_def)

lemma fst_createE [simp]: "fst (createE C c) = [c]"
  by (simp add: createE_def)

lemma fst_deleteJobE [simp]: "fst (deleteJobE C policy m) = [DeleteJob policy m]"
  by (simp add: deleteJobE_def)

lemma logE_sel [simp]: "fst (logE m) = fst m" "snd (logE m) = Inr ()"
  by (simp_all add: logE_def)

lemma fst_deleteE [simp]: "fst (deleteE C kind m) = [DeleteObject kind m]"
  by (simp add: deleteE_def)

text \<open>Which calls change or delete what; the proofs name calls through these.\<close>

fun isPatchRun :: "call \<Rightarrow> bool" where
  "isPatchRun (PatchRunStatus a b) = True"
| "isPatchRun _ = False"

fun isDelete :: "call \<Rightarrow> bool" where
  "isDelete (DeleteObject k m) = True"
| "isDelete _ = False"

fun isCreateSandbox :: "call \<Rightarrow> bool" where
  "isCreateSandbox (CreateSandbox s) = True"
| "isCreateSandbox _ = False"

fun isCreateRun :: "call \<Rightarrow> bool" where
  "isCreateRun (CreateAgentRun r) = True"
| "isCreateRun _ = False"

text \<open>Calls logged by a composed step come from its parts.\<close>

lemma set_fst_bindE:
  "c \<in> set (fst (bindE m f)) \<longleftrightarrow>
     c \<in> set (fst m) \<or> (\<exists>x. snd m = Inr x \<and> c \<in> set (fst (f x)))"
  by (auto simp: bindE_def split: sum.splits)

lemma applyE_calls: "c \<in> set (fst (applyE C k f)) \<Longrightarrow> \<exists>cm. c = ApplyConfigMap cm"
  by (auto simp: applyE_def split: sum.splits)

section \<open>A quiet cluster\<close>

text \<open>The client and reconciler the witnesses start from: nothing exists, every write succeeds.\<close>

definition notFound :: "goerr + 'a" where
  "notFound = Inl \<lparr>ekind = NotFoundE, emsg = Lit ''not found''\<rparr>"

definition emptyCard :: "key \<Rightarrow> SkillCard" where
  "emptyCard k = \<lparr>card_meta = newMeta (snd k) (fst k) (\<lambda>_. None),
     card_spec = \<lparr>sc_image = [], sc_subPath = [], sc_source = [], sc_ref = [], sc_inline = [], sc_displayName = [],
       sc_version = [], sc_description = [], sc_type = SkillTypeUnset, sc_tags = []\<rparr>,
     card_status = \<lparr>scs_observedGeneration = 0, scs_resolvedImage = [], scs_deliveryMode = [], scs_conditions = []\<rparr>\<rparr>"

definition quietClient :: kclient where
  "quietClient = \<lparr>getRun = (\<lambda>_. notFound), getWorkflowRun = (\<lambda>_. notFound), getWorkflow = (\<lambda>_. notFound),
     getAgent = (\<lambda>_. notFound), getGateway = (\<lambda>_. notFound), getSkillCard = (\<lambda>_. notFound),
     getSkillCollection = (\<lambda>_. notFound), getSecret = (\<lambda>_. notFound), getConfigMap = (\<lambda>_. notFound),
     getSandbox = (\<lambda>_. notFound), getPod = (\<lambda>_. notFound),
     listSandboxes = (\<lambda>_ _. Inr []), listConfigMaps = (\<lambda>_ _. Inr []), listSecrets = (\<lambda>_ _. Inr []),
     listPods = (\<lambda>_ _. Inr []), listRuns = (\<lambda>_ _. Inr []), listRunsForAgent = (\<lambda>_ _. Inr []),
     listRunsForWorkflow = (\<lambda>_ _. Inr []),
     createOrUpdate = (\<lambda>k f. f \<lparr>cm_meta = newMeta (snd k) (fst k) (\<lambda>_. None), cm_data = [], cm_binary = []\<rparr>),
     getJob = (\<lambda>_. notFound), listJobs = (\<lambda>_ _. Inr []), listSkillCards = (\<lambda>_ _. Inr []),
     listAgentsBy = (\<lambda>_ _ _. Inr []), listWorkflowsForAgent = (\<lambda>_ _. Inr []),
     listCollectionsForCard = (\<lambda>_ _. Inr []), listGatewaysForSecret = (\<lambda>_ _. Inr []),
     updateAccount = (\<lambda>k f. f \<lparr>sa_meta = newMeta (snd k) (fst k) (\<lambda>_. None)\<rparr>),
     updateRole = (\<lambda>k f. f \<lparr>ro_meta = newMeta (snd k) (fst k) (\<lambda>_. None), ro_rules = []\<rparr>),
     updateBinding = (\<lambda>k f. f \<lparr>rb_meta = newMeta (snd k) (fst k) (\<lambda>_. None), rb_refKind = [],
       rb_refName = [], rb_subjects = []\<rparr>),
     updateCard = (\<lambda>k f. f (emptyCard k)),
     answer = (\<lambda>_. None)\<rparr>"

definition quietReconciler :: AgentRunReconciler where
  "quietReconciler = \<lparr>rr_client = quietClient, rr_lib = refK, rr_skillLoaderImage = ''loader'',
     rr_defaultTTL = None, rr_defaultStartupDeadline = None, rr_apiReader = None, rr_now = 0,
     rr_rand = (\<lambda>n. Inr (replicate n 7))\<rparr>"

lemma quiet_lib [simp]: "rr_lib quietReconciler = refK"
  by (simp add: quietReconciler_def)

definition quietWorkflowReconciler :: AgentWorkflowRunReconciler where
  "quietWorkflowReconciler = \<lparr>wrr_client = quietClient, wrr_lib = refK, wrr_defaultTTL = None,
     wrr_apiReader = None, wrr_now = 0\<rparr>"

text \<open>Objects the witnesses use.\<close>

definition sampleRun :: AgentRun where
  "sampleRun = \<lparr>run_meta = newMeta ''run'' ''ns'' (\<lambda>_. None),
     run_spec = \<lparr>rs_agentRef = ''coder'', rs_gateway = [], rs_params = [], rs_instructions = ''go'',
       rs_execution = None, rs_workflowParams = None, rs_env = [], rs_envFrom = [],
       rs_fileMounts = [], rs_gitConfig = None, rs_ttlSecondsAfterFinished = Some 60,
       rs_startupDeadlineSeconds = Some 30\<rparr>,
     run_status = \<lparr>st_phase = PhaseUnset, st_observedGeneration = 0, st_sandboxName = [],
       st_startTime = None, st_completionTime = None, st_duration = None, st_secretKeyRef = None,
       st_conditions = [], st_terminationData = None\<rparr>\<rparr>"

definition sampleAgent :: Agent where
  "sampleAgent = \<lparr>ag_meta = newMeta ''coder'' ''ns'' (\<lambda>_. None),
     ag_spec = \<lparr>as_image = ''img'', as_prompt = ''do it'', as_gateways = [''gw''],
       as_skillCards = [], as_skillCollections = [], as_params = [], as_gitConfig = None,
       as_execution = None\<rparr>,
     ag_status = \<lparr>ags_observedGeneration = 0,
       ags_conditions = [mkCond ''Ready'' CTrue 0 ''Ready'' (Lit [])]\<rparr>\<rparr>"

definition sampleGateway :: Gateway where
  "sampleGateway = \<lparr>gw_meta = newMeta ''gw'' ''ns'' (\<lambda>_. None),
     gw_spec = \<lparr>gs_provider = ''openai'', gs_endpoint = ''https://llm'',
       gs_credentialRef = \<lparr>cr_secretName = ''cred'', cr_key = ''token''\<rparr>,
       gs_model = \<lparr>gm_name = ''m'', gm_contextWindow = 0, gm_tier = []\<rparr>\<rparr>,
     gw_status = \<lparr>gws_observedGeneration = 0, gws_connectionVerified = True,
       gws_verifiedCredentialHash = [],
       gws_conditions = [mkCond ''Ready'' CTrue 0 ''Ready'' (Lit [])]\<rparr>\<rparr>"

definition sampleSandbox :: "condition list \<Rightarrow> sandbox" where
  "sampleSandbox cs = \<lparr>sb_meta = newMeta ''run'' ''ns'' (\<lambda>_. None), sb_podLabels = (\<lambda>_. None),
     sb_restartNever = True, sb_init = [], sb_containers = [], sb_volumes = [], sb_service = True,
     sb_created = 0, sb_conditions = cs\<rparr>"

definition samplePod :: "int32 \<Rightarrow> string \<Rightarrow> pod" where
  "samplePod code msg = \<lparr>pod_meta = newMeta ''run'' ''ns'' (\<lambda>_. None), pod_phase = PodFailed,
     pod_initStatuses = [],
     pod_statuses = [\<lparr>cs_name = ''agent'', cs_waiting = None, cs_running = None,
       cs_terminated = Some \<lparr>t_exitCode = code, t_message = msg\<rparr>\<rparr>],
     pod_conditions = [], pod_startTime = Some 0\<rparr>"

definition sampleReader :: kreader where
  "sampleReader = \<lparr>rdRun = (\<lambda>_. notFound), rdWorkflowRun = (\<lambda>_. notFound), rdSandbox = (\<lambda>_. notFound),
     rdPod = (\<lambda>_. Inr (samplePod 2 [])), rdPods = (\<lambda>_ _. Inr [])\<rparr>"

lemmas sample_defs = quietClient_def quietReconciler_def quietWorkflowReconciler_def sampleRun_def
  sampleAgent_def sampleGateway_def sampleSandbox_def samplePod_def sampleReader_def notFound_def
  newMeta_def

end
