(* ===== verification/Strconv.thy ===== *)
theory Strconv
  imports Prelude Complex_Main
begin

text \<open>
  What the repository uses of Go's \<open>strconv\<close>: \<open>FormatInt\<close>/\<open>ParseInt\<close> in base 10 at 64 bits,
  \<open>ParseBool\<close>/\<open>FormatBool\<close>, \<open>ParseFloat\<close> and the shortest \<open>FormatFloat\<close> at 64 bits, and the
  number encoding of \<open>encoding/json\<close>. A finite float is its sign and the exact rational it
  denotes.
\<close>

section \<open>Decimal integers\<close>

definition isDigit :: "char \<Rightarrow> bool" where
  "isDigit c = (48 \<le> (of_char c :: nat) \<and> (of_char c :: nat) \<le> 57)"

definition digitVal :: "char \<Rightarrow> int" where
  "digitVal c = of_char c - 48"

definition digitChar :: "int \<Rightarrow> char" where
  "digitChar n = char_of (48 + n)"

text \<open>The digits of a non-negative integer.\<close>

function showDec :: "int \<Rightarrow> string" where
  "showDec n = (if n < 10 then [digitChar n] else showDec (n div 10) @ [digitChar (n mod 10)])"
  by pat_completeness auto
termination
  by (relation "measure nat") auto

declare showDec.simps [simp del]

definition showNat :: "nat \<Rightarrow> string" where
  "showNat n = showDec (int n)"

definition readDec :: "string \<Rightarrow> int option" where
  "readDec s = (if s \<noteq> [] \<and> list_all isDigit s
     then Some (foldl (\<lambda>a c. 10 * a + digitVal c) 0 s) else None)"

definition formatInt :: "int \<Rightarrow> string" where
  "formatInt i = (if i < 0 then CHR ''-'' # showDec (- i) else showDec i)"

definition parseInt64 :: "string \<Rightarrow> int option" where
  "parseInt64 s = (case s of [] \<Rightarrow> None | c # r \<Rightarrow>
     (case readDec (if c = CHR ''-'' \<or> c = CHR ''+'' then r else s) of
        None \<Rightarrow> None
      | Some n \<Rightarrow>
          if c = CHR ''-'' then (if n > 2 ^ 63 then None else Some (- n))
          else (if n \<ge> 2 ^ 63 then None else Some n)))"

lemma of_char_digitChar: "0 \<le> n \<Longrightarrow> n < 10 \<Longrightarrow> (of_char (digitChar n) :: int) = 48 + n"
  by (simp add: digitChar_def)

lemma isDigit_digitChar [simp]: "0 \<le> n \<Longrightarrow> n < 10 \<Longrightarrow> isDigit (digitChar n)"
proof -
  assume n: "0 \<le> n" "n < 10"
  have "int (of_char (digitChar n)) = of_char (digitChar n)" by (rule of_nat_of_char)
  with n of_char_digitChar[of n] show ?thesis by (simp add: isDigit_def)
qed

lemma digitVal_digitChar [simp]: "0 \<le> n \<Longrightarrow> n < 10 \<Longrightarrow> digitVal (digitChar n) = n"
  by (simp add: digitVal_def of_char_digitChar)

lemma showDec_not_Nil [simp]: "showDec n \<noteq> []"
  by (subst showDec.simps) simp

lemma showDec_digits: "0 \<le> n \<Longrightarrow> list_all isDigit (showDec n)"
proof (induction n rule: showDec.induct)
  case (1 n)
  then show ?case by (cases "n < 10") (simp_all add: showDec.simps[of n])
qed

lemma foldl_showDec: "0 \<le> n \<Longrightarrow> foldl (\<lambda>a c. 10 * a + digitVal c) 0 (showDec n) = n"
proof (induction n rule: showDec.induct)
  case (1 n)
  then show ?case by (cases "n < 10") (simp_all add: showDec.simps[of n])
qed

lemma readDec_showDec: "0 \<le> n \<Longrightarrow> readDec (showDec n) = Some n"
  by (simp add: readDec_def showDec_digits foldl_showDec)

lemma showNat_inj: "showNat m = showNat n \<longleftrightarrow> m = n"
  unfolding showNat_def
  by (metis of_nat_0_le_iff of_nat_eq_iff option.inject readDec_showDec)

lemma not_isDigit_sign [simp]: "\<not> isDigit CHR ''-''" "\<not> isDigit CHR ''+''" "\<not> isDigit CHR ''/''"
  by (simp_all add: isDigit_def)

lemma showDec_Cons: "0 \<le> n \<Longrightarrow> showDec n = c # r \<Longrightarrow> isDigit c"
  using showDec_digits[of n] by simp

lemma parseInt64_formatInt:
  assumes "- (2 ^ 63) \<le> i" and "i < 2 ^ 63"
  shows "parseInt64 (formatInt i) = Some i"
proof (cases "i < 0")
  case True
  with assms show ?thesis by (auto simp: parseInt64_def formatInt_def readDec_showDec)
next
  case False
  obtain c r where cr: "showDec i = c # r" by (cases "showDec i") auto
  with False have "isDigit c" using showDec_Cons[of i c r] by simp
  then have "c \<noteq> CHR ''-''" "c \<noteq> CHR ''+''" by auto
  moreover have "readDec (c # r) = Some i"
    using False cr readDec_showDec[of i] by simp
  ultimately show ?thesis
    using False assms cr by (simp add: parseInt64_def formatInt_def)
qed

section \<open>Booleans\<close>

definition parseBool :: "string \<Rightarrow> bool option" where
  "parseBool s =
     (if s \<in> set [''1'', ''t'', ''T'', ''TRUE'', ''true'', ''True''] then Some True
      else if s \<in> set [''0'', ''f'', ''F'', ''FALSE'', ''false'', ''False''] then Some False
      else None)"

definition formatBool :: "bool \<Rightarrow> string" where
  "formatBool b = (if b then ''true'' else ''false'')"

lemma parseBool_formatBool [simp]: "parseBool (formatBool b) = Some b"
  by (simp add: parseBool_def formatBool_def)

section \<open>Floats\<close>

datatype gofloat = FNaN | FInf bool | FFin bool rat

text \<open>Rounding an exact non-negative rational to binary64, ties to even; \<open>None\<close> on overflow.\<close>

function bitlen :: "int \<Rightarrow> int" where
  "bitlen n = (if n \<le> 0 then 0 else 1 + bitlen (n div 2))"
  by pat_completeness auto
termination
  by (relation "measure nat") auto

declare bitlen.simps [simp del]

definition scale :: "int \<Rightarrow> int \<Rightarrow> rat" where
  "scale b e = (if e \<ge> 0 then of_int (b ^ nat e) else 1 / of_int (b ^ nat (- e)))"

definition roundHalfEven :: "rat \<Rightarrow> int" where
  "roundHalfEven x = (let f = \<lfloor>x\<rfloor>; d = x - of_int f in
     if d < 1 / 2 then f else if d > 1 / 2 then f + 1 else if even f then f else f + 1)"

definition log2floor :: "rat \<Rightarrow> int" where
  "log2floor x = (case quotient_of x of (p, q) \<Rightarrow>
     let e = bitlen p - bitlen q in
     if x < scale 2 e then e - 1 else e)"

definition round64 :: "rat \<Rightarrow> rat option" where
  "round64 x = (if x = 0 then Some 0 else
     let u = max (log2floor x - 52) (-1074);
         y = of_int (roundHalfEven (x / scale 2 u)) * scale 2 u in
     if y \<ge> scale 2 1024 then None else Some y)"

text \<open>
  The syntax \<open>ParseFloat\<close> reads: a sign, \<open>inf\<close>, \<open>infinity\<close> or \<open>nan\<close> in any case, or a decimal or
  hexadecimal mantissa with an optional exponent (a hexadecimal one is mandatory) and underscores
  between digits.
\<close>

definition lowerASCII :: "char \<Rightarrow> char" where
  "lowerASCII c = (let n = (of_char c :: nat) in if 65 \<le> n \<and> n \<le> 90 then char_of (n + 32) else c)"

definition hexVal :: "char \<Rightarrow> int option" where
  "hexVal c = (let n = (of_char c :: int) in
     if 48 \<le> n \<and> n \<le> 57 then Some (n - 48)
     else if 97 \<le> n \<and> n \<le> 102 then Some (n - 87)
     else if 65 \<le> n \<and> n \<le> 70 then Some (n - 55) else None)"

definition baseDigit :: "int \<Rightarrow> char \<Rightarrow> int option" where
  "baseDigit b c = (case hexVal c of None \<Rightarrow> None | Some v \<Rightarrow> if v < b then Some v else None)"

text \<open>Mantissa loop: (seen a dot, seen a digit, mantissa, digits after the dot, rest).\<close>

fun mantissa :: "int \<Rightarrow> bool \<Rightarrow> bool \<Rightarrow> int \<Rightarrow> int \<Rightarrow> string \<Rightarrow> bool \<times> int \<times> int \<times> string" where
  "mantissa b dot dig m k [] = (dig, m, k, [])"
| "mantissa b dot dig m k (c # s) =
     (if c = CHR ''_'' then mantissa b dot dig m k s
      else if c = CHR ''.'' \<and> \<not> dot then mantissa b True dig m k s
      else (case baseDigit b c of
              Some v \<Rightarrow> mantissa b dot True (b * m + v) (if dot then k + 1 else k) s
            | None \<Rightarrow> (dig, m, k, c # s)))"

fun expDigits :: "int \<Rightarrow> string \<Rightarrow> int \<times> string" where
  "expDigits e [] = (e, [])"
| "expDigits e (c # s) =
     (if c = CHR ''_'' then expDigits e s
      else if isDigit c then expDigits (if e < 10000 then 10 * e + digitVal c else e) s
      else (e, c # s))"

definition exponent :: "char \<Rightarrow> string \<Rightarrow> (int \<times> string) option option" where
  \<comment> \<open>\<open>None\<close>: no exponent; \<open>Some None\<close>: a malformed one\<close>
  "exponent ec s = (case s of [] \<Rightarrow> None | c # r \<Rightarrow>
     if lowerASCII c \<noteq> ec then None
     else (let neg = (r \<noteq> [] \<and> hd r = CHR ''-'');
               t = (if r \<noteq> [] \<and> (hd r = CHR ''-'' \<or> hd r = CHR ''+'') then tl r else r) in
       if t = [] \<or> \<not> isDigit (hd t) then Some None
       else (case expDigits 0 t of (e, u) \<Rightarrow> Some (Some (if neg then - e else e, u)))))"

text \<open>\<open>underscoreOK\<close>: the last character seen is \<open>^\<close> (start), \<open>0\<close>, \<open>_\<close> or \<open>!\<close> (none).\<close>

fun underscores :: "bool \<Rightarrow> char \<Rightarrow> string \<Rightarrow> bool" where
  "underscores hex saw [] = (saw \<noteq> CHR ''_'')"
| "underscores hex saw (c # s) =
     (if isDigit c \<or> hex \<and> hexVal c \<noteq> None then underscores hex CHR ''0'' s
      else if c = CHR ''_'' then saw = CHR ''0'' \<and> underscores hex CHR ''_'' s
      else saw \<noteq> CHR ''_'' \<and> underscores hex CHR ''!'' s)"

definition underscoreOK :: "string \<Rightarrow> bool" where
  "underscoreOK s0 = (let s = (if s0 \<noteq> [] \<and> (hd s0 = CHR ''-'' \<or> hd s0 = CHR ''+'') then tl s0 else s0);
       p = (length s \<ge> 2 \<and> s ! 0 = CHR ''0'' \<and> lowerASCII (s ! 1) \<in> set ''box'') in
     if p then underscores (lowerASCII (s ! 1) = CHR ''x'') CHR ''0'' (drop 2 s)
     else underscores False (CHR 0x5E) s)"

definition parseFloat64 :: "string \<Rightarrow> gofloat option" where
  "parseFloat64 s =
     (let neg = (s \<noteq> [] \<and> hd s = CHR ''-'');
          r = (if s \<noteq> [] \<and> (hd s = CHR ''-'' \<or> hd s = CHR ''+'') then tl s else s);
          low = map lowerASCII r in
      if low = ''inf'' \<or> low = ''infinity'' then Some (FInf neg)
      else if map lowerASCII s = ''nan'' then Some FNaN
      else (let hex = (length r > 2 \<and> r ! 0 = CHR ''0'' \<and> lowerASCII (r ! 1) = CHR ''x'');
                b = (if hex then 16 else 10);
                (dig, m, k, t) = mantissa b False False 0 0 (if hex then drop 2 r else r) in
        if \<not> dig then None
        else (case exponent (if hex then CHR ''p'' else CHR ''e'') t of
            Some None \<Rightarrow> None
          | None \<Rightarrow> if hex \<or> t \<noteq> [] \<or> CHR ''_'' \<in> set s \<and> \<not> underscoreOK s then None
                    else map_option (FFin neg) (round64 (of_int m * scale 10 (- k)))
          | Some (Some (e, u)) \<Rightarrow>
              if u \<noteq> [] \<or> CHR ''_'' \<in> set s \<and> \<not> underscoreOK s then None
              else map_option (FFin neg)
                (round64 (of_int m * (if hex then scale 2 (e - 4 * k) else scale 10 (e - k)))))))"

text \<open>
  The shortest decimal that rounds to the value, the closest one of that length: digits and the
  position of the decimal point (\<open>0.d1d2.. * 10 ^ dp\<close>).
\<close>

fun log10search :: "nat \<Rightarrow> int \<Rightarrow> rat \<Rightarrow> int" where
  "log10search 0 e x = e"
| "log10search (Suc n) e x =
     (if x < scale 10 e then log10search n (e - 1) x
      else if x \<ge> scale 10 (e + 1) then log10search n (e + 1) x else e)"

definition log10floor :: "rat \<Rightarrow> int" where
  "log10floor x = log10search 20 (log2floor x * 30103 div 100000) x"

definition candidate :: "rat \<Rightarrow> int \<Rightarrow> nat \<Rightarrow> int option" where
  "candidate v e n = (let k = e - int n + 1; q = v / scale 10 k; lo = \<lfloor>q\<rfloor>;
      near = roundHalfEven q; far = (if near = lo then lo + 1 else lo);
      ok = (\<lambda>d. d > 0 \<and> round64 (of_int d * scale 10 k) = Some v) in
     if ok near then Some near else if ok far then Some far else None)"

fun shortest :: "rat \<Rightarrow> int \<Rightarrow> nat list \<Rightarrow> string \<times> int" where
  "shortest v e [] = (''0'', 1)"
| "shortest v e (n # ns) = (case candidate v e n of
       Some d \<Rightarrow> (let s = showDec d in (s, e + 1 + (int (length s) - int n)))
     | None \<Rightarrow> shortest v e ns)"

definition shortDigits :: "rat \<Rightarrow> string \<times> int" where
  "shortDigits v = shortest v (log10floor v) [1 ..< 19]"

definition zeros :: "int \<Rightarrow> string" where
  "zeros n = replicate (nat n) CHR ''0''"

text \<open>\<^verbatim>\<open>FormatFloat(f, 'f', -1, 64)\<close>.\<close>

definition fixedForm :: "rat \<Rightarrow> string" where
  "fixedForm v = (if v = 0 then ''0'' else (case shortDigits v of (ds, dp) \<Rightarrow>
     let whole = (if dp \<le> 0 then ''0'' else take (nat dp) ds @ zeros (dp - int (length ds)));
         frac = (if dp \<le> 0 then zeros (- dp) @ ds else drop (nat dp) ds) in
     if frac = [] then whole else whole @ ''.'' @ frac))"

definition formatFloatF :: "gofloat \<Rightarrow> string" where
  "formatFloatF f = (case f of FNaN \<Rightarrow> ''NaN'' | FInf neg \<Rightarrow> (if neg then ''-Inf'' else ''+Inf'')
     | FFin neg v \<Rightarrow> (if neg then ''-'' else []) @ fixedForm v)"

text \<open>
  The encoding \<open>json.Marshal\<close> gives a float: the fixed form, or the exponent form below \<open>1e-6\<close>
  and from \<open>1e21\<close>; NaN and the infinities are unsupported values.
\<close>

definition expForm :: "rat \<Rightarrow> string" where
  "expForm v = (case shortDigits v of (ds, dp) \<Rightarrow>
     let e = dp - 1 in
     take 1 ds @ (if length ds > 1 then ''.'' @ drop 1 ds else []) @ ''e''
       @ (if e < 0 then ''-'' @ showDec (- e)
          else ''+'' @ (if e < 10 then ''0'' else []) @ showDec e))"

definition marshalFloat :: "gofloat \<Rightarrow> string option" where
  "marshalFloat f = (case f of FNaN \<Rightarrow> None | FInf _ \<Rightarrow> None
     | FFin neg v \<Rightarrow> Some ((if neg then ''-'' else []) @
         (if v \<noteq> 0 \<and> (v < 1 / 1000000 \<or> v \<ge> scale 10 21) then expForm v else fixedForm v)))"

end
