(* ===== verification/FileMounts.thy ===== *)
theory FileMounts
  imports ApiTypes Strconv "HOL-Library.Sublist"
begin

text \<open>
  User file mounts (src/internal/controller/agentrun_controller.go, \<open>validateFileMounts\<close> to
  \<open>fileMountVolumes\<close>): which mount paths a run may use, which projected paths it may select, and
  the volumes and mounts they become. \<open>path.Clean\<close> and \<open>path.IsAbs\<close> are modelled here. The
  abstract view of an absolute path is the list of its segments, and two mounts are apart when
  neither list is a prefix of the other.
\<close>

section \<open>Package path\<close>

definition isAbs :: "string \<Rightarrow> bool" where
  "isAbs p = hasPrefix p ''/''"

text \<open>One pass over the segments, with the output reversed: empty and \<open>.\<close> segments vanish, \<open>..\<close>
  removes the segment before it, is dropped at the root, or is kept in a relative path.\<close>

fun cleanSegs :: "bool \<Rightarrow> string list \<Rightarrow> string list \<Rightarrow> string list" where
  "cleanSegs rooted out [] = rev out"
| "cleanSegs rooted out (x # xs) =
     (if x = [] \<or> x = ''.'' then cleanSegs rooted out xs
      else if x = ''..'' then
        (if out \<noteq> [] \<and> hd out \<noteq> ''..'' then cleanSegs rooted (tl out) xs
         else if rooted then cleanSegs rooted out xs
         else cleanSegs rooted (x # out) xs)
      else cleanSegs rooted (x # out) xs)"

definition pathSegs :: "string \<Rightarrow> string list" where
  "pathSegs p = cleanSegs (isAbs p) [] (splitOn CHR ''/'' p)"

definition pathClean :: "string \<Rightarrow> string" where
  "pathClean p = (if isAbs p then CHR ''/'' # joinStr ''/'' (pathSegs p)
     else if pathSegs p = [] then ''.'' else joinStr ''/'' (pathSegs p))"

text \<open>Segments of a rooted clean path: none empty, none a dot, none holding a slash.\<close>

definition plainSeg :: "string \<Rightarrow> bool" where
  "plainSeg x \<longleftrightarrow> x \<noteq> [] \<and> x \<noteq> ''.'' \<and> x \<noteq> ''..'' \<and> CHR ''/'' \<notin> set x"

lemma cleanSegs_plain:
  "list_all plainSeg out \<Longrightarrow> \<forall>x \<in> set xs. CHR ''/'' \<notin> set x \<Longrightarrow>
   list_all plainSeg (cleanSegs True out xs)"
proof (induction "True" out xs rule: cleanSegs.induct)
  case (1 out)
  then show ?case by (simp add: list_all_iff)
next
  case (2 out x xs)
  then show ?case by (cases out) (auto simp: plainSeg_def)
qed

lemma pathSegs_plain: "isAbs p \<Longrightarrow> list_all plainSeg (pathSegs p)"
  unfolding pathSegs_def using splitOn_no_sep by (auto intro: cleanSegs_plain)

lemma cleanSegs_id: "list_all plainSeg xs \<Longrightarrow> cleanSegs r out xs = rev out @ xs"
  by (induction r out xs rule: cleanSegs.induct) (auto simp: plainSeg_def)

section \<open>Ancestors and collisions\<close>

definition isAncestorOrEqual :: "string \<Rightarrow> string \<Rightarrow> bool" where
  "isAncestorOrEqual ancestor p =
     (if ancestor = p \<or> ancestor = ''/'' then True else hasPrefix p (ancestor @ ''/''))"

definition pathsCollide :: "string \<Rightarrow> string \<Rightarrow> bool" where
  "pathsCollide a b = (isAncestorOrEqual a b \<or> isAncestorOrEqual b a)"

abbreviation rootedAt :: "string list \<Rightarrow> string" where
  "rootedAt xs \<equiv> CHR ''/'' # joinStr ''/'' xs"

lemma joinStr_append:
  "xs \<noteq> [] \<Longrightarrow> ys \<noteq> [] \<Longrightarrow> joinStr sep (xs @ ys) = joinStr sep xs @ sep @ joinStr sep ys"
  by (induction sep xs rule: joinStr.induct) (auto, cases ys, auto)

lemma joinStr_plain_eq:
  assumes "list_all plainSeg xs" and "list_all plainSeg ys"
  shows "joinStr ''/'' xs = joinStr ''/'' ys \<longleftrightarrow> xs = ys"
proof -
  have inv: "zs \<noteq> [] \<Longrightarrow> list_all plainSeg zs \<Longrightarrow> splitOn CHR ''/'' (joinStr ''/'' zs) = zs" for zs
    by (rule splitOn_joinStr) (auto simp: list_all_iff plainSeg_def)
  have nonempty: "zs \<noteq> [] \<Longrightarrow> list_all plainSeg zs \<Longrightarrow> joinStr ''/'' zs \<noteq> []" for zs
    by (cases zs rule: list.exhaust; cases "tl zs") (auto simp: plainSeg_def)
  show ?thesis using assms inv nonempty by (metis joinStr.simps(1))
qed

text \<open>Being an ancestor is being a prefix, segment by segment.\<close>

lemma isAncestorOrEqual_segs:
  assumes xs: "list_all plainSeg xs" and ys: "list_all plainSeg ys"
  shows "isAncestorOrEqual (rootedAt xs) (rootedAt ys) \<longleftrightarrow> prefix xs ys"
proof (cases "xs = []")
  case True
  then show ?thesis by (simp add: isAncestorOrEqual_def)
next
  case False
  show ?thesis
  proof
    assume "prefix xs ys"
    then obtain zs where zs: "ys = xs @ zs" by (auto simp: prefix_def)
    show "isAncestorOrEqual (rootedAt xs) (rootedAt ys)"
    proof (cases "zs = []")
      case True
      with zs show ?thesis by (simp add: isAncestorOrEqual_def)
    next
      case zne: False
      with zs False have "joinStr ''/'' ys = joinStr ''/'' xs @ ''/'' @ joinStr ''/'' zs"
        by (simp add: joinStr_append)
      then show ?thesis by (simp add: isAncestorOrEqual_def hasPrefix_iff)
    qed
  next
    assume anc: "isAncestorOrEqual (rootedAt xs) (rootedAt ys)"
    have ne: "rootedAt xs \<noteq> ''/''"
      using joinStr_plain_eq[OF xs, of "[]"] False by simp
    consider "rootedAt xs = rootedAt ys" | t where "joinStr ''/'' ys = joinStr ''/'' xs @ ''/'' @ t"
      using anc ne by (auto simp: isAncestorOrEqual_def hasPrefix_iff split: if_splits)
    then show "prefix xs ys"
    proof cases
      case 1
      then show ?thesis using joinStr_plain_eq[OF xs ys] by simp
    next
      case 2
      have "joinStr ''/'' (xs @ splitOn CHR ''/'' t) = joinStr ''/'' ys"
        using 2 False by (simp add: joinStr_append joinStr_splitOn)
      then have "splitOn CHR ''/'' (joinStr ''/'' ys) = xs @ splitOn CHR ''/'' t"
        using splitOn_joinStr[of "xs @ splitOn CHR ''/'' t" "CHR ''/''"] False xs
        by (auto simp: list_all_iff plainSeg_def dest: splitOn_no_sep)
      moreover have "ys \<noteq> []" using 2 by (cases ys) auto
      ultimately have "ys = xs @ splitOn CHR ''/'' t"
        using splitOn_joinStr[of ys "CHR ''/''"] ys by (auto simp: list_all_iff plainSeg_def)
      then show ?thesis by (simp add: prefix_def)
    qed
  qed
qed

text \<open>The abstract contract: two absolute paths are apart when neither contains the other.\<close>

definition apart :: "string \<Rightarrow> string \<Rightarrow> bool" where
  "apart p q \<longleftrightarrow> \<not> prefix (pathSegs p) (pathSegs q) \<and> \<not> prefix (pathSegs q) (pathSegs p)"

lemma pathsCollide_apart:
  assumes "isAbs p" and "isAbs q"
  shows "pathsCollide (pathClean p) (pathClean q) \<longleftrightarrow> \<not> apart p q"
  using isAncestorOrEqual_segs[OF pathSegs_plain pathSegs_plain] assms
  by (auto simp: pathsCollide_def pathClean_def apart_def)

lemma pathClean_abs: "isAbs p \<Longrightarrow> isAbs (pathClean p)"
  by (simp add: pathClean_def isAbs_def hasPrefix_def)

lemma pathSegs_clean: "isAbs p \<Longrightarrow> pathSegs (pathClean p) = pathSegs p"
proof -
  assume p: "isAbs p"
  then have plain: "list_all plainSeg (pathSegs p)" by (rule pathSegs_plain)
  have "splitOn CHR ''/'' (pathClean p) =
      [] # (if pathSegs p = [] then [[]] else pathSegs p)"
    using p plain splitOn_joinStr[of "pathSegs p" "CHR ''/''"]
    by (auto simp: pathClean_def list_all_iff plainSeg_def)
  with p plain show ?thesis
    using cleanSegs_id[OF plain] by (simp add: pathSegs_def[of "pathClean p"] pathClean_abs)
qed

lemma pathClean_idem: "isAbs p \<Longrightarrow> pathClean (pathClean p) = pathClean p"
  using pathSegs_clean[of p] pathClean_abs[of p] by (simp add: pathClean_def[of "pathClean p"])
    (simp add: pathClean_def)

section \<open>Validation of the mounts of a run\<close>

text \<open>\<open>path.Dir(ParamsFilePath)\<close> and the other mount points the controller manages.\<close>

definition skillsDir :: string where "skillsDir = ''/opt/skills''"
definition skillsSrcDir :: string where "skillsSrcDir = ''/opt/skills-src''"
definition paramsDir :: string where "paramsDir = ''/run/konveyor''"
definition workspaceDir :: string where "workspaceDir = ''/workspace''"
definition tmpDir :: string where "tmpDir = ''/tmp''"

definition reservedMountPaths :: "string list" where
  "reservedMountPaths = [skillsDir, skillsSrcDir, paramsDir, workspaceDir, tmpDir,
     ''/var/run/secrets/kubernetes.io/serviceaccount'']"

lemmas reserved_defs = reservedMountPaths_def skillsDir_def skillsSrcDir_def paramsDir_def
  workspaceDir_def tmpDir_def

definition validateFileMountRelativePath :: "string \<Rightarrow> goerr option" where
  "validateFileMountRelativePath p =
     (if isAbs p then Some (errorf ''must be relative'' [])
      else if ''..'' \<in> set (splitOn CHR ''/'' p) then Some (errorf (''must not contain '..'' @ [CHR 0x27]) [])
      else None)"

fun validateItems :: "string \<Rightarrow> keytopath list \<Rightarrow> goerr option" where
  "validateItems mp [] = None"
| "validateItems mp (i # is) =
     (if kp_path i = [] then Some (errorf ''file mount at %q: items path must not be empty'' [Lit mp])
      else (case validateFileMountRelativePath (kp_path i) of
          Some e \<Rightarrow> Some (wrapf ''file mount at %q: items path %q %w'' [Lit mp, Lit (kp_path i)] e)
        | None \<Rightarrow> validateItems mp is))"

text \<open>The loop of \<open>validateFileMounts\<close>, with the clean paths seen so far.\<close>

fun validateMounts :: "string list \<Rightarrow> FileMount list \<Rightarrow> goerr option" where
  "validateMounts seen [] = None"
| "validateMounts seen (m # ms) =
     (if (fm_secretName m = []) = (fm_configMapName m = []) then
        Some (errorf ''file mount at %q must set exactly one of secretName or configMapName''
          [Lit (fm_mountPath m)])
      else if \<not> isAbs (fm_mountPath m) then
        Some (errorf ''file mount path %q must be absolute'' [Lit (fm_mountPath m)])
      else (let clean = pathClean (fm_mountPath m) in
        case find (pathsCollide clean) seen of
          Some previous \<Rightarrow> Some (errorf ''file mount path %q collides with file mount %q''
            [Lit (fm_mountPath m), Lit previous])
        | None \<Rightarrow> (case validateItems (fm_mountPath m) (fm_items m) of
            Some e \<Rightarrow> Some e
          | None \<Rightarrow> (case find (pathsCollide clean) reservedMountPaths of
              Some reserved \<Rightarrow> Some (errorf ''file mount path %q collides with reserved mount %q''
                [Lit (fm_mountPath m), Lit reserved])
            | None \<Rightarrow> validateMounts (seen @ [clean]) ms))))"

definition validateFileMounts :: "FileMount list \<Rightarrow> goerr option" where
  "validateFileMounts ms = validateMounts [] ms"

text \<open>What a mount list has to satisfy, stated on segments.\<close>

definition oneSource :: "FileMount \<Rightarrow> bool" where
  "oneSource m \<longleftrightarrow> (fm_secretName m = []) \<noteq> (fm_configMapName m = [])"

definition goodItem :: "keytopath \<Rightarrow> bool" where
  "goodItem i \<longleftrightarrow> kp_path i \<noteq> [] \<and> \<not> isAbs (kp_path i) \<and> ''..'' \<notin> set (splitOn CHR ''/'' (kp_path i))"

definition goodMount :: "FileMount \<Rightarrow> bool" where
  "goodMount m \<longleftrightarrow> oneSource m \<and> isAbs (fm_mountPath m) \<and> list_all goodItem (fm_items m)
     \<and> list_all (apart (fm_mountPath m)) reservedMountPaths"

definition mountsApart :: "FileMount list \<Rightarrow> bool" where
  "mountsApart ms \<longleftrightarrow> sorted_wrt (\<lambda>m n. apart (fm_mountPath n) (fm_mountPath m)) ms"

lemma validateItems_None: "validateItems mp is = None \<longleftrightarrow> list_all goodItem is"
  by (induction "is") (auto simp: goodItem_def validateFileMountRelativePath_def split: option.splits)

lemma isAbs_reserved: "\<forall>r \<in> set reservedMountPaths. isAbs r \<and> pathClean r = r"
  by (simp add: reserved_defs isAbs_def hasPrefix_def pathClean_def pathSegs_def)

lemma find_collide_None:
  assumes "isAbs p" and "\<forall>r \<in> set rs. isAbs r \<and> pathClean r = r"
  shows "find (pathsCollide (pathClean p)) rs = None \<longleftrightarrow> list_all (apart p) rs"
  using assms pathsCollide_apart[of p] by (auto simp: find_None_iff list_all_iff) metis+

lemma validateMounts_None:
  "\<forall>r \<in> set seen. isAbs r \<and> pathClean r = r \<Longrightarrow>
   validateMounts seen ms = None \<longleftrightarrow>
     list_all goodMount ms \<and> mountsApart ms \<and> (\<forall>m \<in> set ms. \<forall>r \<in> set seen. apart (fm_mountPath m) r)"
proof (induction ms arbitrary: seen)
  case Nil
  then show ?case by (simp add: mountsApart_def)
next
  case (Cons m ms)
  let ?p = "fm_mountPath m"
  have seen': "\<forall>r \<in> set (seen @ [pathClean ?p]). isAbs r \<and> pathClean r = r" if "isAbs ?p"
    using that Cons.prems by (simp add: pathClean_abs pathClean_idem)
  have clean_apart: "apart q (pathClean ?p) = apart q ?p" if "isAbs ?p" for q
    using that by (simp add: apart_def pathSegs_clean)
  show ?case
  proof (cases "oneSource m \<and> isAbs ?p")
    case False
    then show ?thesis by (auto simp: oneSource_def goodMount_def)
  next
    case True
    then have abs: "isAbs ?p" by simp
    have "validateMounts seen (m # ms) = None \<longleftrightarrow>
        list_all (apart ?p) seen \<and> list_all goodItem (fm_items m)
        \<and> list_all (apart ?p) reservedMountPaths \<and> validateMounts (seen @ [pathClean ?p]) ms = None"
      unfolding find_collide_None[OF abs Cons.prems, symmetric]
        find_collide_None[OF abs isAbs_reserved, symmetric] validateItems_None[of ?p, symmetric]
      using True by (simp add: Let_def oneSource_def split: option.split)
    with True show ?thesis
      unfolding Cons.IH[OF seen'[OF abs]]
      by (auto simp: goodMount_def mountsApart_def list_all_iff clean_apart[OF abs])
  qed
qed

lemma validateFileMounts_None:
  "validateFileMounts ms = None \<longleftrightarrow> list_all goodMount ms \<and> mountsApart ms"
  by (simp add: validateFileMounts_def validateMounts_None)

text \<open>C30: \<open>validateFileMounts\<close> accepts a list exactly when every mount names one source, has an
  absolute path that lies neither on, under nor above a controller-managed mount, selects relative
  item paths without traversal, and no two mount paths contain one another.\<close>

theorem validateFileMounts_correct:
  "validateFileMounts ms = None \<longleftrightarrow> list_all goodMount ms \<and> mountsApart ms"
  by (rule validateFileMounts_None)

section \<open>Projection\<close>

text \<open>\<open>validateFileMountProjection\<close>: the source's keys as a list.\<close>

definition projectedPaths :: "FileMount \<Rightarrow> string list \<Rightarrow> goerr + string list" where
  "projectedPaths m keys =
     (if fm_items m = [] then Inr keys
      else (case find (\<lambda>i. kp_key i \<notin> set keys) (fm_items m) of
          Some i \<Rightarrow> Inl (errorf ''items key %q not found'' [Lit (kp_key i)])
        | None \<Rightarrow> Inr (map (\<lambda>i. pathClean (kp_path i)) (fm_items m))))"

definition validateFileMountProjection :: "FileMount \<Rightarrow> string list \<Rightarrow> goerr option" where
  "validateFileMountProjection m keys = (case projectedPaths m keys of
     Inl e \<Rightarrow> Some e
   | Inr projected \<Rightarrow>
       if fm_subPath m = [] then None
       else (case validateFileMountRelativePath (fm_subPath m) of
           Some e \<Rightarrow> Some (wrapf ''subPath %q %w'' [Lit (fm_subPath m)] e)
         | None \<Rightarrow>
             (let subPath = pathClean (fm_subPath m) in
              if subPath = ''.'' then None
              else if list_ex (isAncestorOrEqual subPath) projected then None
              else Some (errorf ''subPath %q not found in projected files'' [Lit (fm_subPath m)]))))"

text \<open>
  \<open>validateFileMountSources\<close>: an error is a lookup to be retried, a message a terminal
  validation failure. \<open>getSecret\<close> and \<open>getConfigMap\<close> are the client's reads.
\<close>

fun validateSources ::
  "(key \<Rightarrow> goerr + secret) \<Rightarrow> (key \<Rightarrow> goerr + configmap) \<Rightarrow> string \<Rightarrow> FileMount list \<Rightarrow>
   goerr + gofmt option" where
  "validateSources getSecret getConfigMap ns [] = Inr None"
| "validateSources getSecret getConfigMap ns (m # ms) =
     (let isSecret = (fm_secretName m \<noteq> []);
          kind = (if isSecret then ''Secret'' else ''ConfigMap'');
          name = (if isSecret then fm_secretName m else fm_configMapName m);
          keys = (if isSecret then map_sum id (\<lambda>s. map fst (sec_data s)) (getSecret (ns, name))
                  else map_sum id (\<lambda>c. map fst (cm_data c) @ map fst (cm_binary c))
                    (getConfigMap (ns, name))) in
      case keys of
        Inl e \<Rightarrow> Inl (wrapf ''file mount at %q from %s %q in namespace %q: %w''
          [Lit (fm_mountPath m), Lit kind, Lit name, Lit ns] e)
      | Inr ks \<Rightarrow> (case validateFileMountProjection m ks of
            Some e \<Rightarrow> Inr (Some (Fmt ''file mount at %q from %s %q: %v''
              [Lit (fm_mountPath m), Lit kind, Lit name, emsg e]))
          | None \<Rightarrow> validateSources getSecret getConfigMap ns ms))"

section \<open>Volumes\<close>

definition fileMountVolume :: "nat \<Rightarrow> FileMount \<Rightarrow> volume" where
  "fileMountVolume i m = \<lparr>v_name = ''filemount-'' @ showNat i,
     v_source = (if fm_secretName m \<noteq> [] then VSecret (fm_secretName m) (fm_items m)
                 else VConfigMap (fm_configMapName m) (fm_items m))\<rparr>"

definition fileMountMount :: "nat \<Rightarrow> FileMount \<Rightarrow> volmount" where
  "fileMountMount i m = \<lparr>vm_name = ''filemount-'' @ showNat i, vm_path = pathClean (fm_mountPath m),
     vm_subPath = fm_subPath m, vm_readOnly = True\<rparr>"

definition fileMountVolumes :: "FileMount list \<Rightarrow> volume list \<times> volmount list" where
  "fileMountVolumes ms =
     (map (\<lambda>(i, m). fileMountVolume i m) (enumerate 0 ms),
      map (\<lambda>(i, m). fileMountMount i m) (enumerate 0 ms))"

lemma fileMount_volume_names_distinct: "distinct (map v_name (fst (fileMountVolumes ms)))"
proof -
  have "map v_name (fst (fileMountVolumes ms)) = map (\<lambda>i. ''filemount-'' @ showNat i) [0 ..< length ms]"
    by (rule nth_equalityI)
      (simp_all add: fileMountVolumes_def fileMountVolume_def enumerate_eq_zip split_def)
  then show ?thesis by (simp add: distinct_map inj_on_def showNat_inj)
qed

lemma fileMount_mounts:
  "\<forall>vm \<in> set (snd (fileMountVolumes ms)). vm_readOnly vm
     \<and> (\<exists>m \<in> set ms. vm_path vm = pathClean (fm_mountPath m))"
  by (auto simp: fileMountVolumes_def fileMountMount_def in_set_enumerate_eq)

end
