(* ===== verification/Names.thy ===== *)
theory Names
  imports Strconv
begin

text \<open>
  Names of Kubernetes objects derived from other names: \<open>sanitizeVolumeName\<close> of
  src/internal/controller/agentrun_controller.go, which names pod volumes, per-run ConfigMaps and
  the AgentRuns of workflow stages, with what it uses of the standard library: UTF-8 decoding as
  Go does it, lower-casing restricted to what the following character filter can tell apart,
  SHA-256 and hexadecimal encoding.
\<close>

unbundle bit_operations_syntax

section \<open>Runes\<close>

definition byte :: "char \<Rightarrow> nat" where
  "byte c = of_char c"

definition contByte :: "nat \<Rightarrow> nat \<Rightarrow> char \<Rightarrow> bool" where
  "contByte lo hi c = (lo \<le> byte c \<and> byte c \<le> hi)"

text \<open>Bytes of the rune at the head of the string, 0 for an invalid sequence.\<close>

fun runeWidth :: "string \<Rightarrow> nat" where
  "runeWidth [] = 0"
| "runeWidth (c # s) = (let b = byte c;
     c1 = (\<lambda>lo hi. s \<noteq> [] \<and> contByte lo hi (s ! 0));
     c2 = (length s > 1 \<and> contByte 128 191 (s ! 1));
     c3 = (length s > 2 \<and> contByte 128 191 (s ! 2)) in
     if b < 128 then 1
     else if 194 \<le> b \<and> b \<le> 223 then (if c1 128 191 then 2 else 0)
     else if b = 224 then (if c1 160 191 \<and> c2 then 3 else 0)
     else if b = 237 then (if c1 128 159 \<and> c2 then 3 else 0)
     else if 225 \<le> b \<and> b \<le> 239 then (if c1 128 191 \<and> c2 then 3 else 0)
     else if b = 240 then (if c1 144 191 \<and> c2 \<and> c3 then 4 else 0)
     else if 241 \<le> b \<and> b \<le> 243 then (if c1 128 191 \<and> c2 \<and> c3 then 4 else 0)
     else if b = 244 then (if c1 128 143 \<and> c2 \<and> c3 then 4 else 0)
     else 0)"

definition replacementRune :: string where
  "replacementRune = [char_of (239 :: nat), char_of (191 :: nat), char_of (189 :: nat)]"

text \<open>\<open>[]rune(s)\<close>, each rune kept as its UTF-8 encoding.\<close>

function runes :: "string \<Rightarrow> string list" where
  "runes [] = []"
| "runes (c # s) = (let k = runeWidth (c # s) in
     if k = 0 then replacementRune # runes s else take k (c # s) # runes (drop k (c # s)))"
  by pat_completeness auto
termination
  by (relation "measure length") auto

text \<open>The bytes of the string rune by rune, as the functions of \<open>strings\<close> walk it: a byte that starts no
  rune stands alone and is kept.\<close>

function runeBytes :: "string \<Rightarrow> string list" where
  "runeBytes [] = []"
| "runeBytes (c # s) = (let k = max 1 (runeWidth (c # s)) in take k (c # s) # runeBytes (drop k (c # s)))"
  by pat_completeness auto
termination
  by (relation "measure length") auto

declare runeWidth.simps [simp del] runes.simps(2) [simp del] runeBytes.simps(2) [simp del]

lemma concat_runeBytes: "concat (runeBytes s) = s"
  by (induction s rule: runeBytes.induct) (simp_all add: runeBytes.simps(2) Let_def)

text \<open>\<open>unicode.IsSpace\<close> on an encoded rune.\<close>

definition isSpaceRune :: "string \<Rightarrow> bool" where
  "isSpaceRune r = (let bs = map byte r in
     bs \<in> set [[9], [10], [11], [12], [13], [32], [194, 133], [194, 160], [225, 154, 128],
       [226, 128, 168], [226, 128, 169], [226, 128, 175], [226, 129, 159], [227, 128, 128]]
     \<or> (length bs = 3 \<and> take 2 bs = [226, 128] \<and> 128 \<le> bs ! 2 \<and> bs ! 2 \<le> 138))"

definition trimSpace :: "string \<Rightarrow> string" where
  "trimSpace s = (let rs = dropWhile isSpaceRune (runeBytes s) in
     concat (rev (dropWhile isSpaceRune (rev rs))))"

text \<open>\<open>strings.Fields\<close>.\<close>

fun fieldsFrom :: "string \<Rightarrow> string list \<Rightarrow> string list" where
  "fieldsFrom cur [] = (if cur = [] then [] else [cur])"
| "fieldsFrom cur (r # rs) =
     (if isSpaceRune r then (if cur = [] then fieldsFrom [] rs else cur # fieldsFrom [] rs) else fieldsFrom (cur @ r) rs)"

definition fieldsOf :: "string \<Rightarrow> string list" where
  "fieldsOf s = fieldsFrom [] (runeBytes s)"

text \<open>\<open>strings.ToLower\<close>. Of the runes beyond ASCII only the Kelvin sign and the dotted capital I have an ASCII
  lower case; the others stay beyond ASCII whatever their lower case is and are kept here, which is enough for
  comparing with ASCII words.\<close>

definition lowerRune :: "string \<Rightarrow> string" where
  "lowerRune r = (if map byte r = [226, 132, 170] then ''k'' else if map byte r = [196, 176] then ''i''
     else (case r of [c] \<Rightarrow> [lowerASCII c] | _ \<Rightarrow> r))"

definition toLower :: "string \<Rightarrow> string" where
  "toLower s = concat (map lowerRune (runes s))"

text \<open>The bytes of a multi-byte rune are all above the ASCII range.\<close>

definition runeShape :: "char \<Rightarrow> string \<Rightarrow> nat \<Rightarrow> bool" where
  "runeShape c s k \<longleftrightarrow> k = 0 \<or> k = 1 \<or> 128 \<le> byte c \<and> k - 1 \<le> length s \<and> (\<forall>i < k - 1. 128 \<le> byte (s ! i))"

lemma runeShape_if: "(b \<Longrightarrow> runeShape c s x) \<Longrightarrow> (\<not> b \<Longrightarrow> runeShape c s y) \<Longrightarrow> runeShape c s (if b then x else y)"
  by simp

lemma runeShape_short: "runeShape c s 0" "runeShape c s 1"
  by (simp_all add: runeShape_def)

lemma runeShape_long:
  "128 \<le> byte c \<Longrightarrow> s \<noteq> [] \<Longrightarrow> 128 \<le> byte (s ! 0) \<Longrightarrow> runeShape c s 2"
  "128 \<le> byte c \<Longrightarrow> length s > 1 \<Longrightarrow> 128 \<le> byte (s ! 0) \<Longrightarrow> 128 \<le> byte (s ! 1) \<Longrightarrow> runeShape c s 3"
  "128 \<le> byte c \<Longrightarrow> length s > 2 \<Longrightarrow> 128 \<le> byte (s ! 0) \<Longrightarrow> 128 \<le> byte (s ! 1) \<Longrightarrow> 128 \<le> byte (s ! 2) \<Longrightarrow> runeShape c s 4"
  by (auto simp: runeShape_def Suc_le_eq numeral_eq_Suc less_Suc_eq)

lemma runeWidth_shape: "runeShape c s (runeWidth (c # s))"
  unfolding runeWidth.simps Let_def contByte_def
  by (intro runeShape_if runeShape_short runeShape_long) (simp_all only: conj_assoc, auto)

lemma take_high:
  "n \<le> length s \<Longrightarrow> (\<And>i. i < n \<Longrightarrow> 128 \<le> byte (s ! i)) \<Longrightarrow> d \<in> set (take n s) \<Longrightarrow> 128 \<le> byte d"
  by (auto simp: in_set_conv_nth)

lemma rune_tail_high:
  assumes "d \<in> set (take (runeWidth (c # s)) (c # s))" "byte d < 128"
  shows "runeWidth (c # s) = 1"
proof (rule ccontr)
  assume one: "runeWidth (c # s) \<noteq> 1"
  have "0 < runeWidth (c # s)" using assms(1) by (cases "runeWidth (c # s)") simp_all
  with one runeWidth_shape[of c s] have high: "runeWidth (c # s) - 1 \<le> length s" "128 \<le> byte c"
    "i < runeWidth (c # s) - 1 \<Longrightarrow> 128 \<le> byte (s ! i)" for i
    by (simp_all add: runeShape_def)
  have "d = c \<or> d \<in> set (take (runeWidth (c # s) - 1) s)"
    using assms(1) by (cases "runeWidth (c # s)") simp_all
  then have "128 \<le> byte d" using take_high high by blast
  with assms(2) show False by simp
qed

lemma runeBytes_ascii_mem: "d \<in> set s \<Longrightarrow> byte d < 128 \<Longrightarrow> [d] \<in> set (runeBytes s)"
proof (induction s rule: runeBytes.induct)
  case (2 c s)
  define k where "k = max 1 (runeWidth (c # s))"
  have r: "runeBytes (c # s) = take k (c # s) # runeBytes (drop k (c # s))" by (simp add: runeBytes.simps(2) Let_def k_def)
  have "d \<in> set (take k (c # s)) \<or> d \<in> set (drop k (c # s))"
    using 2(2) by (metis Un_iff append_take_drop_id set_append)
  then show ?case
  proof
    assume d: "d \<in> set (take k (c # s))"
    then have "k = 1" using rune_tail_high[of d c s] 2(3) by (cases "runeWidth (c # s) = 0") (auto simp: k_def max_def split: if_splits)
    with d r show ?thesis by simp
  next
    assume "d \<in> set (drop k (c # s))"
    then show ?thesis using 2(1)[OF k_def] 2(3) r by simp
  qed
qed simp

text \<open>A character that is no space survives trimming.\<close>

lemma trimSpace_keeps:
  assumes "d \<in> set s" and "byte d < 128" and n: "\<not> isSpaceRune [d]"
  shows "d \<in> set (trimSpace s)"
proof -
  have m: "[d] \<in> set (runeBytes s)" using assms runeBytes_ascii_mem by blast
  define rs where "rs = dropWhile isSpaceRune (runeBytes s)"
  have "[d] \<in> set rs" using m n unfolding rs_def by (metis set_takeWhileD takeWhile_dropWhile_id Un_iff set_append)
  then have "[d] \<in> set (rev (dropWhile isSpaceRune (rev rs)))"
    using n by (metis set_rev set_takeWhileD takeWhile_dropWhile_id Un_iff set_append)
  then show ?thesis by (force simp: trimSpace_def Let_def rs_def)
qed

lemma runes_ascii: "\<forall>c \<in> set s. byte c < 128 \<Longrightarrow> runes s = map (\<lambda>c. [c]) s"
proof (induction s)
  case (Cons c s)
  then have "runeWidth (c # s) = 1" by (simp add: runeWidth.simps)
  with Cons show ?case by (simp add: runes.simps(2))
qed simp

section \<open>SHA-256\<close>

text \<open>The 64 round constants, in decimal.\<close>

definition shaK :: "32 word list" where
  "shaK = [1116352408, 1899447441, 3049323471, 3921009573, 961987163, 1508970993, 2453635748, 2870763221,
    3624381080, 310598401, 607225278, 1426881987, 1925078388, 2162078206, 2614888103, 3248222580,
    3835390401, 4022224774, 264347078, 604807628, 770255983, 1249150122, 1555081692, 1996064986,
    2554220882, 2821834349, 2952996808, 3210313671, 3336571891, 3584528711, 113926993, 338241895,
    666307205, 773529912, 1294757372, 1396182291, 1695183700, 1986661051, 2177026350, 2456956037,
    2730485921, 2820302411, 3259730800, 3345764771, 3516065817, 3600352804, 4094571909, 275423344,
    430227734, 506948616, 659060556, 883997877, 958139571, 1322822218, 1537002063, 1747873779,
    1955562222, 2024104815, 2227730452, 2361852424, 2428436474, 2756734187, 3204031479, 3329325298]"

type_synonym shastate =
  "32 word \<times> 32 word \<times> 32 word \<times> 32 word \<times> 32 word \<times> 32 word \<times> 32 word \<times> 32 word"

definition shaInit :: shastate where
  "shaInit = (1779033703, 3144134277, 1013904242, 2773480762, 1359893119, 2600822924, 528734635,
    1541459225)"

definition beWord :: "nat list \<Rightarrow> 32 word" where
  "beWord bs = foldl (\<lambda>w b. push_bit 8 w + of_nat b) 0 bs"

definition wordBytes :: "32 word \<Rightarrow> nat list" where
  "wordBytes w = map (\<lambda>k. unat (drop_bit k w AND 255)) [24, 16, 8, 0]"

fun chunks :: "nat \<Rightarrow> nat \<Rightarrow> 'a list \<Rightarrow> 'a list list" where
  "chunks 0 k xs = []"
| "chunks (Suc n) k xs = (if xs = [] then [] else take k xs # chunks n k (drop k xs))"

definition shaPad :: "nat list \<Rightarrow> nat list" where
  "shaPad bs = (let n = length bs; z = (119 - n mod 64) mod 64; bits = 8 * n in
     bs @ [128] @ replicate z 0 @ map (\<lambda>k. bits div 256 ^ k mod 256) [7, 6, 5, 4, 3, 2, 1, 0])"

definition shaSchedule :: "32 word list \<Rightarrow> 32 word list" where
  "shaSchedule ws = foldl (\<lambda>w t.
     let x = w ! (t - 15); y = w ! (t - 2);
         s0 = word_rotr 7 x XOR word_rotr 18 x XOR drop_bit 3 x;
         s1 = word_rotr 17 y XOR word_rotr 19 y XOR drop_bit 10 y in
     w @ [w ! (t - 16) + s0 + w ! (t - 7) + s1]) ws [16 ..< 64]"

fun shaRound :: "shastate \<Rightarrow> 32 word \<times> 32 word \<Rightarrow> shastate" where
  "shaRound (a, b, c, d, e, f, g, h) (k, w) =
     (let s1 = word_rotr 6 e XOR word_rotr 11 e XOR word_rotr 25 e;
          ch = (e AND f) XOR (NOT e AND g);
          t1 = h + s1 + ch + k + w;
          s0 = word_rotr 2 a XOR word_rotr 13 a XOR word_rotr 22 a;
          maj = (a AND b) XOR (a AND c) XOR (b AND c);
          t2 = s0 + maj in
      (t1 + t2, a, b, c, d + t1, e, f, g))"

definition shaBlock :: "shastate \<Rightarrow> nat list \<Rightarrow> shastate" where
  "shaBlock st block = (let ws = shaSchedule (map beWord (chunks 16 4 block));
      (a, b, c, d, e, f, g, h) = st;
      (a', b', c', d', e', f', g', h') = foldl shaRound st (zip shaK ws) in
     (a + a', b + b', c + c', d + d', e + e', f + f', g + g', h + h'))"

definition sha256Sum :: "string \<Rightarrow> nat list" where
  "sha256Sum s = (let bs = shaPad (map byte s);
      (a, b, c, d, e, f, g, h) = foldl shaBlock shaInit (chunks (length bs) 64 bs) in
     concat (map wordBytes [a, b, c, d, e, f, g, h]))"

definition sha256Prefix :: "string \<Rightarrow> nat list" where
  "sha256Prefix s = take 4 (sha256Sum s)"

lemma wordBytes_props: "length (wordBytes w) = 4" "\<forall>b \<in> set (wordBytes w). b < 256"
proof -
  have "unat (x AND (255 :: 32 word)) < 256" for x :: "32 word"
  proof -
    have "unat (x AND 255) \<le> unat (255 :: 32 word)"
      by (rule word_and_le1 [THEN word_le_nat_alt [THEN iffD1]])
    then show ?thesis by simp
  qed
  then show "\<forall>b \<in> set (wordBytes w). b < 256" by (simp add: wordBytes_def)
qed (simp add: wordBytes_def)

lemma sha256Prefix_props: "length (sha256Prefix s) = 4" "\<forall>b \<in> set (sha256Prefix s). b < 256"
  unfolding sha256Prefix_def sha256Sum_def
  by (auto simp: Let_def wordBytes_props dest!: in_set_takeD split: prod.splits)

section \<open>Hexadecimal encoding\<close>

definition hexDigit :: "nat \<Rightarrow> char" where
  "hexDigit n = ''0123456789abcdef'' ! n"

definition hexEncode :: "nat list \<Rightarrow> string" where
  "hexEncode bs = concat (map (\<lambda>b. [hexDigit (b div 16), hexDigit (b mod 16)]) bs)"

lemma length_hexEncode [simp]: "length (hexEncode bs) = 2 * length bs"
  by (induction bs) (auto simp: hexEncode_def)

lemma hexDigit_mem: "n < 16 \<Longrightarrow> hexDigit n \<in> set ''0123456789abcdef''"
  unfolding hexDigit_def by (rule nth_mem) simp

lemma hexDigit_inj: "m < 16 \<Longrightarrow> n < 16 \<Longrightarrow> hexDigit m = hexDigit n \<longleftrightarrow> m = n"
  unfolding hexDigit_def by (subst nth_eq_iff_index_eq) (auto)

lemma set_hexEncode: "\<forall>b \<in> set bs. b < 256 \<Longrightarrow> set (hexEncode bs) \<subseteq> set ''0123456789abcdef''"
proof (induction bs)
  case (Cons b bs)
  then have "b div 16 < 16" "b mod 16 < 16" by auto
  with Cons hexDigit_mem[of "b div 16"] hexDigit_mem[of "b mod 16"] show ?case
    by (simp add: hexEncode_def)
qed (simp add: hexEncode_def)

lemma hexEncode_inj:
  "length bs = length cs \<Longrightarrow> \<forall>b \<in> set bs. b < 256 \<Longrightarrow> \<forall>c \<in> set cs. c < 256 \<Longrightarrow>
   hexEncode bs = hexEncode cs \<Longrightarrow> bs = cs"
proof (induction bs cs rule: list_induct2)
  case (Cons b bs c cs)
  then have "b div 16 = c div 16" "b mod 16 = c mod 16"
    by (auto simp: hexEncode_def hexDigit_inj)
  then have "b = c" by (metis div_mult_mod_eq)
  with Cons show ?case by (simp add: hexEncode_def)
qed simp

section \<open>sanitizeVolumeName\<close>

text \<open>The complement of \<open>volumeNameRegex\<close>.\<close>

definition volumeChar :: "char \<Rightarrow> bool" where
  "volumeChar c = (isDigit c \<or> (97 \<le> byte c \<and> byte c \<le> 122) \<or> c = CHR ''-'')"

text \<open>
  \<open>volumeNameRegex.ReplaceAllString(strings.ToLower(name), "-")\<close>, rune by rune. Only two runes
  beyond ASCII have an ASCII lower case (the Kelvin sign and the dotted capital I); every other
  one is replaced whatever its lower case is.
\<close>

definition sanitizeRune :: "string \<Rightarrow> char" where
  "sanitizeRune r =
     (if map byte r = [226, 132, 170] then CHR ''k''
      else if map byte r = [196, 176] then CHR ''i''
      else (case r of [c] \<Rightarrow> (let d = lowerASCII c in if volumeChar d then d else CHR ''-'')
            | _ \<Rightarrow> CHR ''-''))"

definition sanitizedBase :: "string \<Rightarrow> string" where
  "sanitizedBase name = trimBoth CHR ''-'' (map sanitizeRune (runes name))"

definition sanitizeVolumeName :: "string \<Rightarrow> string" where
  "sanitizeVolumeName name =
     (let sanitized = sanitizedBase name in
      if sanitized = name \<and> length name \<le> 63 then name
      else
        (let suffix = CHR ''-'' # hexEncode (sha256Prefix name);
             sanitized = (if sanitized = [] then ''x'' else sanitized);
             sanitized = (if length sanitized + length suffix > 63
                then trimRight CHR ''-'' (take (63 - length suffix) sanitized) else sanitized) in
         sanitized @ suffix))"

text \<open>The names built with it: a stage's AgentRun, an inline skill's ConfigMap.\<close>

definition stageAgentRunName :: "string \<Rightarrow> string \<Rightarrow> string" where
  "stageAgentRunName pbRunName stageName = sanitizeVolumeName (pbRunName @ ''-'' @ stageName)"

definition inlineSkillConfigMapName :: "string \<Rightarrow> string \<Rightarrow> string" where
  "inlineSkillConfigMapName runName skillCardName =
     sanitizeVolumeName (runName @ ''-skill-'' @ skillCardName)"

text \<open>What Kubernetes accepts as a label value or a volume name (RFC 1123).\<close>

definition validVolumeName :: "string \<Rightarrow> bool" where
  "validVolumeName n \<longleftrightarrow> n \<noteq> [] \<and> length n \<le> 63 \<and> list_all volumeChar n
     \<and> hd n \<noteq> CHR ''-'' \<and> last n \<noteq> CHR ''-''"

lemma volumeChar_ascii: "volumeChar c \<Longrightarrow> byte c < 128"
  by (auto simp: volumeChar_def isDigit_def byte_def)

lemma lowerASCII_volumeChar: "volumeChar c \<Longrightarrow> lowerASCII c = c"
  by (auto simp: volumeChar_def lowerASCII_def isDigit_def byte_def Let_def)

lemma volumeChar_sanitizeRune: "volumeChar (sanitizeRune r)"
  unfolding sanitizeRune_def
  by (auto simp: Let_def volumeChar_def byte_def isDigit_def split: list.splits)

lemma sanitizeRune_ascii: "volumeChar c \<Longrightarrow> sanitizeRune [c] = c"
  by (auto simp: sanitizeRune_def lowerASCII_volumeChar Let_def)

lemma volumeChar_hex: "c \<in> set ''0123456789abcdef'' \<Longrightarrow> volumeChar c \<and> c \<noteq> CHR ''-''"
  by (auto simp: volumeChar_def isDigit_def byte_def)

lemma sanitizedBase_chars: "list_all volumeChar (sanitizedBase n)"
proof -
  have "set (sanitizedBase n) \<subseteq> set (map sanitizeRune (runes n))"
    unfolding sanitizedBase_def by (rule set_trimBoth)
  then show ?thesis by (force simp: list_all_iff volumeChar_sanitizeRune)
qed

lemma sanitizedBase_fix:
  assumes "list_all volumeChar n" and "n = [] \<or> hd n \<noteq> CHR ''-'' \<and> last n \<noteq> CHR ''-''"
  shows "sanitizedBase n = n"
proof -
  have "runes n = map (\<lambda>c. [c]) n"
    using assms(1) by (intro runes_ascii) (auto simp: list_all_iff volumeChar_ascii)
  then have "map sanitizeRune (runes n) = n"
    using assms(1) by (auto simp: list_all_iff sanitizeRune_ascii intro!: map_idI)
  with assms(2) show ?thesis by (simp add: sanitizedBase_def trimBoth_fix)
qed

text \<open>The suffix a rewritten name carries.\<close>

definition hashSuffix :: "string \<Rightarrow> string" where
  "hashSuffix n = CHR ''-'' # hexEncode (sha256Prefix n)"

lemma length_hashSuffix [simp]: "length (hashSuffix n) = 9"
  by (simp add: hashSuffix_def sha256Prefix_props)

lemma hashSuffix_chars: "list_all volumeChar (hashSuffix n)" "last (hashSuffix n) \<noteq> CHR ''-''"
proof -
  have hex: "set (hexEncode (sha256Prefix n)) \<subseteq> set ''0123456789abcdef''"
    by (rule set_hexEncode) (rule sha256Prefix_props)
  show "list_all volumeChar (hashSuffix n)"
    unfolding list_all_iff
  proof
    fix c assume "c \<in> set (hashSuffix n)"
    then consider "c = CHR ''-''" | "c \<in> set (hexEncode (sha256Prefix n))"
      by (auto simp: hashSuffix_def)
    then show "volumeChar c"
    proof cases
      case 2
      with volumeChar_hex[OF subsetD[OF hex]] show ?thesis by simp
    qed (simp add: volumeChar_def)
  qed
  have ne: "hexEncode (sha256Prefix n) \<noteq> []"
    using length_hexEncode[of "sha256Prefix n"] sha256Prefix_props(1)[of n] by force
  then have "last (hashSuffix n) \<in> set (hexEncode (sha256Prefix n))"
    by (simp add: hashSuffix_def)
  with volumeChar_hex[OF subsetD[OF hex]] show "last (hashSuffix n) \<noteq> CHR ''-''" by simp
qed

lemma hashSuffix_inj: "hashSuffix a = hashSuffix b \<Longrightarrow> sha256Prefix a = sha256Prefix b"
  unfolding hashSuffix_def
  by (rule hexEncode_inj) (auto simp: sha256Prefix_props)

lemma sanitizeVolumeName_unchanged:
  "sanitizedBase n = n \<Longrightarrow> length n \<le> 63 \<Longrightarrow> sanitizeVolumeName n = n"
  by (simp add: sanitizeVolumeName_def)

text \<open>The shape of a rewritten name: a valid head and the hash suffix.\<close>

lemma sanitizeVolumeName_rewritten:
  assumes "\<not> (sanitizedBase n = n \<and> length n \<le> 63)"
  obtains p where "sanitizeVolumeName n = p @ hashSuffix n" and "p \<noteq> []" and "length p \<le> 54"
    and "list_all volumeChar p" and "hd p \<noteq> CHR ''-''"
proof -
  define b where "b = (if sanitizedBase n = [] then ''x'' else sanitizedBase n)"
  define p where "p = (if length b + 9 > 63 then trimRight CHR ''-'' (take 54 b) else b)"
  have sb: "sanitizedBase n \<noteq> [] \<Longrightarrow> hd (sanitizedBase n) \<noteq> CHR ''-''"
    by (simp add: sanitizedBase_def hd_trimBoth)
  have b: "b \<noteq> []" "list_all volumeChar b" "hd b \<noteq> CHR ''-''"
    using sanitizedBase_chars[of n] sb by (auto simp: b_def volumeChar_def byte_def)
  have "trimRight CHR ''-'' (take 54 b) \<noteq> []"
    using b(1,3) by (cases b) (auto simp: trimRight_def)
  then have p: "p \<noteq> []" "hd p \<noteq> CHR ''-''"
    using b(1,3) by (auto simp: p_def hd_trimRight)
  have "set p \<subseteq> set b"
    using set_trimRight[of "CHR ''-''" "take 54 b"] set_take_subset[of 54 b] by (auto simp: p_def)
  with b(2) have "list_all volumeChar p" by (auto simp: list_all_iff)
  moreover have "length p \<le> 54"
    using length_trimRight[of "CHR ''-''" "take 54 b"] by (auto simp: p_def)
  moreover have "sanitizeVolumeName n = p @ hashSuffix n"
    using assms sha256Prefix_props(1)[of n] unfolding sanitizeVolumeName_def
    by (auto simp: b_def p_def hashSuffix_def Let_def)
  ultimately show ?thesis using that p by blast
qed

lemma sanitized_validName:
  assumes "n \<noteq> []"
  shows "validVolumeName (sanitizeVolumeName n)"
proof (cases "sanitizedBase n = n \<and> length n \<le> 63")
  case True
  then have "n = trimBoth CHR ''-'' (map sanitizeRune (runes n))" by (simp add: sanitizedBase_def)
  with assms have "hd n \<noteq> CHR ''-''" "last n \<noteq> CHR ''-''"
    using hd_trimBoth last_trimBoth by metis+
  with True assms sanitizedBase_chars[of n] show ?thesis
    by (simp add: validVolumeName_def sanitizeVolumeName_unchanged)
next
  case False
  obtain p where "sanitizeVolumeName n = p @ hashSuffix n" "p \<noteq> []" "length p \<le> 54"
    "list_all volumeChar p" "hd p \<noteq> CHR ''-''"
    using sanitizeVolumeName_rewritten[OF False] by blast
  moreover have "hashSuffix n \<noteq> []" by (simp add: hashSuffix_def)
  ultimately show ?thesis
    using hashSuffix_chars[of n] by (simp add: validVolumeName_def)
qed

lemma sanitizeVolumeName_fixes_valid: "validVolumeName n \<Longrightarrow> sanitizeVolumeName n = n"
  by (simp add: validVolumeName_def sanitizeVolumeName_unchanged sanitizedBase_fix)

text \<open>Whatever non-empty name it is given, \<open>sanitizeVolumeName\<close> returns a valid RFC 1123 name:
  1 to 63 lower-case letters, digits and hyphens, with no hyphen at either end.\<close>

theorem sanitizeVolumeName_valid:
  "n \<noteq> [] \<Longrightarrow> validVolumeName (sanitizeVolumeName n)"
  by (rule sanitized_validName)

theorem sanitizeVolumeName_valid_witness:
  "''my.card'' \<noteq> [] \<and> validVolumeName (sanitizeVolumeName ''my.card'')"
  using sanitizeVolumeName_valid[of "''my.card''"] by simp

text \<open>A rewritten name never meets another rewritten name unless the first four bytes of their
  SHA-256 digests agree, and a name that is returned untouched never meets another such name.\<close>

theorem sanitizeVolumeName_collision:
  assumes "sanitizeVolumeName a = sanitizeVolumeName b"
    and "sanitizeVolumeName a = a \<longleftrightarrow> sanitizeVolumeName b = b"
  shows "a = b \<or> sha256Prefix a = sha256Prefix b"
proof (cases "sanitizeVolumeName a = a")
  case True
  with assms show ?thesis by simp
next
  case False
  with assms(2) have "\<not> (sanitizedBase a = a \<and> length a \<le> 63)"
    "\<not> (sanitizedBase b = b \<and> length b \<le> 63)"
    by (auto simp: sanitizeVolumeName_unchanged)
  then obtain p q where "sanitizeVolumeName a = p @ hashSuffix a"
    "sanitizeVolumeName b = q @ hashSuffix b"
    by (metis sanitizeVolumeName_rewritten)
  with assms(1) have "p @ hashSuffix a = q @ hashSuffix b" by simp
  moreover have "length (hashSuffix a) = length (hashSuffix b)" by simp
  ultimately have "hashSuffix a = hashSuffix b" by (metis append_eq_append_conv)
  then show ?thesis by (intro disjI2 hashSuffix_inj)
qed

theorem sanitizeVolumeName_collision_witness:
  "(''a-b'' = ''a-b'' \<or> sha256Prefix ''a-b'' = sha256Prefix ''a-b'')
    \<and> sanitizeVolumeName ''a-b'' = sanitizeVolumeName ''a-b''"
  using sanitizeVolumeName_collision[of "''a-b''" "''a-b''"] by simp

text \<open>\<open>sanitizeVolumeName\<close> is idempotent, so it is not injective on all names: a name it
  rewrites and the name it rewrites it to have the same image.\<close>

theorem sanitizeVolumeName_not_injective:
  "sanitizeVolumeName (sanitizeVolumeName n) = sanitizeVolumeName n
    \<and> (\<exists>a b. a \<noteq> b \<and> sanitizeVolumeName a = sanitizeVolumeName b)"
proof -
  have idem: "sanitizeVolumeName (sanitizeVolumeName n) = sanitizeVolumeName n" for n
  proof (cases "n = []")
    case True
    then show ?thesis by (simp add: sanitizeVolumeName_def sanitizedBase_def trimBoth_def
          trimLeft_def trimRight_def)
  next
    case False
    then show ?thesis by (intro sanitizeVolumeName_fixes_valid sanitized_validName)
  qed
  have v: "validVolumeName (sanitizeVolumeName ''a.b'')" by (rule sanitized_validName) simp
  have "\<not> validVolumeName ''a.b''"
    by (simp add: validVolumeName_def volumeChar_def isDigit_def byte_def)
  then have "sanitizeVolumeName ''a.b'' \<noteq> ''a.b''"
  proof (rule contrapos_nn)
    assume eq: "sanitizeVolumeName ''a.b'' = ''a.b''"
    from v show "validVolumeName ''a.b''" unfolding eq .
  qed
  with idem[of "''a.b''"] have "\<exists>a b. a \<noteq> b \<and> sanitizeVolumeName a = sanitizeVolumeName b"
    by blast
  with idem[of n] show ?thesis by (rule conjI)
qed

end
