(* ===== verification/Json.thy ===== *)
theory Json
  imports Names "HOL-Library.AList"
begin

text \<open>
  What the repository uses of \<open>encoding/json\<close>: reading a document (\<open>Unmarshal\<close> of a whole text
  and \<open>Decoder.Decode\<close> of the first value of a stream) and \<open>Marshal\<close>. Reading is a lexer over
  bytes and a push-down automaton over tokens, both structural recursions, so no fuel is needed.
  A number is kept as its literal. The nesting limit of the Go decoder (10000) is not modelled.
\<close>

datatype json =
    JNull
  | JBool bool
  | JNum string
  | JStr string
  | JArr "json list"
  | JObj "(string \<times> json) list"

datatype token =
    TLBrace | TRBrace | TLBrack | TRBrack | TColon | TComma
  | TVal json \<comment> \<open>a literal or a number\<close>
  | TStr string
  | TBad

section \<open>Lexer\<close>

text \<open>A JSON number: the grammar as a four-part scan.\<close>

definition scanDigits :: "string \<Rightarrow> string \<times> string" where
  "scanDigits s = (takeWhile isDigit s, dropWhile isDigit s)"

definition isJsonNumber :: "string \<Rightarrow> bool" where
  "isJsonNumber s0 = (let s = (if s0 \<noteq> [] \<and> hd s0 = CHR ''-'' then tl s0 else s0);
      (ip, r) = scanDigits s;
      frac = (\<lambda>t. if t \<noteq> [] \<and> hd t = CHR ''.'' then
                (case scanDigits (tl t) of (d, u) \<Rightarrow> if d = [] then None else Some u) else Some t);
      expo = (\<lambda>t. if t \<noteq> [] \<and> (hd t = CHR ''e'' \<or> hd t = CHR ''E'') then
                (let u = tl t; v = (if u \<noteq> [] \<and> (hd u = CHR ''+'' \<or> hd u = CHR ''-'') then tl u else u)
                 in case scanDigits v of (d, w) \<Rightarrow> if d = [] then None else Some w) else Some t) in
     ip \<noteq> [] \<and> (hd ip = CHR ''0'' \<longrightarrow> length ip = 1)
     \<and> (case frac r of None \<Rightarrow> False | Some t \<Rightarrow> expo t = Some []))"

definition wordToken :: "string \<Rightarrow> token" where
  "wordToken w = (if w = ''null'' then TVal JNull else if w = ''true'' then TVal (JBool True)
     else if w = ''false'' then TVal (JBool False)
     else if isJsonNumber w then TVal (JNum w) else TBad)"

text \<open>Contents of a string literal: raw bytes and \<open>\u\<close> units, decoded at the closing quote.\<close>

datatype unit16 = Raw char | U16 nat

definition utf8 :: "nat \<Rightarrow> string" where
  "utf8 n = map char_of
     (if n < 128 then [n]
      else if n < 2048 then [192 + n div 64, 128 + n mod 64]
      else if n < 65536 then [224 + n div 4096, 128 + n div 64 mod 64, 128 + n mod 64]
      else [240 + n div 262144, 128 + n div 4096 mod 64, 128 + n div 64 mod 64, 128 + n mod 64])"

definition isHighSurr :: "nat \<Rightarrow> bool" where "isHighSurr n = (55296 \<le> n \<and> n < 56320)"
definition isLowSurr :: "nat \<Rightarrow> bool" where "isLowSurr n = (56320 \<le> n \<and> n < 57344)"

fun decodeUnits :: "string \<Rightarrow> unit16 list \<Rightarrow> string" where
  \<comment> \<open>the first argument is the run of raw bytes read so far, reversed\<close>
  "decodeUnits raw [] = concat (runes (rev raw))"
| "decodeUnits raw (Raw c # us) = decodeUnits (c # raw) us"
| "decodeUnits raw (U16 h # U16 l # us) = concat (runes (rev raw)) @
     (if isHighSurr h \<and> isLowSurr l
      then utf8 (65536 + (h - 55296) * 1024 + (l - 56320)) @ decodeUnits [] us
      else (if isHighSurr h \<or> isLowSurr h then replacementRune else utf8 h) @ decodeUnits [] (U16 l # us))"
| "decodeUnits raw (U16 h # us) = concat (runes (rev raw)) @
     (if isHighSurr h \<or> isLowSurr h then replacementRune else utf8 h) @ decodeUnits [] us"

datatype lexstate =
    LTop
  | LWord string \<comment> \<open>reversed\<close>
  | LStr "unit16 list" \<comment> \<open>reversed\<close>
  | LEsc "unit16 list"
  | LHex "unit16 list" nat nat \<comment> \<open>digits still to read, value so far\<close>

definition isSpaceByte :: "char \<Rightarrow> bool" where
  "isSpaceByte c = (byte c \<in> {32, 9, 10, 13})"

definition isWordByte :: "char \<Rightarrow> bool" where
  "isWordByte c = (isDigit c \<or> c \<in> set ''+-.'' \<or> (97 \<le> byte c \<and> byte c \<le> 122) \<or> (65 \<le> byte c \<and> byte c \<le> 90))"

definition escapeOf :: "char \<Rightarrow> char option" where
  "escapeOf c = map_of (zip (CHR 0x22 # CHR 0x5C # ''/bfnrt'')
     (map char_of [34 :: nat, 92, 47, 8, 12, 10, 13, 9])) c"

definition punct :: "char \<Rightarrow> token option" where
  "punct c = map_of (zip ''{}[]:,'' [TLBrace, TRBrace, TLBrack, TRBrack, TColon, TComma]) c"

text \<open>One byte: the tokens it completes and the next state; \<open>None\<close> ends the scan in an error.\<close>

definition lexTop :: "char \<Rightarrow> (token list \<times> lexstate) option" where
  "lexTop c = (if isSpaceByte c then Some ([], LTop)
     else if isWordByte c then Some ([], LWord [c])
     else if byte c = 34 then Some ([], LStr [])
     else (case punct c of Some t \<Rightarrow> Some ([t], LTop) | None \<Rightarrow> None))"

fun lexStep :: "lexstate \<Rightarrow> char \<Rightarrow> (token list \<times> lexstate) option" where
  "lexStep LTop c = lexTop c"
| "lexStep (LWord w) c = (if isWordByte c then Some ([], LWord (c # w))
     else map_option (\<lambda>(ts, st). (wordToken (rev w) # ts, st)) (lexTop c))"
| "lexStep (LStr us) c = (if byte c = 34 then Some ([TStr (decodeUnits [] (rev us))], LTop)
     else if byte c = 92 then Some ([], LEsc us)
     else if byte c < 32 then None
     else Some ([], LStr (Raw c # us)))"
| "lexStep (LEsc us) c = (if c = CHR ''u'' then Some ([], LHex us 4 0)
     else map_option (\<lambda>d. ([], LStr (U16 (byte d) # us))) (escapeOf c))"
| "lexStep (LHex us n v) c = (case hexVal c of None \<Rightarrow> None
     | Some d \<Rightarrow> Some ([], if n \<le> 1 then LStr (U16 (16 * v + nat d) # us) else LHex us (n - 1) (16 * v + nat d)))"

fun lex :: "lexstate \<Rightarrow> string \<Rightarrow> token list" where
  "lex LTop [] = []"
| "lex (LWord w) [] = [wordToken (rev w)]"
| "lex _ [] = [TBad]"
| "lex st (c # s) = (case lexStep st c of None \<Rightarrow> [TBad] | Some (ts, st') \<Rightarrow> ts @ lex st' s)"

section \<open>Parser\<close>

datatype frame = FArr "json list" | FObj "(string \<times> json) list" | FMem "(string \<times> json) list" string

datatype pmode = WantValue | WantValueOrClose | WantKeyOrClose | WantKey | WantColon | AfterValue
  | Done json

type_synonym pstate = "pmode \<times> frame list"

fun complete :: "json \<Rightarrow> frame list \<Rightarrow> pstate option" where
  "complete v [] = Some (Done v, [])"
| "complete v (FArr vs # st) = Some (AfterValue, FArr (v # vs) # st)"
| "complete v (FMem ms k # st) = Some (AfterValue, FObj ((k, v) # ms) # st)"
| "complete v (FObj ms # st) = None"

fun value_step :: "token \<Rightarrow> frame list \<Rightarrow> pstate option" where
  "value_step (TVal v) st = complete v st"
| "value_step (TStr s) st = complete (JStr s) st"
| "value_step TLBrack st = Some (WantValueOrClose, FArr [] # st)"
| "value_step TLBrace st = Some (WantKeyOrClose, FObj [] # st)"
| "value_step _ st = None"

fun parse_step :: "pstate \<Rightarrow> token \<Rightarrow> pstate option" where
  "parse_step (WantValue, st) t = value_step t st"
| "parse_step (WantValueOrClose, FArr vs # st) TRBrack = complete (JArr (rev vs)) st"
| "parse_step (WantValueOrClose, st) t = value_step t st"
| "parse_step (WantKeyOrClose, FObj ms # st) TRBrace = complete (JObj (rev ms)) st"
| "parse_step (WantKeyOrClose, FObj ms # st) (TStr k) = Some (WantColon, FMem ms k # st)"
| "parse_step (WantKey, FObj ms # st) (TStr k) = Some (WantColon, FMem ms k # st)"
| "parse_step (WantColon, st) TColon = Some (WantValue, st)"
| "parse_step (AfterValue, FArr vs # st) TComma = Some (WantValue, FArr vs # st)"
| "parse_step (AfterValue, FObj ms # st) TComma = Some (WantKey, FObj ms # st)"
| "parse_step (AfterValue, FArr vs # st) TRBrack = complete (JArr (rev vs)) st"
| "parse_step (AfterValue, FObj ms # st) TRBrace = complete (JObj (rev ms)) st"
| "parse_step _ _ = None"

text \<open>The whole text is one value.\<close>

fun parse_all :: "pstate \<Rightarrow> token list \<Rightarrow> json option" where
  "parse_all (Done v, st) [] = Some v"
| "parse_all (m, st) [] = None"
| "parse_all ps (t # ts) = (case parse_step ps t of None \<Rightarrow> None | Some ps' \<Rightarrow> parse_all ps' ts)"

text \<open>The first value of the text; what follows is not looked at.\<close>

fun parse_first :: "pstate \<Rightarrow> token list \<Rightarrow> json option" where
  "parse_first (Done v, st) ts = Some v"
| "parse_first (m, st) [] = None"
| "parse_first ps (t # ts) = (case parse_step ps t of None \<Rightarrow> None | Some ps' \<Rightarrow> parse_first ps' ts)"

definition jsonParse :: "string \<Rightarrow> json option" where
  "jsonParse s = parse_all (WantValue, []) (lex LTop s)"

definition jsonDecodeFirst :: "string \<Rightarrow> json option" where
  "jsonDecodeFirst s = parse_first (WantValue, []) (lex LTop s)"

section \<open>Printer\<close>

text \<open>\<open>Marshal\<close> with HTML escaping. Members are printed in the order of the list; a Go map sorts
  them first (\<open>mapJson\<close>).\<close>

definition hex4 :: "nat \<Rightarrow> string" where
  "hex4 n = map hexDigit [n div 4096 mod 16, n div 256 mod 16, n div 16 mod 16, n mod 16]"

text \<open>A rune, or a byte that belongs to none: that one is written as the escaped replacement character.\<close>

definition escapeRune :: "string \<Rightarrow> string" where
  "escapeRune r = (let bs = map byte r in
     if bs = [34] then [CHR 0x5C, CHR 0x22] else if bs = [92] then [CHR 0x5C, CHR 0x5C]
     else if bs = [8] then CHR 0x5C # ''b'' else if bs = [12] then CHR 0x5C # ''f''
     else if bs = [10] then CHR 0x5C # ''n'' else if bs = [13] then CHR 0x5C # ''r''
     else if bs = [9] then CHR 0x5C # ''t''
     else (case bs of [b] \<Rightarrow> if b < 32 \<or> b \<in> {38, 60, 62} then CHR 0x5C # ''u'' @ hex4 b
              else if 128 \<le> b then CHR 0x5C # ''ufffd'' else r
       | _ \<Rightarrow> if bs = [226, 128, 168] then CHR 0x5C # ''u2028''
              else if bs = [226, 128, 169] then CHR 0x5C # ''u2029'' else r))"

definition quote :: "string \<Rightarrow> string" where
  "quote s = CHR 0x22 # concat (map escapeRune (runeBytes s)) @ [CHR 0x22]"

fun marshal :: "json \<Rightarrow> string" where
  "marshal JNull = ''null''"
| "marshal (JBool b) = formatBool b"
| "marshal (JNum n) = n"
| "marshal (JStr s) = quote s"
| "marshal (JArr vs) = ''['' @ joinStr '','' (map marshal vs) @ '']''"
| "marshal (JObj ms) = ''{'' @ joinStr '','' (map (\<lambda>(k, v). quote k @ '':'' @ marshal v) ms) @ ''}''"

definition mapJson :: "(string \<times> json) list \<Rightarrow> json" where
  "mapJson ms = JObj (sort_key fst ms)"

text \<open>\<open>MarshalIndent\<close> with an empty prefix and two spaces per level.\<close>

definition newline :: "nat \<Rightarrow> string" where
  "newline n = CHR 0x0A # replicate (2 * n) CHR '' ''"

fun marshalIndent :: "nat \<Rightarrow> json \<Rightarrow> string" where
  "marshalIndent n (JArr vs) = (if vs = [] then ''[]'' else ''['' @ newline (Suc n)
     @ joinStr (CHR '','' # newline (Suc n)) (map (marshalIndent (Suc n)) vs) @ newline n @ '']'')"
| "marshalIndent n (JObj ms) = (if ms = [] then ''{}'' else ''{'' @ newline (Suc n)
     @ joinStr (CHR '','' # newline (Suc n))
         (map (\<lambda>(k, v). quote k @ '': '' @ marshalIndent (Suc n) v) ms) @ newline n @ ''}'')"
| "marshalIndent n v = marshal v"

section \<open>Decoding into Go values\<close>

text \<open>A document decoded into \<open>map[string]any\<close>: in every object the last member of a name wins.\<close>

fun goMaps :: "json \<Rightarrow> json" where
  "goMaps (JArr vs) = JArr (map goMaps vs)"
| "goMaps (JObj ms) = mapJson (foldl (\<lambda>al (k, v). AList.update k v al) [] (map (\<lambda>(k, v). (k, goMaps v)) ms))"
| "goMaps v = v"

text \<open>A value \<open>Unmarshal\<close> accepts into \<open>any\<close>: every number fits a float64.\<close>

fun anyOK :: "json \<Rightarrow> bool" where
  "anyOK (JNum n) = (parseFloat64 n \<noteq> None)"
| "anyOK (JArr vs) = list_all anyOK vs"
| "anyOK (JObj ms) = list_all (\<lambda>(k, v). anyOK v) ms"
| "anyOK _ = True"

text \<open>The fold under which a struct field name matches a key.\<close>

definition foldRune :: "string \<Rightarrow> string" where
  "foldRune r = (if map byte r = [197, 191] then ''s'' else if map byte r = [226, 132, 170] then ''k''
     else (case r of [c] \<Rightarrow> [lowerASCII c] | _ \<Rightarrow> r))"

definition fieldMatches :: "string \<Rightarrow> string \<Rightarrow> bool" where
  "fieldMatches f k = (concat (map foldRune (runes k)) = concat (map foldRune (runes f)))"

text \<open>\<open>Unmarshal\<close> of one member into a \<open>string\<close> field: a string sets it, null leaves it, anything
  else is a type error.\<close>

fun intoString :: "string \<Rightarrow> json \<Rightarrow> string option" where
  "intoString old (JStr s) = Some s"
| "intoString old JNull = Some old"
| "intoString old _ = None"

text \<open>An array into a slice: an element is decoded into the element already there, if any; null empties the
  slice.\<close>

fun intoElems :: "('a \<Rightarrow> json \<Rightarrow> 'a option) \<Rightarrow> 'a \<Rightarrow> 'a list \<Rightarrow> json list \<Rightarrow> 'a list option" where
  "intoElems dec zero old [] = Some []"
| "intoElems dec zero old (v # vs) = (case dec (case old of [] \<Rightarrow> zero | x # _ \<Rightarrow> x) v of
      None \<Rightarrow> None | Some x \<Rightarrow> map_option ((#) x) (intoElems dec zero (tl old) vs))"

definition intoSlice :: "('a \<Rightarrow> json \<Rightarrow> 'a option) \<Rightarrow> 'a \<Rightarrow> 'a list \<Rightarrow> json \<Rightarrow> 'a list option" where
  "intoSlice dec zero old v = (case v of JArr vs \<Rightarrow> intoElems dec zero old vs | JNull \<Rightarrow> Some [] | _ \<Rightarrow> None)"

end
