(* ===== verification/Skills.thy ===== *)
theory Skills
  imports Cluster FileMounts Json
begin

text \<open>
  Staging the skills of an Agent (\<open>resolveSkillVolumes\<close> and what surrounds it in
  src/internal/controller/agentrun_controller.go): SkillCard and SkillCollection references become
  read-only pod volumes below /opt/skills-src, ConfigMaps for inline content, and the list of
  sources handed to the skill loader. The closures of the Go function share its local variables; here
  they pass them on in the record \<open>staging\<close>.
\<close>

section \<open>Data\<close>

record skillGitSource =
  git_url :: string
  git_ref :: string

record skillSource =
  src_name :: string
  src_subPath :: string
  src_type :: string
  src_git :: "skillGitSource option"

record skillSources =
  sk_volumes :: "volume list"
  sk_mounts :: "volmount list"
  sk_inline :: "(string \<times> string) list"
  sk_declared :: "skillSource list"

record staging =
  sg_out :: skillSources
  sg_errs :: "gofmt list"
  sg_seen :: "string \<rightharpoonup> string" \<comment> \<open>source name to what it staged\<close>
  sg_volNames :: "string \<rightharpoonup> string" \<comment> \<open>volume name to the source that took it\<close>

definition emptyStaging :: staging where
  "emptyStaging = \<lparr>sg_out = \<lparr>sk_volumes = [], sk_mounts = [], sk_inline = [], sk_declared = []\<rparr>,
     sg_errs = [], sg_seen = (\<lambda>_. None), sg_volNames = (\<lambda>_. None)\<rparr>"

fun skillTypeString :: "SkillCardType \<Rightarrow> string" where
  "skillTypeString SkillTypeUnset = []"
| "skillTypeString SkillCardTypeSkill = ''skill''"
| "skillTypeString SkillCardTypeRule = ''rule''"

definition defaultedSkillType :: "string \<Rightarrow> string" where
  "defaultedSkillType t = (if t = [] then skillTypeString SkillCardTypeSkill else t)"

text \<open>\<open>path.Base\<close>.\<close>

definition pathBase :: "string \<Rightarrow> string" where
  "pathBase p = (if p = [] then ''.''
     else let q = trimRight CHR ''/'' p in
       if q = [] then ''/'' else last (splitOn CHR ''/'' q))"

section \<open>Claiming and staging\<close>

definition addErr :: "gofmt \<Rightarrow> staging \<Rightarrow> staging" where
  "addErr e s = s\<lparr>sg_errs := sg_errs s @ [e]\<rparr>"

definition claim :: "klib \<Rightarrow> string \<Rightarrow> string \<Rightarrow> string \<Rightarrow> string \<Rightarrow> skillGitSource option \<Rightarrow>
    staging \<Rightarrow> bool \<times> staging" where
  "claim K name delivery subPath skillType git s =
     (if name = [] \<or> name \<noteq> pathBase name \<or> name = ''.'' \<or> name = ''..'' then
        (False, addErr (Fmt ''skill source %q is not a usable directory name; it must be a single path segment'' [Lit name]) s)
      else if isDNS1123Subdomain K name \<noteq> [] then
        (False, addErr (Fmt ''skill source %q is not a usable directory name: %s''
           [Lit name, Joined ''; '' (map Lit (isDNS1123Subdomain K name))]) s)
      else (case sg_seen s name of
          Some prev \<Rightarrow>
            (False, if prev \<noteq> delivery then
               addErr (Fmt ''skill source %q is claimed by two different sources'' [Lit name]) s else s)
        | None \<Rightarrow>
            (True, s\<lparr>sg_seen := (sg_seen s)(name \<mapsto> delivery),
               sg_out := (sg_out s)\<lparr>sk_declared := sk_declared (sg_out s)
                 @ [\<lparr>src_name = name, src_subPath = subPath, src_type = skillType, src_git = git\<rparr>]\<rparr>\<rparr>)))"

definition skillVolumeName :: "string \<Rightarrow> string" where
  "skillVolumeName name = sanitizeVolumeName (''skill-'' @ name)"

definition skillPath :: "string \<Rightarrow> string" where
  "skillPath name = skillsSrcDir @ ''/'' @ name"

definition skillMount :: "string \<Rightarrow> volmount" where
  "skillMount name = \<lparr>vm_name = skillVolumeName name, vm_path = skillPath name,
     vm_subPath = [], vm_readOnly = True\<rparr>"

definition stage :: "string \<Rightarrow> staging \<Rightarrow> string \<times> staging" where
  "stage name s =
     (let volName = skillVolumeName name in
      case sg_volNames s volName of
        Some prev \<Rightarrow> (volName, addErr (Fmt ''skill sources %q and %q both need the pod volume %q; rename one''
           [Lit prev, Lit name, Lit volName]) s)
      | None \<Rightarrow> (volName, s\<lparr>sg_volNames := (sg_volNames s)(volName \<mapsto> name),
          sg_out := (sg_out s)\<lparr>sk_mounts := sk_mounts (sg_out s) @ [skillMount name]\<rparr>\<rparr>))"

definition addVolume :: "string \<Rightarrow> volsource \<Rightarrow> staging \<Rightarrow> staging" where
  "addVolume name source s = (case stage name s of (volName, s') \<Rightarrow>
     s'\<lparr>sg_out := (sg_out s')\<lparr>sk_volumes := sk_volumes (sg_out s')
       @ [\<lparr>v_name = volName, v_source = source\<rparr>]\<rparr>\<rparr>)"

definition addImage :: "klib \<Rightarrow> string \<Rightarrow> string \<Rightarrow> string \<Rightarrow> string \<Rightarrow> staging \<Rightarrow> staging" where
  "addImage K name subPath skillType img s =
     (if img = [] then addErr (Fmt ''skill %q has no resolved image'' [Lit name]) s
      else (case claim K name (''image:'' @ img @ '':'' @ subPath @ '':'' @ defaultedSkillType skillType)
               subPath skillType None s of
          (ok, s') \<Rightarrow> if ok then addVolume name (VImage img) s' else s'))"

definition addInline :: "klib \<Rightarrow> string \<Rightarrow> string \<Rightarrow> string \<Rightarrow> string \<Rightarrow> staging \<Rightarrow> staging" where
  "addInline K runName name skillType content s =
     (case claim K name (''inline:'' @ defaultedSkillType skillType @ '':'' @ content) [] skillType None s of
        (ok, s') \<Rightarrow>
          if ok then addVolume name (VConfigMap (inlineSkillConfigMapName runName name) [])
            (s'\<lparr>sg_out := (sg_out s')\<lparr>sk_inline := AList.update name content (sk_inline (sg_out s'))\<rparr>\<rparr>)
          else s')"

definition addGit :: "klib \<Rightarrow> string \<Rightarrow> string \<Rightarrow> string \<Rightarrow> skillGitSource \<Rightarrow> staging \<Rightarrow> staging" where
  "addGit K name subPath skillType git s =
     snd (claim K name (''git:'' @ git_url git @ '':'' @ git_ref git @ '':'' @ subPath @ '':''
        @ defaultedSkillType skillType) subPath skillType (Some git) s)"

definition addCard :: "klib \<Rightarrow> string \<Rightarrow> SkillCard \<Rightarrow> staging \<Rightarrow> staging" where
  "addCard K runName sc s =
     (let name = m_name (card_meta sc); spec = card_spec sc; t = skillTypeString (sc_type spec) in
      if sc_inline spec \<noteq> [] then addInline K runName name t (sc_inline spec) s
      else if sc_source spec \<noteq> [] then
        addGit K name (sc_subPath spec) t \<lparr>git_url = sc_source spec, git_ref = sc_ref spec\<rparr> s
      else addImage K name (sc_subPath spec) t (scs_resolvedImage (card_status sc)) s)"

section \<open>Resolving references\<close>

text \<open>A SkillCard fetched by name; \<open>fmt\<close> and \<open>args\<close> describe the reference in the error.\<close>

definition cardByName :: "AgentRunReconciler \<Rightarrow> AgentRun \<Rightarrow> string \<Rightarrow> gofmt list \<Rightarrow> string \<Rightarrow> staging \<Rightarrow> staging" where
  "cardByName R run fmt args name s =
     (case getSkillCard (rr_client R) (m_namespace (run_meta run), name) of
        Inl e \<Rightarrow> addErr (Fmt fmt (args @ [emsg e])) s
      | Inr sc \<Rightarrow> addCard (rr_lib R) (m_name (run_meta run)) sc s)"

definition collectionSkill :: "AgentRunReconciler \<Rightarrow> AgentRun \<Rightarrow> string \<Rightarrow> SkillCollectionSkillRef \<Rightarrow>
    staging \<Rightarrow> staging" where
  "collectionSkill R run ref sr s =
     (let K = rr_lib R; t = skillTypeString (sr_type sr) in
      if sr_skillCardRef sr \<noteq> [] then
        cardByName R run ''SkillCard %q (from collection %q): %v'' [Lit (sr_skillCardRef sr), Lit ref]
          (sr_skillCardRef sr) s
      else if sr_image sr \<noteq> [] then addImage K (sr_name sr) (sr_subPath sr) t (sr_image sr) s
      else if sr_source sr \<noteq> [] then
        addGit K (sr_name sr) (sr_subPath sr) t \<lparr>git_url = sr_source sr, git_ref = sr_ref sr\<rparr> s
      else addErr (Fmt ''skill %q in collection %q has no source configured'' [Lit (sr_name sr), Lit ref]) s)"

definition collectionByName :: "AgentRunReconciler \<Rightarrow> AgentRun \<Rightarrow> string \<Rightarrow> staging \<Rightarrow> staging" where
  "collectionByName R run ref s =
     (case getSkillCollection (rr_client R) (m_namespace (run_meta run), ref) of
        Inl e \<Rightarrow> addErr (Fmt ''SkillCollection %q: %v'' [Lit ref, emsg e]) s
      | Inr col \<Rightarrow>
          if sl_image (col_spec col) \<noteq> [] then
            (let names = sls_resolvedSkills (col_status col);
                 s' = (if names = [] then addErr (Fmt ''SkillCollection %q has not finished enumerating %s''
                         [Lit ref, Lit (sl_image (col_spec col))]) s else s) in
             fold (\<lambda>n. cardByName R run ''SkillCard %q (enumerated from collection %q): %v'' [Lit n, Lit ref] n)
               names s')
          else fold (collectionSkill R run ref) (sl_skills (col_spec col)) s)"

definition resolveSkillVolumes :: "AgentRunReconciler \<Rightarrow> AgentRun \<Rightarrow> Agent \<Rightarrow> goerr + skillSources" where
  "resolveSkillVolumes R run agent =
     (let s1 = fold (\<lambda>n. cardByName R run ''SkillCard %q: %v'' [Lit n] n) (as_skillCards (ag_spec agent)) emptyStaging;
          s2 = fold (collectionByName R run) (as_skillCollections (ag_spec agent)) s1 in
      if sg_errs s2 \<noteq> [] then
        Inl (errorf ''skill resolution failed: %s'' [Joined ''; '' (sg_errs s2)])
      else Inr (sg_out s2))"

section \<open>ConfigMaps and the loader container\<close>

definition skillFileKey :: string where "skillFileKey = ''SKILL.md''"

text \<open>Labels and owner of what a run creates.\<close>

definition runLabels :: "AgentRun \<Rightarrow> labels" where
  "runLabels run = [labelManagedBy \<mapsto> managedByLabel, labelAgentRun \<mapsto> m_name (run_meta run)]"

definition ownedByRun :: "klib \<Rightarrow> AgentRun \<Rightarrow> objmeta \<Rightarrow> goerr + objmeta" where
  "ownedByRun K run m = setControllerReference K ''AgentRun'' (run_meta run) m"

text \<open>The mutation \<open>CreateOrUpdate\<close> applies: labels and data are replaced, the owner set.\<close>

definition mutateConfigMap :: "klib \<Rightarrow> AgentRun \<Rightarrow> (string \<times> string) list \<Rightarrow> configmap \<Rightarrow> goerr + configmap" where
  "mutateConfigMap K run data cm =
     (case ownedByRun K run ((cm_meta cm)\<lparr>m_labels := runLabels run\<rparr>) of
        Inl e \<Rightarrow> Inl e
      | Inr m \<Rightarrow> Inr (cm\<lparr>cm_meta := m, cm_data := data\<rparr>))"

fun createInlineSkillConfigMaps :: "AgentRunReconciler \<Rightarrow> AgentRun \<Rightarrow> (string \<times> string) list \<Rightarrow> unit act" where
  "createInlineSkillConfigMaps R run [] = retE ()"
| "createInlineSkillConfigMaps R run ((name, content) # rest) =
     bindE (wrapE ''writing ConfigMap for inline skill %q: %w'' [Lit name]
       (applyE (rr_client R) (m_namespace (run_meta run), inlineSkillConfigMapName (m_name (run_meta run)) name)
         (mutateConfigMap (rr_lib R) run [(skillFileKey, content)])))
     (\<lambda>_. createInlineSkillConfigMaps R run rest)"

text \<open>The wire form of the declared sources.\<close>

definition omitStr :: "string \<Rightarrow> string \<Rightarrow> (string \<times> json) list" where
  "omitStr k v = (if v = [] then [] else [(k, JStr v)])"

definition gitJson :: "skillGitSource \<Rightarrow> json" where
  "gitJson g = JObj ((''url'', JStr (git_url g)) # omitStr ''ref'' (git_ref g))"

definition sourceJson :: "skillSource \<Rightarrow> json" where
  "sourceJson s = JObj ((''name'', JStr (src_name s)) # omitStr ''subPath'' (src_subPath s)
     @ omitStr ''type'' (src_type s)
     @ (case src_git s of None \<Rightarrow> [] | Some g \<Rightarrow> [(''git'', gitJson g)]))"

definition skillLoaderContainer :: "string \<Rightarrow> skillSources \<Rightarrow> volmount list \<Rightarrow> container" where
  "skillLoaderContainer img sources mounts =
     \<lparr>ct_name = ''skill-loader'', ct_image = img, ct_command = [''/skill-loader''],
      ct_args = [''load'', ''--src-dir'', skillsSrcDir, ''--dest-dir'', skillsDir],
      ct_env = (if sk_declared sources \<noteq> []
        then [plainEnv ''KONVEYOR_SKILL_SOURCES'' (marshal (JArr (map sourceJson (sk_declared sources))))] else []),
      ct_envFrom = [], ct_mounts = mounts, ct_ports = [], ct_readinessTCP = None, ct_termFallbackToLogs = True\<rparr>"

text \<open>An Agent with an inline card, a git card and a collection that repeats one of them and adds an
  image.\<close>

definition sampleCard :: "string \<Rightarrow> string \<Rightarrow> string \<Rightarrow> SkillCard" where
  "sampleCard name inl source = \<lparr>card_meta = newMeta name ''ns'' (\<lambda>_. None),
     card_spec = \<lparr>sc_image = [], sc_subPath = [], sc_source = source, sc_ref = ''main'', sc_inline = inl,
       sc_displayName = [], sc_version = [], sc_description = [], sc_type = SkillCardTypeSkill, sc_tags = []\<rparr>,
     card_status = \<lparr>scs_observedGeneration = 0, scs_resolvedImage = [], scs_deliveryMode = [],
       scs_conditions = []\<rparr>\<rparr>"

definition sampleCollection :: SkillCollection where
  "sampleCollection = \<lparr>col_meta = newMeta ''col'' ''ns'' (\<lambda>_. None),
     col_spec = \<lparr>sl_version = [], sl_image = [], sl_type = SkillTypeUnset,
       sl_skills = [\<lparr>sr_name = [], sr_skillCardRef = ''style'', sr_image = [], sr_source = [], sr_ref = [],
           sr_subPath = [], sr_type = SkillTypeUnset\<rparr>,
         \<lparr>sr_name = ''fmt'', sr_skillCardRef = [], sr_image = ''quay.io/fmt'', sr_source = [], sr_ref = [],
           sr_subPath = [], sr_type = SkillTypeUnset\<rparr>]\<rparr>,
     col_status = \<lparr>sls_observedGeneration = 0, sls_conditions = [], sls_resolvedSkills = []\<rparr>\<rparr>"

definition skilledReconciler :: AgentRunReconciler where
  "skilledReconciler = quietReconciler\<lparr>rr_client := quietClient\<lparr>
     getSkillCard := (\<lambda>(ns, n). Inr (sampleCard n (if n = ''style'' then ''# Style'' else []) ''https://git'')),
     getSkillCollection := (\<lambda>_. Inr sampleCollection)\<rparr>\<rparr>"

definition skilledAgent :: Agent where
  "skilledAgent = sampleAgent\<lparr>ag_spec := (ag_spec sampleAgent)\<lparr>as_skillCards := [''style'', ''lint''],
     as_skillCollections := [''col'']\<rparr>\<rparr>"

definition skilledSources :: skillSources where
  "skilledSources = projr (resolveSkillVolumes skilledReconciler sampleRun skilledAgent)"

section \<open>What staging keeps true\<close>

text \<open>A usable source name: one path segment that the API server accepts as an object name.\<close>

definition usableName :: "klib \<Rightarrow> string \<Rightarrow> bool" where
  "usableName K n \<longleftrightarrow> n \<noteq> [] \<and> n \<noteq> ''.'' \<and> n \<noteq> ''..'' \<and> isDNS1123Subdomain K n = []"

text \<open>The sources that are mounted; the others are cloned by the loader.\<close>

definition mountedNames :: "skillSource list \<Rightarrow> string list" where
  "mountedNames ds = map src_name (filter (\<lambda>d. src_git d = None) ds)"

lemma mountedNames_append [simp]: "mountedNames (xs @ ys) = mountedNames xs @ mountedNames ys"
  by (simp add: mountedNames_def)

lemma mountedNames_single [simp]:
  "mountedNames [\<lparr>src_name = n, src_subPath = p, src_type = t, src_git = g\<rparr>] = (if g = None then [n] else [])"
  by (simp add: mountedNames_def)

definition outOK :: "skillSources \<Rightarrow> bool" where
  "outOK out \<longleftrightarrow> sk_mounts out = map skillMount (mountedNames (sk_declared out))
     \<and> map v_name (sk_volumes out) = map skillVolumeName (mountedNames (sk_declared out))
     \<and> distinct (map skillVolumeName (mountedNames (sk_declared out)))"

definition stagingOK :: "klib \<Rightarrow> staging \<Rightarrow> bool" where
  "stagingOK K s \<longleftrightarrow> dom (sg_seen s) = src_name ` set (sk_declared (sg_out s))
     \<and> distinct (map src_name (sk_declared (sg_out s)))
     \<and> (\<forall>d \<in> set (sk_declared (sg_out s)). usableName K (src_name d))
     \<and> (sg_errs s = [] \<longrightarrow> outOK (sg_out s)
          \<and> dom (sg_volNames s) = skillVolumeName ` set (mountedNames (sk_declared (sg_out s))))"

text \<open>How one step may change the staging: it forgets neither a source nor an error.\<close>

definition grows :: "staging \<Rightarrow> staging \<Rightarrow> bool" where
  "grows s s' \<longleftrightarrow> dom (sg_seen s) \<subseteq> dom (sg_seen s') \<and> (sg_errs s' = [] \<longrightarrow> sg_errs s = [])"

lemma grows_refl [simp]: "grows s s"
  by (simp add: grows_def)

lemma grows_trans: "grows s t \<Longrightarrow> grows t u \<Longrightarrow> grows s u"
  by (auto simp: grows_def)

lemma addErr_simps [simp]:
  "sg_errs (addErr e s) \<noteq> []" "sg_seen (addErr e s) = sg_seen s" "sg_out (addErr e s) = sg_out s"
  "sg_volNames (addErr e s) = sg_volNames s"
  by (simp_all add: addErr_def)

lemma stagingOK_addErr [simp]: "stagingOK K s \<Longrightarrow> stagingOK K (addErr e s)"
  by (simp add: stagingOK_def)

lemma grows_addErr [simp]: "grows s (addErr e s)"
  by (simp add: grows_def)

text \<open>
  A claim either succeeds, declaring one new usable name, or leaves the sources alone, and then it
  is an error or a repetition.
\<close>

lemma claim_cases:
  assumes "claim K name delivery sp t git s = (ok, s')"
  obtains (taken) "ok" "sg_seen s name = None" "usableName K name"
      "s' = s\<lparr>sg_seen := (sg_seen s)(name \<mapsto> delivery), sg_out := (sg_out s)\<lparr>sk_declared :=
         sk_declared (sg_out s) @ [\<lparr>src_name = name, src_subPath = sp, src_type = t, src_git = git\<rparr>]\<rparr>\<rparr>"
    | (refused) e where "\<not> ok" "s' = addErr e s"
    | (repeated) "\<not> ok" "s' = s" "sg_seen s name \<noteq> None"
  using assms
  by (auto simp: claim_def usableName_def split: if_splits option.splits)

lemma addVolume_ok:
  "sg_volNames s (skillVolumeName name) = None \<Longrightarrow> addVolume name src s = s\<lparr>
     sg_volNames := (sg_volNames s)(skillVolumeName name \<mapsto> name),
     sg_out := (sg_out s)\<lparr>sk_mounts := sk_mounts (sg_out s) @ [skillMount name],
       sk_volumes := sk_volumes (sg_out s) @ [\<lparr>v_name = skillVolumeName name, v_source = src\<rparr>]\<rparr>\<rparr>"
  by (simp add: addVolume_def stage_def Let_def)

lemma addVolume_clash:
  "sg_volNames s (skillVolumeName name) \<noteq> None \<Longrightarrow>
   sg_errs (addVolume name src s) \<noteq> [] \<and> sg_seen (addVolume name src s) = sg_seen s
   \<and> sk_declared (sg_out (addVolume name src s)) = sk_declared (sg_out s)"
  by (auto simp: addVolume_def stage_def Let_def)

lemma addVolume_frame:
  "sg_seen (addVolume name src s) = sg_seen s"
  "sg_errs (addVolume name src s) = [] \<Longrightarrow> sg_errs s = []"
  by (auto simp: addVolume_def stage_def Let_def addErr_def split: option.splits)

text \<open>The three ways to add a source, at once: a claim, and for a mounted source its volume.\<close>

lemma claimed_OK:
  assumes ok: "stagingOK K s" and new: "sg_seen s name = None" and use: "usableName K name"
    and s': "sg_seen s' = (sg_seen s)(name \<mapsto> d)" "sg_errs s' = sg_errs s" "sg_volNames s' = sg_volNames s"
      "sk_declared (sg_out s') = sk_declared (sg_out s)
        @ [\<lparr>src_name = name, src_subPath = p, src_type = t, src_git = git\<rparr>]"
      "sk_mounts (sg_out s') = sk_mounts (sg_out s)" "sk_volumes (sg_out s') = sk_volumes (sg_out s)"
  shows "git \<noteq> None \<Longrightarrow> stagingOK K s'" "git = None \<Longrightarrow> stagingOK K (addVolume name src s')"
proof -
  have fresh: "name \<notin> src_name ` set (sk_declared (sg_out s))"
    using ok new by (auto simp: stagingOK_def domIff)
  then show "git \<noteq> None \<Longrightarrow> stagingOK K s'"
    using ok use s' by (auto simp: stagingOK_def outOK_def)
  assume git: "git = None"
  show "stagingOK K (addVolume name src s')"
  proof (cases "sg_volNames s' (skillVolumeName name)")
    case None
    then have "sg_errs s = [] \<Longrightarrow>
        skillVolumeName name \<notin> skillVolumeName ` set (mountedNames (sk_declared (sg_out s)))"
      using ok s'(3) unfolding stagingOK_def by (metis domIff)
    with None show ?thesis using ok use s' fresh git
      by (auto simp: addVolume_ok stagingOK_def outOK_def)
  next
    case (Some prev)
    then show ?thesis using ok use s' fresh addVolume_clash[of s' name src]
      by (auto simp: stagingOK_def)
  qed
qed

lemma addImage_OK: "stagingOK K s \<Longrightarrow> stagingOK K (addImage K name sp t img s)"
  unfolding addImage_def
  by (auto split: prod.splits elim!: claim_cases intro!: claimed_OK(2)[of K s name])

lemma addInline_OK: "stagingOK K s \<Longrightarrow> stagingOK K (addInline K rn name t content s)"
  unfolding addInline_def
  by (auto split: prod.splits elim!: claim_cases intro!: claimed_OK(2)[of K s name])

lemma claim_git_OK:
  assumes "stagingOK K s" "git \<noteq> None"
  shows "stagingOK K (snd (claim K name d sp t git s))"
proof -
  obtain ok s' where "claim K name d sp t git s = (ok, s')" by fastforce
  then show ?thesis
  proof (cases rule: claim_cases)
    case taken
    with assms show ?thesis
      using claimed_OK(1)[of K s name s' d sp t git] \<open>claim K name d sp t git s = (ok, s')\<close> by simp
  qed (use assms \<open>claim K name d sp t git s = (ok, s')\<close> in auto)
qed

lemma addGit_OK: "stagingOK K s \<Longrightarrow> stagingOK K (addGit K name sp t git s)"
  unfolding addGit_def by (rule claim_git_OK) auto

definition delivers :: "string \<Rightarrow> staging \<Rightarrow> staging \<Rightarrow> bool" where
  "delivers name s s' \<longleftrightarrow> grows s s' \<and> (sg_errs s' = [] \<longrightarrow> name \<in> dom (sg_seen s'))"

lemma claim_delivers: "claim K name d sp t git s = (ok, s') \<Longrightarrow> delivers name s s'"
  by (auto simp: delivers_def grows_def elim!: claim_cases)

lemma addVolume_delivers: "delivers name s s' \<Longrightarrow> delivers name s (addVolume n src s')"
  using addVolume_frame[of n src s'] by (auto simp: delivers_def grows_def)

lemma addErr_delivers: "delivers name s (addErr e s)"
  by (simp add: delivers_def)

lemma delivers_out [simp]: "delivers name s (s'\<lparr>sg_out := w\<rparr>) = delivers name s s'"
  by (simp add: delivers_def grows_def)

lemma addImage_delivers: "delivers name s (addImage K name sp t img s)"
  unfolding addImage_def
  by (auto dest: claim_delivers intro!: addErr_delivers addVolume_delivers split: prod.splits)

lemma addInline_delivers: "delivers name s (addInline K rn name t content s)"
  unfolding addInline_def
  by (auto dest: claim_delivers intro!: addVolume_delivers split: prod.splits)

lemma addGit_delivers: "delivers name s (addGit K name sp t git s)"
  unfolding addGit_def by (rule claim_delivers, rule prod.collapse[symmetric])

lemma addCard_OK: "stagingOK K s \<Longrightarrow> stagingOK K (addCard K rn sc s)"
  by (simp add: addCard_def Let_def addImage_OK addInline_OK addGit_OK)

lemma addCard_delivers: "delivers (m_name (card_meta sc)) s (addCard K rn sc s)"
  by (simp add: addCard_def Let_def addImage_delivers addInline_delivers addGit_delivers)

section \<open>The whole resolution\<close>

lemma cardByName_OK: "stagingOK (rr_lib R) s \<Longrightarrow> stagingOK (rr_lib R) (cardByName R run f as n s)"
  by (simp add: cardByName_def addCard_OK split: sum.split)

lemma collectionSkill_OK:
  "stagingOK (rr_lib R) s \<Longrightarrow> stagingOK (rr_lib R) (collectionSkill R run ref sr s)"
  by (simp add: collectionSkill_def Let_def cardByName_OK addImage_OK addGit_OK)

lemma collectionByName_OK:
  "stagingOK (rr_lib R) s \<Longrightarrow> stagingOK (rr_lib R) (collectionByName R run ref s)"
  by (auto simp: collectionByName_def Let_def split: sum.split
      intro!: fold_invariant[where Q = "\<lambda>_. True"] cardByName_OK collectionSkill_OK)

text \<open>A card the source list names: it was found, and it was declared under its own name.\<close>

definition cardIn :: "AgentRunReconciler \<Rightarrow> AgentRun \<Rightarrow> string set \<Rightarrow> string \<Rightarrow> bool" where
  "cardIn R run names n \<longleftrightarrow> (\<exists>sc. getSkillCard (rr_client R) (m_namespace (run_meta run), n) = Inr sc
     \<and> m_name (card_meta sc) \<in> names)"

definition skillIn :: "AgentRunReconciler \<Rightarrow> AgentRun \<Rightarrow> string set \<Rightarrow> SkillCollectionSkillRef \<Rightarrow> bool" where
  "skillIn R run names sr \<longleftrightarrow> (if sr_skillCardRef sr \<noteq> [] then cardIn R run names (sr_skillCardRef sr)
     else sr_name sr \<in> names \<and> (sr_image sr \<noteq> [] \<or> sr_source sr \<noteq> []))"

definition collectionIn :: "AgentRunReconciler \<Rightarrow> AgentRun \<Rightarrow> string set \<Rightarrow> string \<Rightarrow> bool" where
  "collectionIn R run names ref \<longleftrightarrow>
     (\<exists>col. getSkillCollection (rr_client R) (m_namespace (run_meta run), ref) = Inr col
       \<and> (if sl_image (col_spec col) \<noteq> []
          then sls_resolvedSkills (col_status col) \<noteq> [] \<and> list_all (cardIn R run names) (sls_resolvedSkills (col_status col))
          else list_all (skillIn R run names) (sl_skills (col_spec col))))"

text \<open>One step of the resolution: it grows the staging, and an error-free result contains what the
  step was asked for.\<close>

definition resolves :: "(string set \<Rightarrow> bool) \<Rightarrow> (staging \<Rightarrow> staging) \<Rightarrow> bool" where
  "resolves G f \<longleftrightarrow> (\<forall>s. grows s (f s) \<and> (sg_errs (f s) = [] \<longrightarrow> G (dom (sg_seen (f s)))))"

lemma resolves_grows: "resolves G f \<Longrightarrow> grows s (f s)"
  and resolves_names: "resolves G f \<Longrightarrow> sg_errs (f s) = [] \<Longrightarrow> G (dom (sg_seen (f s)))"
  by (simp_all add: resolves_def)

lemma resolves_delivers:
  "(\<And>s. delivers name s (f s)) \<Longrightarrow> resolves (\<lambda>names. name \<in> names) f"
  by (auto simp: resolves_def delivers_def)

lemma resolves_fold:
  assumes "\<And>x. x \<in> set xs \<Longrightarrow> resolves (\<lambda>names. G names x) (f x)"
    and "\<And>x names names'. names \<subseteq> names' \<Longrightarrow> G names x \<Longrightarrow> G names' x"
  shows "resolves (\<lambda>names. list_all (G names) xs) (fold f xs)"
  using assms(1)
proof (induction xs)
  case Nil
  then show ?case by (simp add: resolves_def)
next
  case (Cons x xs)
  then have x: "resolves (\<lambda>names. G names x) (f x)" and xs: "resolves (\<lambda>names. list_all (G names) xs) (fold f xs)"
    by auto
  show ?case unfolding resolves_def
  proof (intro allI conjI impI)
    fix s
    have g1: "grows s (f x s)" and g2: "grows (f x s) (fold f xs (f x s))"
      using x xs by (auto simp: resolves_def)
    show "grows s (fold f (x # xs) s)" using grows_trans[OF g1 g2] by simp
    assume e: "sg_errs (fold f (x # xs) s) = []"
    then have "sg_errs (f x s) = []" using g2 by (simp add: grows_def)
    then have "G (dom (sg_seen (f x s))) x" using x by (simp add: resolves_def)
    then have "G (dom (sg_seen (fold f xs (f x s)))) x"
      using g2 by (meson assms(2) grows_def)
    moreover have "list_all (G (dom (sg_seen (fold f xs (f x s))))) xs"
      using xs e by (simp add: resolves_def)
    ultimately show "list_all (G (dom (sg_seen (fold f (x # xs) s)))) (x # xs)" by simp
  qed
qed

lemma cardIn_mono: "names \<subseteq> names' \<Longrightarrow> cardIn R run names n \<Longrightarrow> cardIn R run names' n"
  by (auto simp: cardIn_def)

lemma skillIn_mono: "names \<subseteq> names' \<Longrightarrow> skillIn R run names n \<Longrightarrow> skillIn R run names' n"
  by (auto simp: skillIn_def intro: cardIn_mono split: if_splits)

lemma collectionIn_mono: "names \<subseteq> names' \<Longrightarrow> collectionIn R run names n \<Longrightarrow> collectionIn R run names' n"
  unfolding collectionIn_def list_all_iff by (metis cardIn_mono skillIn_mono)

lemma cardByName_resolves: "resolves (\<lambda>names. cardIn R run names n) (cardByName R run f as n)"
  using addCard_delivers
  by (auto simp: resolves_def cardByName_def cardIn_def delivers_def split: sum.split)

lemma collectionSkill_resolves: "resolves (\<lambda>names. skillIn R run names sr) (collectionSkill R run ref sr)"
proof (cases "sr_skillCardRef sr = []")
  case True
  then show ?thesis
    using addImage_delivers addGit_delivers
    by (auto simp: resolves_def collectionSkill_def skillIn_def Let_def delivers_def)
next
  case False
  then show ?thesis
    using cardByName_resolves by (simp add: collectionSkill_def[abs_def] skillIn_def Let_def)
qed

lemma collectionByName_resolves:
  "resolves (\<lambda>names. collectionIn R run names ref) (collectionByName R run ref)"
proof (cases "getSkillCollection (rr_client R) (m_namespace (run_meta run), ref)")
  case (Inl e)
  then show ?thesis by (simp add: resolves_def collectionByName_def)
next
  case (Inr col)
  define cards where "cards = fold (\<lambda>n. cardByName R run ''SkillCard %q (enumerated from collection %q): %v'' [Lit n, Lit ref] n)"
  have cards: "resolves (\<lambda>names. list_all (cardIn R run names) ns) (cards ns)" for ns
    unfolding cards_def by (rule resolves_fold[OF cardByName_resolves]) (rule cardIn_mono)
  have skills: "resolves (\<lambda>names. list_all (skillIn R run names) srs) (fold (collectionSkill R run ref) srs)" for srs
    by (rule resolves_fold[OF collectionSkill_resolves]) (rule skillIn_mono)
  show ?thesis
  proof (cases "sl_image (col_spec col) = [] \<or> sls_resolvedSkills (col_status col) \<noteq> []")
    case True
    then show ?thesis using cards skills Inr
      by (auto simp: resolves_def collectionByName_def collectionIn_def Let_def cards_def)
  next
    case False
    then show ?thesis using Inr by (simp add: resolves_def collectionByName_def Let_def)
  qed
qed

lemma emptyStaging_OK: "stagingOK K emptyStaging"
  by (simp add: stagingOK_def emptyStaging_def outOK_def mountedNames_def)

lemma resolveSkillVolumes_staging:
  assumes "resolveSkillVolumes R run agent = Inr out"
  obtains s where "sg_out s = out" "sg_errs s = []" "stagingOK (rr_lib R) s"
    "list_all (cardIn R run (dom (sg_seen s))) (as_skillCards (ag_spec agent))"
    "list_all (collectionIn R run (dom (sg_seen s))) (as_skillCollections (ag_spec agent))"
proof -
  define s1 where "s1 = fold (\<lambda>n. cardByName R run ''SkillCard %q: %v'' [Lit n] n) (as_skillCards (ag_spec agent)) emptyStaging"
  define s where "s = fold (collectionByName R run) (as_skillCollections (ag_spec agent)) s1"
  have e: "sg_errs s = []" "sg_out s = out"
    using assms by (auto simp: resolveSkillVolumes_def Let_def s_def s1_def split: if_splits)
  have "stagingOK (rr_lib R) s1" unfolding s1_def
    by (rule fold_invariant[where Q = "\<lambda>_. True"]) (simp_all add: cardByName_OK emptyStaging_OK)
  then have ok: "stagingOK (rr_lib R) s" unfolding s_def
    by (rule fold_invariant[where Q = "\<lambda>_. True", OF TrueI]) (rule collectionByName_OK)
  have r1: "resolves (\<lambda>names. list_all (cardIn R run names) (as_skillCards (ag_spec agent)))
      (fold (\<lambda>n. cardByName R run ''SkillCard %q: %v'' [Lit n] n) (as_skillCards (ag_spec agent)))"
    by (rule resolves_fold[OF cardByName_resolves]) (rule cardIn_mono)
  have r2: "resolves (\<lambda>names. list_all (collectionIn R run names) (as_skillCollections (ag_spec agent)))
      (fold (collectionByName R run) (as_skillCollections (ag_spec agent)))"
    by (rule resolves_fold[OF collectionByName_resolves]) (rule collectionIn_mono)
  have g: "grows s1 s" unfolding s_def by (rule resolves_grows[OF r2])
  with e have "sg_errs s1 = []" by (simp add: grows_def)
  then have "list_all (cardIn R run (dom (sg_seen s1))) (as_skillCards (ag_spec agent))"
    unfolding s1_def by (rule resolves_names[OF r1])
  then have "list_all (cardIn R run (dom (sg_seen s))) (as_skillCards (ag_spec agent))"
    by (rule list.pred_mono_strong) (meson g cardIn_mono grows_def)
  moreover have "list_all (collectionIn R run (dom (sg_seen s))) (as_skillCollections (ag_spec agent))"
    using e(1) unfolding s_def by (rule resolves_names[OF r2])
  ultimately show thesis using that e ok by blast
qed

lemma skillPath_segs: "plainSeg n \<Longrightarrow> pathSegs (skillPath n) = [''opt'', ''skills-src'', n]"
  by (simp add: skillPath_def pathSegs_def skillsSrcDir_def isAbs_def hasPrefix_def splitOn_plain plainSeg_def)

lemma usableName_plain: "dns_names K \<Longrightarrow> usableName K n \<Longrightarrow> plainSeg n"
  by (simp add: usableName_def plainSeg_def dns_names.dns_no_slash)

lemma skillVolumeName_valid: "validVolumeName (skillVolumeName n)"
  unfolding skillVolumeName_def by (rule sanitized_validName) simp

text \<open>Two skills' staging directories are apart, and apart from every other mount of the pod.\<close>

lemma skillPaths_apart:
  "plainSeg m \<Longrightarrow> plainSeg n \<Longrightarrow> m \<noteq> n \<Longrightarrow> apart (skillPath m) (skillPath n)"
  by (simp add: apart_def skillPath_segs)

lemma skillPath_apart_skillsDir: "plainSeg n \<Longrightarrow> apart (skillPath n) skillsDir"
  unfolding apart_def skillPath_segs
  by (simp add: skillsDir_def pathSegs_def isAbs_def hasPrefix_def)

text \<open>What the rest of the pod is built on.\<close>

definition skillsReady :: "klib \<Rightarrow> skillSources \<Rightarrow> bool" where
  "skillsReady K out \<longleftrightarrow> distinct (map src_name (sk_declared out))
     \<and> list_all (\<lambda>d. usableName K (src_name d)) (sk_declared out) \<and> outOK out"

lemma resolveSkillVolumes_ready:
  "resolveSkillVolumes R run agent = Inr out \<Longrightarrow> skillsReady (rr_lib R) out"
  by (erule resolveSkillVolumes_staging) (auto simp: skillsReady_def stagingOK_def list_all_iff)

text \<open>When the skills of an Agent resolve, no reference was dropped on the way: every SkillCard it
  names, every card an enumerated collection lists (at least one) and every entry of any other
  collection was found and is declared to the loader under its name.\<close>

theorem skills_complete:
  assumes "resolveSkillVolumes R run agent = Inr out"
  shows "list_all (cardIn R run (src_name ` set (sk_declared out))) (as_skillCards (ag_spec agent))
     \<and> list_all (collectionIn R run (src_name ` set (sk_declared out))) (as_skillCollections (ag_spec agent))"
  using assms by (rule resolveSkillVolumes_staging) (auto simp: stagingOK_def)

lemma skilled_resolves:
  "resolveSkillVolumes skilledReconciler sampleRun skilledAgent = Inr skilledSources"
proof -
  have "\<not> isl (resolveSkillVolumes skilledReconciler sampleRun skilledAgent)" by code_simp
  then show ?thesis unfolding skilledSources_def by simp
qed

theorem skills_complete_witness:
  "list_all (cardIn skilledReconciler sampleRun (src_name ` set (sk_declared skilledSources))) [''style'', ''lint'']
   \<and> list_all (collectionIn skilledReconciler sampleRun (src_name ` set (sk_declared skilledSources))) [''col'']"
  using skills_complete[OF skilled_resolves] by (simp add: skilledAgent_def)

text \<open>The sources of a resolved Agent have distinct names, each a single path segment. Those that
  are mounted, and only those, have one volume and one read-only mount each at
  /opt/skills-src/\<open>name\<close>; the volume names are valid and distinct, and no mount path contains
  another or collides with the assembled skills root.\<close>

theorem skills_staged:
  assumes "resolveSkillVolumes R run agent = Inr out" and "dns_names (rr_lib R)"
  shows "distinct (map src_name (sk_declared out))
     \<and> map vm_path (sk_mounts out) = map skillPath (mountedNames (sk_declared out))
     \<and> map v_name (sk_volumes out) = map vm_name (sk_mounts out)
     \<and> distinct (map v_name (sk_volumes out)) \<and> list_all validVolumeName (map v_name (sk_volumes out))
     \<and> list_all vm_readOnly (sk_mounts out)
     \<and> sorted_wrt apart (map vm_path (sk_mounts out))
     \<and> list_all (\<lambda>m. apart (vm_path m) skillsDir) (sk_mounts out)"
proof -
  have ready: "distinct (map src_name (sk_declared out))" "outOK out"
    and use: "\<forall>d \<in> set (sk_declared out). plainSeg (src_name d)"
    using resolveSkillVolumes_ready[OF assms(1)] usableName_plain[OF assms(2)]
    by (auto simp: skillsReady_def list_all_iff)
  have plain: "\<forall>n \<in> set (mountedNames (sk_declared out)). plainSeg n"
    and dist: "distinct (mountedNames (sk_declared out))"
    using use ready(1) by (auto simp: mountedNames_def distinct_map_filter)
  have "sorted_wrt apart (map skillPath (mountedNames (sk_declared out)))"
    unfolding sorted_wrt_map
    by (rule sorted_wrt_distinct[OF dist]) (simp add: plain skillPaths_apart)
  with ready plain show ?thesis
    by (simp add: outOK_def list_all_iff skillMount_def skillVolumeName_valid
        skillPath_apart_skillsDir comp_def)
qed

theorem skills_staged_witness:
  "mountedNames (sk_declared skilledSources) = [''style'', ''fmt'']
   \<and> distinct (map v_name (sk_volumes skilledSources))
   \<and> sorted_wrt apart (map vm_path (sk_mounts skilledSources))"
proof -
  have "mountedNames (sk_declared skilledSources) = [''style'', ''fmt'']" by code_simp
  moreover have "dns_names (rr_lib skilledReconciler)"
    using refnames.dns_names_axioms by (simp add: skilledReconciler_def)
  ultimately show ?thesis using skills_staged[OF skilled_resolves] by blast
qed

end
