(* ===== verification/Execution.thy ===== *)
theory Execution
  imports ApiTypes
begin

text \<open>
  Execution configuration (src/internal/controller/execution.go): the rule by which a run or a
  workflow stage overrides an Agent's default limits, field by field, and the supervision mode
  that results.
\<close>

definition defaultExecutionMode :: ExecutionMode where
  "defaultExecutionMode = ExecutionModeAuto"

definition emptyLimits :: ExecutionLimits where
  "emptyLimits = \<lparr>el_maxTurns = None, el_maxCost = []\<rparr>"

definition emptyExecution :: ExecutionSpec where
  "emptyExecution = \<lparr>ex_mode = ModeUnset, ex_askUser = False, ex_limits = emptyLimits\<rparr>"

definition resolveExecution ::
  "ExecutionSpec option \<Rightarrow> ExecutionLimits option \<Rightarrow> ExecutionSpec option" where
  "resolveExecution override base =
     (if override = None \<and> base = None then None
      else
        (let ov = (case override of None \<Rightarrow> emptyExecution | Some x \<Rightarrow> x);
             bs = (case base of None \<Rightarrow> emptyLimits | Some x \<Rightarrow> x);
             turns = el_maxTurns (ex_limits ov);
             cost = el_maxCost (ex_limits ov);
             turns' = (if turns = None then el_maxTurns bs else turns);
             cost' = (if cost = [] then el_maxCost bs else cost) in
         if ex_mode ov = ModeUnset \<and> \<not> ex_askUser ov \<and> turns' = None \<and> cost' = [] then None
         else Some \<lparr>ex_mode = ex_mode ov, ex_askUser = ex_askUser ov,
                    ex_limits = \<lparr>el_maxTurns = turns', el_maxCost = cost'\<rparr>\<rparr>))"

definition effectiveMode :: "ExecutionSpec option \<Rightarrow> ExecutionMode" where
  "effectiveMode exec = (case exec of None \<Rightarrow> defaultExecutionMode
     | Some e \<Rightarrow> if ex_mode e = ModeUnset then defaultExecutionMode else ex_mode e)"

text \<open>The fields of an optional configuration, unset when there is none.\<close>

abbreviation execOf :: "ExecutionSpec option \<Rightarrow> ExecutionSpec" where
  "execOf x \<equiv> (case x of None \<Rightarrow> emptyExecution | Some e \<Rightarrow> e)"

abbreviation limitsOf :: "ExecutionLimits option \<Rightarrow> ExecutionLimits" where
  "limitsOf x \<equiv> (case x of None \<Rightarrow> emptyLimits | Some e \<Rightarrow> e)"

lemmas execution_defs = resolveExecution_def emptyExecution_def emptyLimits_def Let_def

lemma resolveExecution_mode: "ex_mode (execOf (resolveExecution ov bs)) = ex_mode (execOf ov)"
  by (auto simp: execution_defs split: option.splits)

lemma resolveExecution_askUser:
  "ex_askUser (execOf (resolveExecution ov bs)) = ex_askUser (execOf ov)"
  by (auto simp: execution_defs split: option.splits)

lemma resolveExecution_turns:
  "el_maxTurns (ex_limits (execOf (resolveExecution ov bs))) =
     (case el_maxTurns (ex_limits (execOf ov)) of None \<Rightarrow> el_maxTurns (limitsOf bs) | Some n \<Rightarrow> Some n)"
  by (auto simp: execution_defs split: option.splits)

lemma resolveExecution_cost:
  "el_maxCost (ex_limits (execOf (resolveExecution ov bs))) =
     (if el_maxCost (ex_limits (execOf ov)) = [] then el_maxCost (limitsOf bs)
      else el_maxCost (ex_limits (execOf ov)))"
  by (auto simp: execution_defs split: option.splits)

lemma resolveExecution_None_iff:
  "resolveExecution ov bs = None \<longleftrightarrow> ex_mode (execOf ov) = ModeUnset \<and> \<not> ex_askUser (execOf ov)
     \<and> el_maxTurns (ex_limits (execOf ov)) = None \<and> el_maxTurns (limitsOf bs) = None
     \<and> el_maxCost (ex_limits (execOf ov)) = [] \<and> el_maxCost (limitsOf bs) = []"
  by (auto simp: execution_defs split: option.splits)

text \<open>Resolving a stage's configuration against the Agent twice is resolving it once. The
  workflow controller stamps the resolved value on the stage's AgentRun and the AgentRun controller
  resolves that again, so a stage run gets the configuration the stage asked for, and its effective
  mode is the one the stage names, \<open>auto\<close> when it names none.\<close>

theorem resolveExecution_idempotent:
  "resolveExecution (resolveExecution stage limits) limits = resolveExecution stage limits
   \<and> effectiveMode (resolveExecution stage limits) =
      (if ex_mode (execOf stage) = ModeUnset then ExecutionModeAuto else ex_mode (execOf stage))"
  by (auto simp: execution_defs effectiveMode_def defaultExecutionMode_def split: option.splits)

end
