(* ===== verification/Params.thy ===== *)
theory Params
  imports Execution Json
begin

text \<open>
  Parameters (src/internal/controller/params.go): coercion of declared parameters to their types,
  \<open>$(scope.name)\<close> substitution in prompt text, and the params.json file a Sandbox receives. Go
  maps are association lists updated in place, since they are enumerated when printed.
\<close>

section \<open>Coerced values\<close>

text \<open>What an \<open>any\<close> holds in this code: an \<open>int64\<close>, a \<open>float64\<close>, or a value that came out of
  JSON decoding (with \<open>UseNumber\<close>) or is a bool or a string.\<close>

datatype pval = PInt int | PFloat gofloat | PJson json

text \<open>\<^verbatim>\<open>fmt.Sprintf("%v", t)\<close> of a decoded value.\<close>

fun sprintV :: "json \<Rightarrow> string" where
  "sprintV JNull = ''<nil>''"
| "sprintV (JBool b) = formatBool b"
| "sprintV (JNum n) = n"
| "sprintV (JStr s) = s"
| "sprintV (JArr vs) = ''['' @ joinStr '' '' (map sprintV vs) @ '']''"
| "sprintV (JObj ms) = ''map['' @ joinStr '' '' (map (\<lambda>(k, v). k @ '':'' @ sprintV v) ms) @ '']''"

fun stringifyJSON :: "pval \<Rightarrow> string" where
  "stringifyJSON (PJson (JNum n)) = n"
| "stringifyJSON (PJson (JBool b)) = formatBool b"
| "stringifyJSON (PJson (JStr s)) = s"
| "stringifyJSON (PInt i) = formatInt i"
| "stringifyJSON (PFloat f) = formatFloatF f"
| "stringifyJSON (PJson v) = sprintV v"

section \<open>Coercion\<close>

definition coerceValue :: "Param \<Rightarrow> string \<Rightarrow> goerr + pval" where
  "coerceValue p value = (case p_type p of
      ParamTypeNumber \<Rightarrow>
        (case parseInt64 value of Some i \<Rightarrow> Inr (PInt i)
         | None \<Rightarrow> (case parseFloat64 value of Some f \<Rightarrow> Inr (PFloat f)
            | None \<Rightarrow> Inl (errorf ''parameter %q declared number but value %q is not numeric''
                [Lit (p_name p), Lit value])))
    | ParamTypeBoolean \<Rightarrow>
        (case parseBool value of Some b \<Rightarrow> Inr (PJson (JBool b))
         | None \<Rightarrow> Inl (errorf ''parameter %q declared boolean but value %q is not a boolean''
                [Lit (p_name p), Lit value]))
    | _ \<Rightarrow> Inr (PJson (JStr value)))"

definition effectiveValue :: "(string \<rightharpoonup> string) \<Rightarrow> Param \<Rightarrow> string" where
  "effectiveValue supplied p = (case supplied (p_name p) of Some v \<Rightarrow> v | None \<Rightarrow> p_default p)"

fun coerceLoop :: "(string \<rightharpoonup> string) \<Rightarrow> Param list \<Rightarrow> (string \<times> pval) list \<Rightarrow> (string \<times> string) list \<Rightarrow>
    goerr + ((string \<times> pval) list \<times> (string \<times> string) list)" where
  "coerceLoop supplied [] coerced strs = Inr (coerced, strs)"
| "coerceLoop supplied (p # ps) coerced strs =
     (let value = effectiveValue supplied p in
      if value = [] then coerceLoop supplied ps coerced (AList.update (p_name p) [] strs)
      else (case coerceValue p value of
          Inl e \<Rightarrow> Inl e
        | Inr cv \<Rightarrow> coerceLoop supplied ps (AList.update (p_name p) cv coerced)
            (AList.update (p_name p) (stringifyJSON cv) strs)))"

definition coerceParams :: "Param list \<Rightarrow> (string \<rightharpoonup> string) \<Rightarrow>
    goerr + ((string \<times> pval) list \<times> (string \<times> string) list)" where
  "coerceParams decls supplied = coerceLoop supplied decls [] []"

text \<open>A later value of the same name overwrites an earlier one.\<close>

definition suppliedValues :: "ParamValue list \<Rightarrow> (string \<rightharpoonup> string)" where
  "suppliedValues values = map_of (rev (map (\<lambda>v. (pv_name v, pv_value v)) values))"

section \<open>Substitution\<close>

definition scopeAgent :: string where "scopeAgent = ''agent''"
definition scopeWorkflow :: string where "scopeWorkflow = ''workflow''"

definition identStart :: "char \<Rightarrow> bool" where
  "identStart c = ((97 \<le> byte c \<and> byte c \<le> 122) \<or> (65 \<le> byte c \<and> byte c \<le> 90) \<or> c = CHR ''_'')"

definition identChar :: "char \<Rightarrow> bool" where
  "identChar c = (identStart c \<or> isDigit c)"

text \<open>Text cut at the matches of \<open>substitutionRef\<close>, leftmost first and without overlap.\<close>

datatype piece = Chr char | Ref string string

fun pieceSrc :: "piece \<Rightarrow> string" where
  "pieceSrc (Chr c) = [c]"
| "pieceSrc (Ref scope name) = ''$('' @ scope @ ''.'' @ name @ '')''"

definition matchScope :: "string \<Rightarrow> string \<Rightarrow> (piece \<times> string) option" where
  "matchScope scope s =
     (let pre = ''$('' @ scope @ ''.''; r = drop (length pre) s;
          name = takeWhile identChar r; rest = dropWhile identChar r in
      if hasPrefix s pre \<and> name \<noteq> [] \<and> identStart (hd name) \<and> rest \<noteq> [] \<and> hd rest = CHR '')''
      then Some (Ref scope name, tl rest) else None)"

definition matchRef :: "string \<Rightarrow> (piece \<times> string) option" where
  "matchRef s = (case matchScope scopeAgent s of Some m \<Rightarrow> Some m | None \<Rightarrow> matchScope scopeWorkflow s)"

lemma matchScope_src: "matchScope scope s = Some (p, rest) \<Longrightarrow> s = pieceSrc p @ rest \<and> length rest < length s"
proof -
  assume m: "matchScope scope s = Some (p, rest)"
  define r where "r = drop (length (''$('' @ scope @ ''.'')) s"
  from m have pre: "hasPrefix s (''$('' @ scope @ ''.'')" and p: "p = Ref scope (takeWhile identChar r)"
    and d: "dropWhile identChar r \<noteq> []" "hd (dropWhile identChar r) = CHR '')''"
    and rest: "rest = tl (dropWhile identChar r)"
    by (auto simp: matchScope_def Let_def r_def split: if_splits)
  from pre have "s = (''$('' @ scope @ ''.'') @ r"
    by (auto simp: hasPrefix_iff r_def)
  moreover have "r = takeWhile identChar r @ CHR '')'' # rest"
    using d rest by (metis list.collapse takeWhile_dropWhile_id)
  ultimately have "s = pieceSrc p @ rest" using p by simp
  then show ?thesis by (simp add: p)
qed

lemma matchRef_src: "matchRef s = Some (p, rest) \<Longrightarrow> s = pieceSrc p @ rest \<and> length rest < length s"
  by (auto simp: matchRef_def dest: matchScope_src split: option.splits)

lemma matchRef_shorter: "matchRef (c # s) = Some (p, rest) \<Longrightarrow> length rest < Suc (length s)"
  using matchRef_src[of "c # s" p rest] by simp

function pieces :: "string \<Rightarrow> piece list" where
  "pieces [] = []"
| "pieces (c # s) = (case matchRef (c # s) of
      Some (p, rest) \<Rightarrow> p # pieces rest | None \<Rightarrow> Chr c # pieces s)"
  by pat_completeness auto
termination
  by (relation "measure length") (auto dest: matchRef_shorter)

declare pieces.simps(2) [simp del]

type_synonym scopes = "string \<rightharpoonup> (string \<rightharpoonup> string)"

fun lookupRef :: "scopes \<Rightarrow> piece \<Rightarrow> string option" where
  "lookupRef scopes (Chr c) = Some [c]"
| "lookupRef scopes (Ref scope name) = (case scopes scope of None \<Rightarrow> None | Some vals \<Rightarrow> vals name)"

definition unresolvedRefs :: "scopes \<Rightarrow> string \<Rightarrow> string list" where
  "unresolvedRefs scopes text = map pieceSrc (filter (\<lambda>p. lookupRef scopes p = None) (pieces text))"

definition substitute :: "string \<Rightarrow> scopes \<Rightarrow> goerr + string" where
  "substitute text scopes =
     (if text = [] \<or> \<not> containsStr text ''$('' then Inr text
      else (let unresolved = unresolvedRefs scopes text in
        if unresolved \<noteq> [] then
          Inl (errorf ''unresolved parameter references: %s''
            [Joined '', '' (map Lit (remdups_adj (sort unresolved)))])
        else Inr (concat (map (\<lambda>p. case lookupRef scopes p of Some v \<Rightarrow> v | None \<Rightarrow> pieceSrc p) (pieces text)))))"

section \<open>params.json\<close>

record paramsFile =
  pf_workflow :: "(string \<times> json) list"
  pf_agent :: "(string \<times> pval) list"
  pf_execution :: "(string \<times> pval) list"

fun modeString :: "ExecutionMode \<Rightarrow> string" where
  "modeString ModeUnset = []"
| "modeString ExecutionModeAuto = ''auto''"
| "modeString ExecutionModeApprove = ''approve''"

definition executionSection :: "ExecutionSpec option \<Rightarrow> (string \<times> pval) list" where
  "executionSection exec = (''mode'', PJson (JStr (modeString (effectiveMode exec)))) #
     (case exec of None \<Rightarrow> [] | Some e \<Rightarrow>
        (if ex_askUser e then [(''askUser'', PJson (JBool True))] else [])
      @ (case el_maxTurns (ex_limits e) of None \<Rightarrow> [] | Some n \<Rightarrow> [(''maxTurns'', PInt n)])
      @ (if el_maxCost (ex_limits e) \<noteq> [] then [(''maxCost'', PJson (JStr (el_maxCost (ex_limits e))))] else []))"

text \<open>The stamped workflow parameters, decoded with \<open>UseNumber\<close>: an object, or null for none.\<close>

definition decodeWorkflowParams :: "string option \<Rightarrow> goerr + (string \<times> json) list" where
  "decodeWorkflowParams wp = (case wp of None \<Rightarrow> Inr [] | Some raw \<Rightarrow>
     if raw = [] then Inr []
     else (case jsonDecodeFirst raw of
         Some (JObj ms) \<Rightarrow> (case goMaps (JObj ms) of JObj ms' \<Rightarrow> Inr ms' | _ \<Rightarrow> Inr [])
       | Some JNull \<Rightarrow> Inr []
       | _ \<Rightarrow> Inl (errorf ''json: cannot decode workflow params'' [])))"

definition buildParams :: "AgentRun \<Rightarrow> Agent \<Rightarrow> goerr + (paramsFile \<times> scopes)" where
  "buildParams run agent =
     (case coerceParams (as_params (ag_spec agent)) (suppliedValues (rs_params (run_spec run))) of
        Inl e \<Rightarrow> Inl (wrapf ''agent params: %w'' [] e)
      | Inr (agentCoerced, agentStrs) \<Rightarrow>
        (case decodeWorkflowParams (rs_workflowParams (run_spec run)) of
           Inl e \<Rightarrow> Inl (wrapf ''workflow params: %w'' [] e)
         | Inr workflowCoerced \<Rightarrow>
           (let workflowStrs = map (\<lambda>(k, v). (k, stringifyJSON (PJson v))) workflowCoerced;
                exec = resolveExecution (rs_execution (run_spec run)) (as_execution (ag_spec agent)) in
            Inr (\<lparr>pf_workflow = workflowCoerced, pf_agent = agentCoerced,
                  pf_execution = executionSection exec\<rparr>,
                 [scopeAgent \<mapsto> map_of agentStrs, scopeWorkflow \<mapsto> map_of workflowStrs]))))"

fun pvalJson :: "pval \<Rightarrow> json option" where
  "pvalJson (PInt i) = Some (JNum (formatInt i))"
| "pvalJson (PFloat f) = map_option JNum (marshalFloat f)"
| "pvalJson (PJson v) = Some v"

fun pvalsJson :: "(string \<times> pval) list \<Rightarrow> (string \<times> json) list option" where
  "pvalsJson [] = Some []"
| "pvalsJson ((k, v) # ms) = (case pvalJson v of None \<Rightarrow> None
     | Some j \<Rightarrow> map_option ((#) (k, j)) (pvalsJson ms))"

text \<open>Stamping: the coerced workflow parameters as JSON, none when there are none.\<close>

definition coerceWorkflowParams :: "Param list \<Rightarrow> (string \<rightharpoonup> string) \<Rightarrow>
    goerr + (string option \<times> (string \<times> string) list)" where
  "coerceWorkflowParams decls supplied = (case coerceParams decls supplied of
      Inl e \<Rightarrow> Inl e
    | Inr (coerced, strs) \<Rightarrow>
        if coerced = [] then Inr (None, strs)
        else (case pvalsJson coerced of
            None \<Rightarrow> Inl (errorf ''json: unsupported value'' [])
          | Some ms \<Rightarrow> Inr (Some (marshal (mapJson ms)), strs)))"

definition omitEmpty :: "string \<Rightarrow> (string \<times> json) list \<Rightarrow> (string \<times> json) list" where
  "omitEmpty k ms = (if ms = [] then [] else [(k, mapJson ms)])"

definition renderParamsFile :: "paramsFile \<Rightarrow> goerr + string" where
  "renderParamsFile f = (case (pvalsJson (pf_agent f), pvalsJson (pf_execution f)) of
      (Some a, Some e) \<Rightarrow> Inr (marshalIndent 0 (JObj (omitEmpty ''workflow'' (pf_workflow f)
         @ omitEmpty ''agent'' a @ omitEmpty ''execution'' e)))
    | _ \<Rightarrow> Inl (errorf ''json: unsupported value'' []))"

section \<open>Properties of coercion\<close>

text \<open>The value of a declared parameter can be coerced.\<close>

definition coercible :: "(string \<rightharpoonup> string) \<Rightarrow> Param \<Rightarrow> bool" where
  "coercible supplied p \<longleftrightarrow> (let v = effectiveValue supplied p in
     v = [] \<or> (case p_type p of
        ParamTypeNumber \<Rightarrow> parseInt64 v \<noteq> None \<or> parseFloat64 v \<noteq> None
      | ParamTypeBoolean \<Rightarrow> parseBool v \<noteq> None
      | _ \<Rightarrow> True))"

text \<open>A coerced value has the JSON type its parameter declares.\<close>

definition typedAs :: "ParamType \<Rightarrow> pval \<Rightarrow> bool" where
  "typedAs t v = (case t of
      ParamTypeNumber \<Rightarrow> (\<exists>i. v = PInt i \<and> - (2 ^ 63) \<le> i \<and> i < 2 ^ 63) \<or> (\<exists>f. v = PFloat f)
    | ParamTypeBoolean \<Rightarrow> (\<exists>b. v = PJson (JBool b))
    | _ \<Rightarrow> (\<exists>s. v = PJson (JStr s)))"

lemma readDec_nonneg: "readDec s = Some n \<Longrightarrow> 0 \<le> n"
proof -
  have "0 \<le> a \<Longrightarrow> list_all isDigit s \<Longrightarrow> 0 \<le> foldl (\<lambda>a c. 10 * a + digitVal c) a s" for a
  proof (induction s arbitrary: a)
    case (Cons c s)
    have "int 48 \<le> int (of_char c)" using Cons.prems by (simp add: isDigit_def)
    then have "0 \<le> digitVal c" by (simp add: digitVal_def of_nat_of_char)
    with Cons show ?case by simp
  qed simp
  then show "readDec s = Some n \<Longrightarrow> 0 \<le> n" by (auto simp: readDec_def split: if_splits)
qed

lemma parseInt64_range: "parseInt64 s = Some i \<Longrightarrow> - (2 ^ 63) \<le> i \<and> i < 2 ^ 63"
  by (auto simp: parseInt64_def dest: readDec_nonneg split: list.splits option.splits if_splits)

lemma coerceValue_typed: "coerceValue p v = Inr cv \<Longrightarrow> typedAs (p_type p) cv"
  by (auto simp: coerceValue_def typedAs_def dest: parseInt64_range
      split: ParamType.splits option.splits)

lemma coerceLoop_ok:
  "(\<exists>r. coerceLoop supplied ps coerced strs = Inr r) \<longleftrightarrow> list_all (coercible supplied) ps"
  by (induction supplied ps coerced strs rule: coerceLoop.induct)
    (auto simp: coercible_def coerceValue_def Let_def split: sum.splits ParamType.splits option.splits)

lemma coerceLoop_strs_dom:
  "coerceLoop supplied ps coerced strs = Inr (c, s) \<Longrightarrow>
   dom (map_of s) = dom (map_of strs) \<union> p_name ` set ps"
  by (induction supplied ps coerced strs rule: coerceLoop.induct)
    (auto simp: Let_def update_conv' split: if_splits sum.splits)

text \<open>What one pass keeps true of the two maps it fills: every coerced entry is the typed, non-empty
  value of a declaration, and both scopes of a name agree.\<close>

definition coercedOK :: "Param list \<Rightarrow> (string \<times> pval) list \<Rightarrow> bool" where
  "coercedOK ps c \<longleftrightarrow> (\<forall>n v. map_of c n = Some v \<longrightarrow> (\<exists>p \<in> set ps. p_name p = n \<and> typedAs (p_type p) v))"

lemma coerceLoop_typed:
  "coerceLoop supplied ps coerced strs = Inr (c, s) \<Longrightarrow> coercedOK qs coerced \<Longrightarrow> set ps \<subseteq> set qs \<Longrightarrow>
   coercedOK qs c"
proof (induction supplied ps coerced strs rule: coerceLoop.induct)
  case (2 supplied p ps coerced strs)
  show ?case
  proof (cases "effectiveValue supplied p = []")
    case True
    with 2 show ?thesis by (simp add: Let_def)
  next
    case False
    with "2.prems"(1) obtain cv where cv: "coerceValue p (effectiveValue supplied p) = Inr cv"
      and rest: "coerceLoop supplied ps (AList.update (p_name p) cv coerced)
        (AList.update (p_name p) (stringifyJSON cv) strs) = Inr (c, s)"
      by (auto simp: Let_def split: sum.splits)
    have "coercedOK qs (AList.update (p_name p) cv coerced)"
      using "2.prems"(2,3) coerceValue_typed[OF cv]
      by (auto simp: coercedOK_def update_conv' split: if_splits)
    with 2 False cv rest show ?thesis by (simp add: Let_def)
  qed
qed simp

text \<open>\<open>coerceParams\<close> succeeds exactly when every declared parameter that has a value has one of
  its declared type; it then gives each declared name, and no other, a substitution string, and
  every entry it writes for params.json is a 64-bit integer, a float, a boolean or a string as its
  declaration says.\<close>

theorem coerceParams_correct:
  "case coerceParams decls supplied of
     Inl e \<Rightarrow> \<not> list_all (coercible supplied) decls
   | Inr (c, s) \<Rightarrow> list_all (coercible supplied) decls
       \<and> dom (map_of s) = p_name ` set decls \<and> coercedOK decls c"
  using coerceLoop_ok[of supplied decls "[]" "[]"]
    coerceLoop_strs_dom[of supplied decls "[]" "[]"]
    coerceLoop_typed[of supplied decls "[]" "[]" _ _ decls]
  by (auto simp: coerceParams_def coercedOK_def split: sum.splits)

section \<open>Properties of substitution\<close>

lemma pieces_src: "concat (map pieceSrc (pieces t)) = t"
proof (induction t rule: pieces.induct)
  case (2 c s)
  then show ?case
    using matchRef_src[of "c # s"]
    by (cases "matchRef (c # s)") (auto simp: pieces.simps(2) split: prod.splits)
qed simp

lemma matchRef_prefix: "matchRef s = Some m \<Longrightarrow> hasPrefix s ''$(''"
  by (cases m) (force simp: matchRef_def matchScope_def hasPrefix_iff Let_def
      split: option.splits if_splits)

lemma pieces_plain: "\<not> containsStr t ''$('' \<Longrightarrow> pieces t = map Chr t"
proof (induction t)
  case (Cons c t)
  then have "matchRef (c # t) = None"
    using matchRef_prefix[of "c # t"] by (cases "matchRef (c # t)") auto
  with Cons show ?case by (simp add: pieces.simps(2))
qed simp

lemma lookup_plain: "filter (\<lambda>p. lookupRef scopes p = None) (map Chr t) = []"
  by (induction t) auto

lemma render_plain:
  "concat (map (\<lambda>p. case lookupRef scopes p of Some v \<Rightarrow> v | None \<Rightarrow> pieceSrc p) (map Chr t)) = t"
  by (induction t) auto

text \<open>The specification: every reference resolved in one pass, or an error naming the unresolved
  ones once each, in order.\<close>

definition substituteSpec :: "string \<Rightarrow> scopes \<Rightarrow> goerr + string" where
  "substituteSpec text scopes =
     (if unresolvedRefs scopes text = []
      then Inr (concat (map (\<lambda>p. case lookupRef scopes p of Some v \<Rightarrow> v | None \<Rightarrow> pieceSrc p) (pieces text)))
      else Inl (errorf ''unresolved parameter references: %s''
             [Joined '', '' (map Lit (sorted_list_of_set (set (unresolvedRefs scopes text))))]))"

lemma distinct_remdups_adj_sorted: "sorted ys \<Longrightarrow> distinct (remdups_adj ys)"
  by (induction ys rule: remdups_adj.induct) (auto dest: antisym)

lemma remdups_adj_sort: "remdups_adj (sort xs) = sorted_list_of_set (set xs)"
  by (intro sorted_distinct_set_unique)
    (simp_all add: distinct_remdups_adj_sorted)

lemma substitute_eq_spec: "substitute text scopes = substituteSpec text scopes"
proof (cases "text = [] \<or> \<not> containsStr text ''$(''")
  case True
  then have "pieces text = map Chr text" using pieces_plain by auto
  with True show ?thesis
    by (auto simp: substitute_def substituteSpec_def unresolvedRefs_def lookup_plain render_plain
        simp del: map_map)
next
  case False
  then show ?thesis
    by (simp add: substitute_def substituteSpec_def Let_def remdups_adj_sort)
qed



lemma substitute_Inl_iff:
  "(\<exists>e. substitute text scopes = Inl e) \<longleftrightarrow> (\<exists>p \<in> set (pieces text). lookupRef scopes p = None)"
  by (auto simp: substitute_eq_spec substituteSpec_def unresolvedRefs_def filter_empty_conv)

text \<open>Every reference of the text names a declared parameter of the Agent or a stamped one.\<close>

definition refsDeclared :: "Agent \<Rightarrow> AgentRun \<Rightarrow> string \<Rightarrow> bool" where
  "refsDeclared agent run text = list_all (\<lambda>p. case p of Chr c \<Rightarrow> True
     | Ref scope name \<Rightarrow>
         (scope = scopeAgent \<and> name \<in> set (map p_name (as_params (ag_spec agent))))
       \<or> (scope = scopeWorkflow \<and> (\<exists>ms. decodeWorkflowParams (rs_workflowParams (run_spec run)) = Inr ms
             \<and> name \<in> set (map fst ms)))) (pieces text)"

lemma matchRef_scope: "matchRef s = Some (Ref scope name, r) \<Longrightarrow> scope = scopeAgent \<or> scope = scopeWorkflow"
  by (auto simp: matchRef_def matchScope_def Let_def split: option.splits if_splits)

lemma matchRef_Ref: "matchRef s = Some (p, r) \<Longrightarrow> \<exists>scope name. p = Ref scope name"
  by (auto simp: matchRef_def matchScope_def Let_def split: option.splits if_splits)

lemma pieces_scope: "Ref scope name \<in> set (pieces t) \<Longrightarrow> scope = scopeAgent \<or> scope = scopeWorkflow"
proof (induction t rule: pieces.induct)
  case (2 c s)
  then show ?case
    by (auto simp: pieces.simps(2) dest: matchRef_scope split: option.splits prod.splits)
qed simp

lemma buildParams_scopes:
  assumes "buildParams run agent = Inr (f, scopes)"
  shows "substitute text scopes = Inl e \<Longrightarrow> \<not> refsDeclared agent run text"
    and "\<not> refsDeclared agent run text \<Longrightarrow> \<exists>e. substitute text scopes = Inl e"
proof -
  obtain ac as ms where co: "coerceParams (as_params (ag_spec agent)) (suppliedValues (rs_params (run_spec run))) = Inr (ac, as)"
    and wf: "decodeWorkflowParams (rs_workflowParams (run_spec run)) = Inr ms"
    and sc: "scopes = [scopeAgent \<mapsto> map_of as, scopeWorkflow \<mapsto> map_of (map (\<lambda>(k, v). (k, stringifyJSON (PJson v))) ms)]"
    using assms by (auto simp: buildParams_def Let_def split: sum.splits prod.splits)
  have dom: "dom (map_of as) = p_name ` set (as_params (ag_spec agent))"
    using coerceLoop_strs_dom[OF co[unfolded coerceParams_def]] by simp
  have names: "scopeAgent \<noteq> scopeWorkflow" by (simp add: scopeAgent_def scopeWorkflow_def)
  have look: "lookupRef scopes (Ref scope name) = None \<longleftrightarrow>
      \<not> ((scope = scopeAgent \<and> name \<in> set (map p_name (as_params (ag_spec agent))))
       \<or> (scope = scopeWorkflow \<and> name \<in> set (map fst ms)))" for scope name
    using dom names
    by (auto simp: sc domIff dom_map_of_conv_image_fst map_of_eq_None_iff image_iff split_def
        split: option.splits)
  have "refsDeclared agent run text \<longleftrightarrow> (\<forall>p \<in> set (pieces text). lookupRef scopes p \<noteq> None)"
    unfolding refsDeclared_def list_all_iff
    by (intro ball_cong refl)
      (simp add: look wf del: lookupRef.simps(2) not_None_eq split: piece.split)
  then show "substitute text scopes = Inl e \<Longrightarrow> \<not> refsDeclared agent run text"
    and "\<not> refsDeclared agent run text \<Longrightarrow> \<exists>e. substitute text scopes = Inl e"
    using substitute_Inl_iff[of _ scopes] by auto
qed

section \<open>Numbers at the edge\<close>

text \<open>A declaration of one number parameter, and the string each scope substitutes for it: the
  agent scope renders the coerced value, the workflow scope what comes back out of the stamped
  JSON.\<close>

definition numberParam :: "string \<Rightarrow> Param" where
  "numberParam n = \<lparr>p_name = n, p_type = ParamTypeNumber, p_description = [], p_default = [],
     p_required = False\<rparr>"

definition agentRendering :: "string \<Rightarrow> string \<Rightarrow> string option" where
  "agentRendering n v = (case coerceParams [numberParam n] [n \<mapsto> v] of
      Inl e \<Rightarrow> None | Inr (c, strs) \<Rightarrow> map_of strs n)"

definition workflowRendering :: "string \<Rightarrow> string \<Rightarrow> string option" where
  "workflowRendering n v = (case coerceWorkflowParams [numberParam n] [n \<mapsto> v] of
      Inl e \<Rightarrow> None
    | Inr (raw, strs) \<Rightarrow> (case decodeWorkflowParams raw of
        Inl e \<Rightarrow> None | Inr ms \<Rightarrow> map_option (\<lambda>j. stringifyJSON (PJson j)) (map_of ms n)))"

text \<open>The two scopes do not always render a number alike: \<open>1e21\<close> is substituted in full by the
  agent scope and in exponent form by the workflow scope, while \<open>25\<close> is the same in both.\<close>

theorem scopes_render_differently:
  "agentRendering ''n'' ''1e21'' = Some ''1000000000000000000000''
   \<and> workflowRendering ''n'' ''1e21'' = Some ''1e+21''
   \<and> agentRendering ''n'' ''25'' = Some ''25'' \<and> workflowRendering ''n'' ''25'' = Some ''25''"
  by code_simp

end
