(* ===== verification/Verification.thy ===== *)
theory Verification
  imports ApiTypes Json
begin

text \<open>
  The harness's verification record and the Verified condition
  (src/internal/controller/verification.go): the controller reads one closed enumeration out of an
  otherwise opaque JSON blob and maps it onto a condition. The mapping is asymmetric on purpose:
  only an explicit \<open>passed\<close> gives True.
\<close>

section \<open>Data\<close>

definition harnessVerificationPassed :: string where "harnessVerificationPassed = ''passed''"
definition harnessVerificationFailed :: string where "harnessVerificationFailed = ''failed''"
definition harnessVerificationNotRun :: string where "harnessVerificationNotRun = ''notRun''"
definition harnessVerificationIncomplete :: string where
  "harnessVerificationIncomplete = ''incomplete''"

lemmas harness_statuses = harnessVerificationPassed_def harnessVerificationFailed_def
  harnessVerificationNotRun_def harnessVerificationIncomplete_def

definition verificationVerdictMaxRunes :: nat where "verificationVerdictMaxRunes = 512"
definition verificationCommitRunes :: nat where "verificationCommitRunes = 12"

definition evidencePointer :: string where
  "evidencePointer =
     ''status.terminationData.verification.commands records each command and its exit code''"

record harnessVerification =
  hv_status :: string
  hv_reason :: string
  hv_commit :: string

section \<open>Reading the blob\<close>

text \<open>
  \<open>json.Unmarshal\<close> into the \<open>verification\<close> object: members are applied in order, the last one
  wins; a member of the wrong type makes the whole decode an error, recorded as \<open>None\<close>.
\<close>

fun intoVerification ::
  "harnessVerification \<Rightarrow> (string \<times> json) list \<Rightarrow> harnessVerification option" where
  "intoVerification v [] = Some v"
| "intoVerification v ((k, j) # ms) =
     (if fieldMatches ''status'' k then
        (case intoString (hv_status v) j of None \<Rightarrow> None
         | Some s \<Rightarrow> intoVerification (v\<lparr>hv_status := s\<rparr>) ms)
      else if fieldMatches ''reason'' k then
        (case intoString (hv_reason v) j of None \<Rightarrow> None
         | Some s \<Rightarrow> intoVerification (v\<lparr>hv_reason := s\<rparr>) ms)
      else if fieldMatches ''commit'' k then
        (case intoString (hv_commit v) j of None \<Rightarrow> None
         | Some s \<Rightarrow> intoVerification (v\<lparr>hv_commit := s\<rparr>) ms)
      else intoVerification v ms)"

definition emptyVerification :: harnessVerification where
  "emptyVerification = \<lparr>hv_status = [], hv_reason = [], hv_commit = []\<rparr>"

text \<open>The outer struct: a null pointer stays or becomes nil, an object decodes into the record
  that is already there.\<close>

fun intoTermination ::
  "harnessVerification option \<Rightarrow> (string \<times> json) list \<Rightarrow> harnessVerification option option" where
  "intoTermination v [] = Some v"
| "intoTermination v ((k, j) # ms) =
     (if fieldMatches ''verification'' k then
        (case j of
           JNull \<Rightarrow> intoTermination None ms
         | JObj inner \<Rightarrow>
             (case intoVerification (case v of None \<Rightarrow> emptyVerification | Some w \<Rightarrow> w) inner of
                None \<Rightarrow> None | Some w \<Rightarrow> intoTermination (Some w) ms)
         | _ \<Rightarrow> None)
      else intoTermination v ms)"

definition unmarshalTermination :: "string \<Rightarrow> harnessVerification option option" where
  "unmarshalTermination raw = (case jsonParse raw of
      Some (JObj ms) \<Rightarrow> intoTermination None ms
    | Some JNull \<Rightarrow> Some None
    | _ \<Rightarrow> None)"

definition harnessVerificationFrom :: "string option \<Rightarrow> harnessVerification option" where
  "harnessVerificationFrom td = (case td of None \<Rightarrow> None | Some raw \<Rightarrow>
     if raw = [] then None
     else (case unmarshalTermination raw of
         None \<Rightarrow> None
       | Some None \<Rightarrow> None
       | Some (Some v) \<Rightarrow> if hv_status v = [] then None else Some v))"

section \<open>The message\<close>

definition truncateRunesPlain :: "string \<Rightarrow> nat \<Rightarrow> string" where
  "truncateRunesPlain s n = (if length (runes s) \<le> n then s else concat (take n (runes s)))"

definition ellipsis :: string where
  "ellipsis = utf8 8230"

definition truncateRunes :: "string \<Rightarrow> nat \<Rightarrow> string" where
  "truncateRunes s n = (if length (runes s) \<le> n then s else concat (take n (runes s)) @ ellipsis)"

definition isHexByte :: "char \<Rightarrow> bool" where
  "isHexByte c = (hexVal c \<noteq> None)"

definition shortCommit :: "string \<Rightarrow> string" where
  "shortCommit sha0 = (let sha = trimSpace sha0 in
     if length sha < 7 \<or> length sha > 64 then []
     else if \<not> list_all isHexByte sha then []
     else truncateRunesPlain sha verificationCommitRunes)"

definition withDetail :: "string \<Rightarrow> harnessVerification \<Rightarrow> gofmt" where
  "withDetail summary v = (let c = shortCommit (hv_commit v); r = trimSpace (hv_reason v) in
     Lit (summary
       @ (if c \<noteq> [] then '' on commit '' @ c else [])
       @ (if r \<noteq> [] then '': '' @ truncateRunes r verificationVerdictMaxRunes else [])
       @ ''. '' @ evidencePointer))"

section \<open>The verdict\<close>

definition verificationVerdict :: "string option \<Rightarrow> cstatus \<times> string \<times> gofmt" where
  "verificationVerdict td = (case harnessVerificationFrom td of
     None \<Rightarrow> (CUnknown, AgentRunReasonVerificationNotReported,
       Lit ''The harness reported no verification result; this run's pushed tree was not independently checked'')
   | Some v \<Rightarrow>
     if hv_status v = harnessVerificationPassed then
       (CTrue, AgentRunReasonVerificationPassed,
        withDetail ''Every verification command in the run's plan ran and exited 0'' v)
     else if hv_status v = harnessVerificationFailed then
       (CFalse, AgentRunReasonVerificationFailed,
        withDetail ''A verification command in the run's plan did not pass'' v)
     else if hv_status v = harnessVerificationIncomplete then
       (CFalse, AgentRunReasonVerificationIncomplete,
        withDetail ''Verification of the run's plan could not be completed, so the pushed tree is not verified'' v)
     else if hv_status v = harnessVerificationNotRun then
       (CFalse, AgentRunReasonVerificationNotRun,
        withDetail ''No verification command ran, so the pushed tree is unverified'' v)
     else
       (CUnknown, AgentRunReasonVerificationNotReported,
        Fmt ''The harness reported an unrecognised verification status %q; this run's pushed tree cannot be treated as verified''
          [Lit (truncateRunes (hv_status v) verificationVerdictMaxRunes)]))"

definition setRunVerified :: "klib \<Rightarrow> AgentRun \<Rightarrow> string option \<Rightarrow> AgentRun" where
  "setRunVerified K run td = (case verificationVerdict td of (status, reason, message) \<Rightarrow>
     run\<lparr>run_status := (run_status run)\<lparr>st_conditions := setCond K (st_conditions (run_status run))
       (mkCond AgentRunConditionVerified status (m_generation (run_meta run)) reason message)\<rparr>\<rparr>)"

text \<open>The Verified verdict is True exactly when the blob decodes to a record whose status is
  \<open>passed\<close>; its reason is then \<open>VerificationPassed\<close>, and that reason never accompanies another
  status.\<close>

theorem verdict_true_iff_passed:
  "(fst (verificationVerdict td) = CTrue \<longleftrightarrow>
     (\<exists>v. harnessVerificationFrom td = Some v \<and> hv_status v = ''passed'')) \<and>
   (fst (snd (verificationVerdict td)) = ''VerificationPassed'' \<longleftrightarrow> fst (verificationVerdict td) = CTrue)"
  by (auto simp: verificationVerdict_def harness_statuses AgentRunReasonVerificationNotReported_def
      AgentRunReasonVerificationPassed_def AgentRunReasonVerificationFailed_def
      AgentRunReasonVerificationIncomplete_def AgentRunReasonVerificationNotRun_def
      split: option.splits)

lemma setRunVerified_frame [simp]:
  "run_spec (setRunVerified K run td) = run_spec run"
  "run_meta (setRunVerified K run td) = run_meta run"
  "run_phase (setRunVerified K run td) = run_phase run"
  "st_sandboxName (run_status (setRunVerified K run td)) = st_sandboxName (run_status run)"
  "st_startTime (run_status (setRunVerified K run td)) = st_startTime (run_status run)"
  "st_completionTime (run_status (setRunVerified K run td)) = st_completionTime (run_status run)"
  "st_terminationData (run_status (setRunVerified K run td)) = st_terminationData (run_status run)"
  by (simp_all add: setRunVerified_def split: prod.splits)

lemma st_conditions_setRunVerified:
  "st_conditions (run_status (setRunVerified K run td)) =
     setCond K (st_conditions (run_status run))
       (mkCond AgentRunConditionVerified (fst (verificationVerdict td)) (m_generation (run_meta run))
         (fst (snd (verificationVerdict td))) (snd (snd (verificationVerdict td))))"
  by (simp add: setRunVerified_def split: prod.splits)

end
