(* ===== verification/RunOutcome.thy ===== *)
theory RunOutcome
  imports Cluster Verification
begin

text \<open>
  From a Sandbox and its pod to the status of an AgentRun: the second half of
  src/internal/controller/agentrun_controller.go. The phase follows the agent process, the
  Succeeded condition carries the outcome, and a terminal status is derived from the agent
  container's exit code, falling back on the Sandbox's own reason.
\<close>

section \<open>Conditions\<close>

definition withPhase :: "AgentRunPhase \<Rightarrow> AgentRun \<Rightarrow> AgentRun" where
  "withPhase p run = run\<lparr>run_status := (run_status run)\<lparr>st_phase := p\<rparr>\<rparr>"

definition withCond :: "klib \<Rightarrow> condition \<Rightarrow> AgentRun \<Rightarrow> AgentRun" where
  "withCond K c run = run\<lparr>run_status := (run_status run)\<lparr>st_conditions :=
     setCond K (st_conditions (run_status run)) c\<rparr>\<rparr>"

definition setRunSucceeded :: "klib \<Rightarrow> AgentRun \<Rightarrow> cstatus \<Rightarrow> string \<Rightarrow> gofmt \<Rightarrow> AgentRun" where
  "setRunSucceeded K run status reason message =
     withCond K (mkCond AgentRunConditionSucceeded status (m_generation (run_meta run)) reason message) run"

section \<open>What a pod says\<close>

definition agentContainerName :: string where "agentContainerName = ''agent''"
definition sandboxConditionFinished :: string where "sandboxConditionFinished = ''Finished''"
definition sandboxFinishedReasonSucceeded :: string where
  "sandboxFinishedReasonSucceeded = ''PodSucceeded''"

definition harnessExitSucceeded :: int32 where "harnessExitSucceeded = 0"
definition harnessExitLimitReached :: int32 where "harnessExitLimitReached = 2"
definition harnessExitRefused :: int32 where "harnessExitRefused = 3"

lemmas harness_exits = harnessExitSucceeded_def harnessExitLimitReached_def harnessExitRefused_def

fun terminationIn :: "containerstatus list \<Rightarrow> terminated option" where
  "terminationIn [] = None"
| "terminationIn (cs # css) =
     (if cs_name cs = agentContainerName \<and> cs_terminated cs \<noteq> None then cs_terminated cs
      else terminationIn css)"

definition agentContainerTermination :: "pod option \<Rightarrow> terminated option" where
  "agentContainerTermination p = (case p of None \<Rightarrow> None | Some q \<Rightarrow> terminationIn (pod_statuses q))"

definition agentExitCode :: "pod option \<Rightarrow> int32 option" where
  "agentExitCode p = map_option t_exitCode (agentContainerTermination p)"

definition agentTerminationMessage :: "pod option \<Rightarrow> string" where
  "agentTerminationMessage p = (case agentContainerTermination p of None \<Rightarrow> [] | Some t \<Rightarrow> t_message t)"

text \<open>The first running container with a start time, whichever container it is.\<close>

fun runningSince :: "containerstatus list \<Rightarrow> instant option" where
  "runningSince [] = None"
| "runningSince (cs # css) = (case cs_running cs of
     Some t \<Rightarrow> if t \<noteq> zeroTime then Some t else runningSince css
   | None \<Rightarrow> runningSince css)"

definition podStartTime :: "pod option \<Rightarrow> instant \<Rightarrow> instant" where
  "podStartTime p fallback = (case p of None \<Rightarrow> fallback
     | Some q \<Rightarrow> (case runningSince (pod_statuses q) of Some t \<Rightarrow> t
         | None \<Rightarrow> (case pod_startTime q of Some t \<Rightarrow> t | None \<Rightarrow> fallback)))"

text \<open>
  \<open>int64(d.Seconds())\<close>: the whole seconds plus the rounded fraction, added in binary64 and
  truncated towards zero.
\<close>

definition truncSeconds :: "duration \<Rightarrow> int" where
  "truncSeconds d = (let a = \<bar>d\<bar>; sec = a div second; ns = a mod second;
       frac = (case round64 (Fract ns second) of Some x \<Rightarrow> x | None \<Rightarrow> 0);
       total = (case round64 (of_int sec + frac) of Some x \<Rightarrow> x | None \<Rightarrow> 0) in
     if d < 0 then - \<lfloor>total\<rfloor> else \<lfloor>total\<rfloor>)"

definition stampCompletion :: "instant \<Rightarrow> AgentRun \<Rightarrow> pod option \<Rightarrow> sandbox \<Rightarrow> AgentRun" where
  "stampCompletion now run p sb =
     (let start = (case st_startTime (run_status run) of Some t \<Rightarrow> t | None \<Rightarrow> podStartTime p (sb_created sb)) in
      run\<lparr>run_status := (run_status run)\<lparr>st_completionTime := Some now, st_startTime := Some start,
        st_duration := Some (truncSeconds (timeSub now start))\<rparr>\<rparr>)"

text \<open>Container states the kubelet will not leave by itself.\<close>

definition fatalWaitingReasons :: "string list" where
  "fatalWaitingReasons = [''ImagePullBackOff'', ''InvalidImageName'', ''CreateContainerConfigError'',
     ''CrashLoopBackOff'']"

fun fatalWaiting :: "containerstatus list \<Rightarrow> (string \<times> gofmt) option" where
  "fatalWaiting [] = None"
| "fatalWaiting (cs # css) = (case cs_waiting cs of
     None \<Rightarrow> fatalWaiting css
   | Some w \<Rightarrow>
       if w_reason w \<notin> set fatalWaitingReasons then fatalWaiting css
       else let msg = Fmt ''container %q is stuck on %s'' [Lit (cs_name cs), Lit (w_reason w)] in
         Some (w_reason w, if w_message w \<noteq> [] then Fmt ''%s: %s'' [msg, Lit (w_message w)] else msg))"

definition podStartupProblem :: "pod option \<Rightarrow> (string \<times> gofmt) option" where
  "podStartupProblem p = (case p of None \<Rightarrow> None
     | Some q \<Rightarrow> fatalWaiting (pod_initStatuses q @ pod_statuses q))"

fun podPhaseString :: "podphase \<Rightarrow> string" where
  "podPhaseString PodPending = ''Pending''"
| "podPhaseString PodRunning = ''Running''"
| "podPhaseString PodSucceeded = ''Succeeded''"
| "podPhaseString PodFailed = ''Failed''"
| "podPhaseString PodUnknown = ''Unknown''"

definition podStartupDetail :: "pod option \<Rightarrow> gofmt" where
  "podStartupDetail p = (case p of None \<Rightarrow> Lit ''pod not created yet''
     | Some q \<Rightarrow>
       (case find (\<lambda>c. pc_type c = ''PodScheduled'' \<and> pc_status c = CFalse \<and> pc_reason c = ''Unschedulable'')
          (pod_conditions q) of
         Some c \<Rightarrow> if pc_message c \<noteq> [] then Fmt ''unschedulable: %s'' [Lit (pc_message c)]
                   else Lit ''unschedulable''
       | None \<Rightarrow>
         (case find (\<lambda>cs. case cs_waiting cs of None \<Rightarrow> False | Some w \<Rightarrow> w_reason w \<noteq> [])
            (pod_initStatuses q @ pod_statuses q) of
           Some cs \<Rightarrow> Fmt ''container %q: %s'' [Lit (cs_name cs),
             Lit (case cs_waiting cs of None \<Rightarrow> [] | Some w \<Rightarrow> w_reason w)]
         | None \<Rightarrow> Fmt ''pod phase %s'' [Lit (podPhaseString (pod_phase q))])))"

definition effectiveStartupDeadline :: "AgentRunReconciler \<Rightarrow> AgentRun \<Rightarrow> duration option" where
  "effectiveStartupDeadline R run =
     (case rs_startupDeadlineSeconds (run_spec run) of
        Some n \<Rightarrow> if 0 < sint n then Some (secondsOf n)
          else (case rr_defaultStartupDeadline R of Some d \<Rightarrow> if 0 < d then Some d else None | None \<Rightarrow> None)
      | None \<Rightarrow> (case rr_defaultStartupDeadline R of Some d \<Rightarrow> if 0 < d then Some d else None | None \<Rightarrow> None))"

text \<open>
  \<open>json.Unmarshal\<close> into \<open>map[string]any\<close> succeeds on an object whose numbers fit a float64, and
  on null.
\<close>

definition decodesToMap :: "string \<Rightarrow> bool" where
  "decodesToMap s = (case jsonParse s of Some (JObj ms) \<Rightarrow> anyOK (JObj ms) | Some JNull \<Rightarrow> True | _ \<Rightarrow> False)"

definition terminationDataFromPod :: "pod option \<Rightarrow> string option" where
  "terminationDataFromPod p = (case agentContainerTermination p of None \<Rightarrow> None
     | Some t \<Rightarrow> if t_message t = [] then None
         else if decodesToMap (t_message t) then Some (t_message t) else None)"

section \<open>The terminal outcome\<close>

definition setTerminalOutcome ::
  "klib \<Rightarrow> AgentRun \<Rightarrow> pod option \<Rightarrow> string \<Rightarrow> string \<Rightarrow> AgentRun" where
  "setTerminalOutcome K run p sandboxReason failureMessage =
     (let exit = agentExitCode p in
      if exit = Some harnessExitLimitReached then
        setRunSucceeded K (withPhase PhaseFailed run) CFalse AgentRunReasonLimitReached
          (Lit ''Execution limit reached; the agent committed a handoff'')
      else if exit = Some harnessExitRefused then
        setRunSucceeded K (withPhase PhaseFailed run) CFalse AgentRunReasonRefused
          (Lit ''The agent's handoff records that the stage did not do its work; .konveyor/handoff.md on the run's branch says why'')
      else if exit = Some harnessExitSucceeded \<or> (exit = None \<and> sandboxReason = sandboxFinishedReasonSucceeded) then
        setRunSucceeded K (withPhase PhaseSucceeded run) CTrue AgentRunReasonSucceeded
          (Lit ''Agent run completed successfully'')
      else
        setRunSucceeded K (withPhase PhaseFailed run) CFalse AgentRunReasonFailed
          (if failureMessage \<noteq> [] then Lit failureMessage
           else (case exit of Some n \<Rightarrow> Fmt ''Agent exited with code %d'' [Num (sint n)]
              | None \<Rightarrow> Fmt ''Sandbox finished with reason: %s'' [Lit sandboxReason])))"

definition terminalPod :: "AgentRunReconciler \<Rightarrow> pod option \<Rightarrow> sandbox \<Rightarrow> pod option" where
  "terminalPod R cached sb =
     (case rr_apiReader R of
        None \<Rightarrow> cached
      | Some rd \<Rightarrow>
          if agentContainerTermination cached \<noteq> None then cached
          else (case rdPod rd (keyOf (sb_meta sb)) of
              Inl e \<Rightarrow> cached
            | Inr fresh \<Rightarrow>
                if agentContainerTermination (Some fresh) = None \<and> cached \<noteq> None then cached
                else Some fresh))"

section \<open>Following the Sandbox\<close>

definition acpPort :: int where "acpPort = 4000"

definition acpReadyCondition :: "klib \<Rightarrow> AgentRun \<Rightarrow> sandbox \<Rightarrow> condition" where
  "acpReadyCondition K run sb =
     (let gen = m_generation (run_meta run);
          wait = Fmt ''Waiting for Sandbox %q to become Ready'' [Lit (m_name (sb_meta sb))];
          notListening = (\<lambda>m. mkCond AgentRunConditionACPReady CFalse gen ''NotListening'' m) in
      case findCond K (sb_conditions sb) ''Ready'' of
        None \<Rightarrow> notListening wait
      | Some ready \<Rightarrow>
          if c_status ready = CTrue then
            mkCond AgentRunConditionACPReady CTrue gen ''Listening''
              (Fmt ''ACP endpoint %s.%s.svc:%d accepts connections''
                [Lit (m_name (sb_meta sb)), Lit (m_namespace (sb_meta sb)), Num acpPort])
          else if \<not> emptyMsg (c_message ready) then
            notListening (Fmt ''%s: %s'' [wait, c_message ready])
          else notListening wait)"

definition finishedCondition :: "sandbox \<Rightarrow> condition option" where
  "finishedCondition sb =
     find (\<lambda>c. c_type c = sandboxConditionFinished \<and> c_status c = CTrue) (sb_conditions sb)"

text \<open>The Sandbox reports Finished: the terminal facts, all read off one pod.\<close>

definition finishRun :: "AgentRunReconciler \<Rightarrow> AgentRun \<Rightarrow> sandbox \<Rightarrow> pod option \<Rightarrow> condition \<Rightarrow> AgentRun" where
  "finishRun R run sb cached cond =
     (let K = rr_lib R;
          p = terminalPod R cached sb;
          run1 = stampCompletion (rr_now R) run p sb;
          run2 = withCond K (mkCond AgentRunConditionACPReady CFalse (m_generation (run_meta run)) ''Finished''
            (Lit ''The run has finished; its ACP endpoint is gone'')) run1;
          run3 = (case terminationDataFromPod p of None \<Rightarrow> run2
            | Some td \<Rightarrow> run2\<lparr>run_status := (run_status run2)\<lparr>st_terminationData := Some td\<rparr>\<rparr>);
          run4 = setRunVerified K run3 (st_terminationData (run_status run3)) in
      setTerminalOutcome K run4 p (c_reason cond) (agentTerminationMessage p))"

text \<open>The pod is not running yet: Pending, or Failed once the startup deadline has passed.\<close>

definition awaitPod :: "AgentRunReconciler \<Rightarrow> AgentRun \<Rightarrow> sandbox \<Rightarrow> pod option \<Rightarrow> AgentRun \<times> duration" where
  "awaitPod R run sb p =
     (let K = rr_lib R;
          pending = setRunSucceeded K (withPhase PhasePending run) CUnknown ''PodNotRunning''
            (Fmt ''Waiting for sandbox pod %q to run (%s)'' [Lit (m_name (sb_meta sb)), podStartupDetail p]) in
      case effectiveStartupDeadline R run of
        None \<Rightarrow> (pending, 0)
      | Some deadline \<Rightarrow>
          (let remaining = wrap64 (deadline - timeSub (rr_now R) (sb_created sb)) in
           if remaining \<le> 0 then
             (setRunSucceeded K (stampCompletion (rr_now R) (withPhase PhaseFailed run) p sb) CFalse
                AgentRunReasonStartupDeadlineExceeded
                (Fmt ''Pod %q did not reach a running state within %s: %s''
                  [Lit (m_name (sb_meta sb)), Num deadline, podStartupDetail p]), 0)
           else (pending, remaining)))"

definition updatePhaseFromSandbox ::
  "AgentRunReconciler \<Rightarrow> AgentRun \<Rightarrow> sandbox \<Rightarrow> pod option \<Rightarrow> AgentRun \<times> duration" where
  "updatePhaseFromSandbox R run sb p =
     (case finishedCondition sb of
        Some cond \<Rightarrow> (finishRun R run sb p cond, 0)
      | None \<Rightarrow>
          (let K = rr_lib R; run1 = withCond K (acpReadyCondition K run sb) run in
           if run_phase run1 = PhaseRunning then (run1, 0)
           else (case podStartupProblem p of
               Some (reason, message) \<Rightarrow>
                 (setRunSucceeded K (stampCompletion (rr_now R) (withPhase PhaseFailed run1) p sb) CFalse reason message, 0)
             | None \<Rightarrow>
                 if (case p of None \<Rightarrow> True | Some q \<Rightarrow> pod_phase q \<noteq> PodRunning) then awaitPod R run1 sb p
                 else
                   (let run2 = withPhase PhaseRunning run1;
                        run3 = run2\<lparr>run_status := (run_status run2)\<lparr>st_startTime :=
                          Some (podStartTime p (sb_created sb))\<rparr>\<rparr> in
                    (setRunSucceeded K run3 CUnknown AgentRunReasonRunning (Lit ''Agent is running''), 0)))))"

section \<open>Frame facts\<close>

lemma withPhase_simps [simp]:
  "run_phase (withPhase p run) = p"
  "run_spec (withPhase p run) = run_spec run" "run_meta (withPhase p run) = run_meta run"
  "st_conditions (run_status (withPhase p run)) = st_conditions (run_status run)"
  "st_sandboxName (run_status (withPhase p run)) = st_sandboxName (run_status run)"
  "st_startTime (run_status (withPhase p run)) = st_startTime (run_status run)"
  "st_completionTime (run_status (withPhase p run)) = st_completionTime (run_status run)"
  "st_terminationData (run_status (withPhase p run)) = st_terminationData (run_status run)"
  "st_secretKeyRef (run_status (withPhase p run)) = st_secretKeyRef (run_status run)"
  by (simp_all add: withPhase_def)

lemma withCond_simps [simp]:
  "run_phase (withCond K c run) = run_phase run"
  "run_spec (withCond K c run) = run_spec run" "run_meta (withCond K c run) = run_meta run"
  "st_conditions (run_status (withCond K c run)) = setCond K (st_conditions (run_status run)) c"
  "st_sandboxName (run_status (withCond K c run)) = st_sandboxName (run_status run)"
  "st_startTime (run_status (withCond K c run)) = st_startTime (run_status run)"
  "st_completionTime (run_status (withCond K c run)) = st_completionTime (run_status run)"
  "st_terminationData (run_status (withCond K c run)) = st_terminationData (run_status run)"
  "st_secretKeyRef (run_status (withCond K c run)) = st_secretKeyRef (run_status run)"
  by (simp_all add: withCond_def)

lemma setRunSucceeded_simps [simp]:
  "run_phase (setRunSucceeded K run s r m) = run_phase run"
  "run_spec (setRunSucceeded K run s r m) = run_spec run"
  "run_meta (setRunSucceeded K run s r m) = run_meta run"
  "st_conditions (run_status (setRunSucceeded K run s r m)) = setCond K (st_conditions (run_status run))
     (mkCond AgentRunConditionSucceeded s (m_generation (run_meta run)) r m)"
  "st_sandboxName (run_status (setRunSucceeded K run s r m)) = st_sandboxName (run_status run)"
  "st_startTime (run_status (setRunSucceeded K run s r m)) = st_startTime (run_status run)"
  "st_completionTime (run_status (setRunSucceeded K run s r m)) = st_completionTime (run_status run)"
  "st_terminationData (run_status (setRunSucceeded K run s r m)) = st_terminationData (run_status run)"
  "st_secretKeyRef (run_status (setRunSucceeded K run s r m)) = st_secretKeyRef (run_status run)"
  by (simp_all add: setRunSucceeded_def)

lemma stampCompletion_simps [simp]:
  "run_phase (stampCompletion now run p sb) = run_phase run"
  "run_spec (stampCompletion now run p sb) = run_spec run"
  "run_meta (stampCompletion now run p sb) = run_meta run"
  "st_conditions (run_status (stampCompletion now run p sb)) = st_conditions (run_status run)"
  "st_sandboxName (run_status (stampCompletion now run p sb)) = st_sandboxName (run_status run)"
  "st_completionTime (run_status (stampCompletion now run p sb)) = Some now"
  "st_startTime (run_status (stampCompletion now run p sb)) \<noteq> None"
  "st_terminationData (run_status (stampCompletion now run p sb)) = st_terminationData (run_status run)"
  "st_secretKeyRef (run_status (stampCompletion now run p sb)) = st_secretKeyRef (run_status run)"
  by (simp_all add: stampCompletion_def Let_def)

lemma c_type_acpReadyCondition [simp]:
  "c_type (acpReadyCondition K run sb) = AgentRunConditionACPReady"
  by (simp add: acpReadyCondition_def Let_def split: option.splits)

section \<open>Phase and condition agree\<close>

definition condStatus :: "klib \<Rightarrow> string \<Rightarrow> AgentRun \<Rightarrow> cstatus option" where
  "condStatus K t run = map_option c_status (findCond K (st_conditions (run_status run)) t)"

definition condReason :: "klib \<Rightarrow> string \<Rightarrow> AgentRun \<Rightarrow> string option" where
  "condReason K t run = map_option c_reason (findCond K (st_conditions (run_status run)) t)"

text \<open>The Succeeded condition a phase comes with.\<close>

fun outcomeStatus :: "AgentRunPhase \<Rightarrow> cstatus option \<Rightarrow> bool" where
  "outcomeStatus PhaseSucceeded s = (s = Some CTrue)"
| "outcomeStatus PhaseFailed s = (s = Some CFalse)"
| "outcomeStatus _ s = (s = None \<or> s = Some CUnknown)"

definition consistent :: "klib \<Rightarrow> AgentRun \<Rightarrow> bool" where
  "consistent K run = outcomeStatus (run_phase run) (condStatus K AgentRunConditionSucceeded run)"

context condition_store
begin

lemma condStatus_setRunSucceeded [simp]:
  "condStatus K AgentRunConditionSucceeded (setRunSucceeded K run s r m) = Some s"
  "condReason K AgentRunConditionSucceeded (setRunSucceeded K run s r m) = Some r"
  by (simp_all add: condStatus_def condReason_def find_mkCond)

lemma condStatus_withCond:
  "condStatus K t (withCond K c run) = (if t = c_type c then Some (c_status c) else condStatus K t run)"
  by (simp add: condStatus_def find_set)

lemma condStatus_setRunSucceeded_other:
  "t \<noteq> AgentRunConditionSucceeded \<Longrightarrow> condStatus K t (setRunSucceeded K run s r m) = condStatus K t run"
  by (simp add: condStatus_def find_mkCond)

lemma condStatus_frames [simp]:
  "condStatus K t (withPhase p run) = condStatus K t run"
  "condStatus K t (stampCompletion now run q sb) = condStatus K t run"
  by (simp_all add: condStatus_def)

lemma condStatus_setRunVerified:
  "condStatus K t (setRunVerified K run td) =
     (if t = AgentRunConditionVerified then Some (fst (verificationVerdict td)) else condStatus K t run)"
  by (simp add: condStatus_def st_conditions_setRunVerified find_mkCond)

lemma consistent_setTerminalOutcome: "consistent K (setTerminalOutcome K run p sr fm)"
  by (simp add: consistent_def setTerminalOutcome_def Let_def)

lemma setTerminalOutcome_terminal: "isTerminalPhase (run_phase (setTerminalOutcome K run p sr fm))"
  by (simp add: setTerminalOutcome_def Let_def isTerminalPhase_def)

lemma consistent_awaitPod:
  "rr_lib R = K \<Longrightarrow> consistent K (fst (awaitPod R run sb p))"
  by (simp add: consistent_def awaitPod_def Let_def split: option.splits)

lemma consistent_updatePhase:
  assumes "rr_lib R = K" "consistent K run"
  shows "consistent K (fst (updatePhaseFromSandbox R run sb p))"
proof (cases "finishedCondition sb")
  case None
  have "condStatus K AgentRunConditionSucceeded (withCond K (acpReadyCondition K run sb) run)
      = condStatus K AgentRunConditionSucceeded run"
    by (simp add: condStatus_withCond condition_types)
  with assms None show ?thesis
    by (auto simp: updatePhaseFromSandbox_def Let_def consistent_awaitPod
        consistent_def[of K "setRunSucceeded _ _ _ _ _"] split: option.splits)
      (simp_all add: consistent_def)
qed (simp add: updatePhaseFromSandbox_def finishRun_def Let_def assms consistent_setTerminalOutcome)

end

section \<open>The finished run\<close>

lemma setTerminalOutcome_phase:
  "run_phase (setTerminalOutcome K run p sr fm) = PhaseSucceeded \<longleftrightarrow>
     agentExitCode p = Some 0 \<or> agentExitCode p = None \<and> sr = ''PodSucceeded''"
  by (auto simp: setTerminalOutcome_def Let_def harness_exits sandboxFinishedReasonSucceeded_def)

text \<open>The reason a finished run reports for each exit code.\<close>

definition exitReason :: "int32 option \<Rightarrow> string \<Rightarrow> string" where
  "exitReason exit sandboxReason = (case exit of
      Some n \<Rightarrow> if n = 0 then ''Succeeded'' else if n = 2 then ''LimitReached''
        else if n = 3 then ''Refused'' else ''Failed''
    | None \<Rightarrow> if sandboxReason = ''PodSucceeded'' then ''Succeeded'' else ''Failed'')"

context condition_store
begin

lemma setTerminalOutcome_reason:
  "condReason K AgentRunConditionSucceeded (setTerminalOutcome K run p sr fm) =
     Some (exitReason (agentExitCode p) sr)"
  by (auto simp: setTerminalOutcome_def Let_def harness_exits sandboxFinishedReasonSucceeded_def
      exitReason_def AgentRunReasonSucceeded_def AgentRunReasonFailed_def
      AgentRunReasonLimitReached_def AgentRunReasonRefused_def split: option.splits)

lemma setTerminalOutcome_other:
  "t \<noteq> AgentRunConditionSucceeded \<Longrightarrow>
   condStatus K t (setTerminalOutcome K run p sr fm) = condStatus K t run"
  by (simp add: setTerminalOutcome_def Let_def condStatus_setRunSucceeded_other)

end

lemma setTerminalOutcome_frame [simp]:
  "st_sandboxName (run_status (setTerminalOutcome K run p sr fm)) = st_sandboxName (run_status run)"
  "st_startTime (run_status (setTerminalOutcome K run p sr fm)) = st_startTime (run_status run)"
  "st_completionTime (run_status (setTerminalOutcome K run p sr fm)) = st_completionTime (run_status run)"
  "st_terminationData (run_status (setTerminalOutcome K run p sr fm)) = st_terminationData (run_status run)"
  "run_spec (setTerminalOutcome K run p sr fm) = run_spec run"
  "run_meta (setTerminalOutcome K run p sr fm) = run_meta run"
  by (simp_all add: setTerminalOutcome_def Let_def)

text \<open>The blob a finished run keeps: the pod's, else the one already recorded.\<close>

definition finalData :: "AgentRunReconciler \<Rightarrow> AgentRun \<Rightarrow> sandbox \<Rightarrow> pod option \<Rightarrow> string option" where
  "finalData R run sb p = (case terminationDataFromPod (terminalPod R p sb) of
      Some td \<Rightarrow> Some td | None \<Rightarrow> st_terminationData (run_status run))"

lemma finishRun_data: "st_terminationData (run_status (finishRun R run sb p cond)) = finalData R run sb p"
  by (simp add: finishRun_def finalData_def Let_def split: option.splits)

lemma finishRun_frame [simp]:
  "run_spec (finishRun R run sb p cond) = run_spec run"
  "run_meta (finishRun R run sb p cond) = run_meta run"
  "st_sandboxName (run_status (finishRun R run sb p cond)) = st_sandboxName (run_status run)"
  "st_completionTime (run_status (finishRun R run sb p cond)) = Some (rr_now R)"
  by (simp_all add: finishRun_def Let_def split: option.splits)

lemma finishRun_startTime [simp]: "st_startTime (run_status (finishRun R run sb p cond)) \<noteq> None"
  by (simp add: finishRun_def Let_def split: option.split del: not_None_eq)

lemma finishRun_phase:
  "run_phase (finishRun R run sb p cond) = PhaseSucceeded \<longleftrightarrow>
     agentExitCode (terminalPod R p sb) = Some 0
     \<or> agentExitCode (terminalPod R p sb) = None \<and> c_reason cond = ''PodSucceeded''"
  by (simp add: finishRun_def Let_def setTerminalOutcome_phase)

lemma finishRun_terminal: "isTerminalPhase (run_phase (finishRun R run sb p cond))"
  by (simp add: finishRun_def Let_def setTerminalOutcome_def isTerminalPhase_def)

lemma finishRun_verified:
  assumes "condition_store (rr_lib R)"
  shows "condStatus (rr_lib R) AgentRunConditionVerified (finishRun R run sb p cond)
     = Some (fst (verificationVerdict (finalData R run sb p)))"
  using condition_store.condStatus_setRunVerified[OF assms]
    condition_store.setTerminalOutcome_other[OF assms]
  by (simp add: finishRun_def finalData_def Let_def condition_types split: option.splits)

lemma finishRun_reason:
  assumes "condition_store (rr_lib R)"
  shows "condReason (rr_lib R) AgentRunConditionSucceeded (finishRun R run sb p cond)
     = Some (exitReason (agentExitCode (terminalPod R p sb)) (c_reason cond))"
  by (simp add: finishRun_def Let_def condition_store.setTerminalOutcome_reason[OF assms])



text \<open>A pod cache that lags behind the Sandbox loses nothing. When the uncached read shows the
  terminated agent container, a cached pod that does not (or no cached pod at all) leads to the
  same terminal status as the fresh one.\<close>

theorem cache_lag_harmless:
  assumes "finishedCondition sb = Some cond" and "rr_apiReader R = Some rd"
    and "rdPod rd (keyOf (sb_meta sb)) = Inr fresh"
    and "agentContainerTermination (Some fresh) = Some t"
    and "agentContainerTermination cached = None"
  shows "updatePhaseFromSandbox R run sb cached = updatePhaseFromSandbox R run sb (Some fresh)"
  using assms by (simp add: updatePhaseFromSandbox_def finishRun_def terminalPod_def)

theorem cache_lag_harmless_witness:
  "let sb = sampleSandbox [mkCond ''Finished'' CTrue 0 ''PodFailed'' (Lit [])];
       R = quietReconciler\<lparr>rr_apiReader := Some sampleReader\<rparr> in
   updatePhaseFromSandbox R sampleRun sb None = updatePhaseFromSandbox R sampleRun sb (Some (samplePod 2 []))"
  unfolding Let_def
  by (rule cache_lag_harmless[where rd = sampleReader
        and cond = "mkCond ''Finished'' CTrue 0 ''PodFailed'' (Lit [])" and t = "\<lparr>t_exitCode = 2, t_message = []\<rparr>"])
    (simp_all add: sample_defs finishedCondition_def sandboxConditionFinished_def
      agentContainerTermination_def agentContainerName_def)

section \<open>The startup deadline\<close>

lemma deadline_range:
  assumes "effectiveStartupDeadline R run = Some d" "\<forall>x. rr_defaultStartupDeadline R = Some x \<longrightarrow> x < 2 ^ 63"
  shows "0 < d \<and> d < 2 ^ 63"
proof -
  have "secondsOf n < 2 ^ 63" for n using sint32_bounds[of n] by (simp add: secondsOf_exact)
  with assms show ?thesis
    by (auto simp: effectiveStartupDeadline_def secondsOf_exact split: option.splits if_splits)
qed

lemma remaining_exact:
  "0 < d \<Longrightarrow> d < 2 ^ 63 \<Longrightarrow> c \<le> n \<Longrightarrow> n - c < 2 ^ 63 \<Longrightarrow> wrap64 (d - timeSub n c) = d - (n - c)"
  by (subst wrap64_id) (auto simp: timeSub_def sat64_def)

text \<open>A run whose pod is not running is failed with StartupDeadlineExceeded exactly when its
  deadline has passed since the Sandbox was created, and is otherwise Pending and looked at again
  exactly at the deadline; without a deadline it stays Pending. The deadline is the run's own, when
  positive, else the controller's default, and an \<open>int32\<close> of seconds never overflows a duration.\<close>

theorem startup_deadline:
  assumes "condition_store (rr_lib R)" and "sb_created sb \<le> rr_now R"
    and "rr_now R - sb_created sb < 2 ^ 63"
    and "\<forall>x. rr_defaultStartupDeadline R = Some x \<longrightarrow> x < 2 ^ 63"
  shows "case effectiveStartupDeadline R run of
      None \<Rightarrow> run_phase (fst (awaitPod R run sb p)) = PhasePending \<and> snd (awaitPod R run sb p) = 0
    | Some d \<Rightarrow>
        (if sb_created sb + d \<le> rr_now R
         then run_phase (fst (awaitPod R run sb p)) = PhaseFailed
            \<and> condReason (rr_lib R) ''Succeeded'' (fst (awaitPod R run sb p)) = Some ''StartupDeadlineExceeded''
            \<and> snd (awaitPod R run sb p) = 0
         else run_phase (fst (awaitPod R run sb p)) = PhasePending
            \<and> rr_now R + snd (awaitPod R run sb p) = sb_created sb + d)"
proof (cases "effectiveStartupDeadline R run")
  case (Some d)
  have "wrap64 (d - timeSub (rr_now R) (sb_created sb)) = d - (rr_now R - sb_created sb)"
    using deadline_range[OF Some assms(4)] assms(2,3) by (intro remaining_exact) auto
  with Some condition_store.condStatus_setRunSucceeded(2)[OF assms(1)] show ?thesis
    by (simp add: awaitPod_def Let_def AgentRunReasonStartupDeadlineExceeded_def
        AgentRunConditionSucceeded_def)
qed (simp add: awaitPod_def Let_def)

theorem startup_deadline_witness:
  "let R = quietReconciler\<lparr>rr_now := 31000000000\<rparr> in
   run_phase (fst (awaitPod R sampleRun (sampleSandbox []) None)) = PhaseFailed
   \<and> condReason refK ''Succeeded'' (fst (awaitPod R sampleRun (sampleSandbox []) None))
       = Some ''StartupDeadlineExceeded''"
proof -
  define R where "R = quietReconciler\<lparr>rr_now := 31000000000\<rparr>"
  have lib: "rr_lib R = refK" by (simp add: R_def quietReconciler_def)
  have "effectiveStartupDeadline R sampleRun = Some 30000000000"
    by (simp add: R_def effectiveStartupDeadline_def sampleRun_def secondsOf_exact)
  with startup_deadline[of R "sampleSandbox []" sampleRun None] show ?thesis
    using refstore.condition_store_axioms
    by (simp add: lib Let_def flip: R_def) (simp add: R_def sample_defs)
qed

section \<open>The termination blob\<close>

text \<open>The termination message is recorded, byte for byte, exactly when the agent container
  terminated with a message that is a JSON object all of whose numbers fit a float64, or is JSON
  null.\<close>

theorem termination_data_iff:
  "terminationDataFromPod p = Some m \<longleftrightarrow>
     (\<exists>t. agentContainerTermination p = Some t \<and> t_message t = m \<and> m \<noteq> [] \<and>
        ((\<exists>ms. jsonParse m = Some (JObj ms) \<and> anyOK (JObj ms)) \<or> jsonParse m = Some JNull))"
  by (auto simp: terminationDataFromPod_def decodesToMap_def simp del: anyOK.simps
      split: option.splits json.splits)

end
