(* ===== verification/SandboxBuild.thy ===== *)
theory SandboxBuild
  imports Skills Params RunOutcome
begin

text \<open>
  From an AgentRun and its Agent to a Sandbox (the first half of
  src/internal/controller/agentrun_controller.go): validation of parameters and gateway, the
  environment of the agent container, and the objects \<open>createSandbox\<close> writes, in the order it
  writes them.
\<close>

section \<open>Validation\<close>

definition renderPromptAndInstructions ::
  "Agent \<Rightarrow> AgentRun \<Rightarrow> scopes \<Rightarrow> goerr + (string \<times> string)" where
  "renderPromptAndInstructions agent run scopes =
     (case substitute (as_prompt (ag_spec agent)) scopes of
        Inl e \<Rightarrow> Inl (wrapf ''prompt: %w'' [] e)
      | Inr prompt \<Rightarrow>
          (case substitute (rs_instructions (run_spec run)) scopes of
             Inl e \<Rightarrow> Inl (wrapf ''instructions: %w'' [] e)
           | Inr instructions \<Rightarrow> Inr (prompt, instructions)))"

definition validateParams :: "AgentRun \<Rightarrow> Agent \<Rightarrow> goerr + (paramsFile \<times> scopes)" where
  "validateParams run agent =
     (let decls = as_params (ag_spec agent); supplied = rs_params (run_spec run) in
      case find (\<lambda>v. pv_name v \<notin> p_name ` set decls) supplied of
        Some v \<Rightarrow> Inl (errorf ''param %q is not declared by Agent %q'' [Lit (pv_name v), Lit (m_name (ag_meta agent))])
      | None \<Rightarrow>
          (case find (\<lambda>p. p_required p \<and> p_default p = [] \<and> p_name p \<notin> pv_name ` set supplied) decls of
             Some p \<Rightarrow> Inl (errorf ''required param %q not supplied'' [Lit (p_name p)])
           | None \<Rightarrow>
               (case buildParams run agent of
                  Inl e \<Rightarrow> Inl e
                | Inr (params, scopes) \<Rightarrow>
                    (case renderPromptAndInstructions agent run scopes of
                       Inl e \<Rightarrow> Inl e
                     | Inr _ \<Rightarrow> Inr (params, scopes)))))"

definition withGateway :: "string \<Rightarrow> AgentRun \<Rightarrow> AgentRun" where
  "withGateway g run = run\<lparr>run_spec := (run_spec run)\<lparr>rs_gateway := g\<rparr>\<rparr>"

text \<open>The defaulted gateway is written to the run in memory, never to the API server.\<close>

definition validateGateway :: "AgentRun \<Rightarrow> Agent \<Rightarrow> goerr + AgentRun" where
  "validateGateway run agent =
     (let gws = as_gateways (ag_spec agent); name = Lit (m_name (ag_meta agent)) in
      if rs_gateway (run_spec run) = [] then
        (case gws of
           [g] \<Rightarrow> Inr (withGateway g run)
         | [] \<Rightarrow> Inl (errorf ''agent %q declares no gateways; select one via spec.gateway'' [name])
         | _ \<Rightarrow> Inl (errorf ''agent %q declares %d gateways; select one via spec.gateway'' [name, Num (int (length gws))]))
      else if gws = [] then Inr run
      else if rs_gateway (run_spec run) \<in> set gws then Inr run
      else Inl (errorf ''gateway %q is not in Agent %q gateways'' [Lit (rs_gateway (run_spec run)), name]))"

section \<open>Environment\<close>

definition gitAuthorNameEnv :: string where "gitAuthorNameEnv = ''KONVEYOR_GIT_AUTHOR_NAME''"
definition gitAuthorEmailEnv :: string where "gitAuthorEmailEnv = ''KONVEYOR_GIT_AUTHOR_EMAIL''"

definition resolveGitIdentity :: "Agent \<Rightarrow> AgentRun \<Rightarrow> string \<times> string" where
  "resolveGitIdentity agent run = (case rs_gitConfig (run_spec run) of
      Some gc \<Rightarrow> (gc_userName gc, gc_userEmail gc)
    | None \<Rightarrow> (case as_gitConfig (ag_spec agent) of
        Some gc \<Rightarrow> (gc_userName gc, gc_userEmail gc)
      | None \<Rightarrow> ([], [])))"

definition secretEnv :: "string \<Rightarrow> string \<Rightarrow> string \<Rightarrow> envvar" where
  "secretEnv n secret key = \<lparr>ev_name = n, ev_value = [], ev_from = Some (SecretKeyRef secret key)\<rparr>"

definition isReady :: "klib \<Rightarrow> condition list \<Rightarrow> bool" where
  "isReady K cs = (case findCond K cs ConditionTypeReady of None \<Rightarrow> False | Some c \<Rightarrow> c_status c = CTrue)"

text \<open>The gateway's variables, and its credential either as one variable or as a whole Secret.\<close>

definition gatewayEnv :: "AgentRunReconciler \<Rightarrow> AgentRun \<Rightarrow> goerr + (envvar list \<times> envfrom list)" where
  "gatewayEnv R run =
     (let g = rs_gateway (run_spec run) in
      if g = [] then Inr ([], [])
      else (case getGateway (rr_client R) (m_namespace (run_meta run), g) of
          Inl e \<Rightarrow> if isNotFound e
            then Inl \<lparr>ekind = GatewayNotFoundE, emsg = Fmt ''%w: %q'' [Lit ''selected gateway does not exist'', Lit g]\<rparr>
            else Inl (wrapf ''looking up Gateway %q: %w'' [Lit g] e)
        | Inr gw \<Rightarrow>
            if \<not> isReady (rr_lib R) (gws_conditions (gw_status gw))
            then Inl (errorf ''gateway %q is not Ready'' [Lit g])
            else (let spec = gw_spec gw; cred = gs_credentialRef spec;
                vars = [plainEnv ''KONVEYOR_LLM_PROVIDER'' (gs_provider spec),
                        plainEnv ''KONVEYOR_LLM_ENDPOINT'' (gs_endpoint spec),
                        plainEnv ''KONVEYOR_LLM_MODEL'' (gm_name (gs_model spec))] in
              if cr_key cred \<noteq> []
              then Inr (vars @ [secretEnv ''KONVEYOR_LLM_API_KEY'' (cr_secretName cred) (cr_key cred)], [])
              else Inr (vars, [EnvFromSecret (cr_secretName cred)]))))"

definition buildEnvVars :: "AgentRunReconciler \<Rightarrow> AgentRun \<Rightarrow> Agent \<Rightarrow> string \<Rightarrow> scopes \<Rightarrow>
    goerr + (envvar list \<times> envfrom list)" where
  "buildEnvVars R run agent acpSecretName scopes =
     (case renderPromptAndInstructions agent run scopes of
        Inl e \<Rightarrow> Inl e
      | Inr (prompt, instructions) \<Rightarrow>
          (case gatewayEnv R run of
             Inl e \<Rightarrow> Inl e
           | Inr (gwEnv, envFrom) \<Rightarrow>
               (let git = resolveGitIdentity agent run in
                Inr ([secretEnv ''KONVEYOR_ACP_SECRET_KEY'' acpSecretName ''secret-key'']
                  @ (if rs_instructions (run_spec run) \<noteq> [] then [plainEnv ''KONVEYOR_INSTRUCTIONS'' instructions] else [])
                  @ (if as_prompt (ag_spec agent) \<noteq> [] then [plainEnv ''KONVEYOR_PROMPT'' prompt] else [])
                  @ [plainEnv gitAuthorNameEnv (fst git), plainEnv gitAuthorEmailEnv (snd git)]
                  @ gwEnv
                  @ filter (\<lambda>e. ev_name e \<noteq> gitAuthorNameEnv \<and> ev_name e \<noteq> gitAuthorEmailEnv) (rs_env (run_spec run)),
                  envFrom))))"

section \<open>The objects of a run\<close>

definition secretKeyLength :: nat where "secretKeyLength = 32"

definition generateSecretKey :: "AgentRunReconciler \<Rightarrow> goerr + string" where
  "generateSecretKey R = (case rr_rand R secretKeyLength of Inl e \<Rightarrow> Inl e | Inr b \<Rightarrow> Inr (hexEncode b))"

definition paramsKey :: string where "paramsKey = ''params.json''"
definition paramsVolumeName :: string where "paramsVolumeName = ''konveyor-params''"

definition createParamsConfigMap :: "AgentRunReconciler \<Rightarrow> AgentRun \<Rightarrow> paramsFile \<Rightarrow> (volume \<times> volmount) act" where
  "createParamsConfigMap R run params =
     (let cmName = m_name (run_meta run) @ ''-params'' in
      bindE (wrapE ''rendering params.json: %w'' [] (liftE (renderParamsFile params)))
        (\<lambda>content.
           bindE (wrapE ''creating params ConfigMap: %w'' []
             (applyE (rr_client R) (m_namespace (run_meta run), cmName)
               (mutateConfigMap (rr_lib R) run [(paramsKey, content)])))
           (\<lambda>_. retE
             (\<lparr>v_name = paramsVolumeName,
               v_source = VConfigMap cmName [\<lparr>kp_key = paramsKey, kp_path = paramsKey, kp_mode = None\<rparr>]\<rparr>,
              \<lparr>vm_name = paramsVolumeName, vm_path = paramsDir, vm_subPath = [], vm_readOnly = True\<rparr>))))"

definition gi :: int where "gi = 1024 * 1024 * 1024"

definition emptyDir :: "string \<Rightarrow> int \<Rightarrow> volume" where
  "emptyDir n limit = \<lparr>v_name = n, v_source = VEmptyDir limit\<rparr>"

definition mountAt :: "string \<Rightarrow> string \<Rightarrow> bool \<Rightarrow> volmount" where
  "mountAt n p ro = \<lparr>vm_name = n, vm_path = p, vm_subPath = [], vm_readOnly = ro\<rparr>"

definition sandboxVolumes :: "AgentRun \<Rightarrow> skillSources \<Rightarrow> volume \<Rightarrow> volume list" where
  "sandboxVolumes run skillSrc paramsVolume =
     sk_volumes skillSrc @ [emptyDir ''skills'' gi, paramsVolume, emptyDir ''workspace'' (10 * gi), emptyDir ''tmp'' gi]
     @ fst (fileMountVolumes (rs_fileMounts (run_spec run)))"

definition agentMounts :: "AgentRun \<Rightarrow> volmount \<Rightarrow> volmount list" where
  "agentMounts run paramsMount =
     [mountAt ''skills'' skillsDir True, paramsMount, mountAt ''workspace'' workspaceDir False,
      mountAt ''tmp'' tmpDir False]
     @ snd (fileMountVolumes (rs_fileMounts (run_spec run)))"

definition loaderMounts :: "skillSources \<Rightarrow> volmount list" where
  "loaderMounts skillSrc = sk_mounts skillSrc @ [mountAt ''skills'' skillsDir False]"

definition labelComponent :: string where "labelComponent = ''app.kubernetes.io/component''"

definition agentContainer :: "AgentRun \<Rightarrow> Agent \<Rightarrow> envvar list \<Rightarrow> envfrom list \<Rightarrow> volmount list \<Rightarrow> container" where
  "agentContainer run agent env envFrom mounts =
     \<lparr>ct_name = agentContainerName, ct_image = as_image (ag_spec agent), ct_command = [], ct_args = [],
      ct_env = env, ct_envFrom = envFrom @ rs_envFrom (run_spec run), ct_mounts = mounts,
      ct_ports = [(''acp'', acpPort)], ct_readinessTCP = Some (acpPort, 2), ct_termFallbackToLogs = True\<rparr>"

definition sandboxObject :: "AgentRunReconciler \<Rightarrow> AgentRun \<Rightarrow> Agent \<Rightarrow> envvar list \<Rightarrow> envfrom list \<Rightarrow>
    skillSources \<Rightarrow> volume \<Rightarrow> volmount \<Rightarrow> sandbox" where
  "sandboxObject R run agent env envFrom skillSrc paramsVolume paramsMount =
     (let name = m_name (run_meta run); agentName = m_name (ag_meta agent) in
      \<lparr>sb_meta = newMeta name (m_namespace (run_meta run))
         [labelManagedBy \<mapsto> managedByLabel, labelComponent \<mapsto> ''agent-sandbox'', labelAgentRun \<mapsto> name,
          labelAgent \<mapsto> agentName],
       sb_podLabels = [labelManagedBy \<mapsto> managedByLabel, labelAgentRun \<mapsto> name, labelAgent \<mapsto> agentName],
       sb_restartNever = True,
       sb_init = [skillLoaderContainer (rr_skillLoaderImage R) skillSrc (loaderMounts skillSrc)],
       sb_containers = [agentContainer run agent env envFrom (agentMounts run paramsMount)],
       sb_volumes = sandboxVolumes run skillSrc paramsVolume,
       sb_service = True, sb_created = zeroTime, sb_conditions = []\<rparr>)"

text \<open>
  \<open>createSandbox\<close> after the ACP Secret exists: environment, params ConfigMap, skills, Sandbox.
\<close>

definition createSandboxObjects :: "AgentRunReconciler \<Rightarrow> AgentRun \<Rightarrow> Agent \<Rightarrow> paramsFile \<Rightarrow> scopes \<Rightarrow> string \<Rightarrow>
    string act" where
  "createSandboxObjects R run agent params scopes secretName =
     bindE (wrapE ''building env vars: %w'' [] (liftE (buildEnvVars R run agent secretName scopes)))
       (\<lambda>(env, envFrom).
     bindE (wrapE ''creating params ConfigMap: %w'' [] (createParamsConfigMap R run params))
       (\<lambda>(paramsVolume, paramsMount).
     bindE (wrapE ''resolving skill volumes: %w'' [] (liftE (resolveSkillVolumes R run agent)))
       (\<lambda>skillSrc.
     bindE (createInlineSkillConfigMaps R run (sk_inline skillSrc))
       (\<lambda>_.
     (let sb = sandboxObject R run agent env envFrom skillSrc paramsVolume paramsMount in
     bindE (wrapE ''setting Sandbox owner reference: %w'' [] (liftE (ownedByRun (rr_lib R) run (sb_meta sb))))
       (\<lambda>m.
     bindE (wrapE ''creating Sandbox: %w'' [] (createE (rr_client R) (CreateSandbox (sb\<lparr>sb_meta := m\<rparr>))))
       (\<lambda>_. retE (m_name (run_meta run)))))))))"

text \<open>
  The result also carries the run: once the Secret exists its name is on the status in memory, even
  when a later step fails.
\<close>

definition createSandbox :: "AgentRunReconciler \<Rightarrow> AgentRun \<Rightarrow> Agent \<Rightarrow> paramsFile \<Rightarrow> scopes \<Rightarrow>
    AgentRun \<times> string act" where
  "createSandbox R run agent params scopes =
     (let secretName = m_name (run_meta run) @ ''-acp-key'';
          prep = bindE (wrapE ''generating secret key: %w'' [] (liftE (generateSecretKey R))) (\<lambda>secretKey.
            bindE (wrapE ''setting Secret owner reference: %w'' []
              (liftE (ownedByRun (rr_lib R) run (newMeta secretName (m_namespace (run_meta run)) (runLabels run))))) (\<lambda>m.
            wrapE ''creating ACP Secret: %w'' []
              (createE (rr_client R) (CreateSecret \<lparr>sec_meta = m, sec_data = [(''secret-key'', secretKey)]\<rparr>)))) in
      case snd prep of
        Inl e \<Rightarrow> (run, (fst prep, Inl e))
      | Inr _ \<Rightarrow>
          (let run' = run\<lparr>run_status := (run_status run)\<lparr>st_secretKeyRef := Some secretName\<rparr>\<rparr> in
           (run', bindE prep (\<lambda>_. createSandboxObjects R run' agent params scopes secretName))))"

section \<open>Accepted parameters\<close>

text \<open>What a run has to supply: only declared parameters, every required one without a default,
  values of the declared types, stamped workflow parameters that decode, and no reference in prompt
  or instructions to anything else.\<close>

definition paramsAcceptable :: "AgentRun \<Rightarrow> Agent \<Rightarrow> bool" where
  "paramsAcceptable run agent \<longleftrightarrow>
     (let decls = as_params (ag_spec agent); supplied = rs_params (run_spec run) in
      set (map pv_name supplied) \<subseteq> set (map p_name decls)
      \<and> list_all (\<lambda>p. p_required p \<longrightarrow> p_default p \<noteq> [] \<or> p_name p \<in> set (map pv_name supplied)) decls
      \<and> list_all (coercible (suppliedValues supplied)) decls
      \<and> (\<exists>ms. decodeWorkflowParams (rs_workflowParams (run_spec run)) = Inr ms)
      \<and> refsDeclared agent run (as_prompt (ag_spec agent))
      \<and> refsDeclared agent run (rs_instructions (run_spec run)))"

lemma buildParams_ok_iff:
  "(\<exists>r. buildParams run agent = Inr r) \<longleftrightarrow>
     list_all (coercible (suppliedValues (rs_params (run_spec run)))) (as_params (ag_spec agent))
     \<and> (\<exists>ms. decodeWorkflowParams (rs_workflowParams (run_spec run)) = Inr ms)"
  using coerceLoop_ok[of "suppliedValues (rs_params (run_spec run))" "as_params (ag_spec agent)" "[]" "[]"]
  by (auto simp: buildParams_def coerceParams_def Let_def split: sum.splits)

lemma render_ok_iff:
  assumes "buildParams run agent = Inr (f, scopes)"
  shows "(\<exists>r. renderPromptAndInstructions agent run scopes = Inr r) \<longleftrightarrow>
     refsDeclared agent run (as_prompt (ag_spec agent))
     \<and> refsDeclared agent run (rs_instructions (run_spec run))"
  using buildParams_scopes[OF assms]
  by (fastforce simp: renderPromptAndInstructions_def split: sum.splits)

lemma validateParams_Inr_iff:
  "(\<exists>r. validateParams run agent = Inr r) \<longleftrightarrow> paramsAcceptable run agent"
proof (cases "buildParams run agent")
  case (Inl e)
  then have "\<not> (\<exists>r. buildParams run agent = Inr r)" by simp
  then show ?thesis unfolding buildParams_ok_iff
    using Inl by (auto simp: validateParams_def paramsAcceptable_def Let_def split: option.splits)
next
  case (Inr r)
  obtain f scopes where b: "buildParams run agent = Inr (f, scopes)" using Inr by (cases r) auto
  let ?F = "find (\<lambda>v. pv_name v \<notin> p_name ` set (as_params (ag_spec agent))) (rs_params (run_spec run))"
  let ?G = "find (\<lambda>p. p_required p \<and> p_default p = [] \<and> p_name p \<notin> pv_name ` set (rs_params (run_spec run)))
    (as_params (ag_spec agent))"
  from b have "(\<exists>r. validateParams run agent = Inr r) \<longleftrightarrow>
      ?F = None \<and> ?G = None \<and> (\<exists>r. renderPromptAndInstructions agent run scopes = Inr r)"
    by (cases ?F; cases ?G; cases "renderPromptAndInstructions agent run scopes")
      (simp_all add: validateParams_def Let_def)
  moreover have "?F = None \<longleftrightarrow> set (map pv_name (rs_params (run_spec run))) \<subseteq> set (map p_name (as_params (ag_spec agent)))"
    by (auto simp: find_None_iff)
  moreover have "?G = None \<longleftrightarrow> list_all (\<lambda>p. p_required p \<longrightarrow> p_default p \<noteq> []
      \<or> p_name p \<in> set (map pv_name (rs_params (run_spec run)))) (as_params (ag_spec agent))"
    by (auto simp: find_None_iff list_all_iff)
  ultimately show ?thesis
    using b buildParams_ok_iff[of run agent] render_ok_iff[OF b] unfolding paramsAcceptable_def Let_def by blast
qed

lemma validateParams_buildParams:
  "validateParams run agent = Inr r \<Longrightarrow> buildParams run agent = Inr r"
  by (auto simp: validateParams_def Let_def split: option.splits sum.splits)

text \<open>\<open>validateParams\<close> accepts a run exactly when its parameters are acceptable, and then hands
  over what \<open>buildParams\<close> computes, so every prompt or instruction reference that could fail at
  Sandbox creation has failed here.\<close>

theorem validateParams_correct:
  "case validateParams run agent of
     Inl e \<Rightarrow> \<not> paramsAcceptable run agent
   | Inr (params, scopes) \<Rightarrow> paramsAcceptable run agent \<and> buildParams run agent = Inr (params, scopes)
       \<and> (\<exists>texts. renderPromptAndInstructions agent run scopes = Inr texts)"
proof (cases "validateParams run agent")
  case (Inl e)
  then show ?thesis using validateParams_Inr_iff[of run agent] by simp
next
  case (Inr r)
  then have acc: "paramsAcceptable run agent" using validateParams_Inr_iff by blast
  obtain f scopes where r: "r = (f, scopes)" by (cases r)
  have b: "buildParams run agent = Inr (f, scopes)"
    using validateParams_buildParams[OF Inr] r by simp
  have "\<exists>texts. renderPromptAndInstructions agent run scopes = Inr texts"
    using acc render_ok_iff[OF b] by (auto simp: paramsAcceptable_def Let_def)
  with Inr r acc b show ?thesis by simp
qed

section \<open>Gateway selection\<close>

text \<open>The gateway a run may use, from what it names and what its Agent allows.\<close>

definition admittedGateway :: "string list \<Rightarrow> string \<Rightarrow> string option" where
  "admittedGateway allowed named =
     (if named \<noteq> [] then (if allowed = [] \<or> named \<in> set allowed then Some named else None)
      else if length allowed = 1 then Some (hd allowed) else None)"

text \<open>Gateway selection. A named gateway is kept, and accepted when the Agent constrains nothing
  or lists it; an unnamed one is defaulted when the Agent declares exactly one; anything else is an
  error, and nothing but the gateway of the run changes.\<close>

theorem validateGateway_correct:
  "case admittedGateway (as_gateways (ag_spec agent)) (rs_gateway (run_spec run)) of
     Some g \<Rightarrow> validateGateway run agent = Inr (withGateway g run)
   | None \<Rightarrow> \<exists>e. validateGateway run agent = Inl e"
  by (auto simp: admittedGateway_def validateGateway_def withGateway_def Let_def length_Suc_conv
      split: list.splits)

section \<open>Commit identity\<close>

text \<open>The value a container sees for a variable: the last entry of its name wins.\<close>

definition envLookup :: "envvar list \<Rightarrow> string \<Rightarrow> envvar option" where
  "envLookup env n = find (\<lambda>e. ev_name e = n) (rev env)"

lemma envLookup_append: "envLookup (xs @ ys) n = (case envLookup ys n of Some e \<Rightarrow> Some e | None \<Rightarrow> envLookup xs n)"
  by (cases "envLookup ys n") (simp_all add: envLookup_def find_append)

lemma envLookup_absent: "n \<notin> ev_name ` set env \<Longrightarrow> envLookup env n = None"
  by (auto simp: envLookup_def find_None_iff)

lemma envLookup_pair:
  "envLookup (a # b # ys) n = (case envLookup ys n of Some e \<Rightarrow> Some e | None \<Rightarrow>
     if ev_name b = n then Some b else if ev_name a = n then Some a else None)"
  by (cases "envLookup ys n") (simp_all add: envLookup_def find_append)

lemma gatewayEnv_names:
  "gatewayEnv R run = Inr (env, ef) \<Longrightarrow> ev_name ` set env \<subseteq> {''KONVEYOR_LLM_PROVIDER'',
     ''KONVEYOR_LLM_ENDPOINT'', ''KONVEYOR_LLM_MODEL'', ''KONVEYOR_LLM_API_KEY''}"
  by (auto simp: gatewayEnv_def plainEnv_def secretEnv_def Let_def split: if_splits sum.splits)

lemma buildEnvVars_git:
  assumes "buildEnvVars R run agent sn scopes = Inr (env, ef)"
  shows "envLookup env gitAuthorNameEnv = Some (plainEnv gitAuthorNameEnv (fst (resolveGitIdentity agent run)))"
    and "envLookup env gitAuthorEmailEnv = Some (plainEnv gitAuthorEmailEnv (snd (resolveGitIdentity agent run)))"
proof -
  define us where "us = filter (\<lambda>e. ev_name e \<noteq> gitAuthorNameEnv \<and> ev_name e \<noteq> gitAuthorEmailEnv) (rs_env (run_spec run))"
  obtain pre gwEnv where env: "env = pre @ [plainEnv gitAuthorNameEnv (fst (resolveGitIdentity agent run)),
      plainEnv gitAuthorEmailEnv (snd (resolveGitIdentity agent run))] @ gwEnv @ us"
    and gw: "gatewayEnv R run = Inr (gwEnv, ef)"
    using assms by (auto simp: buildEnvVars_def Let_def us_def split: sum.splits)
  have "envLookup us gitAuthorNameEnv = None" "envLookup us gitAuthorEmailEnv = None"
    by (auto intro!: envLookup_absent simp: us_def)
  moreover have "envLookup gwEnv gitAuthorNameEnv = None" "envLookup gwEnv gitAuthorEmailEnv = None"
    using gatewayEnv_names[OF gw]
    by (auto intro!: envLookup_absent simp: gitAuthorNameEnv_def gitAuthorEmailEnv_def)
  ultimately show "envLookup env gitAuthorNameEnv = Some (plainEnv gitAuthorNameEnv (fst (resolveGitIdentity agent run)))"
    and "envLookup env gitAuthorEmailEnv = Some (plainEnv gitAuthorEmailEnv (snd (resolveGitIdentity agent run)))"
    by (simp_all add: env envLookup_append envLookup_pair plainEnv_def)
      (simp_all add: gitAuthorNameEnv_def gitAuthorEmailEnv_def)
qed

section \<open>The Sandbox that is created\<close>

lemma status_frame:
  "run_spec (run\<lparr>run_status := st\<rparr>) = run_spec run" "run_meta (run\<lparr>run_status := st\<rparr>) = run_meta run"
  by simp_all

lemma status_irrelevant [simp]:
  "renderPromptAndInstructions agent (run\<lparr>run_status := st\<rparr>) scopes = renderPromptAndInstructions agent run scopes"
  "gatewayEnv R (run\<lparr>run_status := st\<rparr>) = gatewayEnv R run"
  "buildEnvVars R (run\<lparr>run_status := st\<rparr>) agent sn scopes = buildEnvVars R run agent sn scopes"
  "resolveGitIdentity agent (run\<lparr>run_status := st\<rparr>) = resolveGitIdentity agent run"
  unfolding renderPromptAndInstructions_def gatewayEnv_def buildEnvVars_def resolveGitIdentity_def status_frame
  by (rule refl)+

definition paramsVolume :: "AgentRun \<Rightarrow> volume" where
  "paramsVolume run = \<lparr>v_name = paramsVolumeName, v_source = VConfigMap (m_name (run_meta run) @ ''-params'')
     [\<lparr>kp_key = paramsKey, kp_path = paramsKey, kp_mode = None\<rparr>]\<rparr>"

lemma createParamsConfigMap_Inr:
  "snd (createParamsConfigMap R run params) = Inr (v, m) \<Longrightarrow>
   v = paramsVolume run \<and> m = mountAt paramsVolumeName paramsDir True
   \<and> (\<exists>content. renderParamsFile params = Inr content)"
  by (auto simp: createParamsConfigMap_def Let_def snd_bindE_Inr paramsVolume_def mountAt_def)

lemma createParamsConfigMap_calls:
  "c \<in> set (fst (createParamsConfigMap R run params)) \<Longrightarrow> \<exists>cm. c = ApplyConfigMap cm"
  by (auto simp: createParamsConfigMap_def Let_def set_fst_bindE dest: applyE_calls)

lemma createInline_calls:
  "c \<in> set (fst (createInlineSkillConfigMaps R run inl)) \<Longrightarrow> \<exists>cm. c = ApplyConfigMap cm"
  by (induction inl rule: createInlineSkillConfigMaps.induct)
    (auto simp: set_fst_bindE dest: applyE_calls)

lemma createSandboxObjects_sandbox:
  assumes "CreateSandbox sb \<in> set (fst (createSandboxObjects R run agent params scopes sn))"
  obtains env ef src m where "buildEnvVars R run agent sn scopes = Inr (env, ef)"
    "resolveSkillVolumes R run agent = Inr src"
    "sb = (sandboxObject R run agent env ef src (paramsVolume run) (mountAt paramsVolumeName paramsDir True))\<lparr>sb_meta := m\<rparr>"
    "ownedByRun (rr_lib R) run (sb_meta (sandboxObject R run agent env ef src (paramsVolume run)
       (mountAt paramsVolumeName paramsDir True))) = Inr m"
    "\<exists>content. renderParamsFile params = Inr content"
  using assms unfolding createSandboxObjects_def
  by (auto simp: set_fst_bindE Let_def split: prod.splits
      dest!: createParamsConfigMap_calls createInline_calls createParamsConfigMap_Inr)

text \<open>Every call \<open>createSandbox\<close> makes creates or updates an object; a Sandbox comes last.\<close>

lemma createSandbox_calls:
  assumes "c \<in> set (fst (snd (createSandbox R run agent params scopes)))"
  shows "(\<exists>s. c = CreateSecret s) \<or> (\<exists>cm. c = ApplyConfigMap cm) \<or> (\<exists>sb. c = CreateSandbox sb)"
  using assms unfolding createSandbox_def createSandboxObjects_def
  by (auto simp: set_fst_bindE Let_def split: sum.splits prod.splits
      dest!: createParamsConfigMap_calls createInline_calls)

lemma createSandbox_sandbox:
  assumes "CreateSandbox sb \<in> set (fst (snd (createSandbox R run agent params scopes)))"
  obtains env ef src m where
    "buildEnvVars R run agent (m_name (run_meta run) @ ''-acp-key'') scopes = Inr (env, ef)"
    "resolveSkillVolumes R run agent = Inr src"
    "sb = (sandboxObject R run agent env ef src (paramsVolume run) (mountAt paramsVolumeName paramsDir True))\<lparr>sb_meta := m\<rparr>"
    "\<exists>content. renderParamsFile params = Inr content"
proof -
  have card: "cardByName R (run\<lparr>run_status := st\<rparr>) = cardByName R run" for st
    unfolding cardByName_def status_frame by (rule refl)
  have skills: "resolveSkillVolumes R (run\<lparr>run_status := st\<rparr>) agent = resolveSkillVolumes R run agent" for st
    unfolding resolveSkillVolumes_def collectionByName_def collectionSkill_def status_frame card by (rule refl)
  from assms obtain st where "CreateSandbox sb \<in> set (fst (createSandboxObjects R (run\<lparr>run_status := st\<rparr>) agent
      params scopes (m_name (run_meta run) @ ''-acp-key'')))"
    unfolding createSandbox_def by (auto simp: set_fst_bindE Let_def split: sum.splits)
  then show thesis
    by (rule createSandboxObjects_sandbox)
      (use that skills in \<open>auto simp: sandboxObject_def paramsVolume_def agentContainer_def agentMounts_def
        sandboxVolumes_def loaderMounts_def\<close>)
qed

text \<open>Every skill volume carries the prefix that keeps it away from the controller's own volumes.\<close>

definition skillish :: "string \<Rightarrow> bool" where
  "skillish q \<longleftrightarrow> q = ''skill'' \<or> (\<exists>r. q = ''skill-'' @ r)"

lemma trimRight_skill [simp]: "trimRight CHR ''-'' ''skill'' = ''skill''" "trimRight CHR ''-'' ''skill-'' = ''skill''"
  by (simp_all add: trimRight_def)

lemma skillish_trimRight: "skillish q \<Longrightarrow> skillish (trimRight CHR ''-'' q)"
proof -
  have "skillish (trimRight CHR ''-'' (''skill-'' @ r))" for r
    by (subst trimRight_append) (auto simp: skillish_def)
  then show "skillish q \<Longrightarrow> skillish (trimRight CHR ''-'' q)" by (auto simp: skillish_def)
qed

lemma skillish_take: "skillish q \<Longrightarrow> 6 \<le> n \<Longrightarrow> skillish (take n q)"
proof -
  have "take n (''skill-'' @ r) = ''skill-'' @ take (n - 6) r" if "6 \<le> n" for r
    using that by (simp add: take_Cons' eval_nat_numeral)
  then show "skillish q \<Longrightarrow> 6 \<le> n \<Longrightarrow> skillish (take n q)"
    by (auto simp: skillish_def)
qed

lemma runes_ascii_Cons: "byte c < 128 \<Longrightarrow> runes (c # s) = [c] # runes s"
  by (simp add: runes.simps(2) runeWidth.simps)

lemma sanitizedBase_skillish: "skillish (sanitizedBase (''skill-'' @ n))"
proof -
  have "map sanitizeRune (runes (''skill-'' @ n)) = ''skill-'' @ map sanitizeRune (runes n)"
    by (simp add: runes_ascii_Cons byte_def sanitizeRune_def lowerASCII_def volumeChar_def isDigit_def)
  then show ?thesis
    unfolding sanitizedBase_def trimBoth_def
    by (intro skillish_trimRight) (simp add: trimLeft_def skillish_def)
qed

lemma skillVolumeName_prefix: "\<exists>r. skillVolumeName n = ''skill-'' @ r"
proof (cases "sanitizedBase (''skill-'' @ n) = ''skill-'' @ n \<and> length (''skill-'' @ n) \<le> 63")
  case True
  then show ?thesis by (simp add: skillVolumeName_def sanitizeVolumeName_def)
next
  case False
  define b where "b = sanitizedBase (''skill-'' @ n)"
  define p where "p = (if length b + 9 > 63 then trimRight CHR ''-'' (take 54 b) else b)"
  have b: "skillish b" unfolding b_def by (rule sanitizedBase_skillish)
  then have p: "skillish p" by (simp add: p_def skillish_trimRight skillish_take)
  from b have "b \<noteq> []" by (auto simp: skillish_def)
  then have "skillVolumeName n = p @ CHR ''-'' # hexEncode (sha256Prefix (''skill-'' @ n))"
    using False sha256Prefix_props(1)[of "''skill-'' @ n"]
    by (auto simp: skillVolumeName_def sanitizeVolumeName_def b_def p_def Let_def)
  with p show ?thesis by (auto simp: skillish_def)
qed

lemma sandbox_volumes_distinct:
  assumes "skillsReady K src"
  shows "distinct (map v_name (sandboxVolumes run src (paramsVolume run)))"
proof -
  have "\<forall>v \<in> set (sk_volumes src). \<exists>r. v_name v = ''skill-'' @ r"
  proof
    fix v assume "v \<in> set (sk_volumes src)"
    then have "v_name v \<in> set (map v_name (sk_volumes src))" by simp
    then have "v_name v \<in> skillVolumeName ` set (mountedNames (sk_declared src))"
      using assms by (simp add: skillsReady_def outOK_def del: set_map) simp
    then show "\<exists>r. v_name v = ''skill-'' @ r" using skillVolumeName_prefix by force
  qed
  moreover have "distinct (map v_name (sk_volumes src))"
    using assms by (simp add: skillsReady_def outOK_def)
  moreover have "\<forall>v \<in> set (fst (fileMountVolumes ms)). \<exists>r. v_name v = ''filemount-'' @ r" for ms
    by (auto simp: fileMountVolumes_def fileMountVolume_def)
  ultimately show ?thesis
    using fileMount_volume_names_distinct[of "rs_fileMounts (run_spec run)"]
    by (fastforce simp: sandboxVolumes_def emptyDir_def paramsVolume_def paramsVolumeName_def)
qed

lemma apart_sym: "apart p q \<longleftrightarrow> apart q p"
  by (auto simp: apart_def)

lemma fileMount_paths: "map vm_path (snd (fileMountVolumes ms)) = map (\<lambda>m. pathClean (fm_mountPath m)) ms"
  by (rule nth_equalityI)
    (simp_all add: fileMountVolumes_def fileMountMount_def enumerate_eq_zip split_def)

lemma agentMounts_apart:
  assumes "validateFileMounts (rs_fileMounts (run_spec run)) = None"
  shows "sorted_wrt apart (map vm_path (agentMounts run (mountAt paramsVolumeName paramsDir True)))"
proof -
  define ms where "ms = rs_fileMounts (run_spec run)"
  have good: "list_all goodMount ms" and sep: "mountsApart ms"
    using assms unfolding ms_def[symmetric] by (simp_all add: validateFileMounts_None)
  have segs: "pathSegs (pathClean (fm_mountPath m)) = pathSegs (fm_mountPath m)" if "m \<in> set ms" for m
    using good that by (simp add: goodMount_def list_all_iff pathSegs_clean)
  have own: "sorted_wrt apart [skillsDir, paramsDir, workspaceDir, tmpDir]"
    by (simp add: reserved_defs apart_def pathSegs_def isAbs_def hasPrefix_def)
  have "apart r (pathClean (fm_mountPath m))"
    if "r \<in> set [skillsDir, paramsDir, workspaceDir, tmpDir]" "m \<in> set ms" for r m
    using good that segs[OF that(2)] by (auto simp: goodMount_def list_all_iff reservedMountPaths_def apart_def)
  moreover have "sorted_wrt apart (map (\<lambda>m. pathClean (fm_mountPath m)) ms)"
    using sep unfolding mountsApart_def sorted_wrt_map
    by (rule sorted_wrt_mono_rel[rotated]) (simp add: apart_def segs)
  ultimately show ?thesis
    using own by (auto simp: agentMounts_def mountAt_def fileMount_paths ms_def[symmetric])
qed

lemma loaderMounts_apart:
  assumes "skillsReady K src" "dns_names K"
  shows "sorted_wrt apart (map vm_path (loaderMounts src))"
proof -
  have plain: "\<forall>n \<in> set (mountedNames (sk_declared src)). plainSeg n"
    and dist: "distinct (mountedNames (sk_declared src))"
    using assms usableName_plain[OF assms(2)]
    by (auto simp: skillsReady_def list_all_iff mountedNames_def distinct_map_filter)
  have "sorted_wrt apart (map skillPath (mountedNames (sk_declared src)))"
    unfolding sorted_wrt_map
    by (rule sorted_wrt_distinct[OF dist]) (simp add: plain skillPaths_apart)
  then show ?thesis
    using assms(1) plain
    by (auto simp: loaderMounts_def sorted_wrt_append skillsReady_def outOK_def skillMount_def
        mountAt_def skillPath_apart_skillsDir comp_def)
qed

text \<open>Every mount of a container has its volume.\<close>

definition mountsBacked :: "volume list \<Rightarrow> container \<Rightarrow> bool" where
  "mountsBacked vs c \<longleftrightarrow> set (map vm_name (ct_mounts c)) \<subseteq> set (map v_name vs)"

lemma agent_mounts_backed:
  "mountsBacked (sandboxVolumes run src (paramsVolume run))
     (agentContainer run agent env ef (agentMounts run (mountAt paramsVolumeName paramsDir True)))"
  by (force simp: mountsBacked_def sandboxVolumes_def agentContainer_def agentMounts_def mountAt_def
      emptyDir_def paramsVolume_def fileMountVolumes_def fileMountVolume_def fileMountMount_def)

lemma loader_mounts_backed:
  assumes "skillsReady K src"
  shows "mountsBacked (sandboxVolumes run src pv) (skillLoaderContainer img src (loaderMounts src))"
proof -
  have "map v_name (sk_volumes src) = map vm_name (sk_mounts src)"
    using assms by (simp add: skillsReady_def outOK_def skillMount_def)
  then have "vm_name ` set (sk_mounts src) = v_name ` set (sk_volumes src)"
    by (metis set_map)
  then show ?thesis
    by (auto simp: mountsBacked_def sandboxVolumes_def skillLoaderContainer_def loaderMounts_def
        mountAt_def emptyDir_def)
qed

text \<open>C29: the pod of a created Sandbox can be admitted and keeps the mount contract. Its volumes have
  distinct names, every mount of the loader and of the agent is backed by one, and inside each of
  the two containers no mount path lies on, under or above another, so a user's file mount cannot
  shadow the skills, the parameters, the workspace or /tmp; the pod is never restarted.\<close>

theorem sandbox_pod_wellformed:
  assumes "CreateSandbox sb \<in> set (fst (snd (createSandbox R run agent params scopes)))"
    and "validateFileMounts (rs_fileMounts (run_spec run)) = None"
    and "dns_names (rr_lib R)"
  shows "distinct (map v_name (sb_volumes sb)) \<and> sb_restartNever sb
     \<and> length (sb_init sb) = 1 \<and> length (sb_containers sb) = 1
     \<and> list_all (\<lambda>c. mountsBacked (sb_volumes sb) c \<and> sorted_wrt apart (map vm_path (ct_mounts c)))
          (sb_init sb @ sb_containers sb)"
proof -
  obtain env ef src m where "buildEnvVars R run agent (m_name (run_meta run) @ ''-acp-key'') scopes = Inr (env, ef)"
    and src: "resolveSkillVolumes R run agent = Inr src"
    and sb: "sb = (sandboxObject R run agent env ef src (paramsVolume run)
      (mountAt paramsVolumeName paramsDir True))\<lparr>sb_meta := m\<rparr>"
    by (rule createSandbox_sandbox[OF assms(1)])
  have ready: "skillsReady (rr_lib R) src" by (rule resolveSkillVolumes_ready[OF src])
  have mounts: "ct_mounts (skillLoaderContainer img src (loaderMounts src)) = loaderMounts src"
    "ct_mounts (agentContainer run agent env ef ms) = ms" for img ms
    by (simp_all add: skillLoaderContainer_def agentContainer_def)
  show ?thesis
    using sandbox_volumes_distinct[OF ready] loaderMounts_apart[OF ready assms(3)]
      agentMounts_apart[OF assms(2)] agent_mounts_backed loader_mounts_backed[OF ready]
    by (simp add: sb sandboxObject_def Let_def mounts)
qed

text \<open>The commit identity of a run cannot be forged through its environment. Whatever
  \<open>spec.env\<close> holds, the values the agent container sees for the two author variables are the
  identity of the run's GitConfig, else of the Agent's, else empty, and never a mixture of two; being
  set in the container they also hide any copy from \<open>spec.envFrom\<close>.\<close>

theorem git_identity_protected:
  assumes "CreateSandbox sb \<in> set (fst (snd (createSandbox R run agent params scopes)))"
  shows "list_all (\<lambda>c.
      envLookup (ct_env c) ''KONVEYOR_GIT_AUTHOR_NAME'' =
        Some (plainEnv ''KONVEYOR_GIT_AUTHOR_NAME'' (fst (resolveGitIdentity agent run)))
      \<and> envLookup (ct_env c) ''KONVEYOR_GIT_AUTHOR_EMAIL'' =
        Some (plainEnv ''KONVEYOR_GIT_AUTHOR_EMAIL'' (snd (resolveGitIdentity agent run)))) (sb_containers sb)"
proof -
  obtain env ef src m where env: "buildEnvVars R run agent (m_name (run_meta run) @ ''-acp-key'') scopes = Inr (env, ef)"
    and "resolveSkillVolumes R run agent = Inr src"
    and sb: "sb = (sandboxObject R run agent env ef src (paramsVolume run)
      (mountAt paramsVolumeName paramsDir True))\<lparr>sb_meta := m\<rparr>"
    by (rule createSandbox_sandbox[OF assms(1)])
  show ?thesis
    using buildEnvVars_git[OF env]
    by (simp add: sb sandboxObject_def Let_def agentContainer_def gitAuthorNameEnv_def gitAuthorEmailEnv_def)
qed

section \<open>A run that is created\<close>

definition sampleReconciler :: AgentRunReconciler where
  "sampleReconciler = quietReconciler\<lparr>rr_client := quietClient\<lparr>getAgent := (\<lambda>_. Inr sampleAgent),
     getGateway := (\<lambda>_. Inr sampleGateway),
     getSkillCard := (\<lambda>(ns, n). Inr (sampleCard n (if n = ''style'' then ''# Style'' else []) ''https://git'')),
     getSkillCollection := (\<lambda>_. Inr sampleCollection)\<rparr>\<rparr>"

definition mountedRun :: AgentRun where
  "mountedRun = sampleRun\<lparr>run_spec := (run_spec sampleRun)\<lparr>rs_gateway := ''gw'',
     rs_env := [plainEnv ''KONVEYOR_GIT_AUTHOR_NAME'' ''mallory'', plainEnv ''A'' ''1''],
     rs_fileMounts := [\<lparr>fm_secretName = ''s'', fm_configMapName = [], fm_mountPath = ''/etc/maven/'',
       fm_subPath = [], fm_items = []\<rparr>]\<rparr>\<rparr>"

definition sampleCalls :: "call list" where
  "sampleCalls = (case validateParams mountedRun sampleAgent of
      Inr (params, scopes) \<Rightarrow> fst (snd (createSandbox sampleReconciler mountedRun sampleAgent params scopes))
    | Inl e \<Rightarrow> [])"

lemma sampleCalls_sandbox:
  obtains sb params scopes where
    "CreateSandbox sb \<in> set (fst (snd (createSandbox sampleReconciler mountedRun sampleAgent params scopes)))"
proof -
  have "length (filter isCreateSandbox sampleCalls) = 1" by code_simp
  then obtain c where c: "c \<in> set sampleCalls" "isCreateSandbox c"
    by (metis One_nat_def filter_False length_greater_0_conv list.size(3) zero_less_one)
  from c(2) obtain sb where "c = CreateSandbox sb" by (cases c) auto
  with c(1) show ?thesis using that by (auto simp: sampleCalls_def split: sum.splits)
qed

theorem sandbox_pod_wellformed_witness:
  "\<exists>sb params scopes. CreateSandbox sb \<in> set (fst (snd (createSandbox sampleReconciler mountedRun sampleAgent params scopes)))
     \<and> distinct (map v_name (sb_volumes sb))
     \<and> list_all (\<lambda>c. sorted_wrt apart (map vm_path (ct_mounts c))) (sb_init sb @ sb_containers sb)"
proof -
  obtain sb params scopes where sb:
    "CreateSandbox sb \<in> set (fst (snd (createSandbox sampleReconciler mountedRun sampleAgent params scopes)))"
    by (rule sampleCalls_sandbox)
  have "Option.is_none (validateFileMounts (rs_fileMounts (run_spec mountedRun)))" by code_simp
  then have "validateFileMounts (rs_fileMounts (run_spec mountedRun)) = None" by (simp add: Option.is_none_def)
  moreover have "dns_names (rr_lib sampleReconciler)"
    using refnames.dns_names_axioms by (simp add: sampleReconciler_def)
  ultimately show ?thesis
    using sandbox_pod_wellformed[OF sb] sb by (auto simp: list_all_iff)
qed

theorem git_identity_protected_witness:
  "\<exists>sb params scopes. CreateSandbox sb \<in> set (fst (snd (createSandbox sampleReconciler mountedRun sampleAgent params scopes)))
     \<and> list_all (\<lambda>c. envLookup (ct_env c) ''KONVEYOR_GIT_AUTHOR_NAME'' =
           Some (plainEnv ''KONVEYOR_GIT_AUTHOR_NAME'' [])) (sb_containers sb)"
proof -
  obtain sb params scopes where sb:
    "CreateSandbox sb \<in> set (fst (snd (createSandbox sampleReconciler mountedRun sampleAgent params scopes)))"
    by (rule sampleCalls_sandbox)
  have "resolveGitIdentity sampleAgent mountedRun = ([], [])" by code_simp
  with git_identity_protected[OF sb] sb show ?thesis by (auto simp: list_all_iff)
qed

section \<open>A value that validates and cannot be delivered\<close>

definition nanAgent :: Agent where
  "nanAgent = sampleAgent\<lparr>ag_spec := (ag_spec sampleAgent)\<lparr>as_params := [numberParam ''budget'']\<rparr>\<rparr>"

definition nanRun :: "string \<Rightarrow> AgentRun" where
  "nanRun v = sampleRun\<lparr>run_spec := (run_spec sampleRun)\<lparr>rs_gateway := ''gw'',
     rs_params := [\<lparr>pv_name = ''budget'', pv_value = v\<rparr>]\<rparr>\<rparr>"

definition creationFails :: "AgentRunReconciler \<Rightarrow> AgentRun \<Rightarrow> Agent \<Rightarrow> bool" where
  "creationFails R run agent = (case validateParams run agent of
      Inl e \<Rightarrow> False
    | Inr (params, scopes) \<Rightarrow> isl (snd (snd (createSandbox R run agent params scopes))))"

text \<open>A number parameter of value \<open>NaN\<close> (or an infinity) passes \<open>validateParams\<close>, since
  \<open>strconv.ParseFloat\<close> accepts it, and then fails every creation of the Sandbox, since JSON cannot
  express it; a value like \<open>2.5\<close> passes both.\<close>

theorem nan_param_accepted_undeliverable:
  "creationFails sampleReconciler (nanRun ''NaN'') nanAgent
   \<and> creationFails sampleReconciler (nanRun ''+Inf'') nanAgent
   \<and> \<not> isl (validateParams (nanRun ''2.5'') nanAgent)
   \<and> \<not> creationFails sampleReconciler (nanRun ''2.5'') nanAgent"
  by code_simp

end
