(* ===== verification/Cleanup.thy ===== *)
theory Cleanup
  imports Cluster
begin

text \<open>
  The orphan sweep (src/internal/controller/run_cleanup.go): once a run is gone, the objects that
  still carry its label are deleted, unless another controller owns them.
\<close>

section \<open>Ownership\<close>

definition konveyorGV :: string where "konveyorGV = ''konveyor.io/v1alpha1''"
definition sandboxGV :: string where "sandboxGV = ''agents.x-k8s.io/v1beta1''"
definition agentRunKind :: string where "agentRunKind = ''AgentRun''"
definition agentWorkflowRunKind :: string where "agentWorkflowRunKind = ''AgentWorkflowRun''"
definition sandboxKind :: string where "sandboxKind = ''Sandbox''"

lemmas kind_defs = konveyorGV_def sandboxGV_def agentRunKind_def agentWorkflowRunKind_def sandboxKind_def

text \<open>The first controller reference, which is the only one a well-formed object has.\<close>

definition controllerOf :: "objmeta \<Rightarrow> ownerref option" where
  "controllerOf m = find (\<lambda>ref. or_controller ref = Some True) (m_owners m)"

definition hasControllerOwner :: "objmeta \<Rightarrow> bool" where
  "hasControllerOwner m = list_ex (\<lambda>ref. or_controller ref = Some True) (m_owners m)"

definition isOwnerlessManagedRunResource :: "objmeta \<Rightarrow> bool" where
  "isOwnerlessManagedRunResource m =
     (label m labelManagedBy = managedByLabel \<and> label m labelAgentRun \<noteq> [] \<and> \<not> hasControllerOwner m)"

definition isOwnerlessManagedWorkflowRunResource :: "objmeta \<Rightarrow> bool" where
  "isOwnerlessManagedWorkflowRunResource m =
     (label m labelManagedBy = managedByLabel \<and> label m labelAgentWorkflowRun \<noteq> [] \<and> \<not> hasControllerOwner m)"

definition workflowRunForLabeledResource :: "objmeta \<Rightarrow> key list" where
  "workflowRunForLabeledResource m =
     (let name = label m labelAgentWorkflowRun in if name = [] then [] else [(m_namespace m, name)])"

definition mayDeleteForMissingOwner :: "objmeta \<Rightarrow> string \<Rightarrow> string \<Rightarrow> string \<Rightarrow> bool" where
  "mayDeleteForMissingOwner m apiVersion kind name = (case controllerOf m of
      None \<Rightarrow> True
    | Some ref \<Rightarrow> or_apiVersion ref = apiVersion \<and> or_kind ref = kind \<and> or_name ref = name)"

section \<open>Deleting\<close>

definition deleteOrphanedObject ::
  "kclient \<Rightarrow> string \<Rightarrow> string \<Rightarrow> string \<Rightarrow> string \<Rightarrow> objmeta \<Rightarrow> unit act" where
  "deleteOrphanedObject C resourceKind ownerAPIVersion ownerKind ownerName m =
     (if \<not> mayDeleteForMissingOwner m ownerAPIVersion ownerKind ownerName then retE ()
      else wrapE ''deleting orphaned %s %s/%s: %w'' [Lit resourceKind, Lit (m_namespace m), Lit (m_name m)]
        (deleteE C resourceKind m))"

definition mayDeletePodForMissingRun :: "AgentRunReconciler \<Rightarrow> pod \<Rightarrow> string \<Rightarrow> goerr + bool" where
  "mayDeletePodForMissingRun R p runName = (case controllerOf (pod_meta p) of
      None \<Rightarrow> Inr True
    | Some ref \<Rightarrow>
        if or_apiVersion ref \<noteq> sandboxGV \<or> or_kind ref \<noteq> sandboxKind \<or> or_name ref \<noteq> runName then Inr False
        else (let get = (case rr_apiReader R of Some rd \<Rightarrow> rdSandbox rd | None \<Rightarrow> getSandbox (rr_client R)) in
          case get (m_namespace (pod_meta p), or_name ref) of
            Inl e \<Rightarrow> if isNotFound e then Inr True
              else Inl (wrapf ''getting Sandbox owner for Pod %s/%s: %w''
                [Lit (m_namespace (pod_meta p)), Lit (m_name (pod_meta p))] e)
          | Inr sb \<Rightarrow> Inr (or_uid ref \<noteq> [] \<and> m_uid (sb_meta sb) \<noteq> [] \<and> or_uid ref \<noteq> m_uid (sb_meta sb))))"

definition deleteOrphanedPod :: "AgentRunReconciler \<Rightarrow> string \<Rightarrow> pod \<Rightarrow> unit act" where
  "deleteOrphanedPod R runName p = bindE (liftE (mayDeletePodForMissingRun R p runName)) (\<lambda>mayDelete.
     if \<not> mayDelete then retE ()
     else deleteOrphanedObject (rr_client R) ''Pod'' sandboxGV sandboxKind runName (pod_meta p))"

definition runSelector :: "key \<Rightarrow> (string \<times> string) list" where
  "runSelector k = [(labelManagedBy, managedByLabel), (labelAgentRun, snd k)]"

definition cleanupOrphanedRunResources :: "AgentRunReconciler \<Rightarrow> key \<Rightarrow> unit act" where
  "cleanupOrphanedRunResources R k =
     (let C = rr_client R; ns = fst k; sel = runSelector k; kn = [Lit ns, Lit (snd k)];
          del = (\<lambda>kind. deleteOrphanedObject C kind konveyorGV agentRunKind (snd k)) in
      bindE (wrapE ''listing Sandboxes for missing AgentRun %s: %w'' kn (liftE (listSandboxes C ns sel))) (\<lambda>sbs.
      bindE (forE (\<lambda>s. del sandboxKind (sb_meta s)) sbs) (\<lambda>_.
      bindE (wrapE ''listing ConfigMaps for missing AgentRun %s: %w'' kn (liftE (listConfigMaps C ns sel))) (\<lambda>cms.
      bindE (forE (\<lambda>c. del ''ConfigMap'' (cm_meta c)) cms) (\<lambda>_.
      bindE (wrapE ''listing Secrets for missing AgentRun %s: %w'' kn (liftE (listSecrets C ns sel))) (\<lambda>secs.
      bindE (forE (\<lambda>s. del ''Secret'' (sec_meta s)) secs) (\<lambda>_.
      bindE (wrapE ''listing Pods for missing AgentRun %s: %w'' kn (liftE (listPods C ns sel))) (\<lambda>ps.
      forE (deleteOrphanedPod R (snd k)) ps))))))))"

definition workflowSelector :: "key \<Rightarrow> (string \<times> string) list" where
  "workflowSelector k = [(labelManagedBy, managedByLabel), (labelAgentWorkflowRun, snd k)]"

definition cleanupOrphanedWorkflowRunResources :: "AgentWorkflowRunReconciler \<Rightarrow> key \<Rightarrow> unit act" where
  "cleanupOrphanedWorkflowRunResources W k =
     bindE (wrapE ''listing AgentRuns for missing AgentWorkflowRun %s: %w'' [Lit (fst k), Lit (snd k)]
         (liftE (listRuns (wrr_client W) (fst k) (workflowSelector k)))) (\<lambda>runs.
       forE (\<lambda>r. deleteOrphanedObject (wrr_client W) agentRunKind konveyorGV agentWorkflowRunKind (snd k) (run_meta r)) runs)"

section \<open>What the sweep deletes\<close>

text \<open>The claim another controller has on an object stands: it is unowned, or owned by the missing
  run itself.\<close>

definition orphanOf :: "string \<Rightarrow> string \<Rightarrow> string \<Rightarrow> objmeta \<Rightarrow> bool" where
  "orphanOf gv kind name m \<longleftrightarrow> \<not> hasControllerOwner m
     \<or> (\<exists>ref \<in> set (m_owners m). or_controller ref = Some True
          \<and> or_apiVersion ref = gv \<and> or_kind ref = kind \<and> or_name ref = name)"

lemma controllerOf_None: "controllerOf m = None \<longleftrightarrow> \<not> hasControllerOwner m"
  by (auto simp: controllerOf_def hasControllerOwner_def find_None_iff list_ex_iff)

lemma mayDelete_orphan: "mayDeleteForMissingOwner m gv kind name \<Longrightarrow> orphanOf gv kind name m"
  by (auto simp: mayDeleteForMissingOwner_def orphanOf_def controllerOf_None split: option.splits)
    (auto simp: controllerOf_def dest: find_SomeD)

lemma deleteOrphanedObject_calls:
  "c \<in> set (fst (deleteOrphanedObject C rk gv kind name m)) \<Longrightarrow>
   c = DeleteObject rk m \<and> orphanOf gv kind name m"
  by (auto simp: deleteOrphanedObject_def dest: mayDelete_orphan split: if_splits)

text \<open>The Sandbox a pod belongs to is gone, or another one has taken its name.\<close>

definition sandboxGone :: "AgentRunReconciler \<Rightarrow> ownerref \<Rightarrow> string \<Rightarrow> bool" where
  "sandboxGone R ref ns = (case (case rr_apiReader R of Some rd \<Rightarrow> rdSandbox rd | None \<Rightarrow> getSandbox (rr_client R))
       (ns, or_name ref) of
      Inl e \<Rightarrow> isNotFound e
    | Inr sb \<Rightarrow> m_uid (sb_meta sb) \<noteq> or_uid ref)"

definition podSandboxGone :: "AgentRunReconciler \<Rightarrow> objmeta \<Rightarrow> bool" where
  "podSandboxGone R m = (case controllerOf m of None \<Rightarrow> True | Some ref \<Rightarrow> sandboxGone R ref (m_namespace m))"

lemma deleteOrphanedPod_calls:
  "c \<in> set (fst (deleteOrphanedPod R runName p)) \<Longrightarrow>
   c = DeleteObject ''Pod'' (pod_meta p) \<and> orphanOf sandboxGV sandboxKind runName (pod_meta p)
   \<and> podSandboxGone R (pod_meta p)"
  by (auto simp: deleteOrphanedPod_def set_fst_bindE mayDeletePodForMissingRun_def sandboxGone_def
      podSandboxGone_def Let_def dest!: deleteOrphanedObject_calls split: if_splits option.splits sum.splits)

text \<open>The objects the sweep may delete: listed under the run's labels, and orphans of the run; a
  pod, an orphan of the run's Sandbox, which is gone.\<close>

definition listed :: "goerr + 'a list \<Rightarrow> ('a \<Rightarrow> objmeta) \<Rightarrow> objmeta \<Rightarrow> bool" where
  "listed r f m \<longleftrightarrow> (\<exists>xs. r = Inr xs \<and> m \<in> f ` set xs)"

fun sweepable :: "AgentRunReconciler \<Rightarrow> key \<Rightarrow> call \<Rightarrow> bool" where
  "sweepable R k (DeleteObject kind m) \<longleftrightarrow>
     (let C = rr_client R; ns = fst k; sel = runSelector k in
      (kind = ''Sandbox'' \<and> listed (listSandboxes C ns sel) sb_meta m
        \<or> kind = ''ConfigMap'' \<and> listed (listConfigMaps C ns sel) cm_meta m
        \<or> kind = ''Secret'' \<and> listed (listSecrets C ns sel) sec_meta m)
       \<and> orphanOf konveyorGV agentRunKind (snd k) m
      \<or> kind = ''Pod'' \<and> listed (listPods C ns sel) pod_meta m
       \<and> orphanOf sandboxGV sandboxKind (snd k) m \<and> podSandboxGone R m)"
| "sweepable R k _ = False"

lemma cleanup_sweepable: "c \<in> set (fst (cleanupOrphanedRunResources R k)) \<Longrightarrow> sweepable R k c"
  unfolding cleanupOrphanedRunResources_def Let_def
  by (auto simp: set_fst_bindE sandboxKind_def listed_def Let_def
      dest!: forE_calls deleteOrphanedObject_calls deleteOrphanedPod_calls)

text \<open>The sweep for a missing AgentRun deletes only objects that carry the run's labels and that
  no other controller owns: each is unowned or has the missing run as its controller; a pod is
  deleted only when it has no controller, or its controller is the run's Sandbox and that Sandbox is
  gone or has been replaced.\<close>

theorem sweep_respects_owners:
  "list_all (sweepable R k) (fst (cleanupOrphanedRunResources R k))"
  by (simp add: list_all_iff cleanup_sweepable)

text \<open>A sweep for a missing AgentWorkflowRun deletes AgentRuns only, each listed under the
  workflow run's labels and either unowned or controlled by the missing workflow run; when it ends
  without error it has deleted every such AgentRun.\<close>

theorem workflow_sweep_exact:
  assumes "listRuns (wrr_client W) (fst k) (workflowSelector k) = Inr runs"
    and "snd (cleanupOrphanedWorkflowRunResources W k) = Inr ()"
  shows "set (fst (cleanupOrphanedWorkflowRunResources W k)) =
     DeleteObject ''AgentRun'' ` {m \<in> run_meta ` set runs.
       mayDeleteForMissingOwner m ''konveyor.io/v1alpha1'' ''AgentWorkflowRun'' (snd k)}"
proof -
  define f where "f = (\<lambda>r :: AgentRun. deleteOrphanedObject (wrr_client W) agentRunKind konveyorGV agentWorkflowRunKind (snd k) (run_meta r))"
  have eq: "cleanupOrphanedWorkflowRunResources W k = forE f runs"
    by (simp add: cleanupOrphanedWorkflowRunResources_def assms(1) bindE_def f_def wrapE_def)
  have calls: "set (fst (f r)) = (if mayDeleteForMissingOwner (run_meta r) konveyorGV agentWorkflowRunKind (snd k)
      then {DeleteObject agentRunKind (run_meta r)} else {})" for r
    by (simp add: f_def deleteOrphanedObject_def)
  have "set (fst (forE f runs)) = (\<Union>r \<in> set runs. set (fst (f r)))"
    using forE_complete[of f runs] forE_calls[of _ f runs] assms(2) eq by fastforce
  then show ?thesis
    by (auto simp: eq calls kind_defs split: if_splits)
qed

theorem workflow_sweep_exact_witness:
  "let m = newMeta ''a'' ''ns'' (\<lambda>_. None);
       W = quietWorkflowReconciler\<lparr>wrr_client := quietClient\<lparr>listRuns := (\<lambda>_ _. Inr [sampleRun\<lparr>run_meta := m\<rparr>])\<rparr>\<rparr> in
   set (fst (cleanupOrphanedWorkflowRunResources W (''ns'', ''wf''))) = {DeleteObject ''AgentRun'' m}"
proof -
  define m where "m = newMeta ''a'' ''ns'' (\<lambda>_. None)"
  define W where "W = quietWorkflowReconciler\<lparr>wrr_client := quietClient\<lparr>listRuns := (\<lambda>_ _. Inr [sampleRun\<lparr>run_meta := m\<rparr>])\<rparr>\<rparr>"
  have l: "listRuns (wrr_client W) (fst (''ns'', ''wf'')) (workflowSelector (''ns'', ''wf'')) = Inr [sampleRun\<lparr>run_meta := m\<rparr>]"
    by (simp add: W_def)
  have "snd (cleanupOrphanedWorkflowRunResources W (''ns'', ''wf'')) = Inr ()"
    by (simp add: cleanupOrphanedWorkflowRunResources_def bindE_def wrapE_def W_def deleteOrphanedObject_def
        deleteE_def quietClient_def)
  from workflow_sweep_exact[OF l this] show ?thesis
    by (auto simp: Let_def m_def W_def mayDeleteForMissingOwner_def controllerOf_def newMeta_def)
qed

end
