(* ===== verification/RunController.thy ===== *)
theory RunController
  imports SandboxBuild Cleanup
begin

text \<open>
  The AgentRun controller (\<open>AgentRunReconciler\<close> in
  src/internal/controller/agentrun_controller.go): one reconcile, its garbage collection, and the
  event maps. A run's life is the sequence of status patches its reconciles write.
\<close>

section \<open>Patching and garbage collection\<close>

definition patchRunStatus :: "AgentRunReconciler \<Rightarrow> AgentRun \<Rightarrow> AgentRun \<Rightarrow> cresult act" where
  "patchRunStatus R run original =
     bindE (sendE (rr_client R) (PatchRunStatus original run)) (\<lambda>_. retE noRequeue)"

definition effectiveTTL :: "AgentRunReconciler \<Rightarrow> AgentRun \<Rightarrow> duration option" where
  "effectiveTTL R run = (case rs_ttlSecondsAfterFinished (run_spec run) of
      Some n \<Rightarrow> Some (secondsOf n) | None \<Rightarrow> rr_defaultTTL R)"

definition reconcileTTL :: "AgentRunReconciler \<Rightarrow> AgentRun \<Rightarrow> AgentRun \<Rightarrow> cresult act" where
  "reconcileTTL R run original = (case effectiveTTL R run of
      None \<Rightarrow> retE noRequeue
    | Some ttl \<Rightarrow> (case st_completionTime (run_status run) of
        None \<Rightarrow> patchRunStatus R
          (run\<lparr>run_status := (run_status run)\<lparr>st_completionTime := Some (rr_now R)\<rparr>\<rparr>) original
      | Some t \<Rightarrow>
          (let remaining = timeSub (t + ttl) (rr_now R) in
           if remaining > 0 then retE (requeueIn remaining)
           else bindE (deleteE (rr_client R) agentRunKind (run_meta run)) (\<lambda>_. retE noRequeue))))"

section \<open>Reconcile\<close>

text \<open>The three ways a reconcile ends early: the run fails for good, it waits, or its status is
  patched and the error returned for a retry.\<close>

definition failRun :: "AgentRunReconciler \<Rightarrow> AgentRun \<Rightarrow> AgentRun \<Rightarrow> string \<Rightarrow> gofmt \<Rightarrow> cresult act" where
  "failRun R original run reason message =
     patchRunStatus R (setRunSucceeded (rr_lib R) (withPhase PhaseFailed run) CFalse reason message) original"

definition waitRun :: "AgentRunReconciler \<Rightarrow> AgentRun \<Rightarrow> AgentRun \<Rightarrow> string \<Rightarrow> gofmt \<Rightarrow> cresult act" where
  "waitRun R original run reason message =
     patchRunStatus R (setRunSucceeded (rr_lib R) run CUnknown reason message) original"

definition retryRun :: "AgentRunReconciler \<Rightarrow> AgentRun \<Rightarrow> AgentRun \<Rightarrow> string \<Rightarrow> gofmt \<Rightarrow> goerr \<Rightarrow> cresult act" where
  "retryRun R original run reason message err =
     bindE (waitRun R original run reason message) (\<lambda>_. failE err)"

definition withSandboxName :: "string \<Rightarrow> AgentRun \<Rightarrow> AgentRun" where
  "withSandboxName n run = run\<lparr>run_status := (run_status run)\<lparr>st_sandboxName := n\<rparr>\<rparr>"

text \<open>No Sandbox yet: validate everything that can never heal, then create it.\<close>

definition createPhase :: "AgentRunReconciler \<Rightarrow> AgentRun \<Rightarrow> AgentRun \<Rightarrow> Agent \<Rightarrow> paramsFile \<Rightarrow> scopes \<Rightarrow> cresult act" where
  "createPhase R original run agent params scopes =
     (case createSandbox R run agent params scopes of (run', calls, result) \<Rightarrow>
        (case result of
           Inl err \<Rightarrow>
             (let (reason, msg) =
                (if ekind err = GatewayNotFoundE
                 then (''GatewayNotFound'', Fmt ''Gateway %q not found; waiting for it to be created''
                         [Lit (rs_gateway (run_spec run'))])
                 else (''SandboxCreationFailed'', Fmt ''Failed to create Sandbox for Agent %q: %v''
                         [Lit (m_name (ag_meta agent)), emsg err]));
                 next = retryRun R original run' reason msg err in
              (calls @ fst next, snd next))
         | Inr name \<Rightarrow>
             (let next = patchRunStatus R (setRunSucceeded (rr_lib R)
                (withPhase PhasePending (withSandboxName name run')) CUnknown ''SandboxCreated''
                (Fmt ''Sandbox %q created'' [Lit name])) original in
              (calls @ fst next, snd next))))"

definition startRun :: "AgentRunReconciler \<Rightarrow> AgentRun \<Rightarrow> AgentRun \<Rightarrow> Agent \<Rightarrow> cresult act" where
  "startRun R original run agent =
     (case validateParams run agent of
        Inl e \<Rightarrow> failRun R original run ''InvalidParams'' (emsg e)
      | Inr (params, scopes) \<Rightarrow>
     (case validateGateway run agent of
        Inl e \<Rightarrow> failRun R original run ''InvalidGateway'' (emsg e)
      | Inr run' \<Rightarrow>
     (case validateFileMounts (rs_fileMounts (run_spec run')) of
        Some e \<Rightarrow> failRun R original run' ''InvalidFileMounts'' (emsg e)
      | None \<Rightarrow>
     (case validateSources (getSecret (rr_client R)) (getConfigMap (rr_client R))
             (m_namespace (run_meta run')) (rs_fileMounts (run_spec run')) of
        Inl e \<Rightarrow> retryRun R original run'
          (if isNotFound e then ''FileMountSourceNotFound'' else ''FileMountSourceUnavailable'') (emsg e) e
      | Inr (Some message) \<Rightarrow> failRun R original run' ''InvalidFileMounts'' message
      | Inr None \<Rightarrow> createPhase R original run' agent params scopes))))"

text \<open>The Sandbox exists, or did: follow it.\<close>

definition followRun :: "AgentRunReconciler \<Rightarrow> AgentRun \<Rightarrow> AgentRun \<Rightarrow> cresult act" where
  "followRun R original run =
     (let name = st_sandboxName (run_status run); key = (m_namespace (run_meta run), name);
          gone = failRun R original run ''SandboxNotFound'' (Fmt ''Sandbox %q was deleted'' [Lit name]) in
      case getSandbox (rr_client R) key of
        Inl e \<Rightarrow>
          if isNotFound e then
            (case rr_apiReader R of
               None \<Rightarrow> gone
             | Some rd \<Rightarrow> (case rdSandbox rd key of
                 Inr _ \<Rightarrow> retE requeueNow
               | Inl e' \<Rightarrow> if isNotFound e' then gone else failE e'))
          else failE e
      | Inr sb \<Rightarrow>
          (let follow = (\<lambda>p. case updatePhaseFromSandbox R run sb p of (run', after) \<Rightarrow>
                 bindE (patchRunStatus R run' original) (\<lambda>_. retE (requeueIn after))) in
           case getPod (rr_client R) key of
             Inr p \<Rightarrow> follow (Some p)
           | Inl e \<Rightarrow> if isNotFound e then follow None else failE e))"

definition reconcileLive :: "AgentRunReconciler \<Rightarrow> AgentRun \<Rightarrow> AgentRun \<Rightarrow> cresult act" where
  "reconcileLive R original run =
     (let ref = rs_agentRef (run_spec run) in
      case getAgent (rr_client R) (m_namespace (run_meta run), ref) of
        Inl e \<Rightarrow> if isNotFound e then failRun R original run ''AgentNotFound'' (Fmt ''Agent %q not found'' [Lit ref])
                 else failE e
      | Inr agent \<Rightarrow>
          if \<not> isReady (rr_lib R) (ags_conditions (ag_status agent))
          then waitRun R original run ''AgentNotReady'' (Fmt ''Agent %q is not Ready'' [Lit ref])
          else if st_sandboxName (run_status run) = [] then startRun R original run agent
          else followRun R original run)"

definition observed :: "AgentRun \<Rightarrow> AgentRun" where
  "observed run = run\<lparr>run_status := (run_status run)\<lparr>st_observedGeneration := m_generation (run_meta run)\<rparr>\<rparr>"

definition withoutReady :: "klib \<Rightarrow> AgentRun \<Rightarrow> AgentRun" where
  "withoutReady K run = run\<lparr>run_status := (run_status run)\<lparr>st_conditions :=
     removeCond K (st_conditions (run_status run)) ConditionTypeReady\<rparr>\<rparr>"

definition reconcileRun :: "AgentRunReconciler \<Rightarrow> AgentRun \<Rightarrow> cresult act" where
  "reconcileRun R original =
     (let run = observed original in
      if isTerminalPhase (run_phase run) then reconcileTTL R run original
      else reconcileLive R original (withoutReady (rr_lib R) run))"

definition Reconcile :: "AgentRunReconciler \<Rightarrow> key \<Rightarrow> cresult act" where
  "Reconcile R k = (case getRun (rr_client R) k of
      Inr run \<Rightarrow> reconcileRun R run
    | Inl e \<Rightarrow>
        if \<not> isNotFound e then failE e
        else (let sweep = bindE (cleanupOrphanedRunResources R k) (\<lambda>_. retE noRequeue) in
          case rr_apiReader R of
            None \<Rightarrow> sweep
          | Some rd \<Rightarrow> (case rdRun rd k of
              Inr _ \<Rightarrow> retE requeueNow
            | Inl e' \<Rightarrow> if isNotFound e' then sweep else failE e')))"

section \<open>Event maps\<close>

definition isSandboxPod :: "objmeta \<Rightarrow> bool" where
  "isSandboxPod m = (m_labels m labelAgentRun \<noteq> None)"

definition runForLabeledResource :: "objmeta \<Rightarrow> key list" where
  "runForLabeledResource m = (case m_labels m labelAgentRun of None \<Rightarrow> [] | Some name \<Rightarrow> [(m_namespace m, name)])"

definition findRunsForAgent :: "AgentRunReconciler \<Rightarrow> Agent \<Rightarrow> key list" where
  "findRunsForAgent R agent =
     (case listRunsForAgent (rr_client R) (m_namespace (ag_meta agent)) (m_name (ag_meta agent)) of
        Inl e \<Rightarrow> []
      | Inr runs \<Rightarrow> map (\<lambda>r. keyOf (run_meta r)) (filter (\<lambda>r. \<not> isTerminalPhase (run_phase r)) runs))"

section \<open>The invariant of a run\<close>

text \<open>A run that is Pending or Running has a Sandbox; Verified is only ever set together with a
  terminal phase, and then reports the recorded termination data.\<close>

definition placed :: "AgentRun \<Rightarrow> bool" where
  "placed run \<longleftrightarrow> (run_phase run = PhasePending \<or> run_phase run = PhaseRunning \<longrightarrow>
     st_sandboxName (run_status run) \<noteq> [])"

definition verifiedOK :: "klib \<Rightarrow> AgentRun \<Rightarrow> bool" where
  "verifiedOK K run \<longleftrightarrow> (case condStatus K AgentRunConditionVerified run of None \<Rightarrow> True
     | Some s \<Rightarrow> isTerminalPhase (run_phase run)
         \<and> s = fst (verificationVerdict (st_terminationData (run_status run))))"

definition runOK :: "klib \<Rightarrow> AgentRun \<Rightarrow> bool" where
  "runOK K run \<longleftrightarrow> consistent K run \<and> placed run \<and> verifiedOK K run"

text \<open>What a status patch may do to a run.\<close>

definition goodPatch :: "klib \<Rightarrow> AgentRun \<Rightarrow> AgentRun \<Rightarrow> bool" where
  "goodPatch K run new \<longleftrightarrow> runOK K new \<and> run_phase run \<le> run_phase new \<and> run_meta new = run_meta run
     \<and> (st_sandboxName (run_status run) = [] \<or> st_sandboxName (run_status new) = st_sandboxName (run_status run))"

text \<open>The same run but for its gateway, its Secret, its observed generation and its legacy Ready
  condition: what a reconcile changes in memory before it decides.\<close>

definition sameCore :: "klib \<Rightarrow> AgentRun \<Rightarrow> AgentRun \<Rightarrow> bool" where
  "sameCore K a b \<longleftrightarrow> run_phase b = run_phase a \<and> run_meta b = run_meta a
     \<and> st_sandboxName (run_status b) = st_sandboxName (run_status a)
     \<and> st_terminationData (run_status b) = st_terminationData (run_status a)
     \<and> condStatus K AgentRunConditionSucceeded b = condStatus K AgentRunConditionSucceeded a
     \<and> condStatus K AgentRunConditionVerified b = condStatus K AgentRunConditionVerified a"

lemma sameCore_trans: "sameCore K a b \<Longrightarrow> sameCore K b c \<Longrightarrow> sameCore K a c"
  by (simp add: sameCore_def)

lemma sameCore_observed: "sameCore K run (observed run)"
  by (simp add: sameCore_def observed_def condStatus_def)

lemma sameCore_withGateway: "sameCore K run (withGateway g run)"
  by (simp add: sameCore_def withGateway_def condStatus_def)

lemma sameCore_secret: "sameCore K run (fst (createSandbox R run agent params scopes))"
  by (simp add: sameCore_def createSandbox_def Let_def condStatus_def split: sum.splits)

lemma runOK_sameCore: "sameCore K a b \<Longrightarrow> runOK K a \<Longrightarrow> runOK K b"
  by (simp add: sameCore_def runOK_def consistent_def placed_def verifiedOK_def split: option.splits)

lemma validateGateway_core: "validateGateway run agent = Inr run' \<Longrightarrow> sameCore K run run'"
  by (auto simp: validateGateway_def Let_def sameCore_withGateway sameCore_def
      split: if_splits list.splits) (auto simp: withGateway_def condStatus_def)

lemma le_Failed: "\<not> isTerminalPhase p \<Longrightarrow> p \<le> PhaseFailed"
  by (rule phase_le_terminal) (simp_all add: isTerminalPhase_def)

context condition_store
begin

lemma sameCore_withoutReady: "sameCore K run (withoutReady K run)"
  by (simp add: sameCore_def withoutReady_def condStatus_def find_remove condition_types ConditionTypeReady_def)

lemma unverified: "runOK K run \<Longrightarrow> \<not> isTerminalPhase (run_phase run) \<Longrightarrow>
   condStatus K AgentRunConditionVerified run = None"
  by (auto simp: runOK_def verifiedOK_def split: option.splits)

lemma verified_setRunSucceeded [simp]:
  "condStatus K AgentRunConditionVerified (setRunSucceeded K run s r m) = condStatus K AgentRunConditionVerified run"
  by (rule condStatus_setRunSucceeded_other) (simp add: condition_types)

text \<open>A terminal failure, a wait, and the creation of the Sandbox are good patches.\<close>

lemma goodPatch_fail:
  assumes "runOK K a" "\<not> isTerminalPhase (run_phase a)" "sameCore K a b"
  shows "goodPatch K a (setRunSucceeded K (withPhase PhaseFailed b) CFalse r m)"
  using assms unverified[of b] runOK_sameCore[OF assms(3,1)]
  by (simp add: goodPatch_def runOK_def consistent_def placed_def verifiedOK_def sameCore_def le_Failed)

lemma goodPatch_wait:
  assumes "runOK K a" "\<not> isTerminalPhase (run_phase a)" "sameCore K a b"
  shows "goodPatch K a (setRunSucceeded K b CUnknown r m)"
proof -
  have "runOK K b" by (rule runOK_sameCore[OF assms(3,1)])
  moreover have "consistent K (setRunSucceeded K b CUnknown r m)"
    using assms by (cases "run_phase b") (auto simp: consistent_def isTerminalPhase_def sameCore_def)
  ultimately show ?thesis
    using assms unverified[of b]
    by (simp add: goodPatch_def runOK_def placed_def verifiedOK_def sameCore_def)
qed

lemma goodPatch_create:
  assumes "runOK K a" "\<not> isTerminalPhase (run_phase a)" "sameCore K a b"
    and "st_sandboxName (run_status a) = []" "name \<noteq> []"
  shows "goodPatch K a (setRunSucceeded K (withPhase PhasePending (withSandboxName name b)) CUnknown r m)"
proof -
  have b: "runOK K b" by (rule runOK_sameCore[OF assms(3,1)])
  have "run_phase a = PhaseUnset"
    using assms(1,2,4) by (cases "run_phase a") (auto simp: runOK_def placed_def isTerminalPhase_def)
  moreover have "condStatus K AgentRunConditionVerified (withSandboxName name b) = None"
    using unverified[OF b] assms(2,3) by (simp add: withSandboxName_def condStatus_def sameCore_def)
  ultimately show ?thesis
    using assms(3,4,5)
    by (simp add: goodPatch_def runOK_def consistent_def placed_def verifiedOK_def sameCore_def
        less_eq_AgentRunPhase_def) (simp add: withSandboxName_def)
qed

lemma sameCore_acp: "sameCore K b (withCond K (acpReadyCondition K b sb) b)"
  by (simp add: sameCore_def condStatus_withCond condition_types)

text \<open>Following the Sandbox: what holds of a run that has one and is not finished.\<close>

lemma goodPatch_running:
  assumes "runOK K a" "\<not> isTerminalPhase (run_phase a)" "sameCore K a b"
    and "st_sandboxName (run_status a) \<noteq> []"
  shows "goodPatch K a (setRunSucceeded K ((withPhase PhaseRunning b)\<lparr>run_status :=
      (run_status (withPhase PhaseRunning b))\<lparr>st_startTime := t\<rparr>\<rparr>) CUnknown r m)"
proof -
  have "condStatus K AgentRunConditionVerified b = None"
    using unverified[OF runOK_sameCore[OF assms(3,1)]] assms(2,3) by (simp add: sameCore_def)
  then have "condStatus K AgentRunConditionVerified ((withPhase PhaseRunning b)\<lparr>run_status :=
      (run_status (withPhase PhaseRunning b))\<lparr>st_startTime := t\<rparr>\<rparr>) = None"
    by (simp add: condStatus_def)
  moreover have "run_phase a \<le> PhaseRunning"
    using assms(2) by (cases "run_phase a") (auto simp: isTerminalPhase_def less_eq_AgentRunPhase_def)
  ultimately show ?thesis
    using assms(3,4)
    by (simp add: goodPatch_def runOK_def consistent_def placed_def verifiedOK_def sameCore_def)
qed

lemma goodPatch_pending:
  assumes "runOK K a" "\<not> isTerminalPhase (run_phase a)" "sameCore K a b"
    and "st_sandboxName (run_status a) \<noteq> []" "run_phase a \<noteq> PhaseRunning"
  shows "goodPatch K a (setRunSucceeded K (withPhase PhasePending b) CUnknown r m)"
proof -
  have "condStatus K AgentRunConditionVerified b = None"
    using unverified[OF runOK_sameCore[OF assms(3,1)]] assms(2,3) by (simp add: sameCore_def)
  moreover have "run_phase a \<le> PhasePending"
    using assms(2,5) by (cases "run_phase a") (auto simp: isTerminalPhase_def less_eq_AgentRunPhase_def)
  ultimately show ?thesis
    using assms(3,4)
    by (simp add: goodPatch_def runOK_def consistent_def placed_def verifiedOK_def sameCore_def)
qed

lemma goodPatch_stampedFailure:
  assumes "runOK K a" "\<not> isTerminalPhase (run_phase a)" "sameCore K a b"
  shows "goodPatch K a (setRunSucceeded K (stampCompletion now (withPhase PhaseFailed b) p sb) CFalse r m)"
  using assms unverified[OF runOK_sameCore[OF assms(3,1)]]
  by (simp add: goodPatch_def runOK_def consistent_def placed_def verifiedOK_def sameCore_def le_Failed)

lemma goodPatch_finish:
  assumes lib: "rr_lib R = K" and "runOK K a" "\<not> isTerminalPhase (run_phase a)" "sameCore K a b"
    and fin: "finishedCondition sb = Some cond"
  shows "goodPatch K a (finishRun R b sb p cond)"
proof -
  have upd: "fst (updatePhaseFromSandbox R b sb p) = finishRun R b sb p cond"
    by (simp add: updatePhaseFromSandbox_def fin)
  have "consistent K b" using runOK_sameCore[OF assms(4,2)] by (simp add: runOK_def)
  then have "consistent K (finishRun R b sb p cond)"
    using consistent_updatePhase[OF lib, of b sb p] upd by simp
  moreover have "verifiedOK K (finishRun R b sb p cond)"
    using finishRun_verified[of R b sb p cond] condition_store_axioms lib
    by (simp add: verifiedOK_def finishRun_terminal finishRun_data)
  moreover have "placed (finishRun R b sb p cond)"
    using finishRun_terminal[of R b sb p cond] by (auto simp: placed_def isTerminalPhase_def)
  ultimately show ?thesis
    using assms(3,4) finishRun_terminal[of R b sb p cond]
    by (simp add: goodPatch_def runOK_def sameCore_def phase_le_terminal)
qed

lemma goodPatch_await:
  assumes "rr_lib R = K" "runOK K a" "\<not> isTerminalPhase (run_phase a)" "sameCore K a b"
    "st_sandboxName (run_status a) \<noteq> []" "run_phase a \<noteq> PhaseRunning"
  shows "goodPatch K a (fst (awaitPod R b sb p))"
  using goodPatch_pending[OF assms(2-6)] goodPatch_stampedFailure[OF assms(2-4)] assms(1)
  by (simp add: awaitPod_def Let_def split: option.split)

lemma goodPatch_follow:
  assumes "rr_lib R = K" "runOK K a" "\<not> isTerminalPhase (run_phase a)" "sameCore K a b"
    "st_sandboxName (run_status a) \<noteq> []"
  shows "goodPatch K a (fst (updatePhaseFromSandbox R b sb p))"
proof (cases "finishedCondition sb")
  case (Some cond)
  then show ?thesis
    using goodPatch_finish[OF assms(1-4) Some] by (simp add: updatePhaseFromSandbox_def)
next
  case None
  define b1 where "b1 = withCond K (acpReadyCondition K b sb) b"
  have core: "sameCore K a b1" unfolding b1_def by (rule sameCore_trans[OF assms(4) sameCore_acp])
  then have ph: "run_phase b1 = run_phase a" "run_phase b = run_phase a"
    using assms(4) by (simp_all add: sameCore_def)
  have same: "goodPatch K a b1"
    using core runOK_sameCore[OF core assms(2)] by (simp add: goodPatch_def sameCore_def)
  show ?thesis
    using None same goodPatch_stampedFailure[OF assms(2,3) core] goodPatch_running[OF assms(2,3) core assms(5)]
      goodPatch_await[OF assms(1-3) core assms(5)]
    by (auto simp: updatePhaseFromSandbox_def Let_def assms(1) ph b1_def[symmetric] split: option.split)
qed

end

text \<open>Which patches the parts of a reconcile write.\<close>

definition patchesGood :: "klib \<Rightarrow> AgentRun \<Rightarrow> call list \<Rightarrow> bool" where
  "patchesGood K run calls \<longleftrightarrow>
     (\<forall>orig new. PatchRunStatus orig new \<in> set calls \<longrightarrow> orig = run \<and> goodPatch K run new)"

lemma patchesGood_simps [simp]:
  "patchesGood K run []"
  "patchesGood K run [PatchRunStatus run new] \<longleftrightarrow> goodPatch K run new"
  "patchesGood K run (xs @ ys) \<longleftrightarrow> patchesGood K run xs \<and> patchesGood K run ys"
  by (auto simp: patchesGood_def)

lemma fst_patchRunStatus [simp]: "fst (patchRunStatus R new orig) = [PatchRunStatus orig new]"
  by (simp add: patchRunStatus_def bindE_def split: sum.splits)

lemma fst_failRun [simp]: "fst (failRun R orig run reason msg) =
    [PatchRunStatus orig (setRunSucceeded (rr_lib R) (withPhase PhaseFailed run) CFalse reason msg)]"
  by (simp add: failRun_def)

lemma fst_waitRun [simp]: "fst (waitRun R orig run reason msg) =
    [PatchRunStatus orig (setRunSucceeded (rr_lib R) run CUnknown reason msg)]"
  by (simp add: waitRun_def)

lemma fst_retryRun [simp]: "fst (retryRun R orig run reason msg e) =
    [PatchRunStatus orig (setRunSucceeded (rr_lib R) run CUnknown reason msg)]"
  by (simp add: retryRun_def bindE_def split: sum.splits)

lemma createSandbox_no_patch: "patchesGood K run (fst (snd (createSandbox R run' agent params scopes)))"
  by (auto simp: patchesGood_def dest: createSandbox_calls)

lemma createSandbox_name:
  "snd (snd (createSandbox R run agent params scopes)) = Inr name \<Longrightarrow> name = m_name (run_meta run)"
  by (auto simp: createSandbox_def createSandboxObjects_def Let_def snd_bindE_Inr split: sum.splits)

lemma createPhase_calls:
  "fst (createPhase R orig run agent params scopes) =
     fst (snd (createSandbox R run agent params scopes)) @
     [PatchRunStatus orig (case snd (snd (createSandbox R run agent params scopes)) of
        Inl err \<Rightarrow>
          (let run' = fst (createSandbox R run agent params scopes) in
           if ekind err = GatewayNotFoundE
           then setRunSucceeded (rr_lib R) run' CUnknown ''GatewayNotFound''
             (Fmt ''Gateway %q not found; waiting for it to be created'' [Lit (rs_gateway (run_spec run'))])
           else setRunSucceeded (rr_lib R) run' CUnknown ''SandboxCreationFailed''
             (Fmt ''Failed to create Sandbox for Agent %q: %v'' [Lit (m_name (ag_meta agent)), emsg err]))
      | Inr name \<Rightarrow> setRunSucceeded (rr_lib R)
          (withPhase PhasePending (withSandboxName name (fst (createSandbox R run agent params scopes))))
          CUnknown ''SandboxCreated'' (Fmt ''Sandbox %q created'' [Lit name]))]"
  by (simp add: createPhase_def Let_def split: prod.splits sum.splits)

context condition_store
begin

lemma createPhase_good:
  assumes lib: "rr_lib R = K" and "runOK K a" "\<not> isTerminalPhase (run_phase a)" and core: "sameCore K a b"
    and "st_sandboxName (run_status a) = []" and name: "m_name (run_meta a) \<noteq> []"
  shows "patchesGood K a (fst (createPhase R a b agent params scopes))"
proof -
  define b' where "b' = fst (createSandbox R b agent params scopes)"
  have core': "sameCore K a b'" unfolding b'_def by (rule sameCore_trans[OF core sameCore_secret])
  have "m_name (run_meta b) \<noteq> []" using core name by (simp add: sameCore_def)
  then have "n \<noteq> []" if "snd (snd (createSandbox R b agent params scopes)) = Inr n" for n
    using createSandbox_name[OF that] by simp
  then show ?thesis
    using goodPatch_create[OF assms(2,3) core' assms(5)] goodPatch_wait[OF assms(2,3) core']
      createSandbox_no_patch[of K a R b agent params scopes]
    by (simp add: createPhase_calls Let_def lib b'_def[symmetric] split: sum.split)
qed

lemma startRun_good:
  assumes lib: "rr_lib R = K" and "runOK K a" "\<not> isTerminalPhase (run_phase a)" and core: "sameCore K a b"
    and "st_sandboxName (run_status a) = []" and "m_name (run_meta a) \<noteq> []"
  shows "patchesGood K a (fst (startRun R a b agent))"
proof (cases "validateGateway b agent")
  case (Inl e)
  then show ?thesis
    using goodPatch_fail[OF assms(2,3) core] by (simp add: startRun_def lib split: sum.split)
next
  case (Inr b')
  have core': "sameCore K a b'" by (rule sameCore_trans[OF core validateGateway_core[OF Inr]])
  show ?thesis
    using Inr goodPatch_fail[OF assms(2,3) core] goodPatch_fail[OF assms(2,3) core']
      goodPatch_wait[OF assms(2,3) core'] createPhase_good[OF assms(1-3) core' assms(5,6)]
    by (simp add: startRun_def lib split: sum.split option.split)
qed

lemma followRun_good:
  assumes lib: "rr_lib R = K" and "runOK K a" "\<not> isTerminalPhase (run_phase a)" and core: "sameCore K a b"
    and "st_sandboxName (run_status a) \<noteq> []"
  shows "patchesGood K a (fst (followRun R a b))"
proof -
  have f: "fst (case updatePhaseFromSandbox R b sb p of (run', after) \<Rightarrow>
        bindE (patchRunStatus R run' a) (\<lambda>_. retE (requeueIn after)))
      = [PatchRunStatus a (fst (updatePhaseFromSandbox R b sb p))]" for sb p
    by (simp add: bindE_def split: prod.split sum.split)
  show ?thesis
    using goodPatch_fail[OF assms(2,3) core] goodPatch_follow[OF assms]
    by (simp add: followRun_def Let_def lib f split: sum.split option.split)
qed

lemma reconcileTTL_good:
  assumes "runOK K a" "sameCore K a b"
  shows "patchesGood K a (fst (reconcileTTL R b a))"
proof -
  have core: "sameCore K a (b\<lparr>run_status := (run_status b)\<lparr>st_completionTime := Some t\<rparr>\<rparr>)" for t
    using assms(2) by (simp add: sameCore_def condStatus_def)
  have "goodPatch K a (b\<lparr>run_status := (run_status b)\<lparr>st_completionTime := Some t\<rparr>\<rparr>)" for t
    using core[of t] runOK_sameCore[OF core assms(1)] by (simp add: goodPatch_def sameCore_def)
  moreover have "patchesGood K a [DeleteObject k m]" for k m by (simp add: patchesGood_def)
  ultimately show ?thesis
    by (simp add: reconcileTTL_def Let_def bindE_def deleteE_def split: option.split sum.split)
qed

text \<open>Every status patch of a reconcile starts from the run it read and is a good one.\<close>

lemma reconcileRun_good:
  assumes "rr_lib R = K" "runOK K run" "m_name (run_meta run) \<noteq> []"
  shows "patchesGood K run (fst (reconcileRun R run))"
proof (cases "isTerminalPhase (run_phase run)")
  case True
  then show ?thesis
    using reconcileTTL_good[OF assms(2) sameCore_observed]
    by (simp add: reconcileRun_def Let_def) (simp add: observed_def)
next
  case False
  define b where "b = withoutReady K (observed run)"
  have core: "sameCore K run b"
    unfolding b_def by (rule sameCore_trans[OF sameCore_observed sameCore_withoutReady])
  have "patchesGood K run (fst (reconcileLive R run b))"
    using goodPatch_fail[OF assms(2) False core] goodPatch_wait[OF assms(2) False core]
      startRun_good[OF assms(1,2) False core _ assms(3)] followRun_good[OF assms(1,2) False core] core
    by (auto simp: reconcileLive_def Let_def assms(1) sameCore_def split: sum.split)
  then show ?thesis
    using False by (simp add: reconcileRun_def Let_def assms(1) b_def observed_def)
qed

end

section \<open>Reachable runs\<close>

text \<open>
  The life of a run under any client, clock, library and reader: it is created with an empty status;
  users may edit everything but the status; and a reconcile that reads it may persist any status
  patch it sends, whatever the patch is answered.
\<close>

inductive reachable :: "klib \<Rightarrow> AgentRun \<Rightarrow> bool" for K where
  created: "run_phase run = PhaseUnset \<Longrightarrow> st_sandboxName (run_status run) = [] \<Longrightarrow>
    st_conditions (run_status run) = [] \<Longrightarrow> m_name (run_meta run) \<noteq> [] \<Longrightarrow> reachable K run"
| edited: "reachable K run \<Longrightarrow> run_status run' = run_status run \<Longrightarrow> m_name (run_meta run') \<noteq> [] \<Longrightarrow>
    reachable K run'"
| patched: "reachable K run \<Longrightarrow> rr_lib R = K \<Longrightarrow> getRun (rr_client R) k = Inr run \<Longrightarrow>
    PatchRunStatus orig new \<in> set (fst (Reconcile R k)) \<Longrightarrow>
    reachable K (run\<lparr>run_status := run_status new\<rparr>)"

lemma runOK_status:
  assumes "run_status run' = run_status run"
  shows "runOK K run' = runOK K run"
  unfolding runOK_def consistent_def placed_def verifiedOK_def condStatus_def assms by (rule refl)

lemma reachable_named: "reachable K run \<Longrightarrow> m_name (run_meta run) \<noteq> []"
  by (induction rule: reachable.induct) auto

lemma reachable_OK:
  assumes "condition_store K" "reachable K run"
  shows "runOK K run"
  using assms(2)
proof (induction rule: reachable.induct)
  case (created run)
  then show ?case
    using condition_store.find_nil[OF assms(1)]
    by (simp add: runOK_def consistent_def placed_def verifiedOK_def condStatus_def)
next
  case (edited run run')
  then show ?case using runOK_status[of run' run] by simp
next
  case (patched run R k orig new)
  then have "PatchRunStatus orig new \<in> set (fst (reconcileRun R run))" by (simp add: Reconcile_def)
  then have "runOK K new"
    using condition_store.reconcileRun_good[OF assms(1) patched(2,5) reachable_named[OF patched(1)]]
    by (auto simp: patchesGood_def goodPatch_def)
  then show ?case using runOK_status[of "run\<lparr>run_status := run_status new\<rparr>" new] by simp
qed

text \<open>C1: in every reachable state of a run its phase and its conditions tell one story. The phase is
  Succeeded exactly when the Succeeded condition is True, Failed exactly when it is False; a Pending
  or Running run has a Sandbox; and Verified=True only stands on a finished run whose recorded
  termination data reports \<open>passed\<close>.\<close>

theorem reachable_run_consistent:
  assumes "condition_store K" and "reachable K run"
  shows "(run_phase run = PhaseSucceeded \<longleftrightarrow> condStatus K ''Succeeded'' run = Some CTrue)
     \<and> (run_phase run = PhaseFailed \<longleftrightarrow> condStatus K ''Succeeded'' run = Some CFalse)
     \<and> (run_phase run \<in> {PhasePending, PhaseRunning} \<longrightarrow> st_sandboxName (run_status run) \<noteq> [])
     \<and> (condStatus K ''Verified'' run = Some CTrue \<longrightarrow> isTerminalPhase (run_phase run)
          \<and> (\<exists>v. harnessVerificationFrom (st_terminationData (run_status run)) = Some v \<and> hv_status v = ''passed''))"
proof -
  have ok: "runOK K run" by (rule reachable_OK[OF assms])
  have v: "fst (verificationVerdict td) = CTrue \<Longrightarrow>
      \<exists>v. harnessVerificationFrom td = Some v \<and> hv_status v = ''passed''" for td
    by (auto simp: verificationVerdict_def harness_statuses split: option.splits if_splits)
  have "verifiedOK K run" using ok by (simp add: runOK_def)
  then have "condStatus K ''Verified'' run = Some CTrue \<Longrightarrow> isTerminalPhase (run_phase run)
      \<and> (\<exists>v. harnessVerificationFrom (st_terminationData (run_status run)) = Some v \<and> hv_status v = ''passed'')"
    using v[of "st_terminationData (run_status run)"]
    by (simp add: verifiedOK_def AgentRunConditionVerified_def)
  moreover have "outcomeStatus (run_phase run) (condStatus K ''Succeeded'' run)" "placed run"
    using ok by (simp_all add: runOK_def consistent_def AgentRunConditionSucceeded_def)
  ultimately show ?thesis
    by (cases "run_phase run") (auto simp: placed_def)
qed

text \<open>C7: the phase of a run only moves forward, through unset, Pending and Running to one of the two
  terminal phases, and the Sandbox it was given never changes, whatever the API server answers and
  however often a reconcile is repeated.\<close>

theorem run_phase_monotone:
  assumes "condition_store K" and "reachable K run" and "rr_lib R = K"
    and "getRun (rr_client R) k = Inr run" and "PatchRunStatus orig new \<in> set (fst (Reconcile R k))"
  shows "orig = run \<and> run_phase run \<le> run_phase new
     \<and> (st_sandboxName (run_status run) = [] \<or> st_sandboxName (run_status new) = st_sandboxName (run_status run))"
proof -
  have "PatchRunStatus orig new \<in> set (fst (reconcileRun R run))" using assms(4,5) by (simp add: Reconcile_def)
  then show ?thesis
    using condition_store.reconcileRun_good[OF assms(1,3) reachable_OK[OF assms(1,2)] reachable_named[OF assms(2)]]
    by (auto simp: patchesGood_def goodPatch_def)
qed

section \<open>Finished runs\<close>

lemma sat64_pos_iff: "0 < timeSub a b \<longleftrightarrow> b < a"
  by (auto simp: timeSub_def sat64_def)

lemma reconcileTTL_calls:
  "fst (reconcileTTL R run orig) = (case effectiveTTL R run of None \<Rightarrow> []
     | Some ttl \<Rightarrow> (case st_completionTime (run_status run) of
         None \<Rightarrow> [PatchRunStatus orig (run\<lparr>run_status := (run_status run)\<lparr>st_completionTime := Some (rr_now R)\<rparr>\<rparr>)]
       | Some t \<Rightarrow> if rr_now R < t + ttl then [] else [DeleteObject ''AgentRun'' (run_meta run)]))"
  by (simp add: reconcileTTL_def Let_def bindE_def deleteE_def sat64_pos_iff agentRunKind_def
      split: option.split sum.split)

lemma effectiveTTL_observed [simp]: "effectiveTTL R (observed run) = effectiveTTL R run"
  by (simp add: effectiveTTL_def observed_def)

lemma observed_simps [simp]:
  "run_phase (observed run) = run_phase run" "run_meta (observed run) = run_meta run"
  "run_spec (observed run) = run_spec run"
  "st_completionTime (run_status (observed run)) = st_completionTime (run_status run)"
  by (simp_all add: observed_def)

text \<open>What a reconcile does to a finished run, exactly. Without an effective lifetime nothing. With
  one, a run that never recorded a completion time gets the current time and no other change; before
  completion time plus lifetime nothing is written; from then on the run itself is deleted. Its
  phase and conditions are final.\<close>

theorem finished_run_lifecycle:
  assumes "getRun (rr_client R) k = Inr run" and "isTerminalPhase (run_phase run)"
  shows "fst (Reconcile R k) = (case effectiveTTL R run of None \<Rightarrow> []
     | Some ttl \<Rightarrow> (case st_completionTime (run_status run) of
         None \<Rightarrow> [PatchRunStatus run (run\<lparr>run_status := (run_status run)\<lparr>st_completionTime := Some (rr_now R),
             st_observedGeneration := m_generation (run_meta run)\<rparr>\<rparr>)]
       | Some t \<Rightarrow> if rr_now R < t + ttl then [] else [DeleteObject ''AgentRun'' (run_meta run)]))"
  using assms
  by (simp add: Reconcile_def reconcileRun_def Let_def reconcileTTL_calls split: option.split)
    (simp add: observed_def)

text \<open>The lifetime of a finished run is its own \<open>ttlSecondsAfterFinished\<close> in exact nanoseconds (an
  \<open>int32\<close> of seconds never overflows), else the controller's default; a reconcile before the end
  asks to be called again at the end and not later.\<close>

theorem ttl_requeue_exact:
  assumes "getRun (rr_client R) k = Inr run" and "isTerminalPhase (run_phase run)"
    and "st_completionTime (run_status run) = Some t"
    and "rs_ttlSecondsAfterFinished (run_spec run) = Some n"
    and "rr_now R < t + sint n * 1000000000" and "t \<le> rr_now R"
  shows "Reconcile R k = ([], Inr (requeueIn (t + sint n * 1000000000 - rr_now R)))"
proof -
  have "sint n * 1000000000 < 2 ^ 63" using sint32_bounds[of n] by simp
  then have "timeSub (t + sint n * 1000000000) (rr_now R) = t + sint n * 1000000000 - rr_now R"
    using assms(5,6) by (simp add: timeSub_def sat64_def)
  then show ?thesis
    using assms by (simp add: Reconcile_def reconcileRun_def Let_def reconcileTTL_def retE_def
        effectiveTTL_def secondsOf_exact)
qed

section \<open>What a reconcile writes, and why\<close>

text \<open>A live run's reconcile patches its status and creates its objects; it deletes nothing.\<close>

fun liveCall :: "call \<Rightarrow> bool" where
  "liveCall (PatchRunStatus a b) = True"
| "liveCall (CreateSecret s) = True"
| "liveCall (ApplyConfigMap c) = True"
| "liveCall (CreateSandbox s) = True"
| "liveCall _ = False"

lemma createPhase_live: "list_all liveCall (fst (createPhase R orig run agent params scopes))"
  by (auto simp: createPhase_calls list_all_iff dest!: createSandbox_calls)

lemma startRun_live: "list_all liveCall (fst (startRun R orig run agent))"
  by (simp add: startRun_def createPhase_live split: sum.split option.split)

lemma followRun_calls:
  "c \<in> set (fst (followRun R orig run)) \<Longrightarrow> isPatchRun c"
  by (auto simp: followRun_def Let_def set_fst_bindE split: sum.splits option.splits if_splits prod.splits)

lemma reconcileLive_live: "list_all liveCall (fst (reconcileLive R orig run))"
proof -
  have "isPatchRun c \<Longrightarrow> liveCall c" for c by (cases c) auto
  then have "list_all liveCall (fst (followRun R orig run))"
    using followRun_calls by (auto simp: list_all_iff)
  then show ?thesis by (simp add: reconcileLive_def Let_def startRun_live split: sum.split)
qed

text \<open>C6: nothing is deleted without cause. A reconcile deletes the run it read only once its lifetime
  is over; it deletes anything else only when the run is gone from the cache and, where there is an
  uncached reader, from the API server too, and then only what the sweep may take.\<close>

theorem deletions_justified:
  assumes "DeleteObject kind m \<in> set (fst (Reconcile R k))"
  shows "(\<exists>run ttl t. getRun (rr_client R) k = Inr run \<and> isTerminalPhase (run_phase run)
        \<and> effectiveTTL R run = Some ttl \<and> st_completionTime (run_status run) = Some t
        \<and> t + ttl \<le> rr_now R \<and> kind = ''AgentRun'' \<and> m = run_meta run)
   \<or> (\<exists>e. getRun (rr_client R) k = Inl e \<and> isNotFound e
        \<and> (case rr_apiReader R of None \<Rightarrow> True | Some rd \<Rightarrow> \<exists>e'. rdRun rd k = Inl e' \<and> isNotFound e')
        \<and> sweepable R k (DeleteObject kind m))"
proof (cases "getRun (rr_client R) k")
  case (Inl e)
  then show ?thesis
    using assms by (auto simp: Reconcile_def Let_def set_fst_bindE simp del: sweepable.simps
        dest: cleanup_sweepable split: if_splits option.splits sum.splits)
next
  case (Inr run)
  have "\<not> liveCall (DeleteObject kind m)" by simp
  then have "DeleteObject kind m \<notin> set (fst (reconcileLive R run b))" for b
    using reconcileLive_live[of R run b] unfolding list_all_iff by blast
  then have t: "isTerminalPhase (run_phase run)"
    using assms Inr by (auto simp: Reconcile_def reconcileRun_def Let_def split: if_splits)
  then have "DeleteObject kind m \<in> set (fst (reconcileTTL R (observed run) run))"
    using assms Inr by (simp add: Reconcile_def reconcileRun_def Let_def)
  then show ?thesis
    using Inr t
    by (cases "effectiveTTL R run"; cases "st_completionTime (run_status run)")
      (auto simp: reconcileTTL_calls split: if_splits)
qed

lemma validateSpec_frame:
  assumes "run_spec b = run_spec a"
  shows "paramsAcceptable b agent = paramsAcceptable a agent"
  unfolding paramsAcceptable_def refsDeclared_def assms by (rule refl)

lemma core_spec: "run_spec (withoutReady K (observed run)) = run_spec run"
  "run_meta (withoutReady K (observed run)) = run_meta run"
  "st_sandboxName (run_status (withoutReady K (observed run))) = st_sandboxName (run_status run)"
  by (simp_all add: withoutReady_def observed_def)

lemma createPhase_sandbox:
  "CreateSandbox sb \<in> set (fst (createPhase R orig run agent params scopes)) \<longleftrightarrow>
   CreateSandbox sb \<in> set (fst (snd (createSandbox R run agent params scopes)))"
  by (simp add: createPhase_calls)

lemma validateGateway_Inr:
  "validateGateway run agent = Inr run' \<Longrightarrow>
   admittedGateway (as_gateways (ag_spec agent)) (rs_gateway (run_spec run)) = Some (rs_gateway (run_spec run'))
   \<and> run' = withGateway (rs_gateway (run_spec run')) run"
  by (auto simp: validateGateway_def admittedGateway_def withGateway_def Let_def
      split: if_splits list.splits)

lemma buildEnvVars_gateway:
  "buildEnvVars R run agent sn scopes = Inr r \<Longrightarrow> rs_gateway (run_spec run) \<noteq> [] \<Longrightarrow>
   \<exists>gw. getGateway (rr_client R) (m_namespace (run_meta run), rs_gateway (run_spec run)) = Inr gw
     \<and> isReady (rr_lib R) (gws_conditions (gw_status gw))"
  by (auto simp: buildEnvVars_def gatewayEnv_def Let_def split: sum.splits if_splits prod.splits)

lemma startRun_sandbox:
  assumes "CreateSandbox sb \<in> set (fst (startRun R orig run agent))"
  shows "paramsAcceptable run agent \<and> validateFileMounts (rs_fileMounts (run_spec run)) = None
     \<and> (\<exists>g. admittedGateway (as_gateways (ag_spec agent)) (rs_gateway (run_spec run)) = Some g
        \<and> (g \<noteq> [] \<longrightarrow> (\<exists>gw. getGateway (rr_client R) (m_namespace (run_meta run), g) = Inr gw
              \<and> isReady (rr_lib R) (gws_conditions (gw_status gw)))))"
proof -
  from assms obtain params scopes run' where v: "validateParams run agent = Inr (params, scopes)"
    and g: "validateGateway run agent = Inr run'" and m: "validateFileMounts (rs_fileMounts (run_spec run')) = None"
    and c: "CreateSandbox sb \<in> set (fst (snd (createSandbox R run' agent params scopes)))"
    by (auto simp: startRun_def createPhase_sandbox split: sum.splits option.splits)
  obtain g' where "run' = withGateway g' run" using validateGateway_Inr[OF g] by blast
  then have run': "run_meta run' = run_meta run" "rs_fileMounts (run_spec run') = rs_fileMounts (run_spec run)"
    by (simp_all add: withGateway_def)
  obtain r where "buildEnvVars R run' agent (m_name (run_meta run') @ ''-acp-key'') scopes = Inr r"
    using createSandbox_sandbox[OF c] by metis
  from buildEnvVars_gateway[OF this] show ?thesis
    using v validateParams_Inr_iff validateGateway_Inr[OF g] m run' by metis
qed


text \<open>C17: a permanent configuration error ends the run in the reconcile that finds it. With a Ready Agent
  and no Sandbox yet, parameters that are not acceptable, a gateway the Agent does not admit or file
  mounts that break the contract lead to exactly one write, the terminal status naming the error;
  nothing is created for such a run.\<close>

theorem config_errors_terminal:
  assumes "condition_store (rr_lib R)" and "getRun (rr_client R) k = Inr run"
    and "\<not> isTerminalPhase (run_phase run)" and "st_sandboxName (run_status run) = []"
    and "getAgent (rr_client R) (m_namespace (run_meta run), rs_agentRef (run_spec run)) = Inr agent"
    and "isReady (rr_lib R) (ags_conditions (ag_status agent))"
    and "\<not> paramsAcceptable run agent
      \<or> admittedGateway (as_gateways (ag_spec agent)) (rs_gateway (run_spec run)) = None
      \<or> \<not> (list_all goodMount (rs_fileMounts (run_spec run)) \<and> mountsApart (rs_fileMounts (run_spec run)))"
  shows "\<exists>new reason. fst (Reconcile R k) = [PatchRunStatus run new] \<and> run_phase new = PhaseFailed
     \<and> condReason (rr_lib R) ''Succeeded'' new = Some reason
     \<and> reason \<in> {''InvalidParams'', ''InvalidGateway'', ''InvalidFileMounts''}"
proof -
  define b where "b = withoutReady (rr_lib R) (observed run)"
  have b: "run_spec b = run_spec run" "run_meta b = run_meta run"
    "st_sandboxName (run_status b) = st_sandboxName (run_status run)"
    by (simp_all add: b_def core_spec)
  have start: "fst (Reconcile R k) = fst (startRun R run b agent)"
    using assms(2-6) b by (simp add: Reconcile_def reconcileRun_def reconcileLive_def Let_def b_def[symmetric])
  have reason: "condReason (rr_lib R) ''Succeeded'' (setRunSucceeded (rr_lib R) r s why m) = Some why" for r s why m
    using condition_store.condStatus_setRunSucceeded(2)[OF assms(1)] by (simp add: AgentRunConditionSucceeded_def)
  have "\<exists>why x msg. fst (startRun R run b agent) =
      [PatchRunStatus run (setRunSucceeded (rr_lib R) (withPhase PhaseFailed x) CFalse why msg)]
      \<and> why \<in> {''InvalidParams'', ''InvalidGateway'', ''InvalidFileMounts''}"
  proof (cases "validateParams b agent")
    case (Inl e)
    then show ?thesis by (auto simp: startRun_def)
  next
    case (Inr ps)
    then have "paramsAcceptable run agent" using validateParams_Inr_iff[of b agent] validateSpec_frame[OF b(1)] by blast
    then consider (gateway) "admittedGateway (as_gateways (ag_spec agent)) (rs_gateway (run_spec b)) = None"
      | (mounts) "validateFileMounts (rs_fileMounts (run_spec b)) \<noteq> None"
      using assms(7) by (auto simp: validateFileMounts_None b(1))
    then show ?thesis
    proof cases
      case gateway
      then obtain e where "validateGateway b agent = Inl e"
        using validateGateway_Inr[of b agent] by (cases "validateGateway b agent") auto
      with Inr show ?thesis by (auto simp: startRun_def split: prod.splits)
    next
      case mounts
      show ?thesis
      proof (cases "validateGateway b agent")
        case (Inl e)
        with Inr show ?thesis by (auto simp: startRun_def split: prod.splits)
      next
        case (Inr b')
        then obtain g' where "b' = withGateway g' b" using validateGateway_Inr[OF Inr] by blast
        with mounts obtain e where "validateFileMounts (rs_fileMounts (run_spec b')) = Some e"
          by (auto simp: withGateway_def)
        with Inr \<open>validateParams b agent = Inr ps\<close> show ?thesis
          by (auto simp: startRun_def split: prod.splits)
      qed
    qed
  qed
  then obtain why x msg where "fst (startRun R run b agent) =
      [PatchRunStatus run (setRunSucceeded (rr_lib R) (withPhase PhaseFailed x) CFalse why msg)]"
    and "why \<in> {''InvalidParams'', ''InvalidGateway'', ''InvalidFileMounts''}" by blast
  then show ?thesis
    by (intro exI[of _ "setRunSucceeded (rr_lib R) (withPhase PhaseFailed x) CFalse why msg"] exI[of _ why])
      (simp add: start reason)
qed

section \<open>Witnesses\<close>

text \<open>A run whose Agent does not exist, and the status its first reconcile gives it.\<close>

definition lostReconciler :: AgentRunReconciler where
  "lostReconciler = quietReconciler\<lparr>rr_client := quietClient\<lparr>getRun := (\<lambda>_. Inr sampleRun)\<rparr>\<rparr>"

definition lostPatch :: AgentRun where
  "lostPatch = setRunSucceeded refK (withPhase PhaseFailed (withoutReady refK (observed sampleRun))) CFalse
     ''AgentNotFound'' (Fmt ''Agent %q not found'' [Lit ''coder''])"

definition lostRun :: AgentRun where
  "lostRun = sampleRun\<lparr>run_status := run_status lostPatch\<rparr>"

lemma lost_reconcile: "fst (Reconcile lostReconciler k) = [PatchRunStatus sampleRun lostPatch]"
  by (simp add: Reconcile_def lostReconciler_def reconcileRun_def reconcileLive_def Let_def lostPatch_def
      isTerminalPhase_def sampleRun_def observed_def withoutReady_def quietClient_def notFound_def isNotFound_def)

lemma sample_reachable: "reachable refK sampleRun"
  by (rule reachable.created) (simp_all add: sampleRun_def newMeta_def)

lemma lost_reachable: "reachable refK lostRun"
  unfolding lostRun_def
  by (rule reachable.patched[OF sample_reachable, of lostReconciler _ sampleRun lostPatch])
    (simp_all add: lost_reconcile, simp_all add: lostReconciler_def)

theorem reachable_run_consistent_witness:
  "reachable refK lostRun \<and> run_phase lostRun = PhaseFailed \<and> condStatus refK ''Succeeded'' lostRun = Some CFalse"
  using reachable_run_consistent[OF refstore.condition_store_axioms lost_reachable] lost_reachable
  by (simp add: lostRun_def lostPatch_def)

theorem run_phase_monotone_witness:
  "PatchRunStatus sampleRun lostPatch \<in> set (fst (Reconcile lostReconciler (''ns'', ''run'')))
   \<and> run_phase sampleRun \<le> run_phase lostPatch"
  using run_phase_monotone[OF refstore.condition_store_axioms sample_reachable,
      of lostReconciler "(''ns'', ''run'')" sampleRun lostPatch]
  by (simp add: lost_reconcile) (simp add: lostReconciler_def)

text \<open>A finished run of a minute's lifetime, seen after 20 and after 90 seconds.\<close>

definition doneRun :: AgentRun where
  "doneRun = sampleRun\<lparr>run_status := (run_status sampleRun)\<lparr>st_phase := PhaseSucceeded, st_completionTime := Some 0\<rparr>\<rparr>"

definition doneReconciler :: "instant \<Rightarrow> AgentRunReconciler" where
  "doneReconciler t = quietReconciler\<lparr>rr_client := quietClient\<lparr>getRun := (\<lambda>_. Inr doneRun)\<rparr>, rr_now := t\<rparr>"

lemma done_facts:
  "getRun (rr_client (doneReconciler t)) k = Inr doneRun" "isTerminalPhase (run_phase doneRun)"
  "effectiveTTL (doneReconciler t) doneRun = Some 60000000000"
  "st_completionTime (run_status doneRun) = Some 0" "rr_now (doneReconciler t) = t"
  "rs_ttlSecondsAfterFinished (run_spec doneRun) = Some 60"
  by (simp_all add: doneReconciler_def doneRun_def isTerminalPhase_def effectiveTTL_def sampleRun_def secondsOf_exact)

theorem finished_run_lifecycle_witness:
  "fst (Reconcile (doneReconciler 20000000000) (''ns'', ''run'')) = []
   \<and> fst (Reconcile (doneReconciler 90000000000) (''ns'', ''run'')) = [DeleteObject ''AgentRun'' (run_meta doneRun)]"
  by (simp add: finished_run_lifecycle[OF done_facts(1,2)] done_facts)

theorem ttl_requeue_exact_witness:
  "Reconcile (doneReconciler 20000000000) (''ns'', ''run'') = ([], Inr (requeueIn 40000000000))"
  using ttl_requeue_exact[OF done_facts(1,2,4,6), of 20000000000 "(''ns'', ''run'')"] by (simp add: done_facts)

theorem deletions_justified_witness:
  "DeleteObject ''AgentRun'' (run_meta doneRun) \<in> set (fst (Reconcile (doneReconciler 90000000000) (''ns'', ''run'')))
   \<and> (\<exists>ttl. effectiveTTL (doneReconciler 90000000000) doneRun = Some ttl \<and> 0 + ttl \<le> 90000000000)"
proof -
  have "DeleteObject ''AgentRun'' (run_meta doneRun) \<in> set (fst (Reconcile (doneReconciler 90000000000) (''ns'', ''run'')))"
    by (simp add: Reconcile_def reconcileRun_def Let_def reconcileTTL_calls done_facts)
  with deletions_justified[OF this] show ?thesis by (auto simp: done_facts)
qed

text \<open>A run that gets its Sandbox, and one whose Agent admits another gateway.\<close>

definition validReconciler :: "AgentRun \<Rightarrow> AgentRunReconciler" where
  "validReconciler run = sampleReconciler\<lparr>rr_client := (rr_client sampleReconciler)\<lparr>getRun := (\<lambda>_. Inr run),
     getAgent := (\<lambda>_. Inr sampleAgent), getSecret := (\<lambda>_. Inr \<lparr>sec_meta = newMeta ''s'' ''ns'' (\<lambda>_. None), sec_data = []\<rparr>)\<rparr>\<rparr>"

fun applyRunPatch :: "AgentRun \<Rightarrow> call \<Rightarrow> AgentRun" where
  "applyRunPatch run (PatchRunStatus orig new) = run\<lparr>run_status := run_status new\<rparr>"
| "applyRunPatch run _ = run"

lemma reachable_reconciled:
  assumes "reachable K run" "rr_lib R = K" "getRun (rr_client R) k = Inr run"
  shows "reachable K (foldl applyRunPatch run (fst (Reconcile R k)))"
proof -
  have "set cs \<subseteq> set (fst (Reconcile R k)) \<Longrightarrow> reachable K (foldl applyRunPatch run cs)" for cs
  proof (induction cs rule: rev_induct)
    case Nil
    then show ?case using assms(1) by simp
  next
    case (snoc c cs)
    have frame: "(foldl applyRunPatch run cs)\<lparr>run_status := st\<rparr> = run\<lparr>run_status := st\<rparr>" for st
    proof (induction cs rule: rev_induct)
      case (snoc c cs)
      then show ?case by (cases c) simp_all
    qed simp
    from snoc show ?case
      using reachable.patched[OF assms] by (cases c) (auto simp: frame)
  qed
  then show ?thesis by simp
qed

definition startedRun :: AgentRun where
  "startedRun = foldl applyRunPatch mountedRun (fst (Reconcile (validReconciler mountedRun) (''ns'', ''run'')))"

text \<open>The reconcile creates one Sandbox and records its name.\<close>

definition validSummary :: "call list \<Rightarrow> nat \<times> string \<times> AgentRunPhase" where
  "validSummary cs = (let run = foldl applyRunPatch mountedRun cs in
     (length (filter isCreateSandbox cs), st_sandboxName (run_status run), run_phase run))"

lemma valid_eval: "validSummary (fst (Reconcile (validReconciler mountedRun) (''ns'', ''run''))) = (1, ''run'', PhasePending)"
  by code_simp

lemma started_facts: "st_sandboxName (run_status startedRun) = ''run'' \<and> run_phase startedRun = PhasePending"
  using valid_eval by (simp add: validSummary_def Let_def startedRun_def)


theorem config_errors_terminal_witness:
  "\<exists>new reason. fst (Reconcile (validReconciler (withGateway ''other'' sampleRun)) (''ns'', ''run''))
       = [PatchRunStatus (withGateway ''other'' sampleRun) new]
     \<and> run_phase new = PhaseFailed \<and> condReason refK ''Succeeded'' new = Some reason"
proof -
  define run where "run = withGateway ''other'' sampleRun"
  define R where "R = validReconciler run"
  have lib: "rr_lib R = refK" by (simp add: R_def validReconciler_def sampleReconciler_def)
  have run: "getRun (rr_client R) (''ns'', ''run'') = Inr run" "getAgent (rr_client R) x = Inr sampleAgent" for x
    by (simp_all add: R_def validReconciler_def)
  have live: "\<not> isTerminalPhase (run_phase run)" "st_sandboxName (run_status run) = []"
    by (simp_all add: run_def withGateway_def sampleRun_def isTerminalPhase_def)
  have ready: "isReady (rr_lib R) (ags_conditions (ag_status sampleAgent))"
    by (simp add: lib isReady_def ConditionTypeReady_def sampleAgent_def)
  have "admittedGateway (as_gateways (ag_spec sampleAgent)) (rs_gateway (run_spec run)) = None"
    by (simp add: admittedGateway_def sampleAgent_def run_def withGateway_def)
  then show ?thesis
    using config_errors_terminal[OF _ run(1) live run(2) ready] refstore.condition_store_axioms
    unfolding lib R_def[symmetric] run_def[symmetric] by blast
qed

end
