(* ===== verification/Pipeline.thy ===== *)
theory Pipeline
  imports Main
begin

text \<open>
  The abstract specification of a workflow run: a pipeline that takes its number of stages once, starts them one at a
  time, passes each before it starts the next, and ends either after the last or by failing. The workflow controller is
  shown to refine it.
\<close>

record pipeline =
  pl_total :: nat
  pl_passed :: nat
  pl_started :: bool \<comment> \<open>the stage after the passed ones has its AgentRun\<close>
  pl_end :: "bool option" \<comment> \<open>succeeded or failed\<close>

definition idlePipeline :: pipeline where
  "idlePipeline = \<lparr>pl_total = 0, pl_passed = 0, pl_started = False, pl_end = None\<rparr>"

inductive pipeStep :: "pipeline \<Rightarrow> pipeline \<Rightarrow> bool" where
  snapshot: "pl_end p = None \<Longrightarrow> pl_total p = 0 \<Longrightarrow> pipeStep p (p\<lparr>pl_total := n\<rparr>)"
| start: "pl_end p = None \<Longrightarrow> pl_passed p < pl_total p \<Longrightarrow> pipeStep p (p\<lparr>pl_started := True\<rparr>)"
| pass: "pl_end p = None \<Longrightarrow> pl_started p \<Longrightarrow> pipeStep p (p\<lparr>pl_passed := Suc (pl_passed p), pl_started := False\<rparr>)"
| fail: "pl_end p = None \<Longrightarrow> pipeStep p (p\<lparr>pl_end := Some False\<rparr>)"
| finish: "pl_end p = None \<Longrightarrow> pl_passed p = pl_total p \<Longrightarrow> pipeStep p (p\<lparr>pl_end := Some True\<rparr>)"

abbreviation pipeSteps :: "pipeline \<Rightarrow> pipeline \<Rightarrow> bool" where
  "pipeSteps \<equiv> pipeStep\<^sup>*\<^sup>*"

inductive_cases pipeStepE: "pipeStep p q"

definition pipelineOK :: "pipeline \<Rightarrow> bool" where
  "pipelineOK p = (pl_passed p \<le> pl_total p \<and> (pl_started p \<longrightarrow> pl_passed p < pl_total p) \<and> (pl_end p = Some True \<longrightarrow> pl_passed p = pl_total p))"

lemma pipeStep_ok: "pipeStep p q \<Longrightarrow> pipelineOK p \<Longrightarrow> pipelineOK q"
  by (auto simp: pipelineOK_def elim!: pipeStepE)

lemma pipeSteps_ok: "pipeSteps idlePipeline p \<Longrightarrow> pipelineOK p"
proof (induction rule: rtranclp_induct)
  case base
  then show ?case by (simp add: idlePipeline_def pipelineOK_def)
qed (rule pipeStep_ok)

lemma ended_stays: "pipeSteps p q \<Longrightarrow> pl_end p \<noteq> None \<Longrightarrow> q = p"
  by (induction rule: rtranclp_induct) (auto elim: pipeStepE)

lemma pipeSteps_fail: "pipeSteps p q \<Longrightarrow> pl_end q = None \<Longrightarrow> pipeSteps p (q\<lparr>pl_end := Some False\<rparr>)"
  by (erule rtranclp.rtrancl_into_rtrancl) (rule pipeStep.fail)

text \<open>
  What a program has to provide to be a pipeline: its first states stand for the idle pipeline, and each of its steps
  keeps an invariant and is a sequence of steps of the pipeline, the empty one included.
\<close>

locale pipeline_simulation =
  fixes first :: "'s \<Rightarrow> bool" and inv :: "'s \<Rightarrow> bool" and move :: "'s \<Rightarrow> 's \<Rightarrow> bool" and absOf :: "'s \<Rightarrow> pipeline"
  assumes first_idle: "first s \<Longrightarrow> inv s \<and> absOf s = idlePipeline"
    and simulated: "inv s \<Longrightarrow> move s t \<Longrightarrow> inv t \<and> pipeSteps (absOf s) (absOf t)"
begin

lemma moves_simulated: "move\<^sup>*\<^sup>* s t \<Longrightarrow> inv s \<Longrightarrow> inv t \<and> pipeSteps (absOf s) (absOf t)"
  by (induction rule: rtranclp_induct) (auto dest: simulated)

lemma from_idle:
  assumes "first s" and "move\<^sup>*\<^sup>* s t"
  shows "inv t" and "pipeSteps idlePipeline (absOf t)" and "pipelineOK (absOf t)"
proof -
  have t: "inv t \<and> pipeSteps (absOf s) (absOf t)" using moves_simulated[OF assms(2)] first_idle[OF assms(1)] by simp
  then show "inv t" ..
  show "pipeSteps idlePipeline (absOf t)" using t first_idle[OF assms(1)] by simp
  then show "pipelineOK (absOf t)" by (rule pipeSteps_ok)
qed

lemma end_is_final:
  assumes "first s" and "move\<^sup>*\<^sup>* s t" and "move\<^sup>*\<^sup>* t u" and "pl_end (absOf t) \<noteq> None"
  shows "absOf u = absOf t"
  using moves_simulated[OF assms(3) from_idle(1)[OF assms(1,2)]] assms(4) ended_stays by blast

end

end
