(* ===== verification/WorkflowController.thy ===== *)
theory WorkflowController
  imports RunController Pipeline
begin

text \<open>
  The AgentWorkflowRun controller (src/internal/controller/agentworkflowrun_controller.go): a
  workflow run takes a snapshot of its workflow and runs the stages one after the other, each as an
  AgentRun of its own, mirroring the stage run's phase.
\<close>

section \<open>Conditions, patches, lifetime\<close>

definition setReady :: "klib \<Rightarrow> AgentWorkflowRun \<Rightarrow> cstatus \<Rightarrow> string \<Rightarrow> gofmt \<Rightarrow> AgentWorkflowRun" where
  "setReady K pb status reason message = pb\<lparr>wr_status := (wr_status pb)\<lparr>wst_conditions :=
     setCond K (wst_conditions (wr_status pb))
       (mkCond ConditionTypeReady status (m_generation (wr_meta pb)) reason message)\<rparr>\<rparr>"

definition withWPhase :: "AgentRunPhase \<Rightarrow> AgentWorkflowRun \<Rightarrow> AgentWorkflowRun" where
  "withWPhase p pb = pb\<lparr>wr_status := (wr_status pb)\<lparr>wst_phase := p\<rparr>\<rparr>"

definition completed :: "instant \<Rightarrow> AgentWorkflowRun \<Rightarrow> AgentWorkflowRun" where
  "completed now pb = pb\<lparr>wr_status := (wr_status pb)\<lparr>wst_completionTime := Some now\<rparr>\<rparr>"

definition patchRunStatus_wf :: "AgentWorkflowRunReconciler \<Rightarrow> AgentWorkflowRun \<Rightarrow> AgentWorkflowRun \<Rightarrow> cresult act" where
  "patchRunStatus_wf W pb original =
     bindE (sendE (wrr_client W) (PatchWorkflowRunStatus original pb)) (\<lambda>_. retE noRequeue)"

definition effectiveTTL_wf :: "AgentWorkflowRunReconciler \<Rightarrow> AgentWorkflowRun \<Rightarrow> duration option" where
  "effectiveTTL_wf W pb = (case wrs_ttlSecondsAfterFinished (wr_spec pb) of
      Some n \<Rightarrow> Some (secondsOf n) | None \<Rightarrow> wrr_defaultTTL W)"

definition reconcileTTL_wf :: "AgentWorkflowRunReconciler \<Rightarrow> AgentWorkflowRun \<Rightarrow> AgentWorkflowRun \<Rightarrow> cresult act" where
  "reconcileTTL_wf W pb original = (case effectiveTTL_wf W pb of
      None \<Rightarrow> retE noRequeue
    | Some ttl \<Rightarrow> (case wst_completionTime (wr_status pb) of
        None \<Rightarrow> patchRunStatus_wf W (completed (wrr_now W) pb) original
      | Some t \<Rightarrow>
          (let remaining = timeSub (t + ttl) (wrr_now W) in
           if remaining > 0 then retE (requeueIn remaining)
           else bindE (deleteE (wrr_client W) agentWorkflowRunKind (wr_meta pb)) (\<lambda>_. retE noRequeue))))"

section \<open>The AgentRun of a stage\<close>

fun findCurrentStageIndex :: "AgentWorkflowRunStageStatus list \<Rightarrow> nat" where
  "findCurrentStageIndex [] = 0"
| "findCurrentStageIndex (s # ss) = (if ss_phase s \<noteq> PhaseSucceeded then 0 else Suc (findCurrentStageIndex ss))"

definition isOwnedBy :: "objmeta \<Rightarrow> objmeta \<Rightarrow> bool" where
  "isOwnedBy child parent = list_ex (\<lambda>ref. or_controller ref = Some True \<and> or_uid ref = m_uid parent) (m_owners child)"

definition workflowGuideEnvName :: string where "workflowGuideEnvName = ''KONVEYOR_WORKFLOW_GUIDE''"

definition emptyRunStatus :: AgentRunStatus where
  "emptyRunStatus = \<lparr>st_phase = PhaseUnset, st_observedGeneration = 0, st_sandboxName = [],
     st_startTime = None, st_completionTime = None, st_duration = None, st_secretKeyRef = None,
     st_conditions = [], st_terminationData = None\<rparr>"

text \<open>Parameters declared by the stage's Agent are passed on; those declared nowhere are reported.\<close>

definition stageParams :: "Agent \<Rightarrow> AgentWorkflowRun \<Rightarrow> ParamValue list" where
  "stageParams agent pb = filter (\<lambda>p. pv_name p \<in> p_name ` set (as_params (ag_spec agent))) (wrs_params (wr_spec pb))"

definition skippedParams :: "Agent \<Rightarrow> AgentWorkflowRun \<Rightarrow> string list" where
  "skippedParams agent pb = map pv_name (filter (\<lambda>p. pv_name p \<notin> p_name ` set (as_params (ag_spec agent))
     \<and> pv_name p \<notin> p_name ` set (wst_params (wr_status pb))) (wrs_params (wr_spec pb)))"

definition configError :: "string \<Rightarrow> goerr \<Rightarrow> goerr" where
  "configError f e = \<lparr>ekind = ConfigE, emsg = Fmt f [emsg e]\<rparr>"

text \<open>The workflow parameters and the guide, both from the snapshot; every error is permanent.\<close>

definition workflowInputs :: "AgentWorkflowRun \<Rightarrow> goerr + (string option \<times> envvar list)" where
  "workflowInputs pb =
     (case coerceWorkflowParams (wst_params (wr_status pb)) (suppliedValues (wrs_params (wr_spec pb))) of
        Inl e \<Rightarrow> Inl (configError ''resolving workflow params: %w'' e)
      | Inr (raw, strs) \<Rightarrow>
          if wst_guide (wr_status pb) = [] then Inr (raw, [])
          else (case substitute (wst_guide (wr_status pb)) [scopeWorkflow \<mapsto> map_of strs] of
              Inl e \<Rightarrow> Inl (configError ''workflow guide: %w'' e)
            | Inr guide \<Rightarrow> Inr (raw, [plainEnv workflowGuideEnvName guide])))"

definition stageLabels :: "AgentWorkflowRun \<Rightarrow> AgentWorkflowStage \<Rightarrow> labels" where
  "stageLabels pb stg = (m_labels (wr_meta pb))(labelManagedBy \<mapsto> managedByLabel,
     labelAgentWorkflowRun \<mapsto> m_name (wr_meta pb), labelStage \<mapsto> ws_name stg)"

definition stageRun :: "AgentWorkflowRun \<Rightarrow> AgentWorkflowStage \<Rightarrow> nat \<Rightarrow> nat \<Rightarrow> Agent \<Rightarrow> string option \<Rightarrow> envvar list \<Rightarrow> AgentRun" where
  "stageRun pb stg stageIndex stageCount agent workflowRaw guideEnv =
     \<lparr>run_meta = newMeta (stageAgentRunName (m_name (wr_meta pb)) (ws_name stg)) (m_namespace (wr_meta pb)) (stageLabels pb stg),
      run_spec = \<lparr>rs_agentRef = ws_agentRef stg, rs_gateway = wrs_gateway (wr_spec pb),
        rs_params = stageParams agent pb, rs_instructions = ws_instructions stg,
        rs_execution = resolveExecution (ws_execution stg) (as_execution (ag_spec agent)),
        rs_workflowParams = workflowRaw,
        rs_env = wrs_env (wr_spec pb) @ guideEnv
          @ [plainEnv ''KONVEYOR_WORKFLOW_STAGE'' (showNat (stageIndex + 1)),
             plainEnv ''KONVEYOR_WORKFLOW_STAGE_COUNT'' (showNat stageCount)],
        rs_envFrom = wrs_envFrom (wr_spec pb), rs_fileMounts = wrs_fileMounts (wr_spec pb),
        rs_gitConfig = None, rs_ttlSecondsAfterFinished = None, rs_startupDeadlineSeconds = None\<rparr>,
      run_status = emptyRunStatus\<rparr>"

text \<open>Creation of the stage run; one that already exists is adopted only if this run owns it.\<close>

definition adoptOrFail :: "AgentWorkflowRunReconciler \<Rightarrow> AgentWorkflowRun \<Rightarrow> AgentWorkflowStage \<Rightarrow> AgentRun \<Rightarrow> string act" where
  "adoptOrFail W pb stg child =
     (let name = stageAgentRunName (m_name (wr_meta pb)) (ws_name stg); C = wrr_client W in
      ([CreateAgentRun child],
       case answer C (CreateAgentRun child) of
         None \<Rightarrow> Inr name
       | Some e \<Rightarrow>
           if \<not> isAlreadyExists e then Inl (wrapf ''creating AgentRun for stage %q: %w'' [Lit (ws_name stg)] e)
           else (case getRun C (m_namespace (wr_meta pb), name) of
               Inl ge \<Rightarrow> Inl (wrapf ''fetching existing AgentRun %q: %w'' [Lit name] ge)
             | Inr existing \<Rightarrow>
                 if isOwnedBy (run_meta existing) (wr_meta pb) then Inr name
                 else Inl (errorf ''AgentRun %q already exists but is not owned by this workflow run'' [Lit name]))))"

definition createAgentRunForStage :: "AgentWorkflowRunReconciler \<Rightarrow> AgentWorkflowRun \<Rightarrow> AgentWorkflowStage \<Rightarrow> nat \<Rightarrow> nat \<Rightarrow> string act" where
  "createAgentRunForStage W pb stg stageIndex stageCount =
     bindE (wrapE ''looking up Agent %q for stage %q: %w'' [Lit (ws_agentRef stg), Lit (ws_name stg)]
       (liftE (getAgent (wrr_client W) (m_namespace (wr_meta pb), ws_agentRef stg)))) (\<lambda>agent.
     bindE (if skippedParams agent pb \<noteq> []
        then ([EmitEvent ''ParamsFiltered'' (Fmt ''Stage %q (Agent %q): skipped undeclared params: %s''
           [Lit (ws_name stg), Lit (ws_agentRef stg), Joined '', '' (map Lit (skippedParams agent pb))])], Inr ())
        else retE ()) (\<lambda>_.
     bindE (liftE (workflowInputs pb)) (\<lambda>(workflowRaw, guideEnv).
     (let child = stageRun pb stg stageIndex stageCount agent workflowRaw guideEnv in
     bindE (wrapE ''setting AgentRun owner reference: %w'' []
       (liftE (setControllerReference (wrr_lib W) agentWorkflowRunKind (wr_meta pb) (run_meta child)))) (\<lambda>m.
     adoptOrFail W pb stg (child\<lparr>run_meta := m\<rparr>))))))"

section \<open>Reconcile\<close>

definition snapshotStage :: "AgentWorkflowStage \<Rightarrow> AgentWorkflowRunStageStatus" where
  "snapshotStage s = \<lparr>ss_name = ws_name s, ss_phase = PhasePending, ss_agentRunName = [],
     ss_agentRef = ws_agentRef s, ss_instructions = ws_instructions s, ss_execution = ws_execution s\<rparr>"

definition stageOf :: "AgentWorkflowRunStageStatus \<Rightarrow> AgentWorkflowStage" where
  "stageOf s = \<lparr>ws_name = ss_name s, ws_agentRef = ss_agentRef s, ws_instructions = ss_instructions s,
     ws_execution = ss_execution s\<rparr>"

text \<open>First reconcile: start time, Pending, and the snapshot of the workflow.\<close>

definition initRun :: "AgentWorkflowRunReconciler \<Rightarrow> AgentWorkflow \<Rightarrow> AgentWorkflowRun \<Rightarrow> AgentWorkflowRun" where
  "initRun W flow pb =
     (let pb1 = (if wst_startTime (wr_status pb) = None
        then pb\<lparr>wr_status := (wr_status pb)\<lparr>wst_startTime := Some (wrr_now W), wst_phase := PhasePending\<rparr>\<rparr> else pb) in
      if wst_stages (wr_status pb1) = []
      then pb1\<lparr>wr_status := (wr_status pb1)\<lparr>wst_guide := wfs_guide (wf_spec flow), wst_params := wfs_params (wf_spec flow),
        wst_stages := map snapshotStage (wfs_stages (wf_spec flow))\<rparr>\<rparr>
      else pb1)"

definition withStage :: "nat \<Rightarrow> (AgentWorkflowRunStageStatus \<Rightarrow> AgentWorkflowRunStageStatus) \<Rightarrow> AgentWorkflowRun \<Rightarrow> AgentWorkflowRun" where
  "withStage i f pb = pb\<lparr>wr_status := (wr_status pb)\<lparr>wst_stages :=
     (wst_stages (wr_status pb))[i := f (wst_stages (wr_status pb) ! i)]\<rparr>\<rparr>"

definition enterStage :: "string \<Rightarrow> AgentWorkflowRun \<Rightarrow> AgentWorkflowRun" where
  "enterStage name pb = pb\<lparr>wr_status := (wr_status pb)\<lparr>wst_currentStage := name, wst_phase := PhaseRunning\<rparr>\<rparr>"

text \<open>The stage has no AgentRun yet.\<close>

definition beginStage :: "AgentWorkflowRunReconciler \<Rightarrow> AgentWorkflowRun \<Rightarrow> AgentWorkflowRun \<Rightarrow> nat \<Rightarrow> cresult act" where
  "beginStage W original pb i =
     (let K = wrr_lib W; stages = wst_stages (wr_status pb); stg = stageOf (stages ! i);
          name = Lit (ws_name stg);
          created = createAgentRunForStage W pb stg i (length stages);
          next = (case snd created of
             Inl err \<Rightarrow>
               if ekind err = ConfigE then
                 patchRunStatus_wf W (setReady K (completed (wrr_now W) (withWPhase PhaseFailed
                   (withStage i (\<lambda>s. s\<lparr>ss_phase := PhaseFailed\<rparr>) pb))) CFalse ''InvalidParams''
                   (Fmt ''Stage %q: %v'' [name, emsg err])) original
               else
                 bindE (patchRunStatus_wf W (setReady K pb CFalse ''AgentRunCreationFailed''
                   (Fmt ''Failed to create AgentRun for stage %q: %v'' [name, emsg err])) original)
                 (\<lambda>_. failE err)
           | Inr runName \<Rightarrow>
               patchRunStatus_wf W (setReady K (withStage i (\<lambda>s. s\<lparr>ss_agentRunName := runName, ss_phase := PhasePending\<rparr>) pb)
                 CFalse ''StageRunning'' (Fmt ''Stage %q: AgentRun %q created'' [name, Lit runName])) original) in
      (fst created @ fst next, snd next))"

fun phaseString :: "AgentRunPhase \<Rightarrow> string" where
  "phaseString PhaseUnset = []"
| "phaseString PhasePending = ''Pending''"
| "phaseString PhaseRunning = ''Running''"
| "phaseString PhaseSucceeded = ''Succeeded''"
| "phaseString PhaseFailed = ''Failed''"

text \<open>The stage run exists: mirror its phase, act on its Succeeded condition.\<close>

definition mirrorStage :: "AgentWorkflowRunReconciler \<Rightarrow> AgentWorkflowRun \<Rightarrow> nat \<Rightarrow> AgentRun \<Rightarrow> AgentWorkflowRun" where
  "mirrorStage W pb i child =
     (let K = wrr_lib W; name = Lit (ss_name (wst_stages (wr_status pb) ! i));
          pb1 = (if run_phase child \<noteq> PhaseUnset then withStage i (\<lambda>s. s\<lparr>ss_phase := run_phase child\<rparr>) pb else pb) in
      case findCond K (st_conditions (run_status child)) AgentRunConditionSucceeded of
        Some c \<Rightarrow>
          if c_status c = CTrue then
            setReady K pb1 CFalse ''StageSucceeded'' (Fmt ''Stage %q completed successfully'' [name])
          else if c_status c = CFalse then
            setReady K (completed (wrr_now W) (withWPhase PhaseFailed pb1)) CFalse ''StageFailed''
              (Fmt ''Stage %q did not succeed: %s'' [name,
                 if emptyMsg (c_message c) then Lit (c_reason c) else c_message c])
          else setReady K pb1 CFalse ''StageRunning'' (Fmt ''Stage %q is %s'' [name, Lit (phaseString (run_phase child))])
      | None \<Rightarrow> setReady K pb1 CFalse ''StageRunning'' (Fmt ''Stage %q is %s'' [name, Lit (phaseString (run_phase child))]))"

definition watchStage :: "AgentWorkflowRunReconciler \<Rightarrow> AgentWorkflowRun \<Rightarrow> AgentWorkflowRun \<Rightarrow> nat \<Rightarrow> cresult act" where
  "watchStage W original pb i =
     (let s = wst_stages (wr_status pb) ! i in
      case getRun (wrr_client W) (m_namespace (wr_meta pb), ss_agentRunName s) of
        Inl e \<Rightarrow>
          if isNotFound e then
            patchRunStatus_wf W (setReady (wrr_lib W) (completed (wrr_now W) (withWPhase PhaseFailed
              (withStage i (\<lambda>s. s\<lparr>ss_phase := PhaseFailed\<rparr>) pb))) CFalse ''AgentRunDeleted''
              (Fmt ''Stage %q: AgentRun %q was deleted'' [Lit (ss_name s), Lit (ss_agentRunName s)])) original
          else failE e
      | Inr child \<Rightarrow> patchRunStatus_wf W (mirrorStage W pb i child) original)"

definition runStages :: "AgentWorkflowRunReconciler \<Rightarrow> AgentWorkflowRun \<Rightarrow> AgentWorkflowRun \<Rightarrow> cresult act" where
  "runStages W original pb =
     (let stages = wst_stages (wr_status pb); i = findCurrentStageIndex stages in
      if i \<ge> length stages then
        patchRunStatus_wf W (setReady (wrr_lib W) (pb\<lparr>wr_status := (wr_status pb)\<lparr>wst_phase := PhaseSucceeded,
          wst_currentStage := [], wst_completionTime := Some (wrr_now W)\<rparr>\<rparr>) CTrue ''Succeeded''
          (Lit ''All stages completed successfully'')) original
      else
        (let pb1 = enterStage (ss_name (stages ! i)) pb in
         if ss_agentRunName (stages ! i) = [] then beginStage W original pb1 i
         else watchStage W original pb1 i))"

definition observed_wf :: "AgentWorkflowRun \<Rightarrow> AgentWorkflowRun" where
  "observed_wf pb = pb\<lparr>wr_status := (wr_status pb)\<lparr>wst_observedGeneration := m_generation (wr_meta pb)\<rparr>\<rparr>"

definition reconcileWorkflowRun :: "AgentWorkflowRunReconciler \<Rightarrow> AgentWorkflowRun \<Rightarrow> cresult act" where
  "reconcileWorkflowRun W original =
     (let pb = observed_wf original;
          ref = wrs_workflowRef (wr_spec pb); K = wrr_lib W in
      if isTerminalPhase (wst_phase (wr_status pb)) then reconcileTTL_wf W pb original
      else (case getWorkflow (wrr_client W) (m_namespace (wr_meta pb), ref) of
          Inl e \<Rightarrow>
            if isNotFound e then
              patchRunStatus_wf W (setReady K (completed (wrr_now W) (withWPhase PhaseFailed pb)) CFalse ''WorkflowNotFound''
                (Fmt ''AgentWorkflow %q not found'' [Lit ref])) original
            else failE e
        | Inr flow \<Rightarrow>
            if \<not> isReady K (wft_conditions (wf_status flow)) then
              patchRunStatus_wf W (setReady K pb CFalse ''WorkflowNotReady''
                (Fmt ''AgentWorkflow %q is not Ready'' [Lit ref])) original
            else runStages W original (initRun W flow pb)))"

definition Reconcile_wf :: "AgentWorkflowRunReconciler \<Rightarrow> key \<Rightarrow> cresult act" where
  "Reconcile_wf W k = (case getWorkflowRun (wrr_client W) k of
      Inr pb \<Rightarrow> reconcileWorkflowRun W pb
    | Inl e \<Rightarrow>
        if \<not> isNotFound e then failE e
        else (let sweep = bindE (cleanupOrphanedWorkflowRunResources W k) (\<lambda>_. retE noRequeue) in
          case wrr_apiReader W of
            None \<Rightarrow> sweep
          | Some rd \<Rightarrow> (case rdWorkflowRun rd k of
              Inr _ \<Rightarrow> retE requeueNow
            | Inl e' \<Rightarrow> if isNotFound e' then sweep else failE e')))"

definition findRunsForWorkflow :: "AgentWorkflowRunReconciler \<Rightarrow> AgentWorkflow \<Rightarrow> key list" where
  "findRunsForWorkflow W flow =
     (case listRunsForWorkflow (wrr_client W) (m_namespace (wf_meta flow)) (m_name (wf_meta flow)) of
        Inl e \<Rightarrow> []
      | Inr runs \<Rightarrow> map (\<lambda>r. keyOf (wr_meta r)) (filter (\<lambda>r. \<not> isTerminalPhase (wst_phase (wr_status r))) runs))"

section \<open>Frame facts\<close>

abbreviation wphase :: "AgentWorkflowRun \<Rightarrow> AgentRunPhase" where
  "wphase pb \<equiv> wst_phase (wr_status pb)"

abbreviation wstages :: "AgentWorkflowRun \<Rightarrow> AgentWorkflowRunStageStatus list" where
  "wstages pb \<equiv> wst_stages (wr_status pb)"

definition readyStatus :: "klib \<Rightarrow> AgentWorkflowRun \<Rightarrow> cstatus option" where
  "readyStatus K pb = map_option c_status (findCond K (wst_conditions (wr_status pb)) ConditionTypeReady)"

text \<open>The plan a workflow run executes: guide, parameter declarations and stage definitions.\<close>

definition planOf :: "AgentWorkflowRun \<Rightarrow> string \<times> Param list \<times> AgentWorkflowStage list" where
  "planOf pb = (wst_guide (wr_status pb), wst_params (wr_status pb), map stageOf (wstages pb))"

lemma wf_frames [simp]:
  "wphase (setReady K pb s r m) = wphase pb" "wstages (setReady K pb s r m) = wstages pb"
  "planOf (setReady K pb s r m) = planOf pb" "wr_meta (setReady K pb s r m) = wr_meta pb"
  "wst_startTime (wr_status (setReady K pb s r m)) = wst_startTime (wr_status pb)"
  "wst_completionTime (wr_status (setReady K pb s r m)) = wst_completionTime (wr_status pb)"
  "wphase (withWPhase p pb) = p" "wstages (withWPhase p pb) = wstages pb"
  "planOf (withWPhase p pb) = planOf pb" "wr_meta (withWPhase p pb) = wr_meta pb"
  "wst_startTime (wr_status (withWPhase p pb)) = wst_startTime (wr_status pb)"
  "readyStatus K (withWPhase p pb) = readyStatus K pb"
  "wphase (completed t pb) = wphase pb" "wstages (completed t pb) = wstages pb"
  "planOf (completed t pb) = planOf pb" "wr_meta (completed t pb) = wr_meta pb"
  "wst_startTime (wr_status (completed t pb)) = wst_startTime (wr_status pb)"
  "wst_completionTime (wr_status (completed t pb)) = Some t"
  "readyStatus K (completed t pb) = readyStatus K pb"
  "wphase (enterStage n pb) = PhaseRunning" "wstages (enterStage n pb) = wstages pb"
  "planOf (enterStage n pb) = planOf pb" "wr_meta (enterStage n pb) = wr_meta pb"
  "wst_startTime (wr_status (enterStage n pb)) = wst_startTime (wr_status pb)"
  "readyStatus K (enterStage n pb) = readyStatus K pb"
  by (simp_all add: setReady_def withWPhase_def completed_def enterStage_def planOf_def readyStatus_def)

lemma withStage_frames [simp]:
  "wphase (withStage i f pb) = wphase pb" "wr_meta (withStage i f pb) = wr_meta pb"
  "wstages (withStage i f pb) = (wstages pb)[i := f (wstages pb ! i)]"
  "wst_startTime (wr_status (withStage i f pb)) = wst_startTime (wr_status pb)"
  "readyStatus K (withStage i f pb) = readyStatus K pb"
  by (simp_all add: withStage_def readyStatus_def)

lemma planOf_withStage:
  "(\<And>s. stageOf (f s) = stageOf s) \<Longrightarrow> planOf (withStage i f pb) = planOf pb"
  by (cases "i < length (wstages pb)")
    (simp_all add: planOf_def withStage_def map_update list_update_same_conv list_update_beyond)

context condition_store
begin

lemma readyStatus_setReady [simp]: "readyStatus K (setReady K pb s r m) = Some s"
  by (simp add: readyStatus_def setReady_def find_mkCond)

end

section \<open>The invariant of a workflow run\<close>

definition freshStage :: "AgentWorkflowRunStageStatus \<Rightarrow> bool" where
  "freshStage s \<longleftrightarrow> ss_phase s = PhasePending \<and> ss_agentRunName s = []"

text \<open>Everything before the current stage has succeeded by definition of the index; everything after
  it has not been started.\<close>

definition sequential :: "AgentWorkflowRunStageStatus list \<Rightarrow> bool" where
  "sequential ss = list_all freshStage (drop (Suc (findCurrentStageIndex ss)) ss)"

lemma findCurrent_le: "findCurrentStageIndex ss \<le> length ss"
  by (induction ss) auto

lemma before_current: "j < findCurrentStageIndex ss \<Longrightarrow> ss_phase (ss ! j) = PhaseSucceeded"
proof (induction ss arbitrary: j)
  case (Cons s ss)
  then show ?case by (cases j) (auto split: if_splits)
qed simp

lemma at_current: "findCurrentStageIndex ss < length ss \<Longrightarrow> ss_phase (ss ! findCurrentStageIndex ss) \<noteq> PhaseSucceeded"
  by (induction ss) auto

lemma all_succeeded_iff:
  "findCurrentStageIndex ss = length ss \<longleftrightarrow> list_all (\<lambda>s. ss_phase s = PhaseSucceeded) ss"
  by (induction ss) auto

lemma sequential_fresh: "list_all freshStage ss \<Longrightarrow> sequential ss"
  unfolding sequential_def by (metis in_set_dropD list_all_iff)

lemma sequential_update:
  "sequential ss \<Longrightarrow> i = findCurrentStageIndex ss \<Longrightarrow> sequential (ss[i := s'])"
proof (induction ss arbitrary: i)
  case (Cons s ss)
  show ?case
  proof (cases "ss_phase s = PhaseSucceeded")
    case True
    with Cons show ?thesis by (simp add: sequential_def)
  next
    case False
    then have "list_all freshStage ss" using Cons.prems by (simp add: sequential_def)
    then have "list_all freshStage (drop n ss)" for n by (metis in_set_dropD list_all_iff)
    then show ?thesis using Cons.prems False by (simp add: sequential_def)
  qed
qed simp

definition namedStage :: "string \<Rightarrow> AgentWorkflowRunStageStatus \<Rightarrow> bool" where
  "namedStage pb s \<longleftrightarrow> ss_agentRunName s = [] \<or> ss_agentRunName s = stageAgentRunName pb (ss_name s)"

definition wfOK :: "klib \<Rightarrow> AgentWorkflowRun \<Rightarrow> bool" where
  "wfOK K pb \<longleftrightarrow> sequential (wstages pb)
     \<and> (wphase pb = PhaseSucceeded \<longleftrightarrow> readyStatus K pb = Some CTrue)
     \<and> (wphase pb = PhaseSucceeded \<longrightarrow> list_all (\<lambda>s. ss_phase s = PhaseSucceeded) (wstages pb))
     \<and> (wst_startTime (wr_status pb) = None \<longrightarrow> wstages pb = [] \<and> (wphase pb = PhaseUnset \<or> wphase pb = PhaseFailed))
     \<and> (isTerminalPhase (wphase pb) \<longrightarrow> wst_completionTime (wr_status pb) \<noteq> None)"

text \<open>The pipeline a workflow run stands for.\<close>

definition endOf :: "AgentRunPhase \<Rightarrow> bool option" where
  "endOf ph = (if ph = PhaseSucceeded then Some True else if ph = PhaseFailed then Some False else None)"

definition startedAt :: "AgentWorkflowRunStageStatus list \<Rightarrow> bool" where
  "startedAt ss = (let i = findCurrentStageIndex ss in i < length ss \<and> ss_agentRunName (ss ! i) \<noteq> [])"

definition pipelineOf :: "AgentWorkflowRunStageStatus list \<Rightarrow> AgentRunPhase \<Rightarrow> pipeline" where
  "pipelineOf ss ph = \<lparr>pl_total = length ss, pl_passed = findCurrentStageIndex ss, pl_started = startedAt ss, pl_end = endOf ph\<rparr>"

abbreviation absRun :: "AgentWorkflowRun \<Rightarrow> pipeline" where
  "absRun pb \<equiv> pipelineOf (wstages pb) (wphase pb)"

lemma endOf_live: "endOf ph = None \<longleftrightarrow> \<not> isTerminalPhase ph"
  by (cases ph) (simp_all add: endOf_def isTerminalPhase_def)

lemma pipelineOf_sel [simp]:
  "pl_total (pipelineOf ss ph) = length ss" "pl_passed (pipelineOf ss ph) = findCurrentStageIndex ss"
  "pl_started (pipelineOf ss ph) = startedAt ss" "pl_end (pipelineOf ss ph) = endOf ph"
  by (simp_all add: pipelineOf_def)

lemma pipelineOf_phase: "endOf ph = endOf ph' \<Longrightarrow> pipelineOf ss ph = pipelineOf ss ph'"
  by (simp add: pipelineOf_def)

text \<open>A change of the current stage is a sequence of steps of the pipeline: none, its start, its start or not and its pass.\<close>

lemma findCurrent_changed:
  "sequential ss \<Longrightarrow> i = findCurrentStageIndex ss \<Longrightarrow> i < length ss \<Longrightarrow>
   findCurrentStageIndex (ss[i := s']) = (if ss_phase s' = PhaseSucceeded then Suc i else i)"
proof (induction ss arbitrary: i)
  case (Cons s ss)
  show ?case
  proof (cases "ss_phase s = PhaseSucceeded")
    case True
    with Cons show ?thesis by (auto simp: sequential_def)
  next
    case False
    then have "list_all freshStage ss" using Cons.prems by (simp add: sequential_def)
    then have "findCurrentStageIndex ss = 0" by (cases ss) (simp_all add: freshStage_def)
    then show ?thesis using Cons.prems False by simp
  qed
qed simp

lemma started_changed:
  assumes "sequential ss" and "i = findCurrentStageIndex ss" and "i < length ss"
  shows "startedAt (ss[i := s']) = (ss_phase s' \<noteq> PhaseSucceeded \<and> ss_agentRunName s' \<noteq> [])"
proof (cases "ss_phase s' = PhaseSucceeded")
  case True
  have "freshStage (ss ! Suc i)" if "Suc i < length ss"
  proof -
    have "ss ! Suc i \<in> set (drop (Suc i) ss)" using that by (metis Cons_nth_drop_Suc list.set_intros(1))
    then show ?thesis using assms(1,2) by (simp add: sequential_def list_all_iff)
  qed
  then show ?thesis using True findCurrent_changed [OF assms, of s'] by (auto simp: startedAt_def Let_def freshStage_def)
next
  case False
  then show ?thesis using findCurrent_changed [OF assms, of s'] assms(3) by (simp add: startedAt_def Let_def)
qed

lemma pipeline_changed:
  assumes "sequential ss" and i: "i = findCurrentStageIndex ss" "i < length ss" and "\<not> isTerminalPhase ph"
    and n: "ss_agentRunName (ss ! i) = [] \<Longrightarrow> ss_phase s' \<noteq> PhaseSucceeded" "ss_agentRunName (ss ! i) \<noteq> [] \<Longrightarrow> ss_agentRunName s' \<noteq> []"
  shows "pipeSteps (pipelineOf ss ph) (pipelineOf (ss[i := s']) ph)"
proof -
  have live: "pl_end (pipelineOf ss ph) = None" using assms(4) by (simp add: endOf_live)
  have st: "startedAt ss = (ss_agentRunName (ss ! i) \<noteq> [])" using i by (simp add: startedAt_def Let_def)
  note new = findCurrent_changed [OF assms(1) i, of s'] started_changed [OF assms(1) i, of s']
  consider "pipelineOf (ss[i := s']) ph = pipelineOf ss ph"
    | "pipelineOf (ss[i := s']) ph = (pipelineOf ss ph)\<lparr>pl_started := True\<rparr>"
    | "startedAt ss" "pipelineOf (ss[i := s']) ph = (pipelineOf ss ph)\<lparr>pl_passed := Suc (pl_passed (pipelineOf ss ph)), pl_started := False\<rparr>"
    using n st new i(1) by (cases "ss_agentRunName (ss ! i) = []"; cases "ss_phase s' = PhaseSucceeded"; cases "ss_agentRunName s' = []") (auto simp: pipelineOf_def)
  then show ?thesis
  proof cases
    case 2
    show ?thesis unfolding 2 using pipeStep.start [OF live] i by (auto intro!: r_into_rtranclp)
  next
    case 3
    then show ?thesis using pipeStep.pass [OF live] by (auto intro!: r_into_rtranclp)
  qed simp
qed

text \<open>What a status patch may do to a workflow run.\<close>

definition goodStep :: "klib \<Rightarrow> AgentWorkflowRun \<Rightarrow> AgentWorkflowRun \<Rightarrow> bool" where
  "goodStep K pb new \<longleftrightarrow> wfOK K new \<and> wphase pb \<le> wphase new \<and> wr_meta new = wr_meta pb
     \<and> (wstages pb = [] \<or> planOf new = planOf pb)
     \<and> (\<forall>j < length (wstages pb). ss_phase (wstages pb ! j) = PhaseSucceeded \<longrightarrow> wstages new ! j = wstages pb ! j)
     \<and> pipeSteps (absRun pb) (absRun new)"

text \<open>A live run with its snapshot taken.\<close>

definition prepared :: "AgentWorkflowRun \<Rightarrow> AgentWorkflowRun \<Rightarrow> bool" where
  "prepared pb p \<longleftrightarrow> sequential (wstages p) \<and> wr_meta p = wr_meta pb \<and> wst_startTime (wr_status p) \<noteq> None
     \<and> (wstages pb = [] \<or> wstages p = wstages pb \<and> planOf p = planOf pb)
     \<and> (wstages pb = [] \<longrightarrow> findCurrentStageIndex (wstages p) = 0 \<and> \<not> startedAt (wstages p))"

lemma prepared_initRun:
  assumes "wfOK K pb" "wr_status pb' = (wr_status pb)\<lparr>wst_observedGeneration := g\<rparr>" "wr_meta pb' = wr_meta pb"
  shows "prepared pb (initRun W flow pb')"
proof -
  have "sequential (map snapshotStage (wfs_stages (wf_spec flow)))"
    by (rule sequential_fresh) (simp add: list_all_iff snapshotStage_def freshStage_def)
  moreover have "findCurrentStageIndex (map snapshotStage xs) = 0 \<and> \<not> startedAt (map snapshotStage xs)" for xs
    by (cases xs) (simp_all add: startedAt_def snapshotStage_def)
  ultimately show ?thesis
    using assms by (auto simp: prepared_def initRun_def Let_def wfOK_def planOf_def)
qed

lemma live_le_Running: "\<not> isTerminalPhase p \<Longrightarrow> p \<le> PhaseRunning"
  by (cases p) (auto simp: isTerminalPhase_def less_eq_AgentRunPhase_def)

context condition_store
begin

lemma goodStep_stopped:
  assumes "wfOK K pb" "\<not> isTerminalPhase (wphase pb)"
    and "wstages p = wstages pb" "planOf p = planOf pb" "wr_meta p = wr_meta pb"
      "wst_startTime (wr_status p) = wst_startTime (wr_status pb)" "wphase p = wphase pb"
  shows "goodStep K pb (setReady K p CFalse r m)"
    and "goodStep K pb (setReady K (completed t (withWPhase PhaseFailed p)) CFalse r m)"
proof -
  have e: "endOf (wphase pb) = None" using assms(2) by (simp add: endOf_live)
  have f: "pipelineOf ss PhaseFailed = (pipelineOf ss (wphase pb))\<lparr>pl_end := Some False\<rparr>" for ss by (simp add: pipelineOf_def endOf_def)
  show "goodStep K pb (setReady K p CFalse r m)" using assms by (auto simp: goodStep_def wfOK_def isTerminalPhase_def)
  show "goodStep K pb (setReady K (completed t (withWPhase PhaseFailed p)) CFalse r m)"
    using assms le_Failed[OF assms(2)] pipeSteps_fail [of "absRun pb" "absRun pb"] e by (auto simp: goodStep_def wfOK_def isTerminalPhase_def f)
qed

text \<open>Preparing a run takes the snapshot at most.\<close>

lemma prepared_steps:
  assumes "\<not> isTerminalPhase (wphase pb)" "prepared pb p"
  shows "pipeSteps (absRun pb) (pipelineOf (wstages p) (wphase pb))"
proof (cases "wstages pb = []")
  case True
  have "findCurrentStageIndex (wstages p) = 0 \<and> \<not> startedAt (wstages p) \<Longrightarrow> ?thesis"
    using pipeStep.snapshot [of "absRun pb" "length (wstages p)"] assms(1) True
    by (auto simp: pipelineOf_def startedAt_def endOf_live intro!: r_into_rtranclp)
  then show ?thesis using assms True by (simp add: prepared_def)
next
  case False
  then show ?thesis using assms(2) by (simp add: prepared_def)
qed

lemma goodStep_all_done:
  assumes "\<not> isTerminalPhase (wphase pb)" "prepared pb p" "findCurrentStageIndex (wstages p) \<ge> length (wstages p)"
  shows "goodStep K pb (setReady K (p\<lparr>wr_status := (wr_status p)\<lparr>wst_phase := PhaseSucceeded,
    wst_currentStage := c, wst_completionTime := Some t\<rparr>\<rparr>) CTrue r m)"
proof -
  have "list_all (\<lambda>s. ss_phase s = PhaseSucceeded) (wstages p)"
    using assms(3) findCurrent_le[of "wstages p"] all_succeeded_iff by fastforce
  moreover have "wphase pb \<le> PhaseSucceeded"
    using assms(1) by (rule phase_le_terminal[rotated]) (simp add: isTerminalPhase_def)
  moreover have "planOf (p\<lparr>wr_status := (wr_status p)\<lparr>wst_phase := PhaseSucceeded, wst_currentStage := c,
      wst_completionTime := Some t\<rparr>\<rparr>) = planOf p"
    by (simp add: planOf_def)
  moreover have "pipeSteps (absRun pb) (pipelineOf (wstages p) PhaseSucceeded)"
  proof -
    have "pipelineOf (wstages p) PhaseSucceeded = (pipelineOf (wstages p) (wphase pb))\<lparr>pl_end := Some True\<rparr>"
      by (simp add: pipelineOf_def endOf_def)
    then show ?thesis
      using prepared_steps[OF assms(1,2)] pipeStep.finish[of "pipelineOf (wstages p) (wphase pb)"] assms(1,3) findCurrent_le[of "wstages p"]
      by (auto simp: endOf_live intro: rtranclp.rtrancl_into_rtrancl)
  qed
  ultimately show ?thesis
    using assms(2) by (auto simp: goodStep_def wfOK_def prepared_def)
qed

text \<open>The current stage changes, everything else stays.\<close>

lemma goodStep_stage:
  assumes "\<not> isTerminalPhase (wphase pb)" "prepared pb p"
    and i: "i = findCurrentStageIndex (wstages p)" "i < length (wstages p)"
    and q: "wr_meta q = wr_meta p" "wst_startTime (wr_status q) = wst_startTime (wr_status p)"
      "wstages q = (wstages p)[i := s']" "planOf q = planOf p"
    and "wphase q = PhaseRunning \<or> wphase q = PhaseFailed \<and> wst_completionTime (wr_status q) \<noteq> None"
    and n: "ss_agentRunName (wstages p ! i) = [] \<Longrightarrow> ss_phase s' \<noteq> PhaseSucceeded"
      "ss_agentRunName (wstages p ! i) \<noteq> [] \<Longrightarrow> ss_agentRunName s' \<noteq> []"
  shows "goodStep K pb (setReady K q CFalse r m)"
proof -
  have seq: "sequential (wstages q)"
    using assms(2) sequential_update[of "wstages p" i s'] i q(3) by (simp add: prepared_def)
  have keep: "wstages q ! j = wstages pb ! j"
    if "j < length (wstages pb)" "ss_phase (wstages pb ! j) = PhaseSucceeded" for j
  proof -
    have p: "wstages p = wstages pb" using assms(2) that(1) by (auto simp: prepared_def)
    then have "j \<noteq> i" using at_current[of "wstages p"] i that by auto
    then show ?thesis using q(3) p by simp
  qed
  have "wphase pb \<le> wphase q"
    using assms(9) live_le_Running[OF assms(1)] le_Failed[OF assms(1)] by auto
  moreover have "pipeSteps (absRun pb) (absRun q)"
  proof -
    have live: "pipeSteps (absRun pb) (pipelineOf (wstages q) (wphase pb))"
      using prepared_steps[OF assms(1,2)] pipeline_changed[OF _ i assms(1) n] assms(2) q(3) by (auto simp: prepared_def)
    have "absRun q = pipelineOf (wstages q) (wphase pb) \<or> absRun q = (pipelineOf (wstages q) (wphase pb))\<lparr>pl_end := Some False\<rparr>"
      using assms(9) endOf_live[of "wphase pb"] assms(1) by (auto simp: pipelineOf_def endOf_def)
    then show ?thesis using live pipeSteps_fail[OF live] assms(1) by (auto simp: endOf_live)
  qed
  ultimately show ?thesis
    using seq keep assms(2,9) q by (auto simp: goodStep_def wfOK_def prepared_def isTerminalPhase_def)
qed

end

definition stepsGood :: "klib \<Rightarrow> AgentWorkflowRun \<Rightarrow> call list \<Rightarrow> bool" where
  "stepsGood K pb calls \<longleftrightarrow>
     (\<forall>orig new. PatchWorkflowRunStatus orig new \<in> set calls \<longrightarrow> orig = pb \<and> goodStep K pb new)"

lemma stepsGood_simps [simp]:
  "stepsGood K pb []"
  "stepsGood K pb [PatchWorkflowRunStatus pb new] \<longleftrightarrow> goodStep K pb new"
  "stepsGood K pb (xs @ ys) \<longleftrightarrow> stepsGood K pb xs \<and> stepsGood K pb ys"
  by (auto simp: stepsGood_def)

lemma fst_patchRunStatus_wf [simp]:
  "fst (patchRunStatus_wf W new orig) = [PatchWorkflowRunStatus orig new]"
  "fst (bindE (patchRunStatus_wf W new orig) (\<lambda>_. failE e)) = [PatchWorkflowRunStatus orig new]"
  by (simp_all add: patchRunStatus_wf_def bindE_def split: sum.splits)

text \<open>Creating the AgentRun of a stage: at most one create, no patch.\<close>

lemma createAgentRunForStage_calls:
  "c \<in> set (fst (createAgentRunForStage W pb stg i n)) \<Longrightarrow>
   (\<exists>m. c = EmitEvent ''ParamsFiltered'' m)
   \<or> (\<exists>agent raw g m. c = CreateAgentRun ((stageRun pb stg i n agent raw g)\<lparr>run_meta := m\<rparr>)
        \<and> getAgent (wrr_client W) (m_namespace (wr_meta pb), ws_agentRef stg) = Inr agent
        \<and> workflowInputs pb = Inr (raw, g)
        \<and> setControllerReference (wrr_lib W) agentWorkflowRunKind (wr_meta pb)
            (run_meta (stageRun pb stg i n agent raw g)) = Inr m)"
  unfolding createAgentRunForStage_def adoptOrFail_def Let_def
  by (auto simp: set_fst_bindE split: if_splits prod.splits)

lemma createAgentRunForStage_no_patch: "stepsGood K pb' (fst (createAgentRunForStage W pb stg i n))"
  by (auto simp: stepsGood_def dest: createAgentRunForStage_calls)

lemma stageOf_updates [simp]:
  "stageOf (s\<lparr>ss_phase := p\<rparr>) = stageOf s" "stageOf (s\<lparr>ss_agentRunName := n\<rparr>) = stageOf s"
  by (simp_all add: stageOf_def)

context condition_store
begin

lemma beginStage_good:
  assumes lib: "wrr_lib W = K" and "\<not> isTerminalPhase (wphase pb)" "prepared pb p"
    and i: "i = findCurrentStageIndex (wstages p)" "i < length (wstages p)"
    and unstarted: "ss_agentRunName (wstages p ! i) = []"
  shows "stepsGood K pb (fst (beginStage W pb (enterStage n p) i))"
proof -
  have plan: "planOf (withStage i (\<lambda>s. s\<lparr>ss_phase := x\<rparr>) q) = planOf q"
    "planOf (withStage i (\<lambda>s. s\<lparr>ss_agentRunName := y, ss_phase := x\<rparr>) q) = planOf q" for x y q
    by (rule planOf_withStage, simp)+
  have same: "(wstages p)[i := wstages p ! i] = wstages p" by simp
  have ns: "ss_phase (wstages p ! i) \<noteq> PhaseSucceeded" using at_current[of "wstages p"] i by simp
  have failed: "goodStep K pb (setReady K (completed t (withWPhase PhaseFailed
      (withStage i (\<lambda>s. s\<lparr>ss_phase := PhaseFailed\<rparr>) (enterStage n p)))) CFalse r m)" for t r m
    by (rule goodStep_stage[OF assms(2,3) i, where s' = "(wstages p ! i)\<lparr>ss_phase := PhaseFailed\<rparr>"]) (simp_all add: plan i(2) unstarted)
  have waiting: "goodStep K pb (setReady K (enterStage n p) CFalse r m)" for r m
    by (rule goodStep_stage[OF assms(2,3) i, where s' = "wstages p ! i"]) (simp_all add: ns)
  have begun: "goodStep K pb (setReady K (withStage i (\<lambda>s. s\<lparr>ss_agentRunName := x, ss_phase := PhasePending\<rparr>)
      (enterStage n p)) CFalse r m)" for x r m
    by (rule goodStep_stage[OF assms(2,3) i, where s' = "(wstages p ! i)\<lparr>ss_agentRunName := x, ss_phase := PhasePending\<rparr>"]) (simp_all add: plan i(2) unstarted)
  show ?thesis
    using createAgentRunForStage_no_patch[of K pb W] failed waiting begun
    by (simp add: beginStage_def Let_def lib split: sum.split)
qed

lemma mirrorStage_good:
  assumes lib: "wrr_lib W = K" and "\<not> isTerminalPhase (wphase pb)" "prepared pb p"
    and i: "i = findCurrentStageIndex (wstages p)" "i < length (wstages p)"
    and started: "ss_agentRunName (wstages p ! i) \<noteq> []"
  shows "goodStep K pb (mirrorStage W (enterStage n p) i child)"
proof -
  define q where "q = (if run_phase child \<noteq> PhaseUnset
    then withStage i (\<lambda>s. s\<lparr>ss_phase := run_phase child\<rparr>) (enterStage n p) else enterStage n p)"
  have q: "wr_meta q = wr_meta p" "wst_startTime (wr_status q) = wst_startTime (wr_status p)"
    "planOf q = planOf p" "wphase q = PhaseRunning"
    by (simp_all add: q_def planOf_withStage)
  obtain s' where s': "wstages q = (wstages p)[i := s']" and s'n: "ss_agentRunName s' \<noteq> []"
    by (cases "run_phase child = PhaseUnset") (auto simp: q_def started i(2) intro: that[of "wstages p ! i"] that[of "(wstages p ! i)\<lparr>ss_phase := run_phase child\<rparr>"])
  have running: "goodStep K pb (setReady K q CFalse r m)" for r m
    by (rule goodStep_stage[OF assms(2,3) i q(1,2) s' q(3)]) (simp_all add: q started s'n)
  have failed: "goodStep K pb (setReady K (completed t (withWPhase PhaseFailed q)) CFalse r m)" for t r m
    by (rule goodStep_stage[OF assms(2,3) i, where s' = s']) (simp_all add: q s' started s'n)
  show ?thesis
    using running failed unfolding mirrorStage_def Let_def lib q_def[symmetric] by (simp split: option.split)
qed

lemma watchStage_good:
  assumes lib: "wrr_lib W = K" and "\<not> isTerminalPhase (wphase pb)" "prepared pb p"
    and i: "i = findCurrentStageIndex (wstages p)" "i < length (wstages p)"
    and started: "ss_agentRunName (wstages p ! i) \<noteq> []"
  shows "stepsGood K pb (fst (watchStage W pb (enterStage n p) i))"
proof -
  have "goodStep K pb (setReady K (completed t (withWPhase PhaseFailed
      (withStage i (\<lambda>s. s\<lparr>ss_phase := PhaseFailed\<rparr>) (enterStage n p)))) CFalse r m)" for t r m
    by (rule goodStep_stage[OF assms(2,3) i, where s' = "(wstages p ! i)\<lparr>ss_phase := PhaseFailed\<rparr>"]) (simp_all add: planOf_withStage started i(2))
  then show ?thesis
    using mirrorStage_good[OF assms] by (simp add: watchStage_def Let_def lib split: sum.split)
qed

lemma runStages_good:
  assumes "wrr_lib W = K" "\<not> isTerminalPhase (wphase pb)" "prepared pb p"
  shows "stepsGood K pb (fst (runStages W pb p))"
proof (cases "findCurrentStageIndex (wstages p) < length (wstages p)")
  case True
  then show ?thesis
    using beginStage_good[OF assms refl True] watchStage_good[OF assms refl True]
    by (simp add: runStages_def Let_def)
next
  case False
  then show ?thesis
    using goodStep_all_done[OF assms(2,3)] assms(1) by (simp add: runStages_def Let_def)
qed

lemma reconcileWorkflowRun_good:
  assumes "wrr_lib W = K" "wfOK K pb"
  shows "stepsGood K pb (fst (reconcileWorkflowRun W pb))"
proof -
  define q where "q = observed_wf pb"
  have q: "wphase q = wphase pb" "wstages q = wstages pb" "planOf q = planOf pb" "wr_meta q = wr_meta pb"
    "wst_startTime (wr_status q) = wst_startTime (wr_status pb)" "readyStatus K q = readyStatus K pb"
    "wst_completionTime (wr_status q) = wst_completionTime (wr_status pb)"
    by (simp_all add: q_def observed_wf_def planOf_def readyStatus_def)
  show ?thesis
  proof (cases "isTerminalPhase (wphase pb)")
    case True
    then have "wst_completionTime (wr_status q) \<noteq> None" using assms(2) q by (simp add: wfOK_def)
    then have "stepsGood K pb (fst (reconcileTTL_wf W q pb))"
      by (auto simp: reconcileTTL_wf_def Let_def bindE_def deleteE_def stepsGood_def split: option.split sum.split)
    then show ?thesis using True q by (simp add: reconcileWorkflowRun_def Let_def q_def[symmetric])
  next
    case False
    have "prepared pb (initRun W flow q)" for flow
      by (rule prepared_initRun[OF assms(2)]) (simp_all add: q_def observed_wf_def)
    then show ?thesis
      using False runStages_good[OF assms(1) False] goodStep_stopped[OF assms(2) False q(2,3,4,5,1)] assms(1) q
      by (simp add: reconcileWorkflowRun_def Let_def q_def[symmetric] split: sum.split)
  qed
qed

end

section \<open>Reachable workflow runs\<close>

text \<open>The life of a workflow run under any client, library, clock and reader, as for AgentRuns.\<close>

inductive reachable_wf :: "klib \<Rightarrow> AgentWorkflowRun \<Rightarrow> bool" for K where
  created: "wphase pb = PhaseUnset \<Longrightarrow> wstages pb = [] \<Longrightarrow> wst_startTime (wr_status pb) = None \<Longrightarrow>
    wst_conditions (wr_status pb) = [] \<Longrightarrow> reachable_wf K pb"
| edited: "reachable_wf K pb \<Longrightarrow> wr_status pb' = wr_status pb \<Longrightarrow> reachable_wf K pb'"
| patched: "reachable_wf K pb \<Longrightarrow> wrr_lib W = K \<Longrightarrow> getWorkflowRun (wrr_client W) k = Inr pb \<Longrightarrow>
    PatchWorkflowRunStatus orig new \<in> set (fst (Reconcile_wf W k)) \<Longrightarrow>
    reachable_wf K (pb\<lparr>wr_status := wr_status new\<rparr>)"

lemma wfOK_status:
  assumes "wr_status pb' = wr_status pb"
  shows "wfOK K pb' = wfOK K pb"
  unfolding wfOK_def readyStatus_def assms by (rule refl)

lemma reachable_wfOK:
  assumes "condition_store K" "reachable_wf K pb"
  shows "wfOK K pb"
  using assms(2)
proof (induction rule: reachable_wf.induct)
  case (created pb)
  then show ?case
    using condition_store.find_nil[OF assms(1)]
    by (simp add: wfOK_def readyStatus_def sequential_def isTerminalPhase_def)
next
  case (edited pb pb')
  then show ?case using wfOK_status[of pb' pb] by simp
next
  case (patched pb W k orig new)
  then have "PatchWorkflowRunStatus orig new \<in> set (fst (reconcileWorkflowRun W pb))" by (simp add: Reconcile_wf_def)
  then have "wfOK K new"
    using condition_store.reconcileWorkflowRun_good[OF assms(1) patched(2,5)]
    by (auto simp: stepsGood_def goodStep_def)
  then show ?case using wfOK_status[of "pb\<lparr>wr_status := wr_status new\<rparr>" new] by simp
qed

section \<open>The controller refines the pipeline\<close>

text \<open>One change of a workflow run: someone edits it outside its status, or a reconcile patches its status.\<close>

definition createdRun :: "AgentWorkflowRun \<Rightarrow> bool" where
  "createdRun pb \<longleftrightarrow> wphase pb = PhaseUnset \<and> wstages pb = [] \<and> wst_startTime (wr_status pb) = None \<and> wst_conditions (wr_status pb) = []"

inductive wfMove :: "klib \<Rightarrow> AgentWorkflowRun \<Rightarrow> AgentWorkflowRun \<Rightarrow> bool" for K where
  edit: "wr_status pb' = wr_status pb \<Longrightarrow> wfMove K pb pb'"
| patch: "wrr_lib W = K \<Longrightarrow> getWorkflowRun (wrr_client W) k = Inr pb \<Longrightarrow>
    PatchWorkflowRunStatus orig new \<in> set (fst (Reconcile_wf W k)) \<Longrightarrow> wfMove K pb (pb\<lparr>wr_status := wr_status new\<rparr>)"

lemma reachable_wf_moves: "reachable_wf K pb \<Longrightarrow> \<exists>first. createdRun first \<and> (wfMove K)\<^sup>*\<^sup>* first pb"
proof (induction rule: reachable_wf.induct)
  case (created pb)
  then show ?case by (auto simp: createdRun_def)
next
  case (edited pb pb')
  then show ?case by (blast intro: wfMove.edit rtranclp.rtrancl_into_rtrancl)
next
  case (patched pb W k orig new)
  then show ?case by (blast intro: wfMove.patch rtranclp.rtrancl_into_rtrancl)
qed

lemma wfMove_simulated:
  assumes "condition_store K" and "wfOK K pb" and "wfMove K pb pb'"
  shows "wfOK K pb' \<and> pipeSteps (absRun pb) (absRun pb')"
  using assms(3)
proof cases
  case edit
  then show ?thesis using wfOK_status[of pb' pb] assms(2) by simp
next
  case (patch W k orig new)
  then have "PatchWorkflowRunStatus orig new \<in> set (fst (reconcileWorkflowRun W pb))" by (simp add: Reconcile_wf_def)
  then have "goodStep K pb new"
    using condition_store.reconcileWorkflowRun_good[OF assms(1) patch(2) assms(2)] by (auto simp: stepsGood_def)
  then show ?thesis using wfOK_status[of "pb\<lparr>wr_status := wr_status new\<rparr>" new] patch(1) by (simp add: goodStep_def)
qed

sublocale condition_store \<subseteq> wfsim: pipeline_simulation createdRun "wfOK K" "wfMove K" absRun
proof
  show "wfOK K pb \<and> absRun pb = idlePipeline" if "createdRun pb" for pb
  proof -
    have "reachable_wf K pb" using that by (auto simp: createdRun_def intro: reachable_wf.created)
    then show ?thesis
      using reachable_wfOK[OF condition_store_axioms] that
      by (simp add: createdRun_def pipelineOf_def idlePipeline_def startedAt_def endOf_def)
  qed
  show "wfOK K t \<and> pipeSteps (absRun s) (absRun t)" if "wfOK K s" "wfMove K s t" for s t
    using wfMove_simulated[OF condition_store_axioms that] .
qed

context condition_store
begin

lemma reachable_simulation:
  assumes "reachable_wf K pb" and "(wfMove K)\<^sup>*\<^sup>* pb pb'"
  shows "pipeSteps idlePipeline (absRun pb)" and "pipeSteps (absRun pb) (absRun pb')" and "pipelineOK (absRun pb')"
    and "pl_end (absRun pb) \<noteq> None \<Longrightarrow> absRun pb' = absRun pb"
proof -
  obtain first where f: "createdRun first" "(wfMove K)\<^sup>*\<^sup>* first pb" using reachable_wf_moves[OF assms(1)] by blast
  show "pipeSteps idlePipeline (absRun pb)" by (rule wfsim.from_idle(2)[OF f])
  show "pipeSteps (absRun pb) (absRun pb')" using wfsim.moves_simulated[OF assms(2) wfsim.from_idle(1)[OF f]] ..
  show "pipelineOK (absRun pb')" by (rule wfsim.from_idle(3)[OF f(1) rtranclp_trans[OF f(2) assms(2)]])
  show "absRun pb' = absRun pb" if "pl_end (absRun pb) \<noteq> None" by (rule wfsim.end_is_final[OF f assms(2) that])
qed

end

text \<open>C3: the controller refines the pipeline. A workflow run begins as the idle pipeline, and whatever edits and
  reconciles come, each stretch of its life is a sequence of steps of the pipeline: the stages are counted once, one is
  started only when all before it have passed, passed only when it was started, and the run succeeds only when none is
  left. Never is more passed than there is, and once the run has ended the pipeline stays as it is.\<close>

theorem workflow_refines_pipeline:
  assumes "condition_store K" and "reachable_wf K pb" and "(wfMove K)\<^sup>*\<^sup>* pb pb'"
  shows "pipeSteps idlePipeline (absRun pb) \<and> pipeSteps (absRun pb) (absRun pb') \<and> pipelineOK (absRun pb')
     \<and> (isTerminalPhase (wphase pb) \<longrightarrow> absRun pb' = absRun pb)"
  using condition_store.reachable_simulation[OF assms] by (simp add: endOf_live)

text \<open>C2: stages run one at a time and in order. In every reachable state of a workflow run, all stages
  before the current one have succeeded and all stages after it are untouched: Pending and without an
  AgentRun; the run is Succeeded exactly when its Ready condition is True, and then every stage has
  succeeded; a finished run has a completion time.\<close>

theorem stages_sequential:
  assumes "condition_store K" and "reachable_wf K pb"
  shows "(\<forall>i j. i < j \<longrightarrow> j < length (wstages pb) \<longrightarrow> ss_phase (wstages pb ! i) \<noteq> PhaseSucceeded \<longrightarrow>
           ss_phase (wstages pb ! j) = PhasePending \<and> ss_agentRunName (wstages pb ! j) = [])
     \<and> (wphase pb = PhaseSucceeded \<longleftrightarrow> readyStatus K pb = Some CTrue)
     \<and> (wphase pb = PhaseSucceeded \<longrightarrow> list_all (\<lambda>s. ss_phase s = PhaseSucceeded) (wstages pb))
     \<and> (isTerminalPhase (wphase pb) \<longrightarrow> wst_completionTime (wr_status pb) \<noteq> None)"
proof -
  have ok: "wfOK K pb" by (rule reachable_wfOK[OF assms])
  have fresh: "freshStage (wstages pb ! j)"
    if "i < j" "j < length (wstages pb)" "ss_phase (wstages pb ! i) \<noteq> PhaseSucceeded" for i j
  proof -
    define c where "c = findCurrentStageIndex (wstages pb)"
    have "c \<le> i" using before_current[of i "wstages pb"] that(3) by (force simp: c_def)
    then have "drop (Suc c) (wstages pb) ! (j - Suc c) = wstages pb ! j" "j - Suc c < length (drop (Suc c) (wstages pb))"
      using that(1,2) by auto
    then have "wstages pb ! j \<in> set (drop (Suc c) (wstages pb))" by (metis nth_mem)
    then show ?thesis using ok by (auto simp: wfOK_def sequential_def list_all_iff c_def)
  qed
  then show ?thesis using ok by (auto simp: wfOK_def freshStage_def)
qed

text \<open>C8: a workflow run executes the plan it started with. Once its stages are recorded, no later
  reconcile changes its guide, its parameter declarations or any stage's name, Agent, instructions or
  execution settings, whatever happens to the workflow meanwhile; the phase only moves forward, and a
  stage that has succeeded is never touched again.\<close>

theorem plan_is_frozen:
  assumes "condition_store K" and "reachable_wf K pb" and "wrr_lib W = K"
    and "getWorkflowRun (wrr_client W) k = Inr pb"
    and "PatchWorkflowRunStatus orig new \<in> set (fst (Reconcile_wf W k))"
  shows "orig = pb \<and> wphase pb \<le> wphase new
     \<and> (wstages pb = [] \<or> planOf new = planOf pb)
     \<and> (\<forall>j < length (wstages pb). ss_phase (wstages pb ! j) = PhaseSucceeded \<longrightarrow> wstages new ! j = wstages pb ! j)"
proof -
  have "PatchWorkflowRunStatus orig new \<in> set (fst (reconcileWorkflowRun W pb))"
    using assms(4,5) by (simp add: Reconcile_wf_def)
  then show ?thesis
    using condition_store.reconcileWorkflowRun_good[OF assms(1,3) reachable_wfOK[OF assms(1,2)]]
    by (auto simp: stepsGood_def goodStep_def)
qed

section \<open>The AgentRun a stage gets\<close>

text \<open>The stage a reconcile is at: the run with its snapshot, and the index of the stage.\<close>

definition atStage :: "AgentWorkflowRunReconciler \<Rightarrow> key \<Rightarrow> AgentWorkflowRun \<Rightarrow> AgentWorkflowRun \<Rightarrow> nat \<Rightarrow> bool" where
  "atStage W k pb q i \<longleftrightarrow> getWorkflowRun (wrr_client W) k = Inr pb \<and> \<not> isTerminalPhase (wphase pb)
     \<and> (\<exists>flow. getWorkflow (wrr_client W) (m_namespace (wr_meta pb), wrs_workflowRef (wr_spec pb)) = Inr flow
          \<and> isReady (wrr_lib W) (wft_conditions (wf_status flow)) \<and> q = initRun W flow (observed_wf pb))
     \<and> i = findCurrentStageIndex (wstages q) \<and> i < length (wstages q)"

definition childFor :: "AgentWorkflowRun \<Rightarrow> nat \<Rightarrow> Agent \<Rightarrow> string option \<Rightarrow> envvar list \<Rightarrow> AgentRun" where
  "childFor q i agent raw g = stageRun (enterStage (ss_name (wstages q ! i)) q) (stageOf (wstages q ! i)) i
     (length (wstages q)) agent raw g"

lemma initRun_meta [simp]: "wr_meta (initRun W flow pb) = wr_meta pb" "wr_spec (initRun W flow pb) = wr_spec pb"
  by (simp_all add: initRun_def Let_def)

lemma initRun_stages:
  "wstages (initRun W flow pb) = (if wstages pb = [] then map snapshotStage (wfs_stages (wf_spec flow)) else wstages pb)"
  by (simp add: initRun_def Let_def)

lemma observed_wf_simps [simp]:
  "wr_meta (observed_wf pb) = wr_meta pb" "wr_spec (observed_wf pb) = wr_spec pb"
  "wphase (observed_wf pb) = wphase pb" "wstages (observed_wf pb) = wstages pb"
  "wst_startTime (wr_status (observed_wf pb)) = wst_startTime (wr_status pb)"
  by (simp_all add: observed_wf_def)

lemma reconcile_at_stage:
  assumes "atStage W k pb q i"
  shows "Reconcile_wf W k =
    (if ss_agentRunName (wstages q ! i) = [] then beginStage W pb (enterStage (ss_name (wstages q ! i)) q) i
     else watchStage W pb (enterStage (ss_name (wstages q ! i)) q) i)"
  using assms by (auto simp: atStage_def Reconcile_wf_def reconcileWorkflowRun_def runStages_def Let_def)

lemma reconcile_creates:
  assumes "CreateAgentRun child \<in> set (fst (Reconcile_wf W k))"
  obtains pb q i agent raw g m where "atStage W k pb q i" "ss_agentRunName (wstages q ! i) = []"
    "child = (childFor q i agent raw g)\<lparr>run_meta := m\<rparr>"
    "setControllerReference (wrr_lib W) agentWorkflowRunKind (wr_meta pb) (run_meta (childFor q i agent raw g)) = Inr m"
    "workflowInputs (enterStage (ss_name (wstages q ! i)) q) = Inr (raw, g)"
proof -
  have ttl: "CreateAgentRun child \<notin> set (fst (reconcileTTL_wf W x y))" for x y
    by (auto simp: reconcileTTL_wf_def Let_def bindE_def deleteE_def split: option.split sum.split)
  have watch: "CreateAgentRun child \<notin> set (fst (watchStage W x y i))" for x y i
    by (auto simp: watchStage_def Let_def split: sum.split)
  obtain pb where pb: "getWorkflowRun (wrr_client W) k = Inr pb"
    using assms by (auto simp: Reconcile_wf_def Let_def set_fst_bindE cleanupOrphanedWorkflowRunResources_def
        split: sum.splits if_splits option.splits dest!: forE_calls deleteOrphanedObject_calls)
  obtain flow where flow: "getWorkflow (wrr_client W) (m_namespace (wr_meta pb), wrs_workflowRef (wr_spec pb)) = Inr flow"
    "isReady (wrr_lib W) (wft_conditions (wf_status flow))" "\<not> isTerminalPhase (wphase pb)"
    and c: "CreateAgentRun child \<in> set (fst (runStages W pb (initRun W flow (observed_wf pb))))"
    using assms pb ttl by (auto simp: Reconcile_wf_def reconcileWorkflowRun_def Let_def split: if_splits sum.splits)
  define q i where "q = initRun W flow (observed_wf pb)" and "i = findCurrentStageIndex (wstages q)"
  have at: "atStage W k pb q i" and n: "ss_agentRunName (wstages q ! i) = []"
    and b: "CreateAgentRun child \<in> set (fst (beginStage W pb (enterStage (ss_name (wstages q ! i)) q) i))"
    using c flow pb watch by (auto simp: atStage_def runStages_def Let_def i_def q_def split: if_splits)
  have "CreateAgentRun child \<in> set (fst (createAgentRunForStage W (enterStage (ss_name (wstages q ! i)) q)
      (stageOf (wstages q ! i)) i (length (wstages q))))"
    using b by (auto simp: beginStage_def Let_def split: sum.splits if_splits)
  from createAgentRunForStage_calls[OF this] show thesis
    using that[OF at n] by (auto simp: childFor_def q_def)
qed

text \<open>C10: the AgentRun of a stage. A reconcile creates one only for the first stage that has not
  succeeded, of a live run whose workflow is Ready, and only while that stage has none. The AgentRun
  names the stage's Agent and instructions and the run's gateway; the stage variables and the
  controller's labels cannot be overridden by the user's, every other label of the workflow run is
  inherited; and it is owned by the workflow run, so a repeated create recognises it as its own.\<close>

theorem stage_run_created_in_order:
  assumes "owner_references (wrr_lib W)" and "CreateAgentRun child \<in> set (fst (Reconcile_wf W k))"
  shows "\<exists>pb q i. atStage W k pb q i \<and> ss_agentRunName (wstages q ! i) = []
     \<and> (\<forall>j < i. ss_phase (wstages q ! j) = PhaseSucceeded) \<and> ss_phase (wstages q ! i) \<noteq> PhaseSucceeded
     \<and> (wstages pb = [] \<or> wstages q = wstages pb)
     \<and> m_name (run_meta child) = stageAgentRunName (m_name (wr_meta pb)) (ss_name (wstages q ! i))
     \<and> rs_agentRef (run_spec child) = ss_agentRef (wstages q ! i)
     \<and> rs_instructions (run_spec child) = ss_instructions (wstages q ! i)
     \<and> rs_gateway (run_spec child) = wrs_gateway (wr_spec pb)
     \<and> envLookup (rs_env (run_spec child)) ''KONVEYOR_WORKFLOW_STAGE''
         = Some (plainEnv ''KONVEYOR_WORKFLOW_STAGE'' (showNat (i + 1)))
     \<and> envLookup (rs_env (run_spec child)) ''KONVEYOR_WORKFLOW_STAGE_COUNT''
         = Some (plainEnv ''KONVEYOR_WORKFLOW_STAGE_COUNT'' (showNat (length (wstages q))))
     \<and> m_labels (run_meta child) = (m_labels (wr_meta pb))(''app.kubernetes.io/managed-by'' \<mapsto> ''agentic-controller'',
         ''konveyor.io/agentworkflowrun'' \<mapsto> m_name (wr_meta pb), ''konveyor.io/stage'' \<mapsto> ss_name (wstages q ! i))
     \<and> isOwnedBy (run_meta child) (wr_meta pb)"
proof -
  obtain pb q i agent raw g m where at: "atStage W k pb q i" and n: "ss_agentRunName (wstages q ! i) = []"
    and child: "child = (childFor q i agent raw g)\<lparr>run_meta := m\<rparr>"
    and own: "setControllerReference (wrr_lib W) agentWorkflowRunKind (wr_meta pb) (run_meta (childFor q i agent raw g)) = Inr m"
    by (rule reconcile_creates[OF assms(2)])
  have i: "i = findCurrentStageIndex (wstages q)" "i < length (wstages q)" and q: "wr_meta q = wr_meta pb" "wr_spec q = wr_spec pb"
    using at by (auto simp: atStage_def)
  have kept: "wstages pb = [] \<or> wstages q = wstages pb"
    using at by (cases "wstages pb = []") (auto simp: atStage_def initRun_stages)
  have m: "m_name m = m_name (run_meta (childFor q i agent raw g))" "m_labels m = m_labels (run_meta (childFor q i agent raw g))"
    using owner_references.owner_frame[OF assms(1) own] by auto
  have "isOwnedBy m (wr_meta pb)"
    using owner_references.owner_set[OF assms(1) own] by (auto simp: isOwnedBy_def list_ex_iff)
  moreover have "envLookup (xs @ [plainEnv ''KONVEYOR_WORKFLOW_STAGE'' a, plainEnv ''KONVEYOR_WORKFLOW_STAGE_COUNT'' b]) ''KONVEYOR_WORKFLOW_STAGE''
      = Some (plainEnv ''KONVEYOR_WORKFLOW_STAGE'' a)"
    "envLookup (xs @ [plainEnv ''KONVEYOR_WORKFLOW_STAGE'' a, plainEnv ''KONVEYOR_WORKFLOW_STAGE_COUNT'' b]) ''KONVEYOR_WORKFLOW_STAGE_COUNT''
      = Some (plainEnv ''KONVEYOR_WORKFLOW_STAGE_COUNT'' b)" for xs a b
    by (simp_all add: envLookup_def plainEnv_def)
  moreover have "wr_spec (enterStage x q) = wr_spec q" for x by (simp add: enterStage_def)
  ultimately show ?thesis
    using at n i before_current at_current[of "wstages q"] q kept m
    by (intro exI[of _ pb] exI[of _ q] exI[of _ i])
      (simp add: child childFor_def stageRun_def newMeta_def stageOf_def stageLabels_def label_names flip: append_assoc)
qed

section \<open>Stage outcomes\<close>

text \<open>
  What the workflow controller relies on: the AgentRuns it reads satisfy the contract of the
  AgentRun controller. Inside the contract the phase it mirrors and the condition it acts on agree.
\<close>

locale stage_contract = condition_store K for K :: klib +
  fixes child :: "AgentRun \<Rightarrow> bool"
  assumes child_consistent: "child r \<Longrightarrow> consistent K r"
begin

lemma mirror_succeeded:
  assumes "wrr_lib W = K" "child r" "run_phase r = PhaseSucceeded" "i < length (wstages pb)"
  shows "ss_phase (wstages (mirrorStage W pb i r) ! i) = PhaseSucceeded
     \<and> wphase (mirrorStage W pb i r) = wphase pb"
  using child_consistent[OF assms(2)] assms
  by (auto simp: mirrorStage_def Let_def consistent_def condStatus_def split: option.split)

lemma mirror_failed:
  assumes "wrr_lib W = K" "child r" "run_phase r = PhaseFailed" "i < length (wstages pb)"
  shows "ss_phase (wstages (mirrorStage W pb i r) ! i) = PhaseFailed
     \<and> wphase (mirrorStage W pb i r) = PhaseFailed"
  using child_consistent[OF assms(2)] assms
  by (auto simp: mirrorStage_def Let_def consistent_def condStatus_def split: option.split)

lemma mirror_live:
  assumes "wrr_lib W = K" "child r" "\<not> isTerminalPhase (run_phase r)" "i < length (wstages pb)"
    "ss_phase (wstages pb ! i) \<noteq> PhaseSucceeded"
  shows "ss_phase (wstages (mirrorStage W pb i r) ! i) \<noteq> PhaseSucceeded
     \<and> wphase (mirrorStage W pb i r) = wphase pb"
proof -
  have "condStatus K AgentRunConditionSucceeded r = None \<or> condStatus K AgentRunConditionSucceeded r = Some CUnknown"
    using child_consistent[OF assms(2)] assms(3)
    by (cases "run_phase r") (auto simp: consistent_def isTerminalPhase_def)
  then show ?thesis
    using assms by (auto simp: mirrorStage_def Let_def condStatus_def isTerminalPhase_def split: option.split)
qed

end

lemma reachable_contract: "condition_store K \<Longrightarrow> stage_contract K (reachable K)"
  by (intro stage_contract.intro stage_contract_axioms.intro) (auto dest: reachable_OK simp: runOK_def)

interpretation reachable_child: stage_contract refK "reachable refK"
  by (rule reachable_contract[OF refstore.condition_store_axioms])

text \<open>C9: the outcome of a stage decides the workflow run, in the reconcile that sees it. For a stage
  whose AgentRun is in any reachable state: if it Succeeded the stage is recorded as Succeeded and the
  run goes on; if it Failed (an error, a limit or a refusal) the run fails with it; otherwise the
  stage is not passed and the run stays Running.\<close>

theorem stage_outcome_decides:
  assumes "condition_store (wrr_lib W)" and "atStage W k pb q i"
    and "ss_agentRunName (wstages q ! i) \<noteq> []"
    and "getRun (wrr_client W) (m_namespace (wr_meta pb), ss_agentRunName (wstages q ! i)) = Inr child"
    and "reachable (wrr_lib W) child"
  shows "\<exists>new. fst (Reconcile_wf W k) = [PatchWorkflowRunStatus pb new]
     \<and> (if run_phase child = PhaseSucceeded
        then ss_phase (wstages new ! i) = PhaseSucceeded \<and> wphase new = PhaseRunning
        else if run_phase child = PhaseFailed
        then ss_phase (wstages new ! i) = PhaseFailed \<and> wphase new = PhaseFailed
        else ss_phase (wstages new ! i) \<noteq> PhaseSucceeded \<and> wphase new = PhaseRunning)"
proof -
  define p where "p = enterStage (ss_name (wstages q ! i)) q"
  have i: "i < length (wstages p)" "ss_phase (wstages p ! i) \<noteq> PhaseSucceeded" "wphase p = PhaseRunning"
    using assms(2) at_current by (auto simp: atStage_def p_def)
  have meta: "wr_meta q = wr_meta pb" using assms(2) by (auto simp: atStage_def)
  have c: "fst (Reconcile_wf W k) = [PatchWorkflowRunStatus pb (mirrorStage W p i child)]"
    using assms(3,4) meta by (simp add: reconcile_at_stage[OF assms(2)] watchStage_def Let_def p_def)
  note sc = reachable_contract[OF assms(1)]
  consider "run_phase child = PhaseSucceeded" | "run_phase child = PhaseFailed" | "\<not> isTerminalPhase (run_phase child)"
    by (auto simp: isTerminalPhase_def)
  then show ?thesis
  proof cases
    case 1
    then show ?thesis
      using c i stage_contract.mirror_succeeded[OF sc refl assms(5) 1 i(1)] by simp
  next
    case 2
    then show ?thesis
      using c i stage_contract.mirror_failed[OF sc refl assms(5) 2 i(1)] by simp
  next
    case 3
    then show ?thesis
      using c i stage_contract.mirror_live[OF sc refl assms(5) 3 i(1,2)] by (auto simp: isTerminalPhase_def)
  qed
qed

text \<open>A stage is passed on its AgentRun's phase alone. The recorded stage becomes Succeeded exactly
  when the phase of the AgentRun is Succeeded, whatever its Succeeded condition says, even when it
  has none.\<close>

theorem stage_passes_on_phase:
  assumes "i < length (wstages pb)" and "ss_phase (wstages pb ! i) \<noteq> PhaseSucceeded"
  shows "ss_phase (wstages (mirrorStage W pb i child) ! i) = PhaseSucceeded \<longleftrightarrow> run_phase child = PhaseSucceeded"
  using assms by (auto simp: mirrorStage_def Let_def split: option.split)

section \<open>Completion\<close>

fun applyPatch :: "AgentWorkflowRun \<Rightarrow> call \<Rightarrow> AgentWorkflowRun" where
  "applyPatch pb (PatchWorkflowRunStatus orig new) = pb\<lparr>wr_status := wr_status new\<rparr>"
| "applyPatch pb _ = pb"

text \<open>The run after one reconcile whose patches are all persisted.\<close>

definition afterReconcile :: "AgentWorkflowRunReconciler \<Rightarrow> AgentWorkflowRun \<Rightarrow> AgentWorkflowRun" where
  "afterReconcile W pb = foldl applyPatch pb (fst (reconcileWorkflowRun W pb))"

text \<open>
  A healthy environment for a run: its workflow exists and is Ready, Agents exist, writes are
  accepted, a new object can be given an owner, every stage's AgentRun ends up Succeeded, and the workflow's own parameters and guide
  resolve.
\<close>

definition healthy :: "AgentWorkflowRunReconciler \<Rightarrow> AgentWorkflow \<Rightarrow> AgentWorkflowRun \<Rightarrow> bool" where
  "healthy W flow pb \<longleftrightarrow>
     getWorkflow (wrr_client W) (m_namespace (wr_meta pb), wrs_workflowRef (wr_spec pb)) = Inr flow
     \<and> isReady (wrr_lib W) (wft_conditions (wf_status flow))
     \<and> (\<forall>k. \<exists>agent. getAgent (wrr_client W) k = Inr agent)
     \<and> (\<forall>c. answer (wrr_client W) c = None)
     \<and> (\<forall>m. m_owners m = [] \<longrightarrow> (\<exists>m'. setControllerReference (wrr_lib W) agentWorkflowRunKind (wr_meta pb) m = Inr m'))
     \<and> (\<forall>k. \<exists>r. getRun (wrr_client W) k = Inr r \<and> reachable (wrr_lib W) r \<and> run_phase r = PhaseSucceeded)
     \<and> (\<exists>x. workflowInputs (initRun W flow pb) = Inr x)"

text \<open>Reconciles still needed: two per stage that has not succeeded, one less when the current one
  has its AgentRun.\<close>

definition work :: "AgentWorkflowRunStageStatus list \<Rightarrow> nat" where
  "work ss = (let i = findCurrentStageIndex ss in
     2 * (length ss - i) - (if i < length ss \<and> ss_agentRunName (ss ! i) \<noteq> [] then 1 else 0))"

lemma work_le: "work ss \<le> 2 * length ss"
  by (simp add: work_def Let_def)

lemma findCurrent_update_same:
  "i = findCurrentStageIndex ss \<Longrightarrow> i < length ss \<Longrightarrow> ss_phase s' \<noteq> PhaseSucceeded \<Longrightarrow>
   findCurrentStageIndex (ss[i := s']) = i"
  by (induction ss arbitrary: i) (auto split: if_splits)

lemma findCurrent_update_passed:
  "i = findCurrentStageIndex ss \<Longrightarrow> i < length ss \<Longrightarrow> ss_phase s' = PhaseSucceeded \<Longrightarrow>
   i < findCurrentStageIndex (ss[i := s'])"
  by (induction ss arbitrary: i) (auto split: if_splits)

lemma work_begun:
  assumes "i = findCurrentStageIndex ss" "i < length ss" "ss_agentRunName (ss ! i) = []"
    "ss_agentRunName s' \<noteq> []" "ss_phase s' \<noteq> PhaseSucceeded"
  shows "work (ss[i := s']) < work ss"
  using assms findCurrent_update_same[OF assms(1,2,5)] by (simp add: work_def Let_def)

lemma work_passed:
  assumes "i = findCurrentStageIndex ss" "i < length ss" "ss_phase s' = PhaseSucceeded"
    "ss_agentRunName (ss ! i) \<noteq> []"
  shows "work (ss[i := s']) < work ss"
proof -
  have "work (ss[i := s']) \<le> 2 * (length ss - findCurrentStageIndex (ss[i := s']))"
    by (simp add: work_def Let_def)
  also have "\<dots> \<le> 2 * (length ss - Suc i)"
    using findCurrent_update_passed[OF assms(1-3)] by simp
  also have "\<dots> < work ss" using assms(1,2,4) by (simp add: work_def Let_def)
  finally show ?thesis .
qed

lemma foldl_applyPatch_other:
  "(\<And>orig new. PatchWorkflowRunStatus orig new \<notin> set cs) \<Longrightarrow> foldl applyPatch pb cs = pb"
proof (induction cs arbitrary: pb)
  case (Cons c cs)
  then have "applyPatch pb c = pb" by (cases c) auto
  with Cons show ?case by simp
qed simp

lemma workflowInputs_cong:
  assumes "wst_params (wr_status a) = wst_params (wr_status b)" "wst_guide (wr_status a) = wst_guide (wr_status b)"
    "wr_spec a = wr_spec b"
  shows "workflowInputs a = workflowInputs b"
  unfolding workflowInputs_def assms by (rule refl)

lemma stageAgentRunName_nonempty: "stageAgentRunName a b \<noteq> []"
  using sanitized_validName[of "a @ ''-'' @ b"] by (simp add: stageAgentRunName_def validVolumeName_def)

lemma createAgentRunForStage_ok:
  assumes "\<exists>agent. getAgent (wrr_client W) (m_namespace (wr_meta p), ws_agentRef stg) = Inr agent"
    "\<forall>c. answer (wrr_client W) c = None" "\<exists>x. workflowInputs p = Inr x"
    "\<forall>m. m_owners m = [] \<longrightarrow> (\<exists>m'. setControllerReference (wrr_lib W) agentWorkflowRunKind (wr_meta p) m = Inr m')"
  shows "snd (createAgentRunForStage W p stg i n) = Inr (stageAgentRunName (m_name (wr_meta p)) (ws_name stg))"
proof -
  obtain agent raw g where "getAgent (wrr_client W) (m_namespace (wr_meta p), ws_agentRef stg) = Inr agent"
    "workflowInputs p = Inr (raw, g)" using assms(1,3) by fastforce
  moreover have "m_owners (run_meta (stageRun p stg i n agent raw g)) = []" by (simp add: stageRun_def newMeta_def)
  then obtain m' where "setControllerReference (wrr_lib W) agentWorkflowRunKind (wr_meta p)
      (run_meta (stageRun p stg i n agent raw g)) = Inr m'" using assms(4) by blast
  ultimately show ?thesis
    using assms(2) unfolding createAgentRunForStage_def adoptOrFail_def
    by (simp add: snd_bindE_Inr Let_def)
qed

lemma initRun_inputs:
  "workflowInputs (enterStage n (initRun W flow (observed_wf pb))) = workflowInputs (initRun W flow pb)"
  by (rule workflowInputs_cong) (simp_all add: enterStage_def initRun_def observed_wf_def Let_def)

text \<open>A run that has its snapshot keeps the inputs it had.\<close>

lemma snapshot_inputs:
  assumes "wst_params (wr_status pb') = wst_params (wr_status (initRun W flow (observed_wf pb)))"
    "wst_guide (wr_status pb') = wst_guide (wr_status (initRun W flow (observed_wf pb)))"
    "wr_spec pb' = wr_spec pb" "wstages pb' \<noteq> []"
  shows "workflowInputs (initRun W flow pb') = workflowInputs (initRun W flow pb)"
proof -
  have "workflowInputs (initRun W flow pb') = workflowInputs (initRun W flow (observed_wf pb))"
    using assms by (intro workflowInputs_cong) (auto simp: initRun_def[of W flow pb'] Let_def)
  also have "\<dots> = workflowInputs (enterStage [] (initRun W flow (observed_wf pb)))"
    by (rule workflowInputs_cong) (simp_all add: enterStage_def)
  finally show ?thesis by (simp add: initRun_inputs)
qed

lemma inputs_frames [simp]:
  "wst_params (wr_status (setReady K pb s r m)) = wst_params (wr_status pb)"
  "wst_guide (wr_status (setReady K pb s r m)) = wst_guide (wr_status pb)"
  "wst_params (wr_status (withStage i f pb)) = wst_params (wr_status pb)"
  "wst_guide (wr_status (withStage i f pb)) = wst_guide (wr_status pb)"
  "wst_params (wr_status (enterStage n pb)) = wst_params (wr_status pb)"
  "wst_guide (wr_status (enterStage n pb)) = wst_guide (wr_status pb)"
  by (simp_all add: setReady_def withStage_def enterStage_def)

lemma healthy_reconcile:
  assumes "healthy W flow pb" "\<not> isTerminalPhase (wphase pb)"
  shows "reconcileWorkflowRun W pb = runStages W pb (initRun W flow (observed_wf pb))"
  using assms by (simp add: healthy_def reconcileWorkflowRun_def Let_def)

lemma healthy_kept:
  assumes "healthy W flow pb"
    and "wst_params (wr_status new) = wst_params (wr_status (initRun W flow (observed_wf pb)))"
    "wst_guide (wr_status new) = wst_guide (wr_status (initRun W flow (observed_wf pb)))" "wstages new \<noteq> []"
  shows "healthy W flow (pb\<lparr>wr_status := wr_status new\<rparr>)"
proof -
  have "workflowInputs (initRun W flow (pb\<lparr>wr_status := wr_status new\<rparr>)) = workflowInputs (initRun W flow pb)"
    using assms(2-4) by (intro snapshot_inputs) simp_all
  with assms(1) show ?thesis by (simp add: healthy_def)
qed

lemma reconcile_begins:
  assumes h: "healthy W flow pb" and live: "\<not> isTerminalPhase (wphase pb)"
    and q: "q = initRun W flow (observed_wf pb)" and i: "i = findCurrentStageIndex (wstages q)" "i < length (wstages q)"
    and n: "ss_agentRunName (wstages q ! i) = []"
  shows "\<exists>new s'. afterReconcile W pb = pb\<lparr>wr_status := wr_status new\<rparr> \<and> wstages new = (wstages q)[i := s']
     \<and> wphase new = PhaseRunning \<and> ss_agentRunName s' \<noteq> [] \<and> ss_phase s' \<noteq> PhaseSucceeded
     \<and> wst_params (wr_status new) = wst_params (wr_status q) \<and> wst_guide (wr_status new) = wst_guide (wr_status q)"
proof -
  define p where "p = enterStage (ss_name (wstages q ! i)) q"
  define stg where "stg = stageOf (wstages q ! i)"
  have meta: "wr_meta p = wr_meta pb" by (simp add: p_def q)
  have inputs: "workflowInputs p = workflowInputs (initRun W flow pb)" unfolding p_def q by (rule initRun_inputs)
  have ok: "snd (createAgentRunForStage W p stg i (length (wstages q))) = Inr (stageAgentRunName (m_name (wr_meta p)) (ws_name stg))"
    using h by (intro createAgentRunForStage_ok) (simp_all add: healthy_def meta inputs)
  define new where "new = setReady (wrr_lib W) (withStage i (\<lambda>s. s\<lparr>ss_agentRunName := stageAgentRunName (m_name (wr_meta p)) (ws_name stg),
      ss_phase := PhasePending\<rparr>) p) CFalse ''StageRunning''
      (Fmt ''Stage %q: AgentRun %q created'' [Lit (ws_name stg), Lit (stageAgentRunName (m_name (wr_meta p)) (ws_name stg))])"
  have "fst (reconcileWorkflowRun W pb) = fst (createAgentRunForStage W p stg i (length (wstages q))) @ [PatchWorkflowRunStatus pb new]"
    using i n ok unfolding healthy_reconcile[OF h live] runStages_def
    by (simp add: Let_def q[symmetric] beginStage_def new_def p_def stg_def)
  moreover have "foldl applyPatch pb (fst (createAgentRunForStage W p stg i (length (wstages q)))) = pb"
    by (rule foldl_applyPatch_other) (auto dest: createAgentRunForStage_calls)
  ultimately have "afterReconcile W pb = pb\<lparr>wr_status := wr_status new\<rparr>" by (simp add: afterReconcile_def)
  then show ?thesis
    by (intro exI[of _ new] exI[of _ "(wstages q ! i)\<lparr>ss_agentRunName := stageAgentRunName (m_name (wr_meta p)) (ws_name stg),
        ss_phase := PhasePending\<rparr>"])
      (simp add: new_def p_def stageAgentRunName_nonempty)
qed

lemma reconcile_passes:
  assumes cs: "condition_store (wrr_lib W)" and h: "healthy W flow pb" and live: "\<not> isTerminalPhase (wphase pb)"
    and q: "q = initRun W flow (observed_wf pb)" and i: "i = findCurrentStageIndex (wstages q)" "i < length (wstages q)"
    and n: "ss_agentRunName (wstages q ! i) \<noteq> []"
  shows "\<exists>new s'. afterReconcile W pb = pb\<lparr>wr_status := wr_status new\<rparr> \<and> wstages new = (wstages q)[i := s']
     \<and> wphase new = PhaseRunning \<and> ss_phase s' = PhaseSucceeded
     \<and> wst_params (wr_status new) = wst_params (wr_status q) \<and> wst_guide (wr_status new) = wst_guide (wr_status q)"
proof -
  define p where "p = enterStage (ss_name (wstages q ! i)) q"
  obtain r where r: "getRun (wrr_client W) (m_namespace (wr_meta pb), ss_agentRunName (wstages q ! i)) = Inr r"
    "reachable (wrr_lib W) r" "run_phase r = PhaseSucceeded"
    using h unfolding healthy_def by blast
  define new where "new = mirrorStage W p i r"
  have "fst (reconcileWorkflowRun W pb) = [PatchWorkflowRunStatus pb new]"
    using i n r(1) unfolding healthy_reconcile[OF h live] runStages_def
    by (simp add: Let_def q[symmetric] watchStage_def new_def p_def) (simp add: q)
  then have "afterReconcile W pb = pb\<lparr>wr_status := wr_status new\<rparr>" by (simp add: afterReconcile_def)
  moreover have "wphase new = PhaseRunning"
    using stage_contract.mirror_succeeded[OF reachable_contract[OF cs] refl r(2,3), of i p] i
    by (simp add: new_def p_def)
  moreover have "consistent (wrr_lib W) r" using reachable_OK[OF cs r(2)] by (simp add: runOK_def)
  then have "wstages new = (wstages q)[i := (wstages q ! i)\<lparr>ss_phase := PhaseSucceeded\<rparr>]
      \<and> wst_params (wr_status new) = wst_params (wr_status q) \<and> wst_guide (wr_status new) = wst_guide (wr_status q)"
    using r(3) by (auto simp: new_def p_def mirrorStage_def Let_def consistent_def condStatus_def split: option.split)
  ultimately show ?thesis
    by (intro exI[of _ new] exI[of _ "(wstages q ! i)\<lparr>ss_phase := PhaseSucceeded\<rparr>"]) simp
qed

lemma healthy_step:
  assumes cs: "condition_store (wrr_lib W)" and h: "healthy W flow pb" and live: "\<not> isTerminalPhase (wphase pb)"
    and q: "q = initRun W flow (observed_wf pb)" and i: "findCurrentStageIndex (wstages q) < length (wstages q)"
  shows "healthy W flow (afterReconcile W pb) \<and> wphase (afterReconcile W pb) = PhaseRunning
     \<and> work (wstages (initRun W flow (observed_wf (afterReconcile W pb)))) < work (wstages q)"
proof -
  define j where "j = findCurrentStageIndex (wstages q)"
  have "\<exists>new s'. afterReconcile W pb = pb\<lparr>wr_status := wr_status new\<rparr> \<and> wstages new = (wstages q)[j := s']
     \<and> wphase new = PhaseRunning \<and> work ((wstages q)[j := s']) < work (wstages q)
     \<and> wst_params (wr_status new) = wst_params (wr_status q) \<and> wst_guide (wr_status new) = wst_guide (wr_status q)"
  proof (cases "ss_agentRunName (wstages q ! j) = []")
    case True
    from reconcile_begins[OF h live q j_def i[folded j_def] True] show ?thesis
      using work_begun[OF j_def i[folded j_def] True] by blast
  next
    case False
    from reconcile_passes[OF cs h live q j_def i[folded j_def] False] show ?thesis
      using work_passed[OF j_def i[folded j_def] _ False] by blast
  qed
  then obtain new s' where new: "afterReconcile W pb = pb\<lparr>wr_status := wr_status new\<rparr>" "wstages new = (wstages q)[j := s']"
    "wphase new = PhaseRunning" "work ((wstages q)[j := s']) < work (wstages q)"
    "wst_params (wr_status new) = wst_params (wr_status q)" "wst_guide (wr_status new) = wst_guide (wr_status q)"
    by blast
  have ne: "wstages new \<noteq> []" using new(2) i by auto
  have "healthy W flow (afterReconcile W pb)"
    unfolding new(1) by (rule healthy_kept[OF h]) (simp_all add: new(5,6) q ne)
  then show ?thesis using new ne by (simp add: initRun_stages)
qed

lemma healthy_done:
  assumes "healthy W flow pb" "\<not> isTerminalPhase (wphase pb)" "q = initRun W flow (observed_wf pb)"
    "\<not> findCurrentStageIndex (wstages q) < length (wstages q)"
  shows "wphase (afterReconcile W pb) = PhaseSucceeded"
  using assms(4) unfolding afterReconcile_def healthy_reconcile[OF assms(1,2)] runStages_def assms(3)[symmetric]
  by (simp add: Let_def)

lemma healthy_completes:
  assumes "condition_store (wrr_lib W)" "healthy W flow pb" "\<not> isTerminalPhase (wphase pb)"
  shows "\<exists>n \<le> work (wstages (initRun W flow (observed_wf pb))) + 1. wphase ((afterReconcile W ^^ n) pb) = PhaseSucceeded"
  using assms(2,3)
proof (induction "work (wstages (initRun W flow (observed_wf pb)))" arbitrary: pb rule: less_induct)
  case less
  define q where "q = initRun W flow (observed_wf pb)"
  show ?case
  proof (cases "findCurrentStageIndex (wstages q) < length (wstages q)")
    case True
    note step = healthy_step[OF assms(1) less.prems q_def True]
    then obtain n where n: "n \<le> work (wstages (initRun W flow (observed_wf (afterReconcile W pb)))) + 1"
      "wphase ((afterReconcile W ^^ n) (afterReconcile W pb)) = PhaseSucceeded"
      using less.hyps[of "afterReconcile W pb"] by (auto simp: q_def isTerminalPhase_def)
    then have "Suc n \<le> work (wstages q) + 1" using step by simp
    moreover have "(afterReconcile W ^^ Suc n) pb = (afterReconcile W ^^ n) (afterReconcile W pb)"
      by (simp add: funpow_Suc_right del: funpow.simps)
    ultimately show ?thesis using n(2) unfolding q_def by (intro exI[of _ "Suc n"]) simp
  next
    case False
    then have "wphase ((afterReconcile W ^^ 1) pb) = PhaseSucceeded"
      using healthy_done[OF less.prems q_def] by simp
    then show ?thesis by (intro exI[of _ 1]) simp
  qed
qed

text \<open>C18: in a healthy environment a workflow run completes. From any live state, at most two
  reconciles per stage and one more bring it to Succeeded.\<close>

theorem workflow_completes:
  assumes "condition_store (wrr_lib W)" and "healthy W flow pb" and "\<not> isTerminalPhase (wphase pb)"
  shows "\<exists>n \<le> 2 * length (wstages (initRun W flow pb)) + 1. wphase ((afterReconcile W ^^ n) pb) = PhaseSucceeded"
proof -
  have same: "wstages (initRun W flow (observed_wf pb)) = wstages (initRun W flow pb)" by (simp add: initRun_stages)
  obtain n where n: "n \<le> work (wstages (initRun W flow (observed_wf pb))) + 1"
    "wphase ((afterReconcile W ^^ n) pb) = PhaseSucceeded"
    using healthy_completes[OF assms] by blast
  have "n \<le> 2 * length (wstages (initRun W flow pb)) + 1"
    using n(1) work_le[of "wstages (initRun W flow pb)"] unfolding same by linarith
  with n(2) show ?thesis by blast
qed

section \<open>Witnesses\<close>

text \<open>A run brought to Succeeded by the AgentRun controller: its Sandbox is created, then seen
  finished with exit code 0.\<close>

definition finishedReconciler :: AgentRunReconciler where
  "finishedReconciler = (validReconciler startedRun)\<lparr>rr_client := (rr_client (validReconciler startedRun))\<lparr>
     getSandbox := (\<lambda>_. Inr (sampleSandbox [mkCond ''Finished'' CTrue 0 ''PodSucceeded'' (Lit [])])),
     getPod := (\<lambda>_. Inr (samplePod 0 []))\<rparr>\<rparr>"

definition finishedRun :: AgentRun where
  "finishedRun = foldl applyRunPatch startedRun (fst (Reconcile finishedReconciler (''ns'', ''run'')))"

lemma finished_reachable: "reachable refK finishedRun"
proof -
  have "reachable refK startedRun"
    unfolding startedRun_def
    by (rule reachable_reconciled, rule reachable.created)
      (simp_all add: mountedRun_def sampleRun_def newMeta_def validReconciler_def sampleReconciler_def)
  then show ?thesis
    unfolding finishedRun_def
    by (rule reachable_reconciled) (simp_all add: finishedReconciler_def validReconciler_def sampleReconciler_def)
qed

lemma finished_succeeded: "run_phase finishedRun = PhaseSucceeded"
proof -
  define sb where "sb = sampleSandbox [mkCond ''Finished'' CTrue 0 ''PodSucceeded'' (Lit [])]"
  define b where "b = withoutReady refK (observed startedRun)"
  have R: "rr_lib finishedReconciler = refK" "getRun (rr_client finishedReconciler) k = Inr startedRun"
    "getAgent (rr_client finishedReconciler) k = Inr sampleAgent" "getSandbox (rr_client finishedReconciler) k = Inr sb"
    "getPod (rr_client finishedReconciler) k = Inr (samplePod 0 [])" "rr_apiReader finishedReconciler = None" for k
    by (simp_all add: finishedReconciler_def validReconciler_def sampleReconciler_def sb_def)
      (simp add: quietReconciler_def)
  have "isReady refK (ags_conditions (ag_status sampleAgent))"
    by (simp add: isReady_def ConditionTypeReady_def sampleAgent_def)
  moreover have "st_sandboxName (run_status b) \<noteq> []" using started_facts by (simp add: b_def core_spec)
  ultimately have "fst (Reconcile finishedReconciler (''ns'', ''run'')) = [PatchRunStatus startedRun
      (fst (updatePhaseFromSandbox finishedReconciler b sb (Some (samplePod 0 []))))]"
    using started_facts
    by (simp add: Reconcile_def R reconcileRun_def reconcileLive_def followRun_def Let_def isTerminalPhase_def
        b_def[symmetric] bindE_def split: prod.splits sum.splits)
  moreover have "run_phase (fst (updatePhaseFromSandbox finishedReconciler b sb (Some (samplePod 0 [])))) = PhaseSucceeded"
    by (simp add: updatePhaseFromSandbox_def finishedCondition_def sb_def sampleSandbox_def mkCond_def
        sandboxConditionFinished_def finishRun_phase terminalPod_def R agentExitCode_def agentContainerTermination_def
        agentContainerName_def samplePod_def)
  ultimately show ?thesis by (simp add: finishedRun_def)
qed

text \<open>A workflow of two stages, and a run of it.\<close>

definition sampleStage :: "string \<Rightarrow> AgentWorkflowStage" where
  "sampleStage n = \<lparr>ws_name = n, ws_agentRef = ''coder'', ws_instructions = ''do'', ws_execution = None\<rparr>"

definition sampleWorkflow :: AgentWorkflow where
  "sampleWorkflow = \<lparr>wf_meta = newMeta ''flow'' ''ns'' (\<lambda>_. None),
     wf_spec = \<lparr>wfs_guide = ''guide'', wfs_stages = [sampleStage ''plan'', sampleStage ''code''], wfs_params = []\<rparr>,
     wf_status = \<lparr>wft_observedGeneration = 0, wft_conditions = [mkCond ''Ready'' CTrue 0 ''Ready'' (Lit [])]\<rparr>\<rparr>"

definition sampleWorkflowRun :: AgentWorkflowRun where
  "sampleWorkflowRun = \<lparr>wr_meta = newMeta ''wr'' ''ns'' (\<lambda>_. None),
     wr_spec = \<lparr>wrs_workflowRef = ''flow'', wrs_gateway = ''gw'', wrs_params = [], wrs_env = [],
       wrs_envFrom = [], wrs_fileMounts = [], wrs_ttlSecondsAfterFinished = None\<rparr>,
     wr_status = \<lparr>wst_phase = PhaseUnset, wst_observedGeneration = 0, wst_currentStage = [], wst_stages = [],
       wst_guide = [], wst_params = [], wst_startTime = None, wst_completionTime = None, wst_conditions = []\<rparr>\<rparr>"

definition stageReconciler :: "AgentWorkflowRun \<Rightarrow> AgentRun \<Rightarrow> AgentWorkflowRunReconciler" where
  "stageReconciler pb child = quietWorkflowReconciler\<lparr>wrr_client := quietClient\<lparr>getWorkflowRun := (\<lambda>_. Inr pb),
     getWorkflow := (\<lambda>_. Inr sampleWorkflow), getAgent := (\<lambda>_. Inr sampleAgent), getRun := (\<lambda>_. Inr child)\<rparr>\<rparr>"

lemma stageReconciler_simps [simp]:
  "wrr_lib (stageReconciler pb child) = refK"
  "getWorkflowRun (wrr_client (stageReconciler pb child)) k = Inr pb"
  "getWorkflow (wrr_client (stageReconciler pb child)) k = Inr sampleWorkflow"
  "getAgent (wrr_client (stageReconciler pb child)) k = Inr sampleAgent"
  "getRun (wrr_client (stageReconciler pb child)) k = Inr child"
  "answer (wrr_client (stageReconciler pb child)) c = None"
  by (simp_all add: stageReconciler_def quietWorkflowReconciler_def quietClient_def)

lemma stage_patch:
  assumes "atStage W k pb q i" "ss_agentRunName (wstages q ! i) \<noteq> []"
    "getRun (wrr_client W) (m_namespace (wr_meta pb), ss_agentRunName (wstages q ! i)) = Inr child"
  shows "fst (Reconcile_wf W k) = [PatchWorkflowRunStatus pb (mirrorStage W (enterStage (ss_name (wstages q ! i)) q) i child)]"
proof -
  have "wr_meta q = wr_meta pb" using assms(1) by (auto simp: atStage_def)
  then show ?thesis using assms(2,3) by (simp add: reconcile_at_stage[OF assms(1)] watchStage_def Let_def)
qed

text \<open>The run after its first reconcile: the first stage has its AgentRun.\<close>

definition runningRun :: AgentWorkflowRun where
  "runningRun = afterReconcile (stageReconciler sampleWorkflowRun sampleRun) sampleWorkflowRun"

lemma reachable_afterReconcile:
  assumes "reachable_wf K pb" "wrr_lib W = K" "getWorkflowRun (wrr_client W) k = Inr pb"
  shows "reachable_wf K (afterReconcile W pb)"
proof -
  have "fst (Reconcile_wf W k) = fst (reconcileWorkflowRun W pb)" using assms(3) by (simp add: Reconcile_wf_def)
  moreover have "set cs \<subseteq> set (fst (Reconcile_wf W k)) \<Longrightarrow> reachable_wf K (foldl applyPatch pb cs)" for cs
  proof (induction cs rule: rev_induct)
    case Nil
    then show ?case using assms(1) by simp
  next
    case (snoc c cs)
    have frame: "(foldl applyPatch pb cs)\<lparr>wr_status := st\<rparr> = pb\<lparr>wr_status := st\<rparr>" for st
    proof (induction cs rule: rev_induct)
      case (snoc c cs)
      then show ?case by (cases c) simp_all
    qed simp
    from snoc show ?case
      using reachable_wf.patched[OF assms] by (cases c) (auto simp: frame)
  qed
  ultimately show ?thesis by (simp add: afterReconcile_def)
qed

lemma running_reachable: "reachable_wf refK runningRun"
  unfolding runningRun_def
  by (rule reachable_afterReconcile, rule reachable_wf.created) (simp_all add: sampleWorkflowRun_def)

lemma running_facts:
  "map ss_phase (wstages runningRun) = [PhasePending, PhasePending]
   \<and> map ss_agentRunName (wstages runningRun) = [''wr-plan'', []] \<and> wphase runningRun = PhaseRunning"
  by code_simp

lemma running_stages:
  obtains s t where "wstages runningRun = [s, t]" "ss_phase s = PhasePending" "ss_agentRunName s = ''wr-plan''"
    "ss_phase t = PhasePending" "ss_agentRunName t = []"
proof -
  have "length (map ss_phase (wstages runningRun)) = 2" using running_facts by simp
  then obtain s t where "wstages runningRun = [s, t]" by (auto simp: length_Suc_conv numeral_2_eq_2)
  with that running_facts show thesis by simp
qed

lemma running_current: "findCurrentStageIndex (wstages runningRun) = 0" "length (wstages runningRun) = 2"
  "ss_agentRunName (wstages runningRun ! 0) = ''wr-plan''" "ss_phase (wstages runningRun ! 0) = PhasePending"
  by (rule running_stages, simp)+

lemma ready_workflow: "isReady refK (wft_conditions (wf_status sampleWorkflow))"
  by (simp add: isReady_def ConditionTypeReady_def sampleWorkflow_def)

lemma running_at:
  defines "q pb child \<equiv> initRun (stageReconciler pb child) sampleWorkflow (observed_wf pb)"
  shows "atStage (stageReconciler runningRun child) k runningRun (q runningRun child) 0"
    and "wstages (q runningRun child) = wstages runningRun"
proof -
  have "wstages runningRun \<noteq> []" using running_current(2) by auto
  then show st: "wstages (q runningRun child) = wstages runningRun" by (simp add: q_def initRun_stages)
  have "\<not> isTerminalPhase (wphase runningRun)" using running_facts by (simp add: isTerminalPhase_def)
  then show "atStage (stageReconciler runningRun child) k runningRun (q runningRun child) 0"
    unfolding atStage_def using st running_current(1,2) ready_workflow by (simp add: q_def)
qed

theorem stages_sequential_witness:
  "reachable_wf refK runningRun \<and> ss_agentRunName (wstages runningRun ! 0) = ''wr-plan''
   \<and> ss_phase (wstages runningRun ! 1) = PhasePending \<and> ss_agentRunName (wstages runningRun ! 1) = []"
  using stages_sequential[OF refstore.condition_store_axioms running_reachable] running_reachable running_current
  by (auto dest!: spec[of _ "0::nat"])

theorem workflow_refines_pipeline_witness:
  "\<exists>new. PatchWorkflowRunStatus runningRun new \<in> set (fst (Reconcile_wf (stageReconciler runningRun lostRun) (''ns'', ''wr'')))
     \<and> pipeSteps idlePipeline (absRun runningRun) \<and> pl_started (absRun runningRun) \<and> pl_total (absRun runningRun) = 2
     \<and> pipeSteps (absRun runningRun) (absRun new) \<and> pipelineOK (absRun new)"
proof -
  define new where "new = mirrorStage (stageReconciler runningRun lostRun) (enterStage (ss_name (wstages runningRun ! 0))
     (initRun (stageReconciler runningRun lostRun) sampleWorkflow (observed_wf runningRun))) 0 lostRun"
  have p: "PatchWorkflowRunStatus runningRun new \<in> set (fst (Reconcile_wf (stageReconciler runningRun lostRun) (''ns'', ''wr'')))"
    using stage_patch[OF running_at(1), of lostRun] by (simp add: running_at(2) running_current new_def)
  have "wfMove refK runningRun (runningRun\<lparr>wr_status := wr_status new\<rparr>)" by (rule wfMove.patch[OF _ _ p]) simp_all
  then have m: "(wfMove refK)\<^sup>*\<^sup>* runningRun (runningRun\<lparr>wr_status := wr_status new\<rparr>)" by (rule r_into_rtranclp)
  have "startedAt (wstages runningRun)" "length (wstages runningRun) = 2" by code_simp+
  then show ?thesis
    using workflow_refines_pipeline[OF refstore.condition_store_axioms running_reachable m] p by auto
qed

theorem plan_is_frozen_witness:
  "\<exists>new. PatchWorkflowRunStatus runningRun new \<in> set (fst (Reconcile_wf (stageReconciler runningRun lostRun) (''ns'', ''wr'')))
     \<and> wphase runningRun \<le> wphase new \<and> planOf new = planOf runningRun"
proof -
  define new where "new = mirrorStage (stageReconciler runningRun lostRun) (enterStage (ss_name (wstages runningRun ! 0))
     (initRun (stageReconciler runningRun lostRun) sampleWorkflow (observed_wf runningRun))) 0 lostRun"
  have p: "PatchWorkflowRunStatus runningRun new \<in> set (fst (Reconcile_wf (stageReconciler runningRun lostRun) (''ns'', ''wr'')))"
    using stage_patch[OF running_at(1), of lostRun] by (simp add: running_at(2) running_current new_def)
  moreover have "wstages runningRun \<noteq> []" using running_current(2) by auto
  ultimately show ?thesis
    using plan_is_frozen[OF refstore.condition_store_axioms running_reachable _ _ p] by (intro exI[of _ new]) simp
qed

theorem stage_run_created_in_order_witness:
  "\<exists>child. CreateAgentRun child \<in> set (fst (Reconcile_wf (stageReconciler sampleWorkflowRun sampleRun) (''ns'', ''wr'')))
     \<and> m_name (run_meta child) = stageAgentRunName ''wr'' ''plan'' \<and> rs_agentRef (run_spec child) = ''coder''"
proof -
  define W where "W = stageReconciler sampleWorkflowRun sampleRun"
  have "length (filter isCreateRun (fst (Reconcile_wf W (''ns'', ''wr'')))) = 1"
    unfolding W_def by code_simp
  then obtain c where c: "c \<in> set (fst (Reconcile_wf W (''ns'', ''wr'')))" "isCreateRun c"
    by (metis One_nat_def filter_False length_greater_0_conv list.size(3) zero_less_one)
  from c(2) obtain child where child: "c = CreateAgentRun child" by (cases c) auto
  have "owner_references (wrr_lib W)" using refowners.owner_references_axioms by (simp add: W_def)
  then obtain pb q i where at: "atStage W (''ns'', ''wr'') pb q i"
    and n: "m_name (run_meta child) = stageAgentRunName (m_name (wr_meta pb)) (ss_name (wstages q ! i))"
      "rs_agentRef (run_spec child) = ss_agentRef (wstages q ! i)"
    using stage_run_created_in_order[OF _ c(1)[unfolded child]] by blast
  have pb: "pb = sampleWorkflowRun" and q: "q = initRun W sampleWorkflow (observed_wf pb)"
    and i: "i = findCurrentStageIndex (wstages q)" using at by (auto simp: atStage_def W_def)
  have st: "wstages q = [snapshotStage (sampleStage ''plan''), snapshotStage (sampleStage ''code'')]"
    unfolding q pb by (simp add: initRun_stages sampleWorkflow_def sampleWorkflowRun_def)
  then have "i = 0" by (simp add: i snapshotStage_def)
  then have "m_name (run_meta child) = stageAgentRunName ''wr'' ''plan'' \<and> rs_agentRef (run_spec child) = ''coder''"
    using n pb st by (simp add: snapshotStage_def sampleStage_def sampleWorkflowRun_def newMeta_def)
  with c(1) child show ?thesis unfolding W_def by blast
qed

theorem stage_outcome_decides_witness:
  "\<exists>new. fst (Reconcile_wf (stageReconciler runningRun lostRun) (''ns'', ''wr'')) = [PatchWorkflowRunStatus runningRun new]
     \<and> wphase new = PhaseFailed"
proof -
  have "run_phase lostRun = PhaseFailed" by (simp add: lostRun_def lostPatch_def)
  then show ?thesis
    using stage_outcome_decides[OF _ running_at(1)[of lostRun "(''ns'', ''wr'')"], of lostRun] lost_reachable
      refstore.condition_store_axioms
    by (auto simp: running_at(2) running_current)
qed

theorem stage_passes_on_phase_witness:
  "ss_phase (wstages (mirrorStage (stageReconciler runningRun doneRun) runningRun 0 doneRun) ! 0) = PhaseSucceeded
   \<and> st_conditions (run_status doneRun) = []"
  using stage_passes_on_phase[of 0 runningRun "stageReconciler runningRun doneRun" doneRun]
  by (simp add: running_current) (simp add: doneRun_def sampleRun_def)

theorem workflow_completes_witness:
  "\<exists>n \<le> 5. wphase ((afterReconcile (stageReconciler sampleWorkflowRun finishedRun) ^^ n) sampleWorkflowRun) = PhaseSucceeded"
proof -
  define W where "W = stageReconciler sampleWorkflowRun finishedRun"
  have W: "wrr_lib W = refK" by (simp add: W_def)
  have "workflowInputs (initRun W sampleWorkflow sampleWorkflowRun)
      = workflowInputs (initRun (stageReconciler sampleWorkflowRun sampleRun) sampleWorkflow sampleWorkflowRun)"
    by (rule workflowInputs_cong) (simp_all add: initRun_def Let_def)
  moreover have "\<not> isl (workflowInputs (initRun (stageReconciler sampleWorkflowRun sampleRun) sampleWorkflow sampleWorkflowRun))"
    by code_simp
  ultimately have inputs: "\<exists>x. workflowInputs (initRun W sampleWorkflow sampleWorkflowRun) = Inr x"
    by (metis sum.collapse(2))
  have "healthy W sampleWorkflow sampleWorkflowRun"
    unfolding healthy_def using inputs ready_workflow finished_reachable finished_succeeded by (simp add: W_def)
  moreover have "\<not> isTerminalPhase (wphase sampleWorkflowRun)" by (simp add: sampleWorkflowRun_def isTerminalPhase_def)
  ultimately obtain n where n: "n \<le> 2 * length (wstages (initRun W sampleWorkflow sampleWorkflowRun)) + 1"
    "wphase ((afterReconcile W ^^ n) sampleWorkflowRun) = PhaseSucceeded"
    using workflow_completes[of W sampleWorkflow sampleWorkflowRun] refstore.condition_store_axioms W by auto
  have "length (wstages (initRun W sampleWorkflow sampleWorkflowRun)) = 2"
    by (simp add: initRun_stages sampleWorkflow_def sampleWorkflowRun_def)
  with n show ?thesis unfolding W_def by (intro exI[of _ n]) simp
qed

end
