(* ===== verification/AgentController.thy ===== *)
theory AgentController
  imports SandboxBuild
begin

text \<open>
  The Agent and AgentWorkflow controllers (src/internal/controller/agent_controller.go and
  agentworkflow_controller.go): both report on a template whether everything it refers to exists
  and is Ready.
\<close>

section \<open>The Agent controller\<close>

record AgentReconciler =
  ar_client :: kclient
  ar_lib :: klib

text \<open>\<open>checkRef\<close>: what the lookup returned, as the conditions of the object; the reason it is not ready.\<close>

definition checkRef :: "klib \<Rightarrow> goerr + condition list \<Rightarrow> string \<Rightarrow> string \<Rightarrow> gofmt option" where
  "checkRef K got kind name = (case got of
      Inl e \<Rightarrow> if isNotFound e then Some (Fmt ''%s %q not found'' [Lit kind, Lit name])
               else Some (Fmt ''error fetching %s %q: %v'' [Lit kind, Lit name, emsg e])
    | Inr cs \<Rightarrow> if isReady K cs then None else Some (Fmt ''%s %q is not Ready'' [Lit kind, Lit name]))"

definition gatewayConds :: "kclient \<Rightarrow> key \<Rightarrow> goerr + condition list" where
  "gatewayConds C k = map_sum id (\<lambda>g. gws_conditions (gw_status g)) (getGateway C k)"

definition cardConds :: "kclient \<Rightarrow> key \<Rightarrow> goerr + condition list" where
  "cardConds C k = map_sum id (\<lambda>c. scs_conditions (card_status c)) (getSkillCard C k)"

definition collectionConds :: "kclient \<Rightarrow> key \<Rightarrow> goerr + condition list" where
  "collectionConds C k = map_sum id (\<lambda>c. sls_conditions (col_status c)) (getSkillCollection C k)"

definition gatewayReasons :: "AgentReconciler \<Rightarrow> Agent \<Rightarrow> gofmt list" where
  "gatewayReasons R agent = List.map_filter (\<lambda>n. checkRef (ar_lib R)
     (gatewayConds (ar_client R) (m_namespace (ag_meta agent), n)) ''Gateway'' n) (as_gateways (ag_spec agent))"

definition skillReasons :: "AgentReconciler \<Rightarrow> Agent \<Rightarrow> gofmt list" where
  "skillReasons R agent = List.map_filter (\<lambda>n. checkRef (ar_lib R)
       (cardConds (ar_client R) (m_namespace (ag_meta agent), n)) ''SkillCard'' n) (as_skillCards (ag_spec agent))
     @ List.map_filter (\<lambda>n. checkRef (ar_lib R)
       (collectionConds (ar_client R) (m_namespace (ag_meta agent), n)) ''SkillCollection'' n)
       (as_skillCollections (ag_spec agent))"

definition setAgentCond :: "klib \<Rightarrow> string \<Rightarrow> cstatus \<Rightarrow> string \<Rightarrow> gofmt \<Rightarrow> Agent \<Rightarrow> Agent" where
  "setAgentCond K t status reason message agent = agent\<lparr>ag_status := (ag_status agent)\<lparr>ags_conditions :=
     setCond K (ags_conditions (ag_status agent)) (mkCond t status (m_generation (ag_meta agent)) reason message)\<rparr>\<rparr>"

definition agentReady :: "klib \<Rightarrow> gofmt list \<Rightarrow> Agent \<Rightarrow> Agent" where
  "agentReady K reasons agent =
     (if reasons = []
      then setAgentCond K ConditionTypeReady CTrue ''AllDependenciesReady''
        (Lit ''All referenced gateways, skills, and collections are ready'') agent
      else setAgentCond K ConditionTypeReady CFalse ''DependenciesNotReady'' (Joined ''; '' reasons) agent)"

definition agentGateways :: "klib \<Rightarrow> gofmt list \<Rightarrow> Agent \<Rightarrow> Agent" where
  "agentGateways K reasons agent =
     (if as_gateways (ag_spec agent) = []
      then setAgentCond K ConditionTypeGatewayConfigured CFalse ''NoGatewaysDeclared''
        (Lit ''Agent declares no gateways; an AgentRun must name one to run'') agent
      else if reasons \<noteq> []
      then setAgentCond K ConditionTypeGatewayConfigured CFalse ''GatewaysNotReady'' (Joined ''; '' reasons) agent
      else setAgentCond K ConditionTypeGatewayConfigured CTrue ''GatewaysReady''
        (Lit ''All declared gateways are ready'') agent)"

definition agentStatusFor :: "AgentReconciler \<Rightarrow> Agent \<Rightarrow> Agent" where
  "agentStatusFor R original =
     (let agent = original\<lparr>ag_status := (ag_status original)\<lparr>ags_observedGeneration := m_generation (ag_meta original)\<rparr>\<rparr>;
          gw = gatewayReasons R agent in
      agentGateways (ar_lib R) gw (agentReady (ar_lib R) (gw @ skillReasons R agent) agent))"

definition Reconcile_agent :: "AgentReconciler \<Rightarrow> key \<Rightarrow> cresult act" where
  "Reconcile_agent R k = (case getAgent (ar_client R) k of
      Inl e \<Rightarrow> if isNotFound e then retE noRequeue else failE e
    | Inr agent \<Rightarrow> bindE (sendE (ar_client R) (PatchAgentStatus agent (agentStatusFor R agent))) (\<lambda>_. retE noRequeue))"

definition findAgentsForResource :: "AgentReconciler \<Rightarrow> string \<Rightarrow> objmeta \<Rightarrow> key list" where
  "findAgentsForResource R indexField m =
     (case listAgentsBy (ar_client R) indexField (m_namespace m) (m_name m) of
        Inl e \<Rightarrow> []
      | Inr agents \<Rightarrow> map (\<lambda>a. keyOf (ag_meta a)) agents)"

section \<open>The AgentWorkflow controller\<close>

record AgentWorkflowReconciler =
  awr_client :: kclient
  awr_lib :: klib

text \<open>The stage loop: a lookup that fails for another reason than absence ends the reconcile.\<close>

fun stageReasons :: "AgentWorkflowReconciler \<Rightarrow> string \<Rightarrow> AgentWorkflowStage list \<Rightarrow> goerr + gofmt list" where
  "stageReasons R ns [] = Inr []"
| "stageReasons R ns (s # ss) = (case getAgent (awr_client R) (ns, ws_agentRef s) of
      Inl e \<Rightarrow> if isNotFound e then map_sum id (\<lambda>rs. Fmt ''stage %q: Agent %q not found'' [Lit (ws_name s), Lit (ws_agentRef s)] # rs)
                 (stageReasons R ns ss)
               else Inl e
    | Inr agent \<Rightarrow>
        if isReady (awr_lib R) (ags_conditions (ag_status agent)) then stageReasons R ns ss
        else map_sum id (\<lambda>rs. Fmt ''stage %q: Agent %q is not Ready'' [Lit (ws_name s), Lit (ws_agentRef s)] # rs)
               (stageReasons R ns ss))"

definition setWorkflowReady :: "klib \<Rightarrow> cstatus \<Rightarrow> string \<Rightarrow> gofmt \<Rightarrow> AgentWorkflow \<Rightarrow> AgentWorkflow" where
  "setWorkflowReady K status reason message flow = flow\<lparr>wf_status := (wf_status flow)\<lparr>
     wft_observedGeneration := m_generation (wf_meta flow),
     wft_conditions := setCond K (wft_conditions (wf_status flow))
       (mkCond ConditionTypeReady status (m_generation (wf_meta flow)) reason message)\<rparr>\<rparr>"

definition Reconcile_workflow :: "AgentWorkflowReconciler \<Rightarrow> key \<Rightarrow> cresult act" where
  "Reconcile_workflow R k = (case getWorkflow (awr_client R) k of
      Inl e \<Rightarrow> if isNotFound e then retE noRequeue else failE e
    | Inr flow \<Rightarrow> (case stageReasons R (m_namespace (wf_meta flow)) (wfs_stages (wf_spec flow)) of
        Inl e \<Rightarrow> failE e
      | Inr reasons \<Rightarrow>
          bindE (sendE (awr_client R) (PatchWorkflowStatus flow
            (if reasons = [] then setWorkflowReady (awr_lib R) CTrue ''AllAgentsReady'' (Lit ''All stage Agents are ready'') flow
             else setWorkflowReady (awr_lib R) CFalse ''AgentsNotReady'' (Joined ''; '' reasons) flow)))
            (\<lambda>_. retE noRequeue)))"

definition findWorkflowsForAgent :: "AgentWorkflowReconciler \<Rightarrow> Agent \<Rightarrow> key list" where
  "findWorkflowsForAgent R agent =
     (case listWorkflowsForAgent (awr_client R) (m_namespace (ag_meta agent)) (m_name (ag_meta agent)) of
        Inl e \<Rightarrow> []
      | Inr flows \<Rightarrow> map (\<lambda>f. keyOf (wf_meta f)) flows)"

section \<open>What readiness means\<close>

text \<open>An object that exists and is Ready, read through the client.\<close>

definition readyIn :: "klib \<Rightarrow> goerr + condition list \<Rightarrow> bool" where
  "readyIn K got = (case got of Inl e \<Rightarrow> False | Inr cs \<Rightarrow> isReady K cs)"

definition agentCondStatus :: "klib \<Rightarrow> string \<Rightarrow> Agent \<Rightarrow> cstatus option" where
  "agentCondStatus K t agent = map_option c_status (findCond K (ags_conditions (ag_status agent)) t)"

text \<open>Everything an Agent refers to exists and is Ready.\<close>

definition gatewaysReady :: "AgentReconciler \<Rightarrow> Agent \<Rightarrow> bool" where
  "gatewaysReady R agent = list_all (\<lambda>n. readyIn (ar_lib R) (gatewayConds (ar_client R) (m_namespace (ag_meta agent), n)))
     (as_gateways (ag_spec agent))"

definition skillsReadyFor :: "AgentReconciler \<Rightarrow> Agent \<Rightarrow> bool" where
  "skillsReadyFor R agent \<longleftrightarrow>
     list_all (\<lambda>n. readyIn (ar_lib R) (cardConds (ar_client R) (m_namespace (ag_meta agent), n))) (as_skillCards (ag_spec agent))
     \<and> list_all (\<lambda>n. readyIn (ar_lib R) (collectionConds (ar_client R) (m_namespace (ag_meta agent), n)))
         (as_skillCollections (ag_spec agent))"

lemma checkRef_None: "checkRef K got kind name = None \<longleftrightarrow> readyIn K got"
  by (auto simp: checkRef_def readyIn_def split: sum.split)

lemma map_filter_Nil: "List.map_filter f xs = [] \<longleftrightarrow> list_all (\<lambda>x. f x = None) xs"
  by (induction xs) (auto split: option.split)

lemma gatewayReasons_Nil: "gatewayReasons R agent = [] \<longleftrightarrow> gatewaysReady R agent"
  by (simp add: gatewayReasons_def gatewaysReady_def map_filter_Nil checkRef_None)

lemma skillReasons_Nil: "skillReasons R agent = [] \<longleftrightarrow> skillsReadyFor R agent"
  by (simp add: skillReasons_def skillsReadyFor_def map_filter_Nil checkRef_None)

lemma reasons_status:
  "gatewayReasons R (agent\<lparr>ag_status := s\<rparr>) = gatewayReasons R agent"
  "skillReasons R (agent\<lparr>ag_status := s\<rparr>) = skillReasons R agent"
  by (simp_all add: gatewayReasons_def skillReasons_def)

lemma agent_frames [simp]:
  "ag_spec (setAgentCond K t s r m agent) = ag_spec agent" "ag_meta (setAgentCond K t s r m agent) = ag_meta agent"
  by (simp_all add: setAgentCond_def)

lemma isReady_status: "isReady K cs \<longleftrightarrow> map_option c_status (findCond K cs ConditionTypeReady) = Some CTrue"
  by (auto simp: isReady_def split: option.split)

context condition_store
begin

lemma agentCond_set:
  "agentCondStatus K t (setAgentCond K u s r m agent) = (if t = u then Some s else agentCondStatus K t agent)"
  by (simp add: agentCondStatus_def setAgentCond_def find_mkCond)

lemma agentReady_status:
  "agentCondStatus K ConditionTypeReady (agentReady K rs agent) = Some (if rs = [] then CTrue else CFalse)"
  by (simp add: agentReady_def agentCond_set)

lemma agentGateways_status:
  "agentCondStatus K ConditionTypeGatewayConfigured (agentGateways K rs agent)
     = Some (if as_gateways (ag_spec agent) \<noteq> [] \<and> rs = [] then CTrue else CFalse)"
  "agentCondStatus K ConditionTypeReady (agentGateways K rs agent) = agentCondStatus K ConditionTypeReady agent"
  by (simp_all add: agentGateways_def agentCond_set ConditionTypeReady_def ConditionTypeGatewayConfigured_def)

end

lemma agentReady_spec [simp]: "ag_spec (agentReady K rs agent) = ag_spec agent"
  by (simp add: agentReady_def)

lemma agentStatusFor_ready:
  assumes "condition_store (ar_lib R)"
  shows "agentCondStatus (ar_lib R) ConditionTypeReady (agentStatusFor R agent)
      = Some (if gatewaysReady R agent \<and> skillsReadyFor R agent then CTrue else CFalse)"
    and "agentCondStatus (ar_lib R) ConditionTypeGatewayConfigured (agentStatusFor R agent)
      = Some (if as_gateways (ag_spec agent) \<noteq> [] \<and> gatewaysReady R agent then CTrue else CFalse)"
  by (simp_all add: agentStatusFor_def Let_def reasons_status condition_store.agentGateways_status[OF assms]
      condition_store.agentReady_status[OF assms] gatewayReasons_Nil skillReasons_Nil)

text \<open>What an Agent's status says. A reconcile of an existing Agent writes exactly one status patch;
  in it Ready is True exactly when every gateway, skill card and collection the Agent names exists and
  is Ready, and False otherwise, and GatewayConfigured is True exactly when the Agent names gateways and
  all of them exist and are Ready.\<close>

theorem agent_readiness:
  assumes "condition_store (ar_lib R)" and "getAgent (ar_client R) k = Inr agent"
  shows "\<exists>new. fst (Reconcile_agent R k) = [PatchAgentStatus agent new] \<and> ag_spec new = ag_spec agent
     \<and> agentCondStatus (ar_lib R) ''Ready'' new = Some (if gatewaysReady R agent \<and> skillsReadyFor R agent then CTrue else CFalse)
     \<and> agentCondStatus (ar_lib R) ''GatewayConfigured'' new
         = Some (if as_gateways (ag_spec agent) \<noteq> [] \<and> gatewaysReady R agent then CTrue else CFalse)"
proof -
  have "ag_spec (agentStatusFor R agent) = ag_spec agent"
    by (simp add: agentStatusFor_def Let_def agentGateways_def)
  moreover have "fst (Reconcile_agent R k) = [PatchAgentStatus agent (agentStatusFor R agent)]"
    using assms(2) by (simp add: Reconcile_agent_def bindE_def split: sum.split)
  ultimately show ?thesis
    using agentStatusFor_ready[OF assms(1), of agent]
    by (simp add: ConditionTypeReady_def ConditionTypeGatewayConfigured_def)
qed

section \<open>A Ready Agent can run\<close>

lemma readyIn_Inr: "readyIn K got \<longleftrightarrow> (\<exists>cs. got = Inr cs \<and> isReady K cs)"
  by (auto simp: readyIn_def split: sum.split)

lemma gatewayConds_ready:
  "readyIn K (gatewayConds C k) \<longleftrightarrow> (\<exists>g. getGateway C k = Inr g \<and> isReady K (gws_conditions (gw_status g)))"
  by (cases "getGateway C k") (auto simp: gatewayConds_def readyIn_def)

lemma admitted_declared:
  "validateGateway run agent = Inr run' \<Longrightarrow> as_gateways (ag_spec agent) \<noteq> [] \<Longrightarrow>
   rs_gateway (run_spec run') \<in> set (as_gateways (ag_spec agent)) \<and> run_meta run' = run_meta run"
  by (auto simp: validateGateway_def withGateway_def Let_def split: if_splits list.splits)

text \<open>A Ready Agent can run. When the Agent controller finds an Agent Ready, then in the same state of
  the cluster a run of it, in its namespace, that passes gateway validation against a declared list of
  gateways gets its gateway's variables without error, and every skill card and collection the run will
  look up exists and is Ready.\<close>

theorem ready_agent_runnable:
  assumes "condition_store (ar_lib R)" and "rr_client S = ar_client R" and "rr_lib S = ar_lib R"
    and "getAgent (ar_client R) k = Inr agent" and "fst (Reconcile_agent R k) = [PatchAgentStatus agent new]"
    and "isReady (ar_lib R) (ags_conditions (ag_status new))"
    and "m_namespace (run_meta run) = m_namespace (ag_meta agent)"
    and "as_gateways (ag_spec agent) \<noteq> []" and "validateGateway run agent = Inr run'"
  shows "(\<exists>env. gatewayEnv S run' = Inr env)
     \<and> (\<forall>n \<in> set (as_skillCards (ag_spec agent)).
          \<exists>c. getSkillCard (rr_client S) (m_namespace (run_meta run), n) = Inr c \<and> isReady (rr_lib S) (scs_conditions (card_status c)))
     \<and> (\<forall>n \<in> set (as_skillCollections (ag_spec agent)).
          \<exists>c. getSkillCollection (rr_client S) (m_namespace (run_meta run), n) = Inr c \<and> isReady (rr_lib S) (sls_conditions (col_status c)))"
proof -
  have "new = agentStatusFor R agent"
    using assms(4,5) by (simp add: Reconcile_agent_def bindE_def split: sum.splits)
  then have "agentCondStatus (ar_lib R) ConditionTypeReady (agentStatusFor R agent) = Some CTrue"
    using assms(6) by (simp add: isReady_status agentCondStatus_def)
  then have r: "gatewaysReady R agent" "skillsReadyFor R agent"
    using agentStatusFor_ready(1)[OF assms(1), of agent] by (simp_all split: if_splits)
  have g: "rs_gateway (run_spec run') \<in> set (as_gateways (ag_spec agent))" "run_meta run' = run_meta run"
    using admitted_declared[OF assms(9,8)] by auto
  then have "\<exists>gw. getGateway (rr_client S) (m_namespace (run_meta run'), rs_gateway (run_spec run')) = Inr gw
      \<and> isReady (rr_lib S) (gws_conditions (gw_status gw))"
    using r(1) assms(2,3,7) by (auto simp: gatewaysReady_def list_all_iff gatewayConds_ready)
  then have "\<exists>env. gatewayEnv S run' = Inr env" by (auto simp: gatewayEnv_def Let_def)
  moreover have "\<exists>c. getSkillCard (rr_client S) (m_namespace (run_meta run), n) = Inr c \<and> isReady (rr_lib S) (scs_conditions (card_status c))"
    if "n \<in> set (as_skillCards (ag_spec agent))" for n
  proof -
    have "readyIn (ar_lib R) (cardConds (ar_client R) (m_namespace (ag_meta agent), n))"
      using r(2) that by (simp add: skillsReadyFor_def list_all_iff)
    then show ?thesis unfolding assms(2,3,7)
      by (cases "getSkillCard (ar_client R) (m_namespace (ag_meta agent), n)") (simp_all add: cardConds_def readyIn_def)
  qed
  moreover have "\<exists>c. getSkillCollection (rr_client S) (m_namespace (run_meta run), n) = Inr c \<and> isReady (rr_lib S) (sls_conditions (col_status c))"
    if "n \<in> set (as_skillCollections (ag_spec agent))" for n
  proof -
    have "readyIn (ar_lib R) (collectionConds (ar_client R) (m_namespace (ag_meta agent), n))"
      using r(2) that by (simp add: skillsReadyFor_def list_all_iff)
    then show ?thesis unfolding assms(2,3,7)
      by (cases "getSkillCollection (ar_client R) (m_namespace (ag_meta agent), n)") (simp_all add: collectionConds_def readyIn_def)
  qed
  ultimately show ?thesis by blast
qed

section \<open>Workflow readiness\<close>

lemma stageReasons_Nil:
  "stageReasons R ns ss = Inr [] \<longleftrightarrow>
     list_all (\<lambda>s. \<exists>a. getAgent (awr_client R) (ns, ws_agentRef s) = Inr a \<and> isReady (awr_lib R) (ags_conditions (ag_status a))) ss"
proof (induction ss)
  case (Cons s ss)
  have "map_sum id (\<lambda>rs. x # rs) r \<noteq> Inr []" for x :: gofmt and r :: "goerr + gofmt list" by (cases r) auto
  with Cons show ?case by (cases "getAgent (awr_client R) (ns, ws_agentRef s)") auto
qed simp

lemma stageReasons_error:
  "stageReasons R ns ss = Inl e \<Longrightarrow> \<exists>s \<in> set ss. getAgent (awr_client R) (ns, ws_agentRef s) = Inl e \<and> \<not> isNotFound e"
proof (induction ss)
  case (Cons s ss)
  have rec: "map_sum id f r = Inl e \<Longrightarrow> r = Inl e" for f :: "gofmt list \<Rightarrow> gofmt list" and r :: "goerr + gofmt list"
    by (cases r) simp_all
  show ?case
  proof (cases "getAgent (awr_client R) (ns, ws_agentRef s)")
    case (Inl x)
    then show ?thesis using Cons rec by (cases "isNotFound x") auto
  next
    case (Inr a)
    then have "stageReasons R ns ss = Inl e"
      using Cons(2) rec by (cases "isReady (awr_lib R) (ags_conditions (ag_status a))") auto
    then show ?thesis using Cons(1) by auto
  qed
qed simp

text \<open>What a workflow's status says. A reconcile of an existing workflow either returns the error of
  an Agent lookup that failed for another reason than absence, writing nothing, or writes one patch in
  which Ready is True exactly when the Agent of every stage exists and is Ready.\<close>

theorem workflow_readiness:
  assumes "condition_store (awr_lib R)" and "getWorkflow (awr_client R) k = Inr flow"
  shows "(\<exists>e s. s \<in> set (wfs_stages (wf_spec flow))
        \<and> getAgent (awr_client R) (m_namespace (wf_meta flow), ws_agentRef s) = Inl e \<and> \<not> isNotFound e
        \<and> Reconcile_workflow R k = ([], Inl e))
     \<or> (\<exists>new. fst (Reconcile_workflow R k) = [PatchWorkflowStatus flow new]
        \<and> (isReady (awr_lib R) (wft_conditions (wf_status new)) \<longleftrightarrow>
           list_all (\<lambda>s. \<exists>a. getAgent (awr_client R) (m_namespace (wf_meta flow), ws_agentRef s) = Inr a
             \<and> isReady (awr_lib R) (ags_conditions (ag_status a))) (wfs_stages (wf_spec flow))))"
proof (cases "stageReasons R (m_namespace (wf_meta flow)) (wfs_stages (wf_spec flow))")
  case (Inl e)
  then show ?thesis
    using stageReasons_error[OF Inl] assms(2) by (auto simp: Reconcile_workflow_def failE_def)
next
  case (Inr rs)
  define new where "new = (if rs = [] then setWorkflowReady (awr_lib R) CTrue ''AllAgentsReady'' (Lit ''All stage Agents are ready'') flow
     else setWorkflowReady (awr_lib R) CFalse ''AgentsNotReady'' (Joined ''; '' rs) flow)"
  have p: "fst (Reconcile_workflow R k) = [PatchWorkflowStatus flow new]"
    using Inr assms(2) by (simp add: Reconcile_workflow_def new_def bindE_def split: sum.split)
  have "isReady (awr_lib R) (wft_conditions (wf_status (setWorkflowReady (awr_lib R) s r m flow))) \<longleftrightarrow> s = CTrue" for s r m
    by (simp add: isReady_status setWorkflowReady_def condition_store.find_mkCond[OF assms(1)])
  then have "isReady (awr_lib R) (wft_conditions (wf_status new)) \<longleftrightarrow> rs = []" by (simp add: new_def)
  also have "\<dots> \<longleftrightarrow> stageReasons R (m_namespace (wf_meta flow)) (wfs_stages (wf_spec flow)) = Inr []" using Inr by simp
  finally show ?thesis using p unfolding stageReasons_Nil by blast
qed

section \<open>Witnesses\<close>

definition sampleAgentReconciler :: AgentReconciler where
  "sampleAgentReconciler = \<lparr>ar_client = quietClient\<lparr>getAgent := (\<lambda>_. Inr sampleAgent), getGateway := (\<lambda>_. Inr sampleGateway)\<rparr>,
     ar_lib = refK\<rparr>"

lemma sampleAgentReconciler_sel:
  "ar_lib sampleAgentReconciler = refK" "getAgent (ar_client sampleAgentReconciler) k = Inr sampleAgent"
  "getGateway (ar_client sampleAgentReconciler) k = Inr sampleGateway"
  by (simp_all add: sampleAgentReconciler_def)

lemma sampleAgent_ready: "gatewaysReady sampleAgentReconciler sampleAgent" "skillsReadyFor sampleAgentReconciler sampleAgent"
  by (simp_all add: gatewaysReady_def skillsReadyFor_def gatewayConds_ready sampleAgentReconciler_sel)
    (simp_all add: sampleAgent_def sampleGateway_def isReady_def ConditionTypeReady_def)

theorem agent_readiness_witness:
  "\<exists>new. fst (Reconcile_agent sampleAgentReconciler (''ns'', ''coder'')) = [PatchAgentStatus sampleAgent new]
     \<and> agentCondStatus refK ''Ready'' new = Some CTrue"
proof -
  have "condition_store (ar_lib sampleAgentReconciler)"
    using refstore.condition_store_axioms by (simp add: sampleAgentReconciler_sel)
  from agent_readiness[OF this sampleAgentReconciler_sel(2)] show ?thesis
    using sampleAgent_ready by (auto simp: sampleAgentReconciler_sel)
qed

theorem ready_agent_runnable_witness:
  "\<exists>env. gatewayEnv (quietReconciler\<lparr>rr_client := ar_client sampleAgentReconciler\<rparr>) (withGateway ''gw'' sampleRun) = Inr env"
proof -
  define S where "S = quietReconciler\<lparr>rr_client := ar_client sampleAgentReconciler\<rparr>"
  define new where "new = agentStatusFor sampleAgentReconciler sampleAgent"
  have cs: "condition_store (ar_lib sampleAgentReconciler)"
    using refstore.condition_store_axioms by (simp add: sampleAgentReconciler_sel)
  have S: "rr_client S = ar_client sampleAgentReconciler" "rr_lib S = ar_lib sampleAgentReconciler"
    by (simp_all add: S_def sampleAgentReconciler_sel)
  have p: "fst (Reconcile_agent sampleAgentReconciler (''ns'', ''coder'')) = [PatchAgentStatus sampleAgent new]"
    by (simp add: Reconcile_agent_def sampleAgentReconciler_sel new_def bindE_def split: sum.split)
  have "isReady (ar_lib sampleAgentReconciler) (ags_conditions (ag_status new))"
    using agentStatusFor_ready(1)[OF cs, of sampleAgent] sampleAgent_ready
    by (simp add: isReady_status new_def agentCondStatus_def)
  moreover have "validateGateway sampleRun sampleAgent = Inr (withGateway ''gw'' sampleRun)"
    by (simp add: validateGateway_def sampleRun_def sampleAgent_def withGateway_def Let_def)
  moreover have "m_namespace (run_meta sampleRun) = m_namespace (ag_meta sampleAgent)" "as_gateways (ag_spec sampleAgent) \<noteq> []"
    by (simp_all add: sampleRun_def sampleAgent_def newMeta_def)
  ultimately show ?thesis
    using ready_agent_runnable[OF cs S sampleAgentReconciler_sel(2) p] unfolding S_def by blast
qed

definition sampleFlow :: AgentWorkflow where
  "sampleFlow = \<lparr>wf_meta = newMeta ''flow'' ''ns'' (\<lambda>_. None),
     wf_spec = \<lparr>wfs_guide = [], wfs_stages = [\<lparr>ws_name = ''plan'', ws_agentRef = ''coder'', ws_instructions = [], ws_execution = None\<rparr>],
       wfs_params = []\<rparr>,
     wf_status = \<lparr>wft_observedGeneration = 0, wft_conditions = []\<rparr>\<rparr>"

definition sampleFlowReconciler :: AgentWorkflowReconciler where
  "sampleFlowReconciler = \<lparr>awr_client = quietClient\<lparr>getAgent := (\<lambda>_. Inr sampleAgent), getWorkflow := (\<lambda>_. Inr sampleFlow)\<rparr>,
     awr_lib = refK\<rparr>"

theorem workflow_readiness_witness:
  "\<exists>new. fst (Reconcile_workflow sampleFlowReconciler (''ns'', ''flow'')) = [PatchWorkflowStatus sampleFlow new]
     \<and> isReady refK (wft_conditions (wf_status new))"
proof -
  have sel: "awr_lib sampleFlowReconciler = refK" "getWorkflow (awr_client sampleFlowReconciler) k = Inr sampleFlow"
    "getAgent (awr_client sampleFlowReconciler) k = Inr sampleAgent" for k
    by (simp_all add: sampleFlowReconciler_def)
  have "isReady refK (ags_conditions (ag_status sampleAgent))"
    by (simp add: sampleAgent_def isReady_def ConditionTypeReady_def)
  then have "list_all (\<lambda>s. \<exists>a. getAgent (awr_client sampleFlowReconciler) (m_namespace (wf_meta sampleFlow), ws_agentRef s) = Inr a
      \<and> isReady (awr_lib sampleFlowReconciler) (ags_conditions (ag_status a))) (wfs_stages (wf_spec sampleFlow))"
    by (simp add: sel list_all_iff)
  moreover have "condition_store (awr_lib sampleFlowReconciler)" using refstore.condition_store_axioms by (simp add: sel)
  ultimately show ?thesis
    using workflow_readiness[OF _ sel(2), of "(''ns'', ''flow'')"] by (auto simp: sel)
qed

end
