(* ===== verification/GatewayController.thy ===== *)
theory GatewayController
  imports SandboxBuild
begin

text \<open>
  The Gateway controller (src/internal/controller/gateway_controller.go): the credential digest, the
  connectivity probe it runs as a Job, and the verdict it records. The uncached reader is a second
  argument of the reconciler, as for runs.
\<close>

section \<open>Names and reasons\<close>

definition verificationJobPrefix :: string where "verificationJobPrefix = ''gw-verify-''"
definition DefaultVerificationImage :: string where "DefaultVerificationImage = ''quay.io/konveyor/agentic-controller-agent:latest''"
definition verificationHTTPCodePattern :: string where "verificationHTTPCodePattern = ''^2''"
definition anthropicAPIVersion :: string where "anthropicAPIVersion = ''2023-06-01''"
definition endpointModelsProbe :: string where "endpointModelsProbe = ''$LLM_ENDPOINT/v1/models''"
definition providerAnthropic :: string where "providerAnthropic = ''anthropic''"
definition providerGCPVertex :: string where "providerGCPVertex = ''gcp_vertex_ai''"
definition providerAWSBedrock :: string where "providerAWSBedrock = ''aws_bedrock''"
definition verificationDeadline :: int where "verificationDeadline = 120"
definition verifyContainerName :: string where "verifyContainerName = ''verify''"
definition componentGatewayVerification :: string where "componentGatewayVerification = ''gateway-verification''"
definition reasonConnectionVerified :: string where "reasonConnectionVerified = ''ConnectionVerified''"
definition reasonConnectionFailed :: string where "reasonConnectionFailed = ''ConnectionFailed''"
definition reasonAuthenticationFailed :: string where "reasonAuthenticationFailed = ''AuthenticationFailed''"
definition reasonEndpointUnreachable :: string where "reasonEndpointUnreachable = ''EndpointUnreachable''"
definition reasonVerificationSkipped :: string where "reasonVerificationSkipped = ''VerificationSkipped''"

lemmas gw_names = verificationJobPrefix_def verificationHTTPCodePattern_def anthropicAPIVersion_def
  endpointModelsProbe_def providerAnthropic_def providerGCPVertex_def providerAWSBedrock_def verifyContainerName_def
  componentGatewayVerification_def

lemmas gw_reasons = reasonConnectionVerified_def reasonConnectionFailed_def reasonAuthenticationFailed_def
  reasonEndpointUnreachable_def reasonVerificationSkipped_def

definition isTerminalReadyReason :: "string \<Rightarrow> bool" where
  "isTerminalReadyReason reason = (reason \<in> {reasonConnectionVerified, reasonConnectionFailed,
     reasonAuthenticationFailed, reasonEndpointUnreachable, reasonVerificationSkipped})"

text \<open>\<open>normalizeProvider\<close>: \<open>strings.ToLower\<close>, then hyphens to underscores. The result is only compared
  with ASCII names.\<close>

definition normalizeProvider :: "string \<Rightarrow> string" where
  "normalizeProvider provider = map (\<lambda>c. if c = CHR ''-'' then CHR ''_'' else c) (toLower provider)"

definition providersWithoutModelsProbe :: "string list" where
  "providersWithoutModelsProbe = [providerAWSBedrock, providerGCPVertex]"

definition hasModelsProbe :: "string \<Rightarrow> bool" where
  "hasModelsProbe provider = (normalizeProvider provider \<notin> set providersWithoutModelsProbe)"

section \<open>The credential digest\<close>

text \<open>\<open>hashCredentialField\<close>: what it feeds the hash, the length as eight bytes and the field itself.\<close>

definition hashCredentialField :: "string \<Rightarrow> string" where
  "hashCredentialField b = map (\<lambda>k. char_of (length b div 256 ^ k mod 256)) [7, 6, 5, 4, 3, 2, 1, 0] @ b"

definition dataValue :: "secret \<Rightarrow> string \<Rightarrow> string" where
  "dataValue s k = (case map_of (sec_data s) k of None \<Rightarrow> [] | Some v \<Rightarrow> v)"

text \<open>The fields it hashes: the selected key and its value, or every key with its value in key order.\<close>

definition credentialFields :: "GatewayCredentialRef \<Rightarrow> secret \<Rightarrow> string list" where
  "credentialFields ref s =
     (if cr_key ref \<noteq> [] then [cr_key ref, dataValue s (cr_key ref)]
      else concat (map (\<lambda>k. [k, dataValue s k]) (sort (remdups (map fst (sec_data s))))))"

definition credentialHash :: "GatewayCredentialRef \<Rightarrow> secret \<Rightarrow> string" where
  "credentialHash ref s = hexEncode (sha256Sum (concat (map hashCredentialField (credentialFields ref s))))"

definition shortCredentialHash :: "string \<Rightarrow> string" where
  "shortCredentialHash h = (if length h \<le> 8 then h else take 8 h)"

definition verificationJobName :: "Gateway \<Rightarrow> string \<Rightarrow> string" where
  "verificationJobName g credHash = sanitizeVolumeName (verificationJobPrefix @ m_name (gw_meta g) @ ''-gen''
     @ formatInt (m_generation (gw_meta g)) @ ''-'' @ shortCredentialHash credHash)"

definition gatewayLabelValue :: "Gateway \<Rightarrow> string" where
  "gatewayLabelValue g = sanitizeVolumeName (m_name (gw_meta g))"

section \<open>The probe\<close>

definition dquote :: string where "dquote = [CHR 0x22]"
definition eol :: string where "eol = [CHR 0x0A]"
definition squote :: string where "squote = [CHR 0x27]"

definition gatewayVerificationAuthHeader :: "string \<Rightarrow> string" where
  "gatewayVerificationAuthHeader provider =
     (if normalizeProvider provider = providerAnthropic
      then '' -H '' @ dquote @ ''x-api-key: $LLM_API_KEY'' @ dquote @ '' -H '' @ dquote @ ''anthropic-version: '' @ anthropicAPIVersion @ dquote
      else '' -H '' @ dquote @ ''Authorization: Bearer $LLM_API_KEY'' @ dquote)"

definition gatewayVerificationCurlCommand :: "string \<Rightarrow> bool \<Rightarrow> string" where
  "gatewayVerificationCurlCommand provider includeAuth =
     (let curl = ''curl -sk --max-time 10 -o /dev/null -w '' @ squote @ ''%{http_code}'' @ squote;
          curl = (if includeAuth then curl @ gatewayVerificationAuthHeader provider else curl);
          curl = curl @ '' '' @ dquote @ endpointModelsProbe @ dquote;
          authArm = (if includeAuth
            then eol @ ''401|403) echo '' @ dquote @ ''auth code=$code'' @ dquote @ '' > /dev/termination-log ;;'' else []) in
      ''code=$('' @ curl @ ''); rc=$?'' @ eol
      @ ''if [ '' @ dquote @ ''$rc'' @ dquote @ '' -ne 0 ]; then echo '' @ dquote @ ''unreachable rc=$rc'' @ dquote
      @ '' > /dev/termination-log; exit 1; fi'' @ eol
      @ ''if echo '' @ dquote @ ''$code'' @ dquote @ '' | grep -qE '' @ squote @ verificationHTTPCodePattern @ squote
      @ ''; then echo '' @ dquote @ ''ok code=$code'' @ dquote @ '' > /dev/termination-log; exit 0; fi'' @ eol
      @ ''case '' @ dquote @ ''$code'' @ dquote @ '' in'' @ authArm @ eol
      @ ''*) echo '' @ dquote @ ''http code=$code'' @ dquote @ '' > /dev/termination-log ;;'' @ eol
      @ ''esac'' @ eol @ ''exit 1'')"

text \<open>What that script does when curl exits with \<open>rc\<close> and prints the status code \<open>code\<close>: the line it
  writes to the termination log, and its exit status.\<close>

definition runProbe :: "bool \<Rightarrow> nat \<Rightarrow> string \<Rightarrow> string \<times> nat" where
  "runProbe includeAuth rc code =
     (if rc \<noteq> 0 then (''unreachable rc='' @ showDec (int rc) @ eol, 1)
      else if hasPrefix code ''2'' then (''ok code='' @ code @ eol, 0)
      else if includeAuth \<and> (code = ''401'' \<or> code = ''403'') then (''auth code='' @ code @ eol, 1)
      else (''http code='' @ code @ eol, 1))"

section \<open>Reading a Job\<close>

definition isJobComplete :: "job \<Rightarrow> bool" where
  "isJobComplete j = list_ex (\<lambda>(t, s). (t = ''Complete'' \<or> t = ''Failed'') \<and> s = CTrue) (jb_conditions j)"

definition isJobSucceeded :: "job \<Rightarrow> bool" where
  "isJobSucceeded j = list_ex (\<lambda>(t, s). t = ''Complete'' \<and> s = CTrue) (jb_conditions j)"

fun diagValue :: "string list \<Rightarrow> string \<Rightarrow> string" where
  "diagValue [] k = []"
| "diagValue (f # fs) k = (let prefix = k @ ''='' in if hasPrefix f prefix then drop (length prefix) f else diagValue fs k)"

definition curlErrorPhrase :: "string \<Rightarrow> string" where
  "curlErrorPhrase rc =
     (if rc = ''6'' then ''curl exit 6: could not resolve host''
      else if rc = ''7'' then ''curl exit 7: connection refused''
      else if rc = ''28'' then ''curl exit 28: timed out''
      else if rc = [] then ''connection error''
      else ''curl exit '' @ rc @ '': transport error'')"

definition gatewayVerifyReason :: "string \<Rightarrow> string \<Rightarrow> string \<Rightarrow> bool \<Rightarrow> string \<times> gofmt" where
  "gatewayVerifyReason diag endpoint jobName succeeded =
     (let fields = fieldsOf diag; code = diagValue fields ''code'';
          fallback = (reasonConnectionFailed, Fmt ''Verification Job %q failed'' [Lit jobName]) in
      if succeeded then
        (if fields \<noteq> [] \<and> hd fields = ''ok'' \<and> code \<noteq> []
         then (reasonConnectionVerified, Fmt ''Endpoint %s is reachable (HTTP %s)'' [Lit endpoint, Lit code])
         else (reasonConnectionVerified, Fmt ''Endpoint %s is reachable'' [Lit endpoint]))
      else if fields = [] then fallback
      else if hd fields = ''auth'' \<and> code \<noteq> [] then (reasonAuthenticationFailed,
        Fmt ''Endpoint %s/v1/models returned HTTP %s - check the credential secret's API key'' [Lit endpoint, Lit code])
      else if hd fields = ''http'' \<and> code \<noteq> [] then
        (reasonConnectionFailed, Fmt ''Endpoint %s/v1/models returned HTTP %s'' [Lit endpoint, Lit code])
      else if hd fields = ''unreachable'' then (reasonEndpointUnreachable,
        Fmt ''Endpoint %s is unreachable (%s)'' [Lit endpoint, Lit (curlErrorPhrase (diagValue fields ''rc''))])
      else fallback)"

fun diagLoop :: "string \<Rightarrow> containerstatus list \<Rightarrow> string" where
  "diagLoop fallback [] = fallback"
| "diagLoop fallback (cs # css) = (case cs_terminated cs of
      None \<Rightarrow> diagLoop fallback css
    | Some t \<Rightarrow> (let msg = trimSpace (t_message t) in
        if msg = [] then diagLoop fallback css
        else if cs_name cs = verifyContainerName then msg
        else diagLoop msg css))"

section \<open>Reconcile\<close>

record GatewayReconciler =
  gwr_client :: kclient
  gwr_lib :: klib
  gwr_apiReader :: kreader
  gwr_verificationImage :: string

definition verificationDiagnostic :: "GatewayReconciler \<Rightarrow> string \<Rightarrow> string \<Rightarrow> string \<Rightarrow> string" where
  "verificationDiagnostic R ns jobName jobUID =
     (case rdPods (gwr_apiReader R) ns [(''batch.kubernetes.io/job-name'', jobName), (''batch.kubernetes.io/controller-uid'', jobUID)] of
        Inl e \<Rightarrow> []
      | Inr pods \<Rightarrow> diagLoop [] (concat (map pod_statuses pods)))"

definition verificationSelector :: "Gateway \<Rightarrow> (string \<times> string) list" where
  "verificationSelector g = [(labelManagedBy, managedByLabel), (labelComponent, componentGatewayVerification),
     (labelGateway, gatewayLabelValue g)]"

definition deleteVerificationJobs :: "GatewayReconciler \<Rightarrow> Gateway \<Rightarrow> string \<Rightarrow> unit act" where
  "deleteVerificationJobs R g keep =
     bindE (liftE (listJobs (gwr_client R) (m_namespace (gw_meta g)) (verificationSelector g))) (\<lambda>jobs.
       forE (\<lambda>j. if m_name (jb_meta j) = keep then retE ()
         else logE (deleteJobE (gwr_client R) ''Background'' (jb_meta j))) jobs)"

definition verificationEnv :: "Gateway \<Rightarrow> envvar list" where
  "verificationEnv g = (let ref = gs_credentialRef (gw_spec g) in
     plainEnv ''LLM_ENDPOINT'' (gs_endpoint (gw_spec g)) #
     (if cr_key ref \<noteq> [] then [\<lparr>ev_name = ''LLM_API_KEY'', ev_value = [],
        ev_from = Some (SecretKeyRef (cr_secretName ref) (cr_key ref))\<rparr>] else []))"

definition verificationJob :: "GatewayReconciler \<Rightarrow> Gateway \<Rightarrow> objmeta \<Rightarrow> job" where
  "verificationJob R g m = \<lparr>jb_meta = m, jb_backoffLimit = 0, jb_deadline = verificationDeadline,
     jb_podLabels = (\<lambda>_. None), jb_restartNever = True, jb_serviceAccount = [], jb_restricted = True,
     jb_container = \<lparr>ct_name = verifyContainerName,
       ct_image = (if gwr_verificationImage R = [] then DefaultVerificationImage else gwr_verificationImage R),
       ct_command = [''sh'', ''-c'', gatewayVerificationCurlCommand (gs_provider (gw_spec g)) (cr_key (gs_credentialRef (gw_spec g)) \<noteq> [])],
       ct_args = [], ct_env = verificationEnv g, ct_envFrom = [], ct_mounts = [], ct_ports = [],
       ct_readinessTCP = None, ct_termFallbackToLogs = False\<rparr>,
     jb_volumes = [], jb_conditions = []\<rparr>"

definition createVerificationJob :: "GatewayReconciler \<Rightarrow> Gateway \<Rightarrow> string \<Rightarrow> unit act" where
  "createVerificationJob R g jobName =
     (case setControllerReference (gwr_lib R) ''Gateway'' (gw_meta g)
         (newMeta jobName (m_namespace (gw_meta g)) (map_of (verificationSelector g))) of
        Inl e \<Rightarrow> failE (wrapf ''setting owner reference: %w'' [] e)
      | Inr m \<Rightarrow> sendE (gwr_client R) (CreateJob (verificationJob R g m)))"

definition patchGateway :: "GatewayReconciler \<Rightarrow> Gateway \<Rightarrow> Gateway \<Rightarrow> cresult act" where
  "patchGateway R original new = bindE (sendE (gwr_client R) (PatchGatewayStatus original new)) (\<lambda>_. retE noRequeue)"

text \<open>Every status the controller writes sets \<open>connectionVerified\<close> and the Ready condition together.\<close>

definition withVerdict :: "klib \<Rightarrow> bool \<Rightarrow> cstatus \<Rightarrow> string \<Rightarrow> gofmt \<Rightarrow> Gateway \<Rightarrow> Gateway" where
  "withVerdict K verified status reason message g = g\<lparr>gw_status := (gw_status g)\<lparr>
     gws_connectionVerified := verified,
     gws_conditions := setCond K (gws_conditions (gw_status g))
       (mkCond ConditionTypeReady status (m_generation (gw_meta g)) reason message)\<rparr>\<rparr>"

definition withCredHash :: "string \<Rightarrow> Gateway \<Rightarrow> Gateway" where
  "withCredHash h g = g\<lparr>gw_status := (gw_status g)\<lparr>gws_verifiedCredentialHash := h\<rparr>\<rparr>"

definition verifying :: "klib \<Rightarrow> Gateway \<Rightarrow> Gateway" where
  "verifying K = withVerdict K False CFalse ''Verifying'' (Lit ''Connectivity verification in progress'')"

text \<open>Why the credential cannot be used: the reason and message of the Ready condition.\<close>

definition credentialProblem :: "Gateway \<Rightarrow> secret \<Rightarrow> (string \<times> gofmt) option" where
  "credentialProblem g s = (let ref = gs_credentialRef (gw_spec g) in
     if cr_key ref \<noteq> [] then
       (if map_of (sec_data s) (cr_key ref) = None
        then Some (''CredentialKeyNotFound'', Fmt ''Key %q not found in Secret %q'' [Lit (cr_key ref), Lit (cr_secretName ref)])
        else None)
     else if sec_data s = [] then Some (''CredentialSecretEmpty'', Fmt ''Secret %q has no data keys'' [Lit (cr_secretName ref)])
     else None)"

definition settledReason :: "klib \<Rightarrow> Gateway \<Rightarrow> string \<Rightarrow> string option" where
  "settledReason K g credHash = (case findCond K (gws_conditions (gw_status g)) ConditionTypeReady of
      None \<Rightarrow> None
    | Some c \<Rightarrow> if c_gen c = m_generation (gw_meta g) \<and> gws_verifiedCredentialHash (gw_status g) = credHash
               then Some (c_reason c) else None)"

definition judgeJob :: "GatewayReconciler \<Rightarrow> Gateway \<Rightarrow> string \<Rightarrow> string \<Rightarrow> job \<Rightarrow> Gateway" where
  "judgeJob R g credHash jobName j =
     (let succeeded = isJobSucceeded j;
          diag = verificationDiagnostic R (m_namespace (gw_meta g)) jobName (m_uid (jb_meta j));
          (reason, message) = gatewayVerifyReason diag (gs_endpoint (gw_spec g)) jobName succeeded in
      withVerdict (gwr_lib R) succeeded (if succeeded then CTrue else CFalse) reason message (withCredHash credHash g))"

definition skipProbe :: "GatewayReconciler \<Rightarrow> Gateway \<Rightarrow> Gateway \<Rightarrow> string \<Rightarrow> cresult act" where
  "skipProbe R original g credHash =
     (if settledReason (gwr_lib R) g credHash = Some reasonVerificationSkipped then retE noRequeue
      else bindE (deleteVerificationJobs R g []) (\<lambda>_.
        patchGateway R original (withVerdict (gwr_lib R) False CTrue reasonVerificationSkipped
          (Fmt ''Provider %q has no OpenAI-compatible /v1/models to probe; endpoint and credentials are unverified''
            [Lit (gs_provider (gw_spec g))]) (withCredHash credHash g))))"

definition probeGateway :: "GatewayReconciler \<Rightarrow> Gateway \<Rightarrow> Gateway \<Rightarrow> string \<Rightarrow> cresult act" where
  "probeGateway R original g credHash =
     (let jobName = verificationJobName g credHash in
      bindE (deleteVerificationJobs R g jobName) (\<lambda>_.
        case getJob (gwr_client R) (m_namespace (gw_meta g), jobName) of
          Inl e \<Rightarrow> if isNotFound e
            then bindE (createVerificationJob R g jobName) (\<lambda>_. patchGateway R original (verifying (gwr_lib R) g))
            else failE e
        | Inr j \<Rightarrow> if isJobComplete j
            then bindE (logE (deleteJobE (gwr_client R) ''Background'' (jb_meta j))) (\<lambda>_.
              patchGateway R original (judgeJob R g credHash jobName j))
            else patchGateway R original (verifying (gwr_lib R) g)))"

definition verifyGateway :: "GatewayReconciler \<Rightarrow> Gateway \<Rightarrow> Gateway \<Rightarrow> secret \<Rightarrow> cresult act" where
  "verifyGateway R original g s =
     (let credHash = credentialHash (gs_credentialRef (gw_spec g)) s in
      if \<not> hasModelsProbe (gs_provider (gw_spec g)) then skipProbe R original g credHash
      else if (case settledReason (gwr_lib R) g credHash of None \<Rightarrow> False | Some r \<Rightarrow> isTerminalReadyReason r) then retE noRequeue
      else probeGateway R original g credHash)"

definition reconcileGateway :: "GatewayReconciler \<Rightarrow> Gateway \<Rightarrow> cresult act" where
  "reconcileGateway R original =
     (let g = original\<lparr>gw_status := (gw_status original)\<lparr>gws_observedGeneration := m_generation (gw_meta original)\<rparr>\<rparr>;
          secretName = cr_secretName (gs_credentialRef (gw_spec g));
          refuse = (\<lambda>reason message. patchGateway R original (withVerdict (gwr_lib R) False CFalse reason message g)) in
      case getSecret (gwr_client R) (m_namespace (gw_meta g), secretName) of
        Inl e \<Rightarrow> if isNotFound e then refuse ''CredentialSecretNotFound'' (Fmt ''Secret %q not found'' [Lit secretName]) else failE e
      | Inr s \<Rightarrow> (case credentialProblem g s of
          Some (reason, message) \<Rightarrow> refuse reason message
        | None \<Rightarrow> verifyGateway R original g s))"

definition Reconcile_gateway :: "GatewayReconciler \<Rightarrow> key \<Rightarrow> cresult act" where
  "Reconcile_gateway R k = (case getGateway (gwr_client R) k of
      Inl e \<Rightarrow> if isNotFound e then retE noRequeue else failE e
    | Inr g \<Rightarrow> reconcileGateway R g)"

definition findGatewaysForSecret :: "GatewayReconciler \<Rightarrow> objmeta \<Rightarrow> key list" where
  "findGatewaysForSecret R m = (case listGatewaysForSecret (gwr_client R) (m_namespace m) (m_name m) of
      Inl e \<Rightarrow> []
    | Inr gs \<Rightarrow> map (\<lambda>g. keyOf (gw_meta g)) gs)"

section \<open>The digest tells credentials apart\<close>

lemma base256_digits:
  "(\<forall>k < d. m div 256 ^ k mod 256 = n div 256 ^ k mod 256) \<Longrightarrow> (m::nat) mod 256 ^ d = n mod 256 ^ d"
proof (induction d)
  case (Suc d)
  have "x mod 256 ^ Suc d = 256 ^ d * (x div 256 ^ d mod 256) + x mod 256 ^ d" for x :: nat
    by (metis mod_mult2_eq mult.commute power_Suc)
  with Suc show ?case by simp
qed simp

lemma length_prefix_inj:
  assumes "hashCredentialField a @ x = hashCredentialField b @ y" and "length a < 2 ^ 64" and "length b < 2 ^ 64"
  shows "a = b \<and> x = y"
proof -
  define ks :: "nat list" where "ks = [7, 6, 5, 4, 3, 2, 1, 0]"
  define dig where "dig n = map (\<lambda>k. char_of (n div 256 ^ k mod 256) :: char) ks" for n :: nat
  have eq: "dig (length a) @ (a @ x) = dig (length b) @ (b @ y)"
    using assms(1) unfolding hashCredentialField_def dig_def ks_def append_assoc .
  have "length (dig (length a)) = length (dig (length b))" by (simp add: dig_def)
  then have "dig (length a) = dig (length b) \<and> a @ x = b @ y" using eq append_eq_append_conv by blast
  then have d: "dig (length a) = dig (length b)" and rest: "a @ x = b @ y" by blast+
  have "length a div 256 ^ k mod 256 = length b div 256 ^ k mod 256" if "k < 8" for k
  proof -
    have "k \<in> set ks" using that unfolding ks_def by (simp, arith)
    then have "(char_of (length a div 256 ^ k mod 256) :: char) = char_of (length b div 256 ^ k mod 256)"
      using d unfolding dig_def map_eq_conv by blast
    then have "(of_char (char_of (length a div 256 ^ k mod 256) :: char) :: nat)
        = of_char (char_of (length b div 256 ^ k mod 256) :: char)" by (rule arg_cong)
    then show ?thesis by (simp only: of_char_of mod_mod_trivial)
  qed
  then have "length a mod 256 ^ 8 = length b mod 256 ^ 8" by (intro base256_digits) blast
  then have "length a = length b" using assms(2,3) by simp
  with rest show ?thesis by simp
qed

definition shortFields :: "string list \<Rightarrow> bool" where
  "shortFields fs \<longleftrightarrow> (\<forall>f \<in> set fs. length f < 2 ^ 64)"

definition credentialMaterial :: "GatewayCredentialRef \<Rightarrow> secret \<Rightarrow> string" where
  "credentialMaterial ref s = concat (map hashCredentialField (credentialFields ref s))"

lemma material_inj:
  "concat (map hashCredentialField fs) = concat (map hashCredentialField gs) \<Longrightarrow> shortFields fs \<Longrightarrow> shortFields gs \<Longrightarrow> fs = gs"
proof (induction fs arbitrary: gs)
  case Nil
  then show ?case by (cases gs) (auto simp: hashCredentialField_def)
next
  case (Cons f fs)
  then obtain g gs' where g: "gs = g # gs'" by (cases gs) (auto simp: hashCredentialField_def)
  have "f = g \<and> concat (map hashCredentialField fs) = concat (map hashCredentialField gs')"
    using Cons.prems unfolding g by (intro length_prefix_inj) (auto simp: shortFields_def)
  with Cons g show ?case by (auto simp: shortFields_def)
qed

lemma sha256Sum_props: "length (sha256Sum m) = 32" "\<forall>b \<in> set (sha256Sum m). b < 256"
  by (auto simp: sha256Sum_def Let_def wordBytes_props split: prod.splits)

lemma credentialHash_eq:
  "credentialHash ref s = credentialHash ref' s' \<longleftrightarrow>
     sha256Sum (credentialMaterial ref s) = sha256Sum (credentialMaterial ref' s')"
  unfolding credentialHash_def credentialMaterial_def
  by (auto intro!: hexEncode_inj[of "sha256Sum _" "sha256Sum _"] simp: sha256Sum_props)

text \<open>The part of a Secret a reference selects.\<close>

definition selectedCredential :: "GatewayCredentialRef \<Rightarrow> secret \<Rightarrow> string \<rightharpoonup> string" where
  "selectedCredential ref s = (if cr_key ref \<noteq> [] then map_of (sec_data s) |` {cr_key ref} else map_of (sec_data s))"

lemma pairs_inj:
  "concat (map (\<lambda>k. [k, v k]) ks) = concat (map (\<lambda>k. [k, w k]) ls) \<longleftrightarrow> ks = ls \<and> (\<forall>k \<in> set ks. v k = w k)"
proof (induction ks arbitrary: ls)
  case Nil
  show ?case by (cases ls) auto
next
  case (Cons k ks)
  then show ?case by (cases ls) auto
qed

lemma whole_secret_fields:
  "concat (map (\<lambda>k. [k, dataValue s k]) (sort (remdups (map fst (sec_data s)))))
     = concat (map (\<lambda>k. [k, dataValue t k]) (sort (remdups (map fst (sec_data t)))))
   \<longleftrightarrow> map_of (sec_data s) = map_of (sec_data t)" (is "?lhs = ?rhs")
proof
  assume ?lhs
  then have ks: "sort (remdups (map fst (sec_data s))) = sort (remdups (map fst (sec_data t)))"
    and v: "\<forall>k \<in> fst ` set (sec_data s). dataValue s k = dataValue t k" unfolding pairs_inj by auto
  from arg_cong[OF ks, of set] have dom: "fst ` set (sec_data s) = fst ` set (sec_data t)" by simp
  show ?rhs
  proof
    fix k
    show "map_of (sec_data s) k = map_of (sec_data t) k"
    proof (cases "k \<in> fst ` set (sec_data s)")
      case True
      then obtain a b where "map_of (sec_data s) k = Some a" "map_of (sec_data t) k = Some b"
        using dom by (metis domD dom_map_of_conv_image_fst)
      with v True show ?thesis by (auto simp: dataValue_def)
    next
      case False
      with dom show ?thesis by (metis map_of_eq_None_iff)
    qed
  qed
next
  assume r: ?rhs
  then have "fst ` set (sec_data s) = fst ` set (sec_data t)" by (metis dom_map_of_conv_image_fst)
  then have "sort (remdups (map fst (sec_data s))) = sort (remdups (map fst (sec_data t)))"
    by (intro sorted_distinct_set_unique) auto
  with r show ?lhs by (simp add: dataValue_def)
qed

lemma selected_fields:
  assumes "credentialProblem g s = None" and "credentialProblem g t = None" and "ref = gs_credentialRef (gw_spec g)"
  shows "credentialFields ref s = credentialFields ref t \<longleftrightarrow> selectedCredential ref s = selectedCredential ref t"
proof (cases "cr_key ref = []")
  case True
  then show ?thesis using whole_secret_fields[of s t] by (simp add: credentialFields_def selectedCredential_def)
next
  case False
  then obtain a b where "map_of (sec_data s) (cr_key ref) = Some a" "map_of (sec_data t) (cr_key ref) = Some b"
    using assms by (auto simp: credentialProblem_def Let_def split: if_splits)
  with False show ?thesis
    by (auto simp: credentialFields_def selectedCredential_def dataValue_def restrict_map_def fun_eq_iff)
qed

text \<open>The digest notices every rotation of the credential and nothing else. For two states of a Secret
  that both hold the credential a Gateway refers to (with fields of less than 2^64 bytes), the digests are
  equal exactly when the selected material is equal, or the two byte strings fed to SHA-256 differ and collide.
  Other keys of a shared Secret do not matter to a reference with a key.\<close>

theorem rotation_detected:
  assumes "credentialProblem g s = None" and "credentialProblem g t = None" and "ref = gs_credentialRef (gw_spec g)"
    and "shortFields (credentialFields ref s)" and "shortFields (credentialFields ref t)"
  shows "credentialHash ref s = credentialHash ref t \<longleftrightarrow>
     selectedCredential ref s = selectedCredential ref t
     \<or> (credentialMaterial ref s \<noteq> credentialMaterial ref t
        \<and> sha256Sum (credentialMaterial ref s) = sha256Sum (credentialMaterial ref t))"
proof -
  have "credentialMaterial ref s = credentialMaterial ref t \<longleftrightarrow> credentialFields ref s = credentialFields ref t"
    using material_inj assms(4,5) unfolding credentialMaterial_def by metis
  then show ?thesis using selected_fields[OF assms(1-3)] by (auto simp: credentialHash_eq)
qed

section \<open>What a reconcile writes\<close>

definition observedGw :: "Gateway \<Rightarrow> Gateway" where
  "observedGw g = g\<lparr>gw_status := (gw_status g)\<lparr>gws_observedGeneration := m_generation (gw_meta g)\<rparr>\<rparr>"

definition hashOf :: "Gateway \<Rightarrow> secret \<Rightarrow> string" where
  "hashOf g s = credentialHash (gs_credentialRef (gw_spec g)) s"

definition secretOf :: "GatewayReconciler \<Rightarrow> Gateway \<Rightarrow> goerr + secret" where
  "secretOf R g = getSecret (gwr_client R) (m_namespace (gw_meta g), cr_secretName (gs_credentialRef (gw_spec g)))"

definition jobOf :: "GatewayReconciler \<Rightarrow> Gateway \<Rightarrow> secret \<Rightarrow> goerr + job" where
  "jobOf R g s = getJob (gwr_client R) (m_namespace (gw_meta g), verificationJobName g (hashOf g s))"

lemma observedGw_sel [simp]:
  "gw_meta (observedGw g) = gw_meta g" "gw_spec (observedGw g) = gw_spec g"
  "gws_conditions (gw_status (observedGw g)) = gws_conditions (gw_status g)"
  "gws_verifiedCredentialHash (gw_status (observedGw g)) = gws_verifiedCredentialHash (gw_status g)"
  "gws_observedGeneration (gw_status (observedGw g)) = m_generation (gw_meta g)"
  by (simp_all add: observedGw_def)

lemma observedGw_reads [simp]:
  "credentialProblem (observedGw g) s = credentialProblem g s"
  "settledReason K (observedGw g) h = settledReason K g h"
  "verificationJobName (observedGw g) h = verificationJobName g h"
  by (simp_all add: credentialProblem_def settledReason_def verificationJobName_def cong: option.case_cong)

lemma reconcileGateway_alt:
  "reconcileGateway R g = (case secretOf R g of
     Inl e \<Rightarrow> if isNotFound e then patchGateway R g (withVerdict (gwr_lib R) False CFalse ''CredentialSecretNotFound''
         (Fmt ''Secret %q not found'' [Lit (cr_secretName (gs_credentialRef (gw_spec g)))]) (observedGw g)) else failE e
   | Inr s \<Rightarrow> (case credentialProblem g s of
       Some (reason, message) \<Rightarrow> patchGateway R g (withVerdict (gwr_lib R) False CFalse reason message (observedGw g))
     | None \<Rightarrow> verifyGateway R g (observedGw g) s))"
  unfolding reconcileGateway_def Let_def secretOf_def observedGw_def[symmetric] by (simp cong: sum.case_cong if_cong)

lemma deleteVerificationJobs_calls:
  "c \<in> set (fst (deleteVerificationJobs R g keep)) \<Longrightarrow>
     \<exists>j js. listJobs (gwr_client R) (m_namespace (gw_meta g)) (verificationSelector g) = Inr js \<and> j \<in> set js
       \<and> m_name (jb_meta j) \<noteq> keep \<and> c = DeleteJob ''Background'' (jb_meta j)"
  by (auto simp: deleteVerificationJobs_def set_fst_bindE split: if_splits dest!: forE_calls)

lemma createVerificationJob_calls:
  "c \<in> set (fst (createVerificationJob R g n)) \<Longrightarrow>
     \<exists>m. setControllerReference (gwr_lib R) ''Gateway'' (gw_meta g)
         (newMeta n (m_namespace (gw_meta g)) (map_of (verificationSelector g))) = Inr m
       \<and> c = CreateJob (verificationJob R g m)"
  by (auto simp: createVerificationJob_def split: sum.splits)

lemma fst_patchGateway [simp]: "fst (patchGateway R g n) = [PatchGatewayStatus g n]"
  by (simp add: patchGateway_def bindE_def split: sum.split)

text \<open>The status patches of one reconcile, by the branch that sends them.\<close>

lemma probeGateway_patch:
  "PatchGatewayStatus g new \<in> set (fst (probeGateway R original o' h)) \<Longrightarrow> g = original \<and>
     (new = verifying (gwr_lib R) o'
      \<or> (\<exists>j. getJob (gwr_client R) (m_namespace (gw_meta o'), verificationJobName o' h) = Inr j \<and> isJobComplete j
           \<and> new = judgeJob R o' h (verificationJobName o' h) j))"
  by (auto simp: probeGateway_def Let_def set_fst_bindE split: sum.splits if_splits
      dest: deleteVerificationJobs_calls createVerificationJob_calls)

lemma skipProbe_patch:
  "PatchGatewayStatus g new \<in> set (fst (skipProbe R original o' h)) \<Longrightarrow> g = original \<and>
     (\<exists>m. new = withVerdict (gwr_lib R) False CTrue reasonVerificationSkipped m (withCredHash h o'))"
  by (auto simp: skipProbe_def set_fst_bindE split: if_splits dest: deleteVerificationJobs_calls)

definition refusalReasons :: "string set" where
  "refusalReasons = {''CredentialSecretNotFound'', ''CredentialKeyNotFound'', ''CredentialSecretEmpty'', ''Verifying''}"

lemma credentialProblem_reason: "credentialProblem g s = Some (r, m) \<Longrightarrow> r \<in> refusalReasons"
  by (auto simp: credentialProblem_def refusalReasons_def Let_def split: if_splits)

lemma gateway_patches:
  assumes "PatchGatewayStatus o' new \<in> set (fst (reconcileGateway R g))"
  obtains (refused) r m where "o' = g" "r \<in> refusalReasons" "new = withVerdict (gwr_lib R) False CFalse r m (observedGw g)"
  | (skipped) s m where "o' = g" "secretOf R g = Inr s" "credentialProblem g s = None" "\<not> hasModelsProbe (gs_provider (gw_spec g))"
      "new = withVerdict (gwr_lib R) False CTrue reasonVerificationSkipped m (withCredHash (hashOf g s) (observedGw g))"
  | (judged) s j where "o' = g" "secretOf R g = Inr s" "credentialProblem g s = None" "hasModelsProbe (gs_provider (gw_spec g))"
      "jobOf R g s = Inr j" "isJobComplete j"
      "new = judgeJob R (observedGw g) (hashOf g s) (verificationJobName g (hashOf g s)) j"
proof (cases "secretOf R g")
  case (Inl e)
  with assms show ?thesis by (intro refused) (auto simp: reconcileGateway_alt refusalReasons_def split: if_splits)
next
  case (Inr s)
  show ?thesis
  proof (cases "credentialProblem g s")
    case (Some p)
    then obtain r m where p: "credentialProblem g s = Some (r, m)" by (cases p) auto
    with Inr assms credentialProblem_reason[OF p] show ?thesis by (intro refused) (auto simp: reconcileGateway_alt)
  next
    case None
    with assms Inr have v: "PatchGatewayStatus o' new \<in> set (fst (verifyGateway R g (observedGw g) s))"
      by (simp add: reconcileGateway_alt)
    show ?thesis
    proof (cases "hasModelsProbe (gs_provider (gw_spec g))")
      case False
      with v have "PatchGatewayStatus o' new \<in> set (fst (skipProbe R g (observedGw g) (hashOf g s)))"
        by (simp add: verifyGateway_def Let_def hashOf_def)
      with skipProbe_patch[OF this] skipped[OF _ Inr None False] show ?thesis by blast
    next
      case True
      with v have "PatchGatewayStatus o' new \<in> set (fst (probeGateway R g (observedGw g) (hashOf g s)))"
        by (auto simp: verifyGateway_def Let_def hashOf_def split: if_splits)
      from probeGateway_patch[OF this] show ?thesis
        using judged[OF _ Inr None True] refused by (auto simp: jobOf_def verifying_def refusalReasons_def)
    qed
  qed
qed

lemma withVerdict_sel [simp]:
  "gw_meta (withVerdict K v st r m g) = gw_meta g" "gw_spec (withVerdict K v st r m g) = gw_spec g"
  "gws_connectionVerified (gw_status (withVerdict K v st r m g)) = v"
  "gws_observedGeneration (gw_status (withVerdict K v st r m g)) = gws_observedGeneration (gw_status g)"
  "gws_verifiedCredentialHash (gw_status (withVerdict K v st r m g)) = gws_verifiedCredentialHash (gw_status g)"
  by (simp_all add: withVerdict_def)

lemma withCredHash_sel [simp]:
  "gw_meta (withCredHash h g) = gw_meta g" "gw_spec (withCredHash h g) = gw_spec g"
  "gws_verifiedCredentialHash (gw_status (withCredHash h g)) = h"
  "gws_observedGeneration (gw_status (withCredHash h g)) = gws_observedGeneration (gw_status g)"
  "gws_conditions (gw_status (withCredHash h g)) = gws_conditions (gw_status g)"
  by (simp_all add: withCredHash_def)

text \<open>The Ready condition of a Gateway.\<close>

definition readyCond :: "klib \<Rightarrow> Gateway \<Rightarrow> condition option" where
  "readyCond K g = findCond K (gws_conditions (gw_status g)) ConditionTypeReady"

lemma readyCond_withVerdict:
  "condition_store K \<Longrightarrow> readyCond K (withVerdict K v st r m g) = Some (mkCond ConditionTypeReady st (m_generation (gw_meta g)) r m)"
  by (simp add: readyCond_def withVerdict_def condition_store.find_mkCond)

text \<open>A verdict on a Job: its reason is terminal, and ConnectionVerified exactly for a Job that succeeded.\<close>

lemma gatewayVerifyReason_reason:
  "fst (gatewayVerifyReason d ep n ok) \<in> {reasonConnectionVerified, reasonConnectionFailed, reasonAuthenticationFailed, reasonEndpointUnreachable}"
  "fst (gatewayVerifyReason d ep n ok) = reasonConnectionVerified \<longleftrightarrow> ok"
  by (simp_all add: gatewayVerifyReason_def Let_def gw_reasons)

lemma judgeJob_verdict:
  "\<exists>r m. judgeJob R g h n j = withVerdict (gwr_lib R) (isJobSucceeded j) (if isJobSucceeded j then CTrue else CFalse) r m (withCredHash h g)
     \<and> r \<in> {reasonConnectionVerified, reasonConnectionFailed, reasonAuthenticationFailed, reasonEndpointUnreachable}
     \<and> (r = reasonConnectionVerified \<longleftrightarrow> isJobSucceeded j)"
proof -
  define v where "v = gatewayVerifyReason (verificationDiagnostic R (m_namespace (gw_meta g)) n (m_uid (jb_meta j)))
    (gs_endpoint (gw_spec g)) n (isJobSucceeded j)"
  have "judgeJob R g h n j = withVerdict (gwr_lib R) (isJobSucceeded j) (if isJobSucceeded j then CTrue else CFalse) (fst v) (snd v) (withCredHash h g)"
    by (simp add: judgeJob_def Let_def v_def split: prod.split)
  with gatewayVerifyReason_reason show ?thesis unfolding v_def by blast
qed

text \<open>A Gateway is reported verified only on the evidence of a probe of what it now is. A reconcile that
  records \<open>connectionVerified\<close> has read the referenced Secret with a usable credential, the provider is one
  that is probed, and the Job named after this generation and this credential's digest exists and has
  completed successfully; the status is stamped with that generation and digest.\<close>

theorem verified_means_probed:
  assumes "condition_store (gwr_lib R)" and "getGateway (gwr_client R) k = Inr g"
    and "PatchGatewayStatus old new \<in> set (fst (Reconcile_gateway R k))"
    and "gws_connectionVerified (gw_status new)"
  shows "old = g \<and> hasModelsProbe (gs_provider (gw_spec g))
     \<and> (\<exists>s j. secretOf R g = Inr s \<and> credentialProblem g s = None \<and> jobOf R g s = Inr j \<and> isJobSucceeded j
          \<and> gws_verifiedCredentialHash (gw_status new) = hashOf g s)
     \<and> gws_observedGeneration (gw_status new) = m_generation (gw_meta g)
     \<and> (\<exists>c. readyCond (gwr_lib R) new = Some c \<and> c_status c = CTrue \<and> c_gen c = m_generation (gw_meta g))"
proof -
  have "PatchGatewayStatus old new \<in> set (fst (reconcileGateway R g))" using assms(2,3) by (simp add: Reconcile_gateway_def)
  then show ?thesis
  proof (cases rule: gateway_patches)
    case (judged s j)
    with judgeJob_verdict[of R "observedGw g" "hashOf g s" "verificationJobName g (hashOf g s)" j] assms(4)
    show ?thesis by (auto simp: readyCond_withVerdict[OF assms(1)])
  qed (use assms(4) in auto)
qed

section \<open>The life of a Gateway\<close>

text \<open>
  A Gateway under any client, reader and library \<open>K\<close>, with the evidence gathered so far: the generations and
  credential digests for which a reconcile has read a successful verification Job. It is created with an empty
  status; users edit everything but the status; a reconcile that reads it may persist the patch it sends.
\<close>

definition probedOK :: "GatewayReconciler \<Rightarrow> Gateway \<Rightarrow> (int \<times> string) set" where
  "probedOK R g = {(m_generation (gw_meta g), hashOf g s) | s j. secretOf R g = Inr s \<and> jobOf R g s = Inr j \<and> isJobSucceeded j}"

inductive reachableGw :: "klib \<Rightarrow> Gateway \<Rightarrow> (int \<times> string) set \<Rightarrow> bool" for K where
  createdGw: "gws_connectionVerified (gw_status g) = False \<Longrightarrow> gws_conditions (gw_status g) = [] \<Longrightarrow> reachableGw K g {}"
| editedGw: "reachableGw K g E \<Longrightarrow> gw_status g' = gw_status g \<Longrightarrow> reachableGw K g' E"
| patchedGw: "reachableGw K g E \<Longrightarrow> gwr_lib R = K \<Longrightarrow> getGateway (gwr_client R) k = Inr g \<Longrightarrow>
    PatchGatewayStatus orig new \<in> set (fst (Reconcile_gateway R k)) \<Longrightarrow>
    reachableGw K (g\<lparr>gw_status := gw_status new\<rparr>) (E \<union> probedOK R g)"

definition gatewayOK :: "klib \<Rightarrow> Gateway \<Rightarrow> (int \<times> string) set \<Rightarrow> bool" where
  "gatewayOK K g E \<longleftrightarrow>
     (gws_connectionVerified (gw_status g) \<longleftrightarrow>
        (\<exists>c. readyCond K g = Some c \<and> c_status c = CTrue \<and> c_reason c = reasonConnectionVerified))
     \<and> (\<forall>c. readyCond K g = Some c \<longrightarrow> c_status c = CTrue \<longrightarrow> c_reason c \<in> {reasonConnectionVerified, reasonVerificationSkipped})
     \<and> (\<forall>c. readyCond K g = Some c \<longrightarrow> gws_connectionVerified (gw_status g)
          \<longrightarrow> (c_gen c, gws_verifiedCredentialHash (gw_status g)) \<in> E)"

lemma gatewayOK_status: "gw_status g' = gw_status g \<Longrightarrow> gatewayOK K g' E = gatewayOK K g E"
  by (simp add: gatewayOK_def readyCond_def)

lemma gatewayOK_mono: "gatewayOK K g E \<Longrightarrow> E \<subseteq> E' \<Longrightarrow> gatewayOK K g E'"
  by (auto simp: gatewayOK_def)

lemma refusal_not_verdict: "r \<in> refusalReasons \<Longrightarrow> r \<noteq> reasonConnectionVerified \<and> \<not> isTerminalReadyReason r"
  by (auto simp: refusalReasons_def gw_reasons isTerminalReadyReason_def)

lemma patch_gatewayOK:
  assumes K: "condition_store (gwr_lib R)" and p: "PatchGatewayStatus orig new \<in> set (fst (reconcileGateway R g))"
  shows "gatewayOK (gwr_lib R) new (probedOK R g)"
  using p
proof (cases rule: gateway_patches)
  case (refused r m)
  then show ?thesis using refusal_not_verdict[of r] by (auto simp: gatewayOK_def readyCond_withVerdict[OF K])
next
  case (skipped s m)
  then show ?thesis by (auto simp: gatewayOK_def readyCond_withVerdict[OF K] gw_reasons)
next
  case (judged s j)
  obtain r m where n: "new = withVerdict (gwr_lib R) (isJobSucceeded j) (if isJobSucceeded j then CTrue else CFalse) r m
      (withCredHash (hashOf g s) (observedGw g))" and r: "r = reasonConnectionVerified \<longleftrightarrow> isJobSucceeded j"
    using judgeJob_verdict judged(7) by metis
  then show ?thesis using judged(2,5)
    by (auto simp: gatewayOK_def readyCond_withVerdict[OF K] probedOK_def)
qed

text \<open>C32: in every reachable state the status of a Gateway tells one story: \<open>connectionVerified\<close> holds exactly
  when Ready is True with the reason ConnectionVerified; Ready is True for no other reason than that or a
  provider that is deliberately not probed; and a verified Gateway was verified by a successful Job for the
  generation on its Ready condition and the credential digest in its status.\<close>

theorem reachable_gateway_consistent:
  assumes "condition_store K" and "reachableGw K g E"
  shows "gatewayOK K g E"
  using assms(2)
proof (induction rule: reachableGw.induct)
  case (createdGw g)
  then show ?case using condition_store.find_nil[OF assms(1)] by (simp add: gatewayOK_def readyCond_def)
next
  case (editedGw g E g')
  then show ?case using gatewayOK_status by blast
next
  case (patchedGw g E R k orig new)
  then have "gatewayOK K new (probedOK R g)"
    using assms(1) patch_gatewayOK[of R orig new g] by (simp add: Reconcile_gateway_def)
  then have "gatewayOK K (g\<lparr>gw_status := gw_status new\<rparr>) (probedOK R g)"
    using gatewayOK_status[of "g\<lparr>gw_status := gw_status new\<rparr>" new] by simp
  then show ?case using gatewayOK_mono[of K "g\<lparr>gw_status := gw_status new\<rparr>" "probedOK R g" "E \<union> probedOK R g"] by blast
qed

section \<open>When a verdict stands\<close>

text \<open>The recorded verdict still speaks for this generation and credential.\<close>

definition verdictStands :: "klib \<Rightarrow> Gateway \<Rightarrow> secret \<Rightarrow> bool" where
  "verdictStands K g s \<longleftrightarrow> (\<exists>c. readyCond K g = Some c \<and> c_gen c = m_generation (gw_meta g)
     \<and> gws_verifiedCredentialHash (gw_status g) = hashOf g s
     \<and> (if hasModelsProbe (gs_provider (gw_spec g)) then isTerminalReadyReason (c_reason c)
        else c_reason c = reasonVerificationSkipped))"

lemma settledReason_Some:
  "settledReason K g h = Some r \<longleftrightarrow> (\<exists>c. readyCond K g = Some c \<and> c_gen c = m_generation (gw_meta g)
     \<and> gws_verifiedCredentialHash (gw_status g) = h \<and> c_reason c = r)"
  by (auto simp: settledReason_def readyCond_def split: option.splits)

lemma verifyGateway_cases:
  assumes "secretOf R g = Inr s" and "credentialProblem g s = None"
  shows "reconcileGateway R g = (if verdictStands (gwr_lib R) g s then retE noRequeue
     else if hasModelsProbe (gs_provider (gw_spec g)) then probeGateway R g (observedGw g) (hashOf g s)
     else bindE (deleteVerificationJobs R (observedGw g) []) (\<lambda>_.
        patchGateway R g (withVerdict (gwr_lib R) False CTrue reasonVerificationSkipped
          (Fmt ''Provider %q has no OpenAI-compatible /v1/models to probe; endpoint and credentials are unverified''
            [Lit (gs_provider (gw_spec g))]) (withCredHash (hashOf g s) (observedGw g)))))"
proof -
  have r: "reconcileGateway R g = verifyGateway R g (observedGw g) s" using assms by (simp add: reconcileGateway_alt)
  have t: "(case settledReason K g h of None \<Rightarrow> False | Some r \<Rightarrow> P r) \<longleftrightarrow> (\<exists>r. settledReason K g h = Some r \<and> P r)" for K h P
    by (cases "settledReason K g h") auto
  show ?thesis
    unfolding r verifyGateway_def Let_def skipProbe_def observedGw_reads observedGw_sel hashOf_def[symmetric] t
    by (simp add: settledReason_Some verdictStands_def) (metis (no_types))
qed

lemma deleteVerificationJobs_ok:
  "listJobs (gwr_client R) (m_namespace (gw_meta g)) (verificationSelector g) = Inr js \<Longrightarrow>
   snd (deleteVerificationJobs R g keep) = Inr ()"
proof -
  have "snd (forE (\<lambda>j. if m_name (jb_meta j) = keep then retE ()
         else logE (deleteJobE (gwr_client R) ''Background'' (jb_meta j))) xs) = Inr ()" for xs
    by (induction xs) (simp_all add: bindE_def)
  then show "listJobs (gwr_client R) (m_namespace (gw_meta g)) (verificationSelector g) = Inr js \<Longrightarrow>
   snd (deleteVerificationJobs R g keep) = Inr ()"
    by (simp add: deleteVerificationJobs_def bindE_def)
qed

lemma verificationSelector_observed [simp]: "verificationSelector (observedGw g) = verificationSelector g"
  by (simp add: verificationSelector_def gatewayLabelValue_def)

text \<open>A verdict stands exactly as long as the Gateway and the credential it was reached for. When the
  Secret holds the credential, a reconcile succeeds without a single write if and only if the status already
  carries a settled verdict for this generation and this credential; a spec change or a rotation therefore
  always leads to a write or an error to retry, and a settled Gateway is left alone.\<close>

theorem verdict_stands_iff_quiet:
  assumes "condition_store (gwr_lib R)" and "getGateway (gwr_client R) k = Inr g"
    and "secretOf R g = Inr s" and "credentialProblem g s = None"
  shows "Reconcile_gateway R k = ([], Inr noRequeue) \<longleftrightarrow> verdictStands (gwr_lib R) g s"
proof -
  have p: "fst (patchGateway R g n) \<noteq> []" for n by simp
  have "probeGateway R g (observedGw g) h \<noteq> ([], Inr noRequeue)" for h
    by (auto simp: probeGateway_def Let_def bindE_def split: sum.splits if_splits dest!: arg_cong[of _ "([], Inr noRequeue)" fst])
  moreover have "bindE m (\<lambda>_. patchGateway R g n) \<noteq> ([], Inr noRequeue)" for m :: "unit act" and n
    by (auto simp: bindE_def split: sum.splits)
  ultimately show ?thesis
    using assms(2) verifyGateway_cases[OF assms(3,4)] by (auto simp: Reconcile_gateway_def retE_def)
qed

section \<open>From probe to verdict\<close>

definition patchedWith :: "Gateway \<Rightarrow> Gateway \<Rightarrow> Gateway" where
  "patchedWith g new = g\<lparr>gw_status := gw_status new\<rparr>"

lemma patchedWith_sel [simp]:
  "gw_meta (patchedWith g n) = gw_meta g" "gw_spec (patchedWith g n) = gw_spec g" "gw_status (patchedWith g n) = gw_status n"
  "readyCond K (patchedWith g n) = readyCond K n" "hashOf (patchedWith g n) s = hashOf g s"
  "secretOf R (patchedWith g n) = secretOf R g" "credentialProblem (patchedWith g n) s = credentialProblem g s"
  "jobOf R (patchedWith g n) s = jobOf R g s"
  by (simp_all add: patchedWith_def readyCond_def hashOf_def secretOf_def credentialProblem_def jobOf_def verificationJobName_def)

text \<open>The Secret holds the credential, and the Jobs of the Gateway can be listed.\<close>

definition probeable :: "GatewayReconciler \<Rightarrow> Gateway \<Rightarrow> secret \<Rightarrow> bool" where
  "probeable R g s \<longleftrightarrow> secretOf R g = Inr s \<and> credentialProblem g s = None
     \<and> (\<exists>js. listJobs (gwr_client R) (m_namespace (gw_meta g)) (verificationSelector g) = Inr js)"

lemma probe_started:
  assumes "secretOf R g = Inr s" and "credentialProblem g s = None" and "hasModelsProbe (gs_provider (gw_spec g))"
    and "\<not> verdictStands (gwr_lib R) g s"
    and "listJobs (gwr_client R) (m_namespace (gw_meta g)) (verificationSelector g) = Inr js"
    and "jobOf R g s = Inl e" and "isNotFound e" and "\<And>c. answer (gwr_client R) c = None"
    and "setControllerReference (gwr_lib R) ''Gateway'' (gw_meta g)
       (newMeta (verificationJobName g (hashOf g s)) (m_namespace (gw_meta g)) (map_of (verificationSelector g))) = Inr m"
  shows "\<exists>dels. fst (reconcileGateway R g) = dels @ [CreateJob (verificationJob R (observedGw g) m), PatchGatewayStatus g (verifying (gwr_lib R) (observedGw g))]
     \<and> snd (reconcileGateway R g) = Inr noRequeue"
proof -
  have "snd (deleteVerificationJobs R (observedGw g) keep) = Inr ()" for keep
    using assms(5) by (intro deleteVerificationJobs_ok[of R _ js]) simp
  moreover have "createVerificationJob R (observedGw g) (verificationJobName g (hashOf g s)) = ([CreateJob (verificationJob R (observedGw g) m)], Inr ())"
    using assms(8,9) by (simp add: createVerificationJob_def sendE_def)
  moreover have "patchGateway R g n = ([PatchGatewayStatus g n], Inr noRequeue)" for n
    using assms(8) by (simp add: patchGateway_def bindE_def sendE_def retE_def)
  ultimately show ?thesis
    using assms(3,4,6,7) by (simp add: verifyGateway_cases[OF assms(1,2)] probeGateway_def Let_def jobOf_def bindE_def)
qed

lemma probe_judged:
  assumes "secretOf R g = Inr s" and "credentialProblem g s = None" and "hasModelsProbe (gs_provider (gw_spec g))"
    and "\<not> verdictStands (gwr_lib R) g s"
    and "listJobs (gwr_client R) (m_namespace (gw_meta g)) (verificationSelector g) = Inr js"
    and "jobOf R g s = Inr j" and "isJobComplete j"
  shows "PatchGatewayStatus g (judgeJob R (observedGw g) (hashOf g s) (verificationJobName g (hashOf g s)) j) \<in> set (fst (reconcileGateway R g))"
proof -
  have "snd (deleteVerificationJobs R (observedGw g) keep) = Inr ()" for keep
    using assms(5) by (intro deleteVerificationJobs_ok[of R _ js]) simp
  then show ?thesis
    using assms(3,4,6,7) by (simp add: verifyGateway_cases[OF assms(1,2)] probeGateway_def Let_def jobOf_def bindE_def logE_def split: sum.split)
qed

lemma not_standing_verifying:
  "condition_store K \<Longrightarrow> hasModelsProbe (gs_provider (gw_spec g)) \<Longrightarrow> \<not> verdictStands K (patchedWith g (verifying K (observedGw g))) s"
  by (simp add: verdictStands_def verifying_def readyCond_withVerdict isTerminalReadyReason_def gw_reasons)

lemma judged_stands:
  assumes "condition_store (gwr_lib R)" and "hasModelsProbe (gs_provider (gw_spec g))"
  shows "verdictStands (gwr_lib R) (patchedWith g (judgeJob R (observedGw g) (hashOf g s) n j)) s"
proof -
  obtain r m where "judgeJob R (observedGw g) (hashOf g s) n j = withVerdict (gwr_lib R) (isJobSucceeded j)
      (if isJobSucceeded j then CTrue else CFalse) r m (withCredHash (hashOf g s) (observedGw g))"
    "r \<in> {reasonConnectionVerified, reasonConnectionFailed, reasonAuthenticationFailed, reasonEndpointUnreachable}"
    using judgeJob_verdict by blast
  then show ?thesis using assms by (auto simp: verdictStands_def readyCond_withVerdict isTerminalReadyReason_def)
qed

text \<open>C33: a Gateway without a standing verdict gets one. With the credential in place and a provider that is
  probed, the first reconcile starts one Job under the name of this generation and credential and reports
  Verifying; once a reconcile finds that Job complete it records its outcome, verified exactly when the Job
  succeeded; and every reconcile after that, with the credential unchanged, leaves the Gateway alone.\<close>

theorem gateway_gets_verdict:
  assumes "condition_store K" and "gwr_lib R1 = K" and "gwr_lib R2 = K" and "gwr_lib R3 = K"
    and "hasModelsProbe (gs_provider (gw_spec g))" and "\<not> verdictStands K g s"
    and "getGateway (gwr_client R1) k = Inr g" and "probeable R1 g s"
    and "jobOf R1 g s = Inl e" and "isNotFound e" and "\<And>c. answer (gwr_client R1) c = None"
    and "setControllerReference K ''Gateway'' (gw_meta g)
       (newMeta (verificationJobName g (hashOf g s)) (m_namespace (gw_meta g)) (map_of (verificationSelector g))) = Inr m"
    and "g1 = patchedWith g (verifying K (observedGw g))"
    and "getGateway (gwr_client R2) k = Inr g1" and "probeable R2 g s"
    and "jobOf R2 g s = Inr j" and "isJobComplete j"
  shows "(\<exists>dels job. fst (Reconcile_gateway R1 k) = dels @ [CreateJob job, PatchGatewayStatus g (verifying K (observedGw g))] \<and> jb_meta job = m)
     \<and> (\<exists>new. PatchGatewayStatus g1 new \<in> set (fst (Reconcile_gateway R2 k))
       \<and> gws_connectionVerified (gw_status new) = isJobSucceeded j
       \<and> (getGateway (gwr_client R3) k = Inr (patchedWith g1 new) \<and> secretOf R3 g = Inr s
          \<longrightarrow> Reconcile_gateway R3 k = ([], Inr noRequeue)))"
proof -
  obtain js1 js2 where probe: "credentialProblem g s = None" "secretOf R1 g = Inr s" "secretOf R2 g = Inr s"
    "listJobs (gwr_client R1) (m_namespace (gw_meta g)) (verificationSelector g) = Inr js1"
    "listJobs (gwr_client R2) (m_namespace (gw_meta g)) (verificationSelector g) = Inr js2"
    using assms(8,15) by (auto simp: probeable_def)
  have "\<exists>dels job. fst (Reconcile_gateway R1 k) = dels @ [CreateJob job, PatchGatewayStatus g (verifying K (observedGw g))] \<and> jb_meta job = m"
    using probe_started[of R1 g s js1 e m] assms probe by (auto simp: Reconcile_gateway_def verificationJob_def)
  moreover define new where "new = judgeJob R2 (observedGw g1) (hashOf g1 s) (verificationJobName g1 (hashOf g1 s)) j"
  have g1: "secretOf R2 g1 = Inr s" "credentialProblem g1 s = None" "hasModelsProbe (gs_provider (gw_spec g1))"
    "jobOf R2 g1 s = Inr j" "verificationSelector g1 = verificationSelector g" "gw_meta g1 = gw_meta g"
    using assms(5,13,16) probe by (simp_all add: verificationSelector_def gatewayLabelValue_def)
  have "\<not> verdictStands (gwr_lib R2) g1 s"
    using not_standing_verifying[of K g s] assms(1,3,5,13) by simp
  with g1 have "PatchGatewayStatus g1 new \<in> set (fst (Reconcile_gateway R2 k))"
    using probe_judged[of R2 g1 s js2 j] assms(14,17) probe by (simp add: new_def Reconcile_gateway_def)
  moreover have "gws_connectionVerified (gw_status new) = isJobSucceeded j"
    using judgeJob_verdict[of R2 "observedGw g1" "hashOf g1 s" "verificationJobName g1 (hashOf g1 s)" j] by (auto simp: new_def)
  moreover have "Reconcile_gateway R3 k = ([], Inr noRequeue)"
    if "getGateway (gwr_client R3) k = Inr (patchedWith g1 new)" "secretOf R3 g = Inr s"
  proof -
    have "verdictStands (gwr_lib R3) (patchedWith g1 new) s"
      using judged_stands[of R2 g1 s "verificationJobName g1 (hashOf g1 s)" j] assms(1,3,4) g1 by (simp add: new_def)
    with that assms(13) probe(1) show ?thesis
      using verifyGateway_cases[of R3 "patchedWith g1 new" s] by (simp add: Reconcile_gateway_def retE_def)
  qed
  ultimately show ?thesis by blast
qed

section \<open>What the probe reports\<close>

definition asciiText :: "string \<Rightarrow> bool" where
  "asciiText s \<longleftrightarrow> (\<forall>c \<in> set s. byte c < 128)"

definition solid :: "string \<Rightarrow> bool" where
  "solid w \<longleftrightarrow> (\<forall>c \<in> set w. byte c < 128 \<and> \<not> isSpaceRune [c])"

lemma runeBytes_ascii: "asciiText s \<Longrightarrow> runeBytes s = map (\<lambda>c. [c]) s"
  by (induction s) (simp_all add: asciiText_def runeBytes.simps(2) runeWidth.simps)

lemma fieldsFrom_solid: "solid w \<Longrightarrow> fieldsFrom cur (map (\<lambda>c. [c]) w @ rs) = fieldsFrom (cur @ w) rs"
  by (induction w arbitrary: cur) (auto simp: solid_def)

lemma space_rune [simp]: "isSpaceRune [CHR '' '']" "isSpaceRune [CHR 0x0A]"
  by (simp_all add: isSpaceRune_def Let_def byte_def)

lemma trimSpace_line:
  assumes "solid a" "solid b" "a \<noteq> []" "b \<noteq> []"
  shows "trimSpace (a @ '' '' @ b @ eol) = a @ '' '' @ b"
proof -
  have asc: "asciiText (a @ '' '' @ b @ eol)" using assms by (auto simp: asciiText_def solid_def eol_def byte_def)
  obtain a0 a' where a: "a = a0 # a'" using assms(3) by (cases a) auto
  obtain b0 b' where b: "b = b' @ [b0]" using assms(4) by (cases b rule: rev_cases) auto
  have "\<not> isSpaceRune [a0]" "\<not> isSpaceRune [b0]" using assms(1,2) a b by (auto simp: solid_def)
  then show ?thesis unfolding trimSpace_def runeBytes_ascii[OF asc] by (simp add: a b eol_def Let_def rev_map concat_map_singleton)
qed

lemma fields_line:
  assumes "solid a" "solid b" "a \<noteq> []" "b \<noteq> []"
  shows "fieldsOf (a @ '' '' @ b) = [a, b]"
proof -
  have asc: "asciiText (a @ '' '' @ b)" using assms by (auto simp: asciiText_def solid_def byte_def)
  show ?thesis unfolding fieldsOf_def runeBytes_ascii[OF asc]
    using assms fieldsFrom_solid[of b "[]" "[]"] by (simp add: fieldsFrom_solid)
qed

lemma digits_solid: "list_all isDigit w \<Longrightarrow> solid w"
proof -
  have "byte c < 128 \<and> \<not> isSpaceRune [c]" if "isDigit c" for c
    using that by (auto simp: isDigit_def isSpaceRune_def Let_def byte_def)
  then show "list_all isDigit w \<Longrightarrow> solid w" by (auto simp: list_all_iff solid_def)
qed

lemma solid_append [simp]: "solid (a @ b) \<longleftrightarrow> solid a \<and> solid b"
  by (auto simp: solid_def)

lemma solid_words: "solid ''ok''" "solid ''auth''" "solid ''http''" "solid ''unreachable''" "solid ''code=''" "solid ''rc=''"
  by (simp_all add: solid_def isSpaceRune_def Let_def byte_def)

lemma report_fields:
  assumes "list_all isDigit v" and "w \<in> {''ok'', ''auth'', ''http'', ''unreachable''}" and "k \<in> {''code'', ''rc''}"
  shows "fieldsOf (trimSpace (w @ '' '' @ (k @ ''='' @ v) @ eol)) = [w, k @ ''='' @ v]"
    and "diagValue [w, k @ ''='' @ v] k = v"
proof -
  have "solid ''code''" "solid ''rc''" "solid ''=''" by (simp_all add: solid_def isSpaceRune_def Let_def byte_def)
  then have "solid (k @ ''='' @ v)" using assms(1,3) digits_solid[of v] unfolding solid_append by blast
  moreover have "solid w" "w \<noteq> []" using assms(2) solid_words by auto
  ultimately show "fieldsOf (trimSpace (w @ '' '' @ (k @ ''='' @ v) @ eol)) = [w, k @ ''='' @ v]"
    using trimSpace_line[of w "k @ ''='' @ v"] fields_line[of w "k @ ''='' @ v"] by simp
  show "diagValue [w, k @ ''='' @ v] k = v" using assms(2,3) by (auto simp: hasPrefix_def)
qed

lemma reason_of_fields:
  assumes "fieldsOf d = [w, f]" and "diagValue [w, f] ''code'' = c"
  shows "fst (gatewayVerifyReason d ep n ok) = (if ok then ''ConnectionVerified'' else if w = ''auth'' \<and> c \<noteq> [] then ''AuthenticationFailed''
    else if w = ''http'' \<and> c \<noteq> [] then ''ConnectionFailed'' else if w = ''unreachable'' then ''EndpointUnreachable'' else ''ConnectionFailed'')"
  unfolding gatewayVerifyReason_def assms(1) Let_def assms(2) by (simp add: gw_reasons del: diagValue.simps)

text \<open>The controller reads back what the probe wrote. For every exit status of curl and every status code,
  the line the script leaves in the termination log, trimmed and parsed, together with the script's exit
  status gives the reason that fits: reachable for a 2xx answer, authentication failed for 401 and 403 when a
  credential was sent, unreachable with curl's exit status when there was no answer, failed otherwise.\<close>

theorem probe_report_read_back:
  assumes "list_all isDigit code" and "code \<noteq> []" and "runProbe auth rc code = (line, status)"
  shows "fst (gatewayVerifyReason (trimSpace line) endpoint job (status = 0)) =
     (if rc \<noteq> 0 then ''EndpointUnreachable'' else if hd code = CHR ''2'' then ''ConnectionVerified''
      else if auth \<and> code \<in> {''401'', ''403''} then ''AuthenticationFailed'' else ''ConnectionFailed'')"
proof -
  have rc: "list_all isDigit (showDec (int rc))" by (simp add: showDec_digits)
  have two: "hasPrefix code ''2'' \<longleftrightarrow> hd code = CHR ''2''" using assms(2) by (cases code) (auto simp: hasPrefix_def)
  have line: "line = (if rc \<noteq> 0 then ''unreachable'' @ '' '' @ (''rc'' @ ''='' @ showDec (int rc)) @ eol
      else (if hd code = CHR ''2'' then ''ok'' else if auth \<and> code \<in> {''401'', ''403''} then ''auth'' else ''http'')
        @ '' '' @ (''code'' @ ''='' @ code) @ eol)"
    and status: "status = 0 \<longleftrightarrow> rc = 0 \<and> hd code = CHR ''2''"
    using assms(3) two by (auto simp: runProbe_def split: if_splits)
  show ?thesis
  proof (cases "rc = 0")
    case True
    define w where "w = (if hd code = CHR ''2'' then ''ok'' else if auth \<and> code \<in> {''401'', ''403''} then ''auth'' else ''http'')"
    have "fieldsOf (trimSpace line) = [w, ''code'' @ ''='' @ code]" "diagValue [w, ''code'' @ ''='' @ code] ''code'' = code"
      using report_fields[OF assms(1), of w "''code''"] line True by (simp_all add: w_def)
    from reason_of_fields[OF this] show ?thesis using True assms(2) status by (auto simp: w_def)
  next
    case False
    have "fieldsOf (trimSpace line) = [''unreachable'', ''rc'' @ ''='' @ showDec (int rc)]"
      using report_fields(1)[OF rc, of "''unreachable''" "''rc''"] line False by simp
    from reason_of_fields[OF this refl] show ?thesis using False status by simp
  qed
qed

section \<open>What the probe runs\<close>

lemma command_three:
  "gatewayVerificationCurlCommand p auth \<in> {gatewayVerificationCurlCommand [] False,
     gatewayVerificationCurlCommand ''openai'' True, gatewayVerificationCurlCommand ''anthropic'' True}"
proof -
  have h: "gatewayVerificationAuthHeader p \<in> {gatewayVerificationAuthHeader ''openai'', gatewayVerificationAuthHeader ''anthropic''}" for p
    by (simp add: gatewayVerificationAuthHeader_def normalizeProvider_def toLower_def lowerRune_def runes.simps(2) runeWidth.simps byte_def
        lowerASCII_def gw_names)
  show ?thesis using h[of p] by (cases auth) (auto simp: gatewayVerificationCurlCommand_def Let_def)
qed

text \<open>No user input reaches the shell. Whatever Gateway is reconciled, the Job it creates runs one of
  three fixed scripts; the endpoint is handed over as the value of an environment variable and the key as a
  reference to the Secret, and it is named as Kubernetes accepts in a label value, runs once, and ends at its
  deadline.\<close>

theorem probe_job_fixed:
  assumes "CreateJob j \<in> set (fst (Reconcile_gateway R k))" and "owner_references (gwr_lib R)"
  shows "\<exists>g. getGateway (gwr_client R) k = Inr g
     \<and> ct_command (jb_container j) \<in> {[''sh'', ''-c'', gatewayVerificationCurlCommand [] False],
          [''sh'', ''-c'', gatewayVerificationCurlCommand ''openai'' True], [''sh'', ''-c'', gatewayVerificationCurlCommand ''anthropic'' True]}
     \<and> ct_args (jb_container j) = [] \<and> (\<forall>v \<in> set (ct_env (jb_container j)).
          v = plainEnv ''LLM_ENDPOINT'' (gs_endpoint (gw_spec g)) \<or> ev_value v = [] \<and> ev_from v \<noteq> None)
     \<and> validVolumeName (m_name (jb_meta j)) \<and> jb_backoffLimit j = 0 \<and> jb_deadline j = 120"
proof -
  obtain g where g: "getGateway (gwr_client R) k = Inr g" and j: "CreateJob j \<in> set (fst (reconcileGateway R g))"
    using assms(1) by (auto simp: Reconcile_gateway_def split: sum.splits if_splits)
  have "\<exists>h m. j = verificationJob R (observedGw g) m \<and> setControllerReference (gwr_lib R) ''Gateway'' (gw_meta g)
      (newMeta (verificationJobName g h) (m_namespace (gw_meta g)) (map_of (verificationSelector g))) = Inr m"
    using j unfolding reconcileGateway_alt
    by (auto simp: verifyGateway_def skipProbe_def probeGateway_def Let_def set_fst_bindE
        split: sum.splits option.splits if_splits dest!: deleteVerificationJobs_calls createVerificationJob_calls) blast+
  then obtain h m where jm: "j = verificationJob R (observedGw g) m" and "setControllerReference (gwr_lib R) ''Gateway'' (gw_meta g)
      (newMeta (verificationJobName g h) (m_namespace (gw_meta g)) (map_of (verificationSelector g))) = Inr m" by blast
  then have "m_name m = verificationJobName g h" using owner_references.owner_frame[OF assms(2)] by (fastforce simp: newMeta_def)
  then have "validVolumeName (m_name (jb_meta j))" 
    by (simp add: jm verificationJob_def verificationJobName_def sanitized_validName verificationJobPrefix_def)
  moreover have "ct_command (jb_container j) \<in> {[''sh'', ''-c'', gatewayVerificationCurlCommand [] False],
          [''sh'', ''-c'', gatewayVerificationCurlCommand ''openai'' True], [''sh'', ''-c'', gatewayVerificationCurlCommand ''anthropic'' True]}"
    using command_three by (auto simp: jm verificationJob_def)
  moreover have "\<forall>v \<in> set (ct_env (jb_container j)). v = plainEnv ''LLM_ENDPOINT'' (gs_endpoint (gw_spec g)) \<or> ev_value v = [] \<and> ev_from v \<noteq> None"
    by (auto simp: jm verificationJob_def verificationEnv_def Let_def)
  ultimately show ?thesis using g by (simp add: jm verificationJob_def verificationDeadline_def)
qed

section \<open>Witnesses\<close>

definition sampleSecret :: secret where
  "sampleSecret = \<lparr>sec_meta = newMeta ''cred'' ''ns'' (\<lambda>_. None), sec_data = [(''token'', ''s3cret''), (''other'', ''x'')]\<rparr>"

definition unsettledGateway :: Gateway where
  "unsettledGateway = sampleGateway\<lparr>gw_status := \<lparr>gws_observedGeneration = 0, gws_connectionVerified = False,
     gws_verifiedCredentialHash = [], gws_conditions = []\<rparr>\<rparr>"

definition doneJob :: job where
  "doneJob = (verificationJob \<lparr>gwr_client = quietClient, gwr_lib = refK, gwr_apiReader = sampleReader, gwr_verificationImage = []\<rparr>
     unsettledGateway (newMeta ''job'' ''ns'' (\<lambda>_. None)))\<lparr>jb_conditions := [(''Complete'', CTrue)]\<rparr>"

definition gwReconciler :: "Gateway \<Rightarrow> goerr + job \<Rightarrow> GatewayReconciler" where
  "gwReconciler g j = \<lparr>gwr_client = quietClient\<lparr>getGateway := (\<lambda>_. Inr g), getSecret := (\<lambda>_. Inr sampleSecret), getJob := (\<lambda>_. j)\<rparr>,
     gwr_lib = refK, gwr_apiReader = sampleReader, gwr_verificationImage = []\<rparr>"

lemma gwReconciler_sel [simp]:
  "gwr_lib (gwReconciler g j) = refK" "getGateway (gwr_client (gwReconciler g j)) k = Inr g"
  "secretOf (gwReconciler g j) h = Inr sampleSecret" "jobOf (gwReconciler g j) h s = j"
  "listJobs (gwr_client (gwReconciler g j)) ns ls = Inr []" "answer (gwr_client (gwReconciler g j)) c = None"
  by (simp_all add: gwReconciler_def secretOf_def jobOf_def quietClient_def)

lemma sample_credential: "credentialProblem unsettledGateway sampleSecret = None"
  by (simp add: credentialProblem_def unsettledGateway_def sampleGateway_def sampleSecret_def Let_def)

lemma sample_probed: "hasModelsProbe (gs_provider (gw_spec unsettledGateway))"
  by (simp add: hasModelsProbe_def unsettledGateway_def sampleGateway_def normalizeProvider_def toLower_def lowerRune_def runes.simps(2)
      runeWidth.simps byte_def lowerASCII_def providersWithoutModelsProbe_def gw_names)

lemma sample_unsettled: "\<not> verdictStands refK unsettledGateway sampleSecret"
  by (simp add: verdictStands_def readyCond_def unsettledGateway_def)

lemma sample_probeable: "probeable (gwReconciler g j) unsettledGateway sampleSecret"
  by (simp add: probeable_def sample_credential)

lemma sample_done: "isJobSucceeded doneJob" "isJobComplete doneJob"
  by (simp_all add: doneJob_def isJobSucceeded_def isJobComplete_def)

lemma sample_judged:
  "\<exists>new. PatchGatewayStatus unsettledGateway new \<in> set (fst (Reconcile_gateway (gwReconciler unsettledGateway (Inr doneJob)) k))
     \<and> gws_connectionVerified (gw_status new)"
proof -
  define R where "R = gwReconciler unsettledGateway (Inr doneJob)"
  have "PatchGatewayStatus unsettledGateway (judgeJob R (observedGw unsettledGateway) (hashOf unsettledGateway sampleSecret)
      (verificationJobName unsettledGateway (hashOf unsettledGateway sampleSecret)) doneJob) \<in> set (fst (reconcileGateway R unsettledGateway))"
    by (rule probe_judged[of R _ _ "[]"]) (simp_all add: R_def sample_credential sample_probed sample_unsettled sample_done)
  moreover have "gws_connectionVerified (gw_status (judgeJob R g h n doneJob))" for g h n
    using judgeJob_verdict[of R g h n doneJob] sample_done by auto
  ultimately show ?thesis by (auto simp: Reconcile_gateway_def R_def)
qed

theorem rotation_detected_witness:
  "credentialHash (gs_credentialRef (gw_spec unsettledGateway)) sampleSecret
     = credentialHash (gs_credentialRef (gw_spec unsettledGateway)) (sampleSecret\<lparr>sec_data := [(''token'', ''s3cret'')]\<rparr>)"
proof -
  define g where "g = unsettledGateway"
  define t where "t = sampleSecret\<lparr>sec_data := [(''token'', ''s3cret'')]\<rparr>"
  have "credentialProblem g t = None" "credentialProblem g sampleSecret = None"
    by (simp_all add: credentialProblem_def unsettledGateway_def sampleGateway_def sampleSecret_def Let_def g_def t_def)
  moreover have "shortFields (credentialFields (gs_credentialRef (gw_spec g)) sampleSecret)"
    "shortFields (credentialFields (gs_credentialRef (gw_spec g)) t)"
    by (simp_all add: shortFields_def credentialFields_def unsettledGateway_def sampleGateway_def sampleSecret_def g_def t_def dataValue_def)
  moreover have "selectedCredential (gs_credentialRef (gw_spec g)) sampleSecret = selectedCredential (gs_credentialRef (gw_spec g)) t"
    by (simp add: selectedCredential_def unsettledGateway_def sampleGateway_def sampleSecret_def g_def t_def restrict_map_def fun_eq_iff)
  ultimately show ?thesis using rotation_detected[OF _ _ refl, of g sampleSecret t] unfolding g_def t_def by blast
qed

theorem verified_means_probed_witness:
  "\<exists>new s j. PatchGatewayStatus unsettledGateway new \<in> set (fst (Reconcile_gateway (gwReconciler unsettledGateway (Inr doneJob)) (''ns'', ''gw'')))
     \<and> jobOf (gwReconciler unsettledGateway (Inr doneJob)) unsettledGateway s = Inr j \<and> isJobSucceeded j"
proof -
  obtain new where new: "PatchGatewayStatus unsettledGateway new \<in> set (fst (Reconcile_gateway (gwReconciler unsettledGateway (Inr doneJob)) (''ns'', ''gw'')))"
    "gws_connectionVerified (gw_status new)" using sample_judged by blast
  have "condition_store (gwr_lib (gwReconciler unsettledGateway (Inr doneJob)))" using refstore.condition_store_axioms by simp
  from verified_means_probed[OF this _ new] new(1) show ?thesis by auto
qed

theorem reachable_gateway_consistent_witness:
  "\<exists>g E. reachableGw refK g E \<and> gws_connectionVerified (gw_status g) \<and> gatewayOK refK g E"
proof -
  obtain new where new: "PatchGatewayStatus unsettledGateway new \<in> set (fst (Reconcile_gateway (gwReconciler unsettledGateway (Inr doneJob)) (''ns'', ''gw'')))"
    "gws_connectionVerified (gw_status new)" using sample_judged by blast
  have "reachableGw refK unsettledGateway {}" by (rule createdGw) (simp_all add: unsettledGateway_def)
  from patchedGw[OF this _ _ new(1)] obtain E where E: "reachableGw refK (unsettledGateway\<lparr>gw_status := gw_status new\<rparr>) E" by auto
  then have "gatewayOK refK (unsettledGateway\<lparr>gw_status := gw_status new\<rparr>) E"
    using reachable_gateway_consistent[OF refstore.condition_store_axioms] by blast
  with E new(2) show ?thesis by force
qed

theorem verdict_stands_iff_quiet_witness:
  "Reconcile_gateway (gwReconciler unsettledGateway notFound) (''ns'', ''gw'') \<noteq> ([], Inr noRequeue)"
proof -
  have "condition_store (gwr_lib (gwReconciler unsettledGateway notFound))" using refstore.condition_store_axioms by simp
  from verdict_stands_iff_quiet[OF this gwReconciler_sel(2) gwReconciler_sel(3) sample_credential] show ?thesis
    using sample_unsettled by simp
qed

theorem gateway_gets_verdict_witness:
  "\<exists>new. PatchGatewayStatus (patchedWith unsettledGateway (verifying refK (observedGw unsettledGateway))) new
       \<in> set (fst (Reconcile_gateway (gwReconciler (patchedWith unsettledGateway (verifying refK (observedGw unsettledGateway))) (Inr doneJob)) (''ns'', ''gw'')))
     \<and> gws_connectionVerified (gw_status new)"
proof -
  define g1 where "g1 = patchedWith unsettledGateway (verifying refK (observedGw unsettledGateway))"
  have nf: "isNotFound \<lparr>ekind = NotFoundE, emsg = Lit ''not found''\<rparr>" by (simp add: isNotFound_def)
  have j: "jobOf (gwReconciler unsettledGateway notFound) unsettledGateway sampleSecret = Inl \<lparr>ekind = NotFoundE, emsg = Lit ''not found''\<rparr>"
    by (simp add: notFound_def)
  have "\<exists>m. setControllerReference refK ''Gateway'' (gw_meta unsettledGateway) x = Inr m" for x by simp
  then obtain m where m: "setControllerReference refK ''Gateway'' (gw_meta unsettledGateway)
      (newMeta (verificationJobName unsettledGateway (hashOf unsettledGateway sampleSecret)) (m_namespace (gw_meta unsettledGateway))
        (map_of (verificationSelector unsettledGateway))) = Inr m" by blast
  from gateway_gets_verdict[OF refstore.condition_store_axioms gwReconciler_sel(1) gwReconciler_sel(1) gwReconciler_sel(1)
      sample_probed sample_unsettled gwReconciler_sel(2) sample_probeable j nf gwReconciler_sel(6) m g1_def gwReconciler_sel(2)
      sample_probeable gwReconciler_sel(4) sample_done(2)]
  show ?thesis unfolding g1_def using sample_done(1) by blast
qed

theorem probe_report_read_back_witness:
  "fst (gatewayVerifyReason (trimSpace (''auth code=401'' @ eol)) ''https://llm'' ''job'' False) = ''AuthenticationFailed''"
  using probe_report_read_back[of "''401''" True 0 "''auth code=401'' @ eol" 1 "''https://llm''" "''job''"]
  by (simp add: isDigit_def runProbe_def hasPrefix_def)

theorem probe_job_fixed_witness:
  "\<exists>j. CreateJob j \<in> set (fst (Reconcile_gateway (gwReconciler unsettledGateway notFound) (''ns'', ''gw'')))
     \<and> validVolumeName (m_name (jb_meta j))"
proof -
  define R where "R = gwReconciler unsettledGateway notFound"
  have nf: "isNotFound \<lparr>ekind = NotFoundE, emsg = Lit ''not found''\<rparr>" by (simp add: isNotFound_def)
  have "\<exists>j. CreateJob j \<in> set (fst (reconcileGateway R unsettledGateway))"
    using probe_started[of R unsettledGateway sampleSecret "[]" "\<lparr>ekind = NotFoundE, emsg = Lit ''not found''\<rparr>"] nf
    by (simp add: R_def sample_credential sample_probed sample_unsettled notFound_def) (metis in_set_conv_decomp)
  then obtain j where j: "CreateJob j \<in> set (fst (Reconcile_gateway R (''ns'', ''gw'')))"
    by (auto simp: Reconcile_gateway_def R_def)
  have "owner_references (gwr_lib R)" using refowners.owner_references_axioms by (simp add: R_def)
  from probe_job_fixed[OF j this] j show ?thesis unfolding R_def by blast
qed

end
