(* ===== verification/SkillCollectionController.thy ===== *)
theory SkillCollectionController
  imports GatewayController AgentController
begin

text \<open>
  The SkillCollection controller (src/internal/controller/skillcollection_controller.go), the
  enumeration of a collection's image by a Job (skillcollection_enumerate.go) and the identity that
  Job runs as (skillcollection_rbac.go).
\<close>

section \<open>Names\<close>

definition enumerationJobPrefix :: string where "enumerationJobPrefix = ''skill-enumerate-''"
definition loaderBinary :: string where "loaderBinary = ''/skill-loader''"
definition enumerationSrcDir :: string where "enumerationSrcDir = ''/src''"
definition materializeSubcommand :: string where "materializeSubcommand = ''materialize''"
definition defaultEnumerationServiceAccount :: string where "defaultEnumerationServiceAccount = ''skill-enumerator''"
definition reasonAllSkillsResolved :: string where "reasonAllSkillsResolved = ''AllSkillsResolved''"
definition reasonEnumerationFailed :: string where "reasonEnumerationFailed = ''EnumerationFailed''"
definition enumerationDeadline :: int where "enumerationDeadline = 10 * 60"
definition rbacRetryInterval :: duration where "rbacRetryInterval = 5 * 60 * second"
definition enumeratorRoleName :: string where "enumeratorRoleName = ''skill-enumerator''"

record SkillCollectionReconciler =
  clr_client :: kclient
  clr_lib :: klib
  clr_enumerationImage :: string
  clr_enumerationServiceAccount :: string

text \<open>A failure the next reconcile would only reproduce (\<open>terminalError\<close>).\<close>

definition terminal :: "string \<Rightarrow> gofmt list \<Rightarrow> goerr" where
  "terminal f as = \<lparr>ekind = TerminalE, emsg = Fmt f as\<rparr>"

definition isTerminal :: "goerr \<Rightarrow> bool" where
  "isTerminal e = (ekind e = TerminalE)"

definition enumerationServiceAccount :: "SkillCollectionReconciler \<Rightarrow> string" where
  "enumerationServiceAccount R = (if clr_enumerationServiceAccount R \<noteq> [] then clr_enumerationServiceAccount R
     else defaultEnumerationServiceAccount)"

definition collectionSelector :: "SkillCollection \<Rightarrow> (string \<times> string) list" where
  "collectionSelector c = [(labelSkillCollection, m_name (col_meta c))]"

definition enumerationJobName :: "SkillCollection \<Rightarrow> string" where
  "enumerationJobName c = sanitizeVolumeName (enumerationJobPrefix @ m_name (col_meta c) @ ''-gen''
     @ formatInt (m_generation (col_meta c)))"

section \<open>The identity of the enumeration Job\<close>

definition mutateAccount :: "labels \<Rightarrow> serviceaccount \<Rightarrow> goerr + serviceaccount" where
  "mutateAccount ls sa = Inr (if m_uid (sa_meta sa) = [] then sa\<lparr>sa_meta := (sa_meta sa)\<lparr>m_labels := ls\<rparr>\<rparr> else sa)"

definition enumeratorRules :: "policyrule list" where
  "enumeratorRules = [\<lparr>pr_apiGroups = [''konveyor.io''], pr_resources = [''skillcards''],
     pr_verbs = [''create'', ''delete'', ''get'', ''list'', ''update'']\<rparr>]"

definition mutateRole :: "labels \<Rightarrow> role \<Rightarrow> goerr + role" where
  "mutateRole ls r = Inr ((if m_uid (ro_meta r) = [] then r\<lparr>ro_meta := (ro_meta r)\<lparr>m_labels := ls\<rparr>\<rparr> else r)\<lparr>ro_rules := enumeratorRules\<rparr>)"

definition mutateBinding :: "labels \<Rightarrow> string \<Rightarrow> string \<Rightarrow> rolebinding \<Rightarrow> goerr + rolebinding" where
  "mutateBinding ls ns account b =
     (let subject = \<lparr>su_kind = ''ServiceAccount'', su_name = account, su_namespace = ns\<rparr> in
      if m_uid (rb_meta b) = [] then
        Inr (b\<lparr>rb_meta := (rb_meta b)\<lparr>m_labels := ls\<rparr>, rb_refKind := ''Role'', rb_refName := enumeratorRoleName, rb_subjects := [subject]\<rparr>)
      else if rb_refKind b \<noteq> ''Role'' \<or> rb_refName b \<noteq> enumeratorRoleName then
        Inl (errorf ''RoleBinding %s/%s already binds %s %q, and roleRef cannot be changed; delete it, or bind %q to Role %q yourself''
          [Lit ns, Lit enumeratorRoleName, Lit (rb_refKind b), Lit (rb_refName b), Lit account, Lit enumeratorRoleName])
      else if subject \<notin> set (rb_subjects b) then Inr (b\<lparr>rb_subjects := rb_subjects b @ [subject]\<rparr>)
      else Inr b)"

definition rbacError :: "string \<Rightarrow> string \<Rightarrow> goerr \<Rightarrow> goerr" where
  "rbacError ns account e =
     (if isForbidden e then wrapf
        (''the controller may not create RBAC in namespace %s, so the enumeration Job has no identity. '' @
         ''Either grant the controller create on serviceaccounts, roles and rolebindings, '' @
         ''or create in %s: a ServiceAccount named %q, a Role named %q granting '' @
         ''create,delete,get,list,update on konveyor.io skillcards, and a RoleBinding named %q binding the two: %w'')
        [Lit ns, Lit ns, Lit account, Lit enumeratorRoleName, Lit enumeratorRoleName] e
      else wrapf ''preparing the enumerator's identity in namespace %s: %w'' [Lit ns] e)"

text \<open>One \<open>CreateOrUpdate\<close>: the object as it stands afterwards is logged.\<close>

definition identityE :: "string \<Rightarrow> string \<Rightarrow> ('a \<Rightarrow> call) \<Rightarrow> goerr + 'a \<Rightarrow> unit act" where
  "identityE ns account mk got = (case got of Inl e \<Rightarrow> failE (rbacError ns account e) | Inr x \<Rightarrow> ([mk x], Inr ()))"

definition ensureEnumeratorRBAC :: "SkillCollectionReconciler \<Rightarrow> string \<Rightarrow> unit act" where
  "ensureEnumeratorRBAC R ns =
     (let ls = map_of [(labelManagedBy, managedByLabel), (labelComponent, enumeratorRoleName)];
          account = enumerationServiceAccount R; C = clr_client R in
      bindE (identityE ns account ApplyServiceAccount (updateAccount C (ns, account) (mutateAccount ls))) (\<lambda>_.
      bindE (identityE ns account ApplyRole (updateRole C (ns, enumeratorRoleName) (mutateRole ls))) (\<lambda>_.
        identityE ns account ApplyRoleBinding (updateBinding C (ns, enumeratorRoleName) (mutateBinding ls ns account)))))"

section \<open>Enumerating an image\<close>

text \<open>The loop over the Jobs of the collection: whether any but the current one is still there.\<close>

fun deleteJobsLoop :: "kclient \<Rightarrow> string \<Rightarrow> job list \<Rightarrow> bool \<Rightarrow> bool act" where
  "deleteJobsLoop C current [] remaining = retE remaining"
| "deleteJobsLoop C current (j # js) remaining =
     (if m_name (jb_meta j) = current then deleteJobsLoop C current js remaining
      else bindE (wrapE ''deleting stale enumeration job %q: %w'' [Lit (m_name (jb_meta j))]
             (deleteJobE C ''Foreground'' (jb_meta j))) (\<lambda>_. deleteJobsLoop C current js True))"

definition deleteStaleEnumerationJobs :: "SkillCollectionReconciler \<Rightarrow> SkillCollection \<Rightarrow> string \<Rightarrow> bool act" where
  "deleteStaleEnumerationJobs R c current =
     bindE (wrapE ''listing enumeration jobs: %w'' [] (liftE (listJobs (clr_client R) (m_namespace (col_meta c)) (collectionSelector c))))
       (\<lambda>jobs. deleteJobsLoop (clr_client R) current jobs False)"

definition dropEnumeratedSkillCards :: "SkillCollectionReconciler \<Rightarrow> SkillCollection \<Rightarrow> SkillCollection act" where
  "dropEnumeratedSkillCards R c =
     (if sls_resolvedSkills (col_status c) = [] then retE c
      else bindE (deleteStaleEnumerationJobs R c []) (\<lambda>_.
        bindE (wrapE ''listing generated SkillCards: %w'' []
          (liftE (listSkillCards (clr_client R) (m_namespace (col_meta c)) (collectionSelector c)))) (\<lambda>cards.
        bindE (forE (\<lambda>card. wrapE ''deleting generated SkillCard %q: %w'' [Lit (m_name (card_meta card))]
          (deleteE (clr_client R) ''SkillCard'' (card_meta card))) cards) (\<lambda>_.
        retE (c\<lparr>col_status := (col_status c)\<lparr>sls_resolvedSkills := []\<rparr>\<rparr>)))))"

definition ownedSkillCards :: "SkillCollectionReconciler \<Rightarrow> SkillCollection \<Rightarrow> goerr + string list" where
  "ownedSkillCards R c = (case listSkillCards (clr_client R) (m_namespace (col_meta c)) (collectionSelector c) of
      Inl e \<Rightarrow> Inl (wrapf ''listing owned SkillCards: %w'' [] e)
    | Inr cards \<Rightarrow> Inr (sort (map (\<lambda>card. m_name (card_meta card)) cards)))"

definition enumerationJob :: "SkillCollectionReconciler \<Rightarrow> SkillCollection \<Rightarrow> string \<Rightarrow> objmeta \<Rightarrow> job" where
  "enumerationJob R c img m = \<lparr>jb_meta = m, jb_backoffLimit = 0, jb_deadline = enumerationDeadline,
     jb_podLabels = map_of (collectionSelector c), jb_restartNever = True,
     jb_serviceAccount = enumerationServiceAccount R, jb_restricted = True,
     jb_container = \<lparr>ct_name = materializeSubcommand, ct_image = clr_enumerationImage R,
       ct_command = [loaderBinary], ct_args = [materializeSubcommand, enumerationSrcDir],
       ct_env = [plainEnv ''KONVEYOR_COLLECTION_NAME'' (m_name (col_meta c)),
         plainEnv ''KONVEYOR_COLLECTION_UID'' (m_uid (col_meta c)),
         plainEnv ''KONVEYOR_NAMESPACE'' (m_namespace (col_meta c)),
         plainEnv ''KONVEYOR_SKILL_IMAGE'' img,
         plainEnv ''KONVEYOR_SKILL_TYPE'' (skillTypeString (sl_type (col_spec c)))],
       ct_envFrom = [], ct_mounts = [\<lparr>vm_name = ''src'', vm_path = enumerationSrcDir, vm_subPath = [], vm_readOnly = True\<rparr>],
       ct_ports = [], ct_readinessTCP = None, ct_termFallbackToLogs = False\<rparr>,
     jb_volumes = [\<lparr>v_name = ''src'', v_source = VImage img\<rparr>], jb_conditions = []\<rparr>"

definition createEnumerationJob :: "SkillCollectionReconciler \<Rightarrow> SkillCollection \<Rightarrow> string \<Rightarrow> string \<Rightarrow> unit act" where
  "createEnumerationJob R c img name =
     (let errs = isValidLabelValue (clr_lib R) (m_name (col_meta c)) in
      if errs \<noteq> [] then failE (terminal
        ''cannot enumerate: the collection name is used as a label value on the cards it owns, and %s'' [Joined ''; '' (map Lit errs)])
      else if clr_enumerationImage R = [] then failE (terminal
        ''no enumeration image configured: set SKILL_LOADER_IMAGE (or ENUMERATION_IMAGE) on the controller to an image carrying /skill-loader'' [])
      else (case setControllerReference (clr_lib R) ''SkillCollection'' (col_meta c)
          (newMeta name (m_namespace (col_meta c)) (map_of ((labelManagedBy, managedByLabel) # collectionSelector c))) of
        Inl e \<Rightarrow> failE (wrapf ''setting owner reference on enumeration job: %w'' [] e)
      | Inr m \<Rightarrow> wrapE ''creating enumeration job: %w'' [] (createE (clr_client R) (CreateJob (enumerationJob R c img m)))))"

text \<open>\<open>None\<close>: the Job has not finished, or its predecessor is still going.\<close>

definition enumerateImage :: "SkillCollectionReconciler \<Rightarrow> SkillCollection \<Rightarrow> string \<Rightarrow> string list option act" where
  "enumerateImage R c img =
     (let name = enumerationJobName c in
      case getJob (clr_client R) (m_namespace (col_meta c), name) of
        Inl e \<Rightarrow> if isNotFound e then
            bindE (deleteStaleEnumerationJobs R c name) (\<lambda>stale.
              if stale then retE None
              else bindE (ensureEnumeratorRBAC R (m_namespace (col_meta c))) (\<lambda>_.
                bindE (createEnumerationJob R c img name) (\<lambda>_. retE None)))
          else failE e
      | Inr j \<Rightarrow>
          if \<not> isJobComplete j then retE None
          else if \<not> isJobSucceeded j then failE (terminal ''enumeration job %s failed; see its logs'' [Lit name])
          else (case ownedSkillCards R c of
              Inl e \<Rightarrow> failE e
            | Inr found \<Rightarrow> if found = []
                then failE (errorf ''enumeration job %s succeeded but none of the SkillCards it wrote are visible yet'' [Lit name])
                else retE (Some found)))"

section \<open>Reconcile\<close>

definition setCollectionReady :: "klib \<Rightarrow> cstatus \<Rightarrow> string \<Rightarrow> gofmt \<Rightarrow> SkillCollection \<Rightarrow> SkillCollection" where
  "setCollectionReady K status reason message c = c\<lparr>col_status := (col_status c)\<lparr>sls_conditions :=
     setCond K (sls_conditions (col_status c)) (mkCond ConditionTypeReady status (m_generation (col_meta c)) reason message)\<rparr>\<rparr>"

definition patchCollectionStatus :: "SkillCollectionReconciler \<Rightarrow> SkillCollection \<Rightarrow> SkillCollection \<Rightarrow> cresult act" where
  "patchCollectionStatus R c original = bindE (sendE (clr_client R) (PatchCollectionStatus original c)) (\<lambda>_. retE noRequeue)"

text \<open>\<open>enumerateImage\<close> returns its error as a value here: the writes it made before failing stay in the log.\<close>

definition reconcileImageSource :: "SkillCollectionReconciler \<Rightarrow> SkillCollection \<Rightarrow> SkillCollection \<Rightarrow> cresult act" where
  "reconcileImageSource R c original =
     (let K = clr_lib R; img = sl_image (col_spec c); (before, result) = enumerateImage R c img in
      bindE (before, Inr ()) (\<lambda>_. case result of
        Inl e \<Rightarrow>
          bindE (patchCollectionStatus R (setCollectionReady K CFalse reasonEnumerationFailed (emsg e) c) original) (\<lambda>_.
            if isForbidden e then retE (requeueIn rbacRetryInterval)
            else if isTerminal e then retE noRequeue
            else failE e)
      | Inr None \<Rightarrow> patchCollectionStatus R (setCollectionReady K CFalse ''Enumerating'' (Fmt ''Reading the skills in %s'' [Lit img]) c) original
      | Inr (Some found) \<Rightarrow> patchCollectionStatus R (setCollectionReady K CTrue reasonAllSkillsResolved
          (Fmt ''Enumerated %d skills from %s'' [Num (int (length found)), Lit img])
          (c\<lparr>col_status := (col_status c)\<lparr>sls_resolvedSkills := found\<rparr>\<rparr>)) original))"

definition checkSkillCardRef :: "SkillCollectionReconciler \<Rightarrow> string \<Rightarrow> SkillCollectionSkillRef \<Rightarrow> gofmt option" where
  "checkSkillCardRef R ns ref = (case getSkillCard (clr_client R) (ns, sr_skillCardRef ref) of
      Inl e \<Rightarrow> if isNotFound e then Some (Fmt ''skill %q: SkillCard %q not found'' [Lit (sr_name ref), Lit (sr_skillCardRef ref)])
        else Some (Fmt ''skill %q: error fetching SkillCard %q: %v'' [Lit (sr_name ref), Lit (sr_skillCardRef ref), emsg e])
    | Inr sc \<Rightarrow> if isReady (clr_lib R) (scs_conditions (card_status sc)) then None
        else Some (Fmt ''skill %q: SkillCard %q is not Ready'' [Lit (sr_name ref), Lit (sr_skillCardRef ref)]))"

definition skillProblem :: "SkillCollectionReconciler \<Rightarrow> string \<Rightarrow> SkillCollectionSkillRef \<Rightarrow> gofmt option" where
  "skillProblem R ns ref =
     (if sr_skillCardRef ref \<noteq> [] then checkSkillCardRef R ns ref
      else if sr_image ref \<noteq> [] then None
      else if sr_source ref \<noteq> [] then None
      else Some (Fmt ''skill %q: no source configured'' [Lit (sr_name ref)]))"

definition collectionStatusFor :: "SkillCollectionReconciler \<Rightarrow> SkillCollection \<Rightarrow> SkillCollection" where
  "collectionStatusFor R c =
     (let K = clr_lib R; skills = sl_skills (col_spec c); total = int (length skills);
          reasons = List.map_filter (skillProblem R (m_namespace (col_meta c))) skills;
          readyCount = total - int (length reasons) in
      if skills = [] then setCollectionReady K CFalse ''NoSkills'' (Lit ''Collection has no skills'') c
      else if readyCount = total then
        setCollectionReady K CTrue reasonAllSkillsResolved (Fmt ''All %d skills resolved'' [Num total]) c
      else setCollectionReady K CFalse ''SkillsNotReady''
        (let message = Fmt ''%d of %d skills resolved'' [Num readyCount, Num total] in
         if reasons \<noteq> [] then Fmt ''%s: %s'' [message, Joined ''; '' reasons] else message) c)"

definition Reconcile_collection :: "SkillCollectionReconciler \<Rightarrow> key \<Rightarrow> cresult act" where
  "Reconcile_collection R k = (case getSkillCollection (clr_client R) k of
      Inl e \<Rightarrow> if isNotFound e then retE noRequeue else failE e
    | Inr original \<Rightarrow>
        (let c = original\<lparr>col_status := (col_status original)\<lparr>sls_observedGeneration := m_generation (col_meta original)\<rparr>\<rparr> in
         if sl_image (col_spec c) \<noteq> [] then reconcileImageSource R c original
         else bindE (dropEnumeratedSkillCards R c) (\<lambda>c'. patchCollectionStatus R (collectionStatusFor R c') original)))"

definition extractSkillCardRefs :: "SkillCollection \<Rightarrow> string list" where
  "extractSkillCardRefs c = filter (\<lambda>r. r \<noteq> []) (map sr_skillCardRef (sl_skills (col_spec c)))"

definition findCollectionsForSkillCard :: "SkillCollectionReconciler \<Rightarrow> SkillCard \<Rightarrow> key list" where
  "findCollectionsForSkillCard R sc =
     (case listCollectionsForCard (clr_client R) (m_namespace (card_meta sc)) (m_name (card_meta sc)) of
        Inl e \<Rightarrow> []
      | Inr cs \<Rightarrow> map (\<lambda>c. keyOf (col_meta c)) cs)"

section \<open>Collections that list their skills\<close>

definition collectionReady :: "klib \<Rightarrow> SkillCollection \<Rightarrow> cstatus option" where
  "collectionReady K c = map_option c_status (findCond K (sls_conditions (col_status c)) ConditionTypeReady)"

lemma setCollectionReady_sel [simp]:
  "col_meta (setCollectionReady K st r m c) = col_meta c" "col_spec (setCollectionReady K st r m c) = col_spec c"
  "sls_resolvedSkills (col_status (setCollectionReady K st r m c)) = sls_resolvedSkills (col_status c)"
  "sls_observedGeneration (col_status (setCollectionReady K st r m c)) = sls_observedGeneration (col_status c)"
  by (simp_all add: setCollectionReady_def)

lemma collectionReady_set: "condition_store K \<Longrightarrow> collectionReady K (setCollectionReady K st r m c) = Some st"
  by (simp add: collectionReady_def setCollectionReady_def condition_store.find_mkCond)

text \<open>A skill that can be delivered: a SkillCard that exists and is Ready, an image, or a repository.\<close>

definition resolvable :: "SkillCollectionReconciler \<Rightarrow> string \<Rightarrow> SkillCollectionSkillRef \<Rightarrow> bool" where
  "resolvable R ns ref \<longleftrightarrow>
     (if sr_skillCardRef ref \<noteq> [] then (\<exists>sc. getSkillCard (clr_client R) (ns, sr_skillCardRef ref) = Inr sc
        \<and> isReady (clr_lib R) (scs_conditions (card_status sc)))
      else sr_image ref \<noteq> [] \<or> sr_source ref \<noteq> [])"

lemma skillProblem_None: "skillProblem R ns ref = None \<longleftrightarrow> resolvable R ns ref"
  by (auto simp: skillProblem_def resolvable_def checkSkillCardRef_def split: sum.splits if_splits)

lemma all_ready_count:
  "int (length xs) - int (length (List.map_filter f xs)) = int (length xs) \<longleftrightarrow> list_all (\<lambda>x. f x = None) xs"
  using map_filter_Nil[of f xs] by simp

lemma collectionStatusFor_ready:
  assumes "condition_store (clr_lib R)"
  shows "collectionReady (clr_lib R) (collectionStatusFor R c) = Some (if sl_skills (col_spec c) \<noteq> []
       \<and> list_all (resolvable R (m_namespace (col_meta c))) (sl_skills (col_spec c)) then CTrue else CFalse)"
    and "sls_resolvedSkills (col_status (collectionStatusFor R c)) = sls_resolvedSkills (col_status c)"
  using all_ready_count[of "sl_skills (col_spec c)" "skillProblem R (m_namespace (col_meta c))"]
  by (simp_all add: collectionStatusFor_def Let_def collectionReady_set[OF assms] skillProblem_None)

lemma deleteJobsLoop_all:
  "snd (deleteJobsLoop C cur js r) = Inr rem \<Longrightarrow>
     (\<forall>j \<in> set js. m_name (jb_meta j) \<noteq> cur \<longrightarrow> DeleteJob ''Foreground'' (jb_meta j) \<in> set (fst (deleteJobsLoop C cur js r)))
     \<and> (rem \<longleftrightarrow> r \<or> (\<exists>j \<in> set js. m_name (jb_meta j) \<noteq> cur))"
proof (induction js arbitrary: r)
  case (Cons j js)
  show ?case
  proof (cases "m_name (jb_meta j) = cur")
    case True
    with Cons show ?thesis by auto
  next
    case False
    with Cons.prems have "snd (deleteJobsLoop C cur js True) = Inr rem" by (auto simp: snd_bindE_Inr)
    from Cons.IH[OF this] False Cons.prems show ?thesis by (auto simp: set_fst_bindE snd_bindE_Inr)
  qed
qed simp

lemma deleteJobsLoop_calls:
  "c \<in> set (fst (deleteJobsLoop C cur js r)) \<Longrightarrow> \<exists>j \<in> set js. m_name (jb_meta j) \<noteq> cur \<and> c = DeleteJob ''Foreground'' (jb_meta j)"
  by (induction js arbitrary: r) (auto simp: set_fst_bindE split: if_splits)

lemma dropEnumerated_ok:
  assumes "snd (dropEnumeratedSkillCards R c) = Inr c'"
  shows "c' = c\<lparr>col_status := (col_status c)\<lparr>sls_resolvedSkills := []\<rparr>\<rparr>"
    and "sls_resolvedSkills (col_status c) \<noteq> [] \<Longrightarrow>
      \<exists>js cards. listJobs (clr_client R) (m_namespace (col_meta c)) (collectionSelector c) = Inr js
        \<and> listSkillCards (clr_client R) (m_namespace (col_meta c)) (collectionSelector c) = Inr cards
        \<and> (\<forall>j \<in> set js. m_name (jb_meta j) \<noteq> [] \<longrightarrow> DeleteJob ''Foreground'' (jb_meta j) \<in> set (fst (dropEnumeratedSkillCards R c)))
        \<and> (\<forall>sc \<in> set cards. DeleteObject ''SkillCard'' (card_meta sc) \<in> set (fst (dropEnumeratedSkillCards R c)))"
proof -
  show "c' = c\<lparr>col_status := (col_status c)\<lparr>sls_resolvedSkills := []\<rparr>\<rparr>"
    using assms by (auto simp: dropEnumeratedSkillCards_def snd_bindE_Inr split: if_splits)
next
  assume ne: "sls_resolvedSkills (col_status c) \<noteq> []"
  with assms obtain js rem cards where js: "listJobs (clr_client R) (m_namespace (col_meta c)) (collectionSelector c) = Inr js"
    "snd (deleteJobsLoop (clr_client R) [] js False) = Inr rem"
    and cards: "listSkillCards (clr_client R) (m_namespace (col_meta c)) (collectionSelector c) = Inr cards"
    "snd (forE (\<lambda>sc. wrapE ''deleting generated SkillCard %q: %w'' [Lit (m_name (card_meta sc))] (deleteE (clr_client R) ''SkillCard'' (card_meta sc))) cards) = Inr ()"
    by (auto simp: dropEnumeratedSkillCards_def deleteStaleEnumerationJobs_def snd_bindE_Inr)
  have log: "set (fst (deleteJobsLoop (clr_client R) [] js False)) \<subseteq> set (fst (dropEnumeratedSkillCards R c))"
    "set (fst (forE (\<lambda>sc. wrapE ''deleting generated SkillCard %q: %w'' [Lit (m_name (card_meta sc))] (deleteE (clr_client R) ''SkillCard'' (card_meta sc))) cards))
       \<subseteq> set (fst (dropEnumeratedSkillCards R c))"
    using ne js cards by (auto simp: dropEnumeratedSkillCards_def deleteStaleEnumerationJobs_def set_fst_bindE snd_bindE_Inr)
  have "\<forall>j \<in> set js. m_name (jb_meta j) \<noteq> [] \<longrightarrow> DeleteJob ''Foreground'' (jb_meta j) \<in> set (fst (dropEnumeratedSkillCards R c))"
    using deleteJobsLoop_all[OF js(2)] log(1) by blast
  moreover have "\<forall>sc \<in> set cards. DeleteObject ''SkillCard'' (card_meta sc) \<in> set (fst (dropEnumeratedSkillCards R c))"
    using forE_complete[OF cards(2)] log(2) by fastforce
  ultimately show "\<exists>js cards. listJobs (clr_client R) (m_namespace (col_meta c)) (collectionSelector c) = Inr js
        \<and> listSkillCards (clr_client R) (m_namespace (col_meta c)) (collectionSelector c) = Inr cards
        \<and> (\<forall>j \<in> set js. m_name (jb_meta j) \<noteq> [] \<longrightarrow> DeleteJob ''Foreground'' (jb_meta j) \<in> set (fst (dropEnumeratedSkillCards R c)))
        \<and> (\<forall>sc \<in> set cards. DeleteObject ''SkillCard'' (card_meta sc) \<in> set (fst (dropEnumeratedSkillCards R c)))"
    using js(1) cards(1) by blast
qed

lemma patchCollectionStatus_log [simp]: "fst (patchCollectionStatus R c o') = [PatchCollectionStatus o' c]"
  by (simp add: patchCollectionStatus_def bindE_def split: sum.split)

definition observedCol :: "SkillCollection \<Rightarrow> SkillCollection" where
  "observedCol c = c\<lparr>col_status := (col_status c)\<lparr>sls_observedGeneration := m_generation (col_meta c)\<rparr>\<rparr>"

lemma observedCol_sel [simp]:
  "col_meta (observedCol c) = col_meta c" "col_spec (observedCol c) = col_spec c"
  "sls_resolvedSkills (col_status (observedCol c)) = sls_resolvedSkills (col_status c)"
  by (simp_all add: observedCol_def)

lemma observedCol_reads [simp]:
  "enumerationJobName (observedCol c) = enumerationJobName c" "collectionSelector (observedCol c) = collectionSelector c"
  by (simp_all add: enumerationJobName_def collectionSelector_def)

lemma Reconcile_collection_found:
  "getSkillCollection (clr_client R) k = Inr c \<Longrightarrow> Reconcile_collection R k =
     (if sl_image (col_spec c) \<noteq> [] then reconcileImageSource R (observedCol c) c
      else bindE (dropEnumeratedSkillCards R (observedCol c)) (\<lambda>c'. patchCollectionStatus R (collectionStatusFor R c') c))"
  unfolding Reconcile_collection_def Let_def observedCol_def[symmetric] by simp

text \<open>A collection that lists its skills. A reconcile that succeeds reports the collection Ready exactly
  when it lists at least one skill and every one can be delivered, records no enumerated skills, and, when
  it still had some from an image it no longer names, has deleted every enumeration Job and every generated
  SkillCard of the collection.\<close>

theorem listed_collection_status:
  assumes "condition_store (clr_lib R)" and "getSkillCollection (clr_client R) k = Inr c"
    and "sl_image (col_spec c) = []" and "snd (Reconcile_collection R k) = Inr res"
  shows "\<exists>new. PatchCollectionStatus c new \<in> set (fst (Reconcile_collection R k))
     \<and> collectionReady (clr_lib R) new = Some (if sl_skills (col_spec c) \<noteq> []
          \<and> list_all (resolvable R (m_namespace (col_meta c))) (sl_skills (col_spec c)) then CTrue else CFalse)
     \<and> sls_resolvedSkills (col_status new) = []
     \<and> (sls_resolvedSkills (col_status c) \<noteq> [] \<longrightarrow>
          (\<exists>js cards. listJobs (clr_client R) (m_namespace (col_meta c)) (collectionSelector c) = Inr js
             \<and> listSkillCards (clr_client R) (m_namespace (col_meta c)) (collectionSelector c) = Inr cards
             \<and> (\<forall>j \<in> set js. m_name (jb_meta j) \<noteq> [] \<longrightarrow> DeleteJob ''Foreground'' (jb_meta j) \<in> set (fst (Reconcile_collection R k)))
             \<and> (\<forall>sc \<in> set cards. DeleteObject ''SkillCard'' (card_meta sc) \<in> set (fst (Reconcile_collection R k)))))"
proof -
  note R = Reconcile_collection_found[OF assms(2)]
  obtain c' where d: "snd (dropEnumeratedSkillCards R (observedCol c)) = Inr c'"
    using assms(3,4) R by (auto simp: snd_bindE_Inr)
  have c': "col_spec c' = col_spec c" "col_meta c' = col_meta c" "sls_resolvedSkills (col_status c') = []"
    using dropEnumerated_ok(1)[OF d] by simp_all
  define new where "new = collectionStatusFor R c'"
  have log: "set (fst (dropEnumeratedSkillCards R (observedCol c))) \<subseteq> set (fst (Reconcile_collection R k))"
    "PatchCollectionStatus c new \<in> set (fst (Reconcile_collection R k))"
    using assms(3) d R by (auto simp: set_fst_bindE new_def)
  have "collectionReady (clr_lib R) new = Some (if sl_skills (col_spec c) \<noteq> []
      \<and> list_all (resolvable R (m_namespace (col_meta c))) (sl_skills (col_spec c)) then CTrue else CFalse)"
    "sls_resolvedSkills (col_status new) = []"
    using collectionStatusFor_ready[OF assms(1), of c'] c' by (simp_all add: new_def)
  moreover have "sls_resolvedSkills (col_status c) \<noteq> [] \<longrightarrow>
      (\<exists>js cards. listJobs (clr_client R) (m_namespace (col_meta c)) (collectionSelector c) = Inr js
         \<and> listSkillCards (clr_client R) (m_namespace (col_meta c)) (collectionSelector c) = Inr cards
         \<and> (\<forall>j \<in> set js. m_name (jb_meta j) \<noteq> [] \<longrightarrow> DeleteJob ''Foreground'' (jb_meta j) \<in> set (fst (Reconcile_collection R k)))
         \<and> (\<forall>sc \<in> set cards. DeleteObject ''SkillCard'' (card_meta sc) \<in> set (fst (Reconcile_collection R k))))"
    using dropEnumerated_ok(2)[OF d] log(1) unfolding observedCol_sel observedCol_reads by blast
  ultimately show ?thesis using log(2) by blast
qed

section \<open>Collections that name an image\<close>

lemma imageSource_log:
  "c \<in> set (fst (reconcileImageSource R col o')) \<longleftrightarrow>
     c \<in> set (fst (enumerateImage R col (sl_image (col_spec col))))
     \<or> (\<exists>new. c = PatchCollectionStatus o' new \<and> (case snd (enumerateImage R col (sl_image (col_spec col))) of
          Inl e \<Rightarrow> new = setCollectionReady (clr_lib R) CFalse reasonEnumerationFailed (emsg e) col
        | Inr None \<Rightarrow> new = setCollectionReady (clr_lib R) CFalse ''Enumerating'' (Fmt ''Reading the skills in %s'' [Lit (sl_image (col_spec col))]) col
        | Inr (Some found) \<Rightarrow> new = setCollectionReady (clr_lib R) CTrue reasonAllSkillsResolved
            (Fmt ''Enumerated %d skills from %s'' [Num (int (length found)), Lit (sl_image (col_spec col))])
            (col\<lparr>col_status := (col_status col)\<lparr>sls_resolvedSkills := found\<rparr>\<rparr>)))"
  unfolding reconcileImageSource_def Let_def
  by (cases "enumerateImage R col (sl_image (col_spec col))")
    (auto simp: set_fst_bindE split: sum.splits option.splits if_splits)

lemma createEnumerationJob_calls:
  assumes "x \<in> set (fst (createEnumerationJob R c img name))"
  shows "\<exists>m. x = CreateJob (enumerationJob R c img m) \<and> isValidLabelValue (clr_lib R) (m_name (col_meta c)) = []
    \<and> clr_enumerationImage R \<noteq> [] \<and> setControllerReference (clr_lib R) ''SkillCollection'' (col_meta c)
       (newMeta name (m_namespace (col_meta c)) (map_of ((labelManagedBy, managedByLabel) # collectionSelector c))) = Inr m"
  using assms by (auto simp: createEnumerationJob_def Let_def split: if_splits sum.splits)

definition isIdentity :: "call \<Rightarrow> bool" where
  "isIdentity x \<longleftrightarrow> (\<exists>a. x = ApplyServiceAccount a) \<or> (\<exists>r. x = ApplyRole r) \<or> (\<exists>b. x = ApplyRoleBinding b)"

lemma ensureEnumeratorRBAC_calls:
  "x \<in> set (fst (ensureEnumeratorRBAC R ns)) \<Longrightarrow> isIdentity x"
  by (auto simp: ensureEnumeratorRBAC_def Let_def set_fst_bindE identityE_def isIdentity_def split: sum.splits)

lemma ensureEnumeratorRBAC_ok:
  "snd (ensureEnumeratorRBAC R ns) = Inr () \<Longrightarrow>
   \<exists>a r b. fst (ensureEnumeratorRBAC R ns) = [ApplyServiceAccount a, ApplyRole r, ApplyRoleBinding b]"
  by (auto simp: ensureEnumeratorRBAC_def Let_def bindE_def identityE_def split: sum.splits)

text \<open>The writes of an enumeration: stale Jobs deleted, or the identity prepared and the Job created.\<close>

lemma enumerateImage_calls:
  assumes "x \<in> set (fst (enumerateImage R c img))"
  shows "\<exists>e js rem. getJob (clr_client R) (m_namespace (col_meta c), enumerationJobName c) = Inl e \<and> isNotFound e
    \<and> listJobs (clr_client R) (m_namespace (col_meta c)) (collectionSelector c) = Inr js
    \<and> ((\<exists>j \<in> set js. m_name (jb_meta j) \<noteq> enumerationJobName c \<and> x = DeleteJob ''Foreground'' (jb_meta j))
       \<or> (\<forall>j \<in> set js. m_name (jb_meta j) = enumerationJobName c)
          \<and> (isIdentity x
             \<or> snd (ensureEnumeratorRBAC R (m_namespace (col_meta c))) = Inr ()
               \<and> x \<in> set (fst (createEnumerationJob R c img (enumerationJobName c)))))"
proof -
  obtain e where e: "getJob (clr_client R) (m_namespace (col_meta c), enumerationJobName c) = Inl e" "isNotFound e"
    using assms by (auto simp: enumerateImage_def Let_def split: sum.splits if_splits)
  have "\<exists>js. listJobs (clr_client R) (m_namespace (col_meta c)) (collectionSelector c) = Inr js"
    using assms e by (auto simp: enumerateImage_def Let_def deleteStaleEnumerationJobs_def set_fst_bindE snd_bindE_Inr)
  then obtain js where js: "listJobs (clr_client R) (m_namespace (col_meta c)) (collectionSelector c) = Inr js" by blast
  define d where "d = deleteJobsLoop (clr_client R) (enumerationJobName c) js False"
  have "deleteStaleEnumerationJobs R c (enumerationJobName c) = d"
    by (simp add: deleteStaleEnumerationJobs_def js d_def bindE_def wrapE_def)
  then have "x \<in> set (fst d) \<or> snd d = Inr False \<and> (x \<in> set (fst (ensureEnumeratorRBAC R (m_namespace (col_meta c))))
      \<or> snd (ensureEnumeratorRBAC R (m_namespace (col_meta c))) = Inr () \<and> x \<in> set (fst (createEnumerationJob R c img (enumerationJobName c))))"
    using assms e by (auto simp: enumerateImage_def Let_def set_fst_bindE split: if_splits)
  then show ?thesis
    using e js deleteJobsLoop_calls[of x "clr_client R" "enumerationJobName c" js False]
      deleteJobsLoop_all[of "clr_client R" "enumerationJobName c" js False False] ensureEnumeratorRBAC_calls
    unfolding d_def by blast
qed


text \<open>Enumerations of one collection do not overlap. A Job is created only when none exists for this
  generation and the list of the collection's Jobs holds no Job of another name; the same reconcile has first
  put the Job's identity in place; and the Job mounts and reports the image of the spec, under a valid name
  and the labels its cards are found by.\<close>

theorem single_enumeration:
  assumes "owner_references (clr_lib R)" and "getSkillCollection (clr_client R) k = Inr c"
    and "CreateJob j \<in> set (fst (Reconcile_collection R k))"
  shows "(\<exists>e js. getJob (clr_client R) (m_namespace (col_meta c), enumerationJobName c) = Inl e \<and> isNotFound e
        \<and> listJobs (clr_client R) (m_namespace (col_meta c)) (collectionSelector c) = Inr js
        \<and> (\<forall>j' \<in> set js. m_name (jb_meta j') = enumerationJobName c))
     \<and> (\<exists>a r b. fst (ensureEnumeratorRBAC R (m_namespace (col_meta c))) = [ApplyServiceAccount a, ApplyRole r, ApplyRoleBinding b])
     \<and> jb_volumes j = [\<lparr>v_name = ''src'', v_source = VImage (sl_image (col_spec c))\<rparr>]
     \<and> plainEnv ''KONVEYOR_SKILL_IMAGE'' (sl_image (col_spec c)) \<in> set (ct_env (jb_container j))
     \<and> m_name (jb_meta j) = enumerationJobName c \<and> validVolumeName (m_name (jb_meta j))
     \<and> m_labels (jb_meta j) labelSkillCollection = Some (m_name (col_meta c))"
proof -
  note R = Reconcile_collection_found[OF assms(2)]
  have img: "sl_image (col_spec c) \<noteq> []"
  proof
    assume "sl_image (col_spec c) = []"
    then have "CreateJob j \<in> set (fst (dropEnumeratedSkillCards R (observedCol c)))"
      using assms(3) R by (auto simp: set_fst_bindE)
    then show False
      by (auto simp: dropEnumeratedSkillCards_def deleteStaleEnumerationJobs_def set_fst_bindE
          split: if_splits dest!: deleteJobsLoop_calls forE_calls)
  qed
  then have "CreateJob j \<in> set (fst (enumerateImage R (observedCol c) (sl_image (col_spec c))))"
    using assms(3) R by (auto simp: imageSource_log)
  from enumerateImage_calls[OF this] obtain e js where g: "getJob (clr_client R) (m_namespace (col_meta c), enumerationJobName c) = Inl e" "isNotFound e"
    "listJobs (clr_client R) (m_namespace (col_meta c)) (collectionSelector c) = Inr js" "\<forall>j' \<in> set js. m_name (jb_meta j') = enumerationJobName c"
    and rb: "snd (ensureEnumeratorRBAC R (m_namespace (col_meta c))) = Inr ()"
    and j: "CreateJob j \<in> set (fst (createEnumerationJob R (observedCol c) (sl_image (col_spec c)) (enumerationJobName c)))"
    by (auto simp: isIdentity_def)
  from createEnumerationJob_calls[OF j] obtain m where m: "j = enumerationJob R (observedCol c) (sl_image (col_spec c)) m"
    "setControllerReference (clr_lib R) ''SkillCollection'' (col_meta c)
       (newMeta (enumerationJobName c) (m_namespace (col_meta c)) (map_of ((labelManagedBy, managedByLabel) # collectionSelector c))) = Inr m"
    by auto
  from owner_references.owner_frame[OF assms(1) m(2)] have "m_name m = enumerationJobName c"
    "m_labels m labelSkillCollection = Some (m_name (col_meta c))"
    by (simp_all add: newMeta_def collectionSelector_def label_names)
  moreover have "validVolumeName (enumerationJobName c)"
    by (simp add: enumerationJobName_def sanitized_validName enumerationJobPrefix_def)
  ultimately show ?thesis using g m(1) ensureEnumeratorRBAC_ok[OF rb] by (auto simp: enumerationJob_def)
qed

text \<open>What a collection leaves behind when it stops naming an image before its first enumeration has
  been recorded: no enumerated skills are recorded yet, so nothing at all is deleted, neither the running Job
  nor the SkillCards it has written or will write, however many carry the collection's label.\<close>

theorem early_switch_leaves_job:
  assumes "getSkillCollection (clr_client R) k = Inr c" and "sl_image (col_spec c) = []"
    and "sls_resolvedSkills (col_status c) = []"
  shows "fst (Reconcile_collection R k) = [PatchCollectionStatus c (collectionStatusFor R (observedCol c))]"
  unfolding Reconcile_collection_found[OF assms(1)] using assms(2,3)
  by (simp add: dropEnumeratedSkillCards_def bindE_def)

section \<open>Witnesses\<close>

definition listedCollection :: SkillCollection where
  "listedCollection = \<lparr>col_meta = newMeta ''col'' ''ns'' (\<lambda>_. None),
     col_spec = \<lparr>sl_version = [], sl_image = [], sl_type = SkillTypeUnset,
       sl_skills = [\<lparr>sr_name = ''a'', sr_skillCardRef = [], sr_image = ''quay.io/a:1'', sr_source = [], sr_ref = [], sr_subPath = [], sr_type = SkillTypeUnset\<rparr>]\<rparr>,
     col_status = \<lparr>sls_observedGeneration = 0, sls_conditions = [], sls_resolvedSkills = [''old'']\<rparr>\<rparr>"

definition imageCollection :: SkillCollection where
  "imageCollection = listedCollection\<lparr>col_spec := (col_spec listedCollection)\<lparr>sl_image := ''quay.io/all:1'', sl_skills := []\<rparr>\<rparr>"

definition colReconciler :: "SkillCollection \<Rightarrow> goerr + job \<Rightarrow> SkillCollectionReconciler" where
  "colReconciler c j = \<lparr>clr_client = quietClient\<lparr>getSkillCollection := (\<lambda>_. Inr c), getJob := (\<lambda>_. j),
       listSkillCards := (\<lambda>_ _. Inr [emptyCard (''ns'', ''col-a'')])\<rparr>,
     clr_lib = refK, clr_enumerationImage = ''loader'', clr_enumerationServiceAccount = []\<rparr>"

lemma colReconciler_sel [simp]:
  "clr_lib (colReconciler c j) = refK" "getSkillCollection (clr_client (colReconciler c j)) k = Inr c"
  "getJob (clr_client (colReconciler c j)) k = j" "listJobs (clr_client (colReconciler c j)) ns ls = Inr []"
  "listSkillCards (clr_client (colReconciler c j)) ns ls = Inr [emptyCard (''ns'', ''col-a'')]"
  "answer (clr_client (colReconciler c j)) x = None" "clr_enumerationImage (colReconciler c j) = ''loader''"
  "updateAccount (clr_client (colReconciler c j)) = updateAccount quietClient" "updateRole (clr_client (colReconciler c j)) = updateRole quietClient"
  "updateBinding (clr_client (colReconciler c j)) = updateBinding quietClient"
  by (simp_all add: colReconciler_def quietClient_def)

lemma col_store: "condition_store (clr_lib (colReconciler c j))"
  using refstore.condition_store_axioms by simp

lemma listed_ok: "snd (Reconcile_collection (colReconciler listedCollection notFound) k) = Inr noRequeue"
proof -
  have "\<exists>c'. snd (dropEnumeratedSkillCards (colReconciler listedCollection notFound) (observedCol listedCollection)) = Inr c'"
    by (simp add: dropEnumeratedSkillCards_def deleteStaleEnumerationJobs_def bindE_def wrapE_def deleteE_def)
  moreover have "snd (patchCollectionStatus (colReconciler listedCollection notFound) c o') = Inr noRequeue" for c o'
    by (simp add: patchCollectionStatus_def sendE_def bindE_def)
  moreover have "sl_image (col_spec listedCollection) = []" by (simp add: listedCollection_def)
  ultimately show ?thesis by (simp add: Reconcile_collection_found[OF colReconciler_sel(2)] snd_bindE_Inr)
qed

theorem listed_collection_status_witness:
  "\<exists>new. PatchCollectionStatus listedCollection new \<in> set (fst (Reconcile_collection (colReconciler listedCollection notFound) (''ns'', ''col'')))
     \<and> collectionReady refK new = Some CTrue
     \<and> DeleteObject ''SkillCard'' (card_meta (emptyCard (''ns'', ''col-a''))) \<in> set (fst (Reconcile_collection (colReconciler listedCollection notFound) (''ns'', ''col'')))"
proof -
  have i: "sl_image (col_spec listedCollection) = []" and r: "sls_resolvedSkills (col_status listedCollection) \<noteq> []"
    and s: "sl_skills (col_spec listedCollection) \<noteq> []"
    and a: "list_all (resolvable (colReconciler listedCollection notFound) (m_namespace (col_meta listedCollection))) (sl_skills (col_spec listedCollection))"
    by (simp_all add: listedCollection_def resolvable_def)
  from listed_collection_status[OF col_store colReconciler_sel(2) i listed_ok] show ?thesis using r s a by auto
qed

lemma enumerated:
  "PatchCollectionStatus imageCollection (setCollectionReady refK CTrue reasonAllSkillsResolved
      (Fmt ''Enumerated %d skills from %s'' [Num 1, Lit (sl_image (col_spec imageCollection))])
      ((observedCol imageCollection)\<lparr>col_status := (col_status (observedCol imageCollection))\<lparr>sls_resolvedSkills := [''col-a'']\<rparr>\<rparr>))
   \<in> set (fst (Reconcile_collection (colReconciler imageCollection (Inr doneJob)) k))"
proof -
  have "snd (enumerateImage (colReconciler imageCollection (Inr doneJob)) (observedCol imageCollection) (sl_image (col_spec imageCollection))) = Inr (Some [''col-a''])"
    by (simp add: enumerateImage_def sample_done ownedSkillCards_def emptyCard_def newMeta_def)
  moreover have "sl_image (col_spec imageCollection) \<noteq> []" by (simp add: imageCollection_def)
  ultimately show ?thesis
    using imageSource_log[of _ "colReconciler imageCollection (Inr doneJob)" "observedCol imageCollection" imageCollection, unfolded observedCol_sel]
    by (simp add: Reconcile_collection_found[OF colReconciler_sel(2)])
qed


lemma fst_bindE_ret: "fst (bindE m (\<lambda>_. retE x)) = fst m"
  by (simp add: bindE_def split: sum.split)

lemma enumeration_starts:
  "\<exists>j. CreateJob j \<in> set (fst (Reconcile_collection (colReconciler imageCollection notFound) k))"
proof -
  define R where "R = colReconciler imageCollection notFound"
  have sel: "clr_enumerationImage R \<noteq> []" "isValidLabelValue (clr_lib R) (m_name (col_meta imageCollection)) = []"
    by (simp_all add: R_def labelProblems_def imageCollection_def listedCollection_def newMeta_def)
  have getjob: "getJob (clr_client R) n = Inl \<lparr>ekind = NotFoundE, emsg = Lit ''not found''\<rparr>"
    "isNotFound \<lparr>ekind = NotFoundE, emsg = Lit ''not found''\<rparr>" for n
    by (simp_all add: R_def notFound_def isNotFound_def)
  have "snd (ensureEnumeratorRBAC R ns) = Inr ()" for ns
    by (simp add: ensureEnumeratorRBAC_def Let_def bindE_def identityE_def R_def quietClient_def mutateAccount_def mutateRole_def mutateBinding_def newMeta_def)
  moreover have "deleteStaleEnumerationJobs R c n = ([], Inr False)" for c n
    by (simp add: deleteStaleEnumerationJobs_def R_def bindE_def wrapE_def retE_def)
  moreover have "\<exists>j. CreateJob j \<in> set (fst (createEnumerationJob R (observedCol imageCollection) img n))" for img n
    using sel by (simp add: createEnumerationJob_def Let_def) (simp add: R_def)
  ultimately have "\<exists>j. CreateJob j \<in> set (fst (enumerateImage R (observedCol imageCollection) (sl_image (col_spec imageCollection))))"
    using getjob by (simp add: enumerateImage_def Let_def set_fst_bindE fst_bindE_ret) (metis snd_conv)
  moreover have "sl_image (col_spec imageCollection) \<noteq> []" by (simp add: imageCollection_def)
  ultimately show ?thesis
    by (simp add: Reconcile_collection_found[of R, unfolded R_def, OF colReconciler_sel(2)] imageSource_log R_def)
qed

theorem single_enumeration_witness:
  "\<exists>j. CreateJob j \<in> set (fst (Reconcile_collection (colReconciler imageCollection notFound) (''ns'', ''col'')))
     \<and> m_name (jb_meta j) = enumerationJobName imageCollection"
proof -
  obtain j where j: "CreateJob j \<in> set (fst (Reconcile_collection (colReconciler imageCollection notFound) (''ns'', ''col'')))"
    using enumeration_starts by blast
  have "owner_references (clr_lib (colReconciler imageCollection notFound))" using refowners.owner_references_axioms by simp
  from single_enumeration[OF this colReconciler_sel(2) j] j show ?thesis by blast
qed

definition switchedCollection :: SkillCollection where
  "switchedCollection = listedCollection\<lparr>col_status := (col_status listedCollection)\<lparr>sls_resolvedSkills := []\<rparr>\<rparr>"

theorem early_switch_leaves_job_witness:
  "\<exists>j new. listJobs (clr_client ((colReconciler switchedCollection notFound)\<lparr>clr_client := (clr_client (colReconciler switchedCollection notFound))\<lparr>
         listJobs := (\<lambda>_ _. Inr [doneJob])\<rparr>\<rparr>)) ''ns'' [] = Inr [j]
     \<and> fst (Reconcile_collection ((colReconciler switchedCollection notFound)\<lparr>clr_client := (clr_client (colReconciler switchedCollection notFound))\<lparr>
         listJobs := (\<lambda>_ _. Inr [doneJob])\<rparr>\<rparr>) (''ns'', ''col'')) = [PatchCollectionStatus switchedCollection new]"
proof -
  define R where "R = (colReconciler switchedCollection notFound)\<lparr>clr_client := (clr_client (colReconciler switchedCollection notFound))\<lparr>
         listJobs := (\<lambda>_ _. Inr [doneJob])\<rparr>\<rparr>"
  have "getSkillCollection (clr_client R) k = Inr switchedCollection" for k by (simp add: R_def)
  from early_switch_leaves_job[of R, OF this] show ?thesis
    unfolding R_def[symmetric] by (simp add: switchedCollection_def listedCollection_def R_def)
qed

end
