(* ===== verification/SkillFormat.thy ===== *)
theory SkillFormat
  imports Names
begin

text \<open>
  The SKILL.md format (src/api/skill/frontmatter.go): the YAML header between two fence lines, its
  validation, and the body that goes into a prompt. The YAML library is a parameter: what it decodes
  a header into, and the keys it finds there.
\<close>

section \<open>Data\<close>

record Frontmatter =
  fm_name :: string
  fm_description :: string
  fm_extra :: "string list"

text \<open>\<open>yaml.Unmarshal\<close> of a header into the struct (name and description) and into a map (its keys).\<close>

record ylib =
  yamlFields :: "string \<Rightarrow> goerr + (string \<times> string)"
  yamlKeys :: "string \<Rightarrow> goerr + string list"

definition allowedFields :: "string list" where
  "allowedFields = [''name'', ''description'', ''license'', ''compatibility'', ''metadata'', ''allowed-tools'']"

definition maxNameLen :: nat where "maxNameLen = 64"
definition maxDescriptionLen :: nat where "maxDescriptionLen = 1024"
definition fence :: string where "fence = ''---''"
definition bom :: string where "bom = map char_of [239 :: nat, 187, 191]"
definition nl :: char where "nl = CHR 0x0A"

section \<open>Fences\<close>

text \<open>\<open>bytes.TrimRight\<close> of blanks, tabs and carriage returns.\<close>

definition trimLine :: "string \<Rightarrow> string" where
  "trimLine w = rev (dropWhile (\<lambda>c. byte c \<in> {32, 9, 13}) (rev w))"

definition isFence :: "string \<Rightarrow> bool" where
  "isFence w = (trimLine w = fence)"

definition cutOpeningFence :: "string \<Rightarrow> string option" where
  "cutOpeningFence content =
     (let s = (if hasPrefix content bom then drop (length bom) content else content) in
      case dropWhile (\<lambda>c. c \<noteq> nl) s of
        [] \<Rightarrow> None
      | _ # rest \<Rightarrow> if isFence (takeWhile (\<lambda>c. c \<noteq> nl) s) then Some rest else None)"

text \<open>The loop of \<open>findClosingFence\<close>: offset, and what is left from there.\<close>

function fenceFrom :: "nat \<Rightarrow> string \<Rightarrow> nat option" where
  "fenceFrom offset b = (if b = [] then None
     else let w = takeWhile (\<lambda>c. c \<noteq> nl) b in
       if isFence w then Some offset
       else (case dropWhile (\<lambda>c. c \<noteq> nl) b of [] \<Rightarrow> None | _ # rest \<Rightarrow> fenceFrom (offset + length w + 1) rest))"
  by pat_completeness auto
termination
proof (relation "measure (length \<circ> snd)", goal_cases)
  case (2 offset b w c rest)
  have "length (dropWhile (\<lambda>c. c \<noteq> nl) b) \<le> length b" by (rule length_dropWhile_le)
  with 2 show ?case by simp
qed simp

declare fenceFrom.simps [simp del]

definition findClosingFence :: "string \<Rightarrow> nat option" where
  "findClosingFence b = fenceFrom 0 b"

section \<open>Parsing and validation\<close>

definition Parse :: "ylib \<Rightarrow> string \<Rightarrow> goerr + Frontmatter" where
  "Parse Y content = (case cutOpeningFence content of
      None \<Rightarrow> Inl (errorf ''no YAML frontmatter: file does not start with ---'' [])
    | Some rest \<Rightarrow> (case findClosingFence rest of
        None \<Rightarrow> Inl (errorf ''unterminated YAML frontmatter: no closing ---'' [])
      | Some n \<Rightarrow> (case yamlFields Y (take n rest) of
          Inl e \<Rightarrow> Inl (wrapf ''parsing frontmatter: %w'' [] e)
        | Inr (name, description) \<Rightarrow> (case yamlKeys Y (take n rest) of
            Inl e \<Rightarrow> Inl (wrapf ''parsing frontmatter: %w'' [] e)
          | Inr ks \<Rightarrow> Inr \<lparr>fm_name = trimSpace name, fm_description = trimSpace description,
              fm_extra = sort (filter (\<lambda>k. k \<notin> set allowedFields) ks)\<rparr>))))"

definition nameChar :: "char \<Rightarrow> bool" where
  "nameChar c = ((97 \<le> byte c \<and> byte c \<le> 122) \<or> (48 \<le> byte c \<and> byte c \<le> 57))"

definition nameRune :: "string \<Rightarrow> bool" where
  "nameRune r = (case r of [c] \<Rightarrow> nameChar c \<or> c = CHR ''-'' | _ \<Rightarrow> False)"

definition ValidName :: "string \<Rightarrow> goerr option" where
  "ValidName name =
     (if name = [] then Some (errorf ''is empty'' [])
      else if length (runes name) > maxNameLen then
        Some (errorf ''is %d characters, the limit is %d'' [Num (int (length (runes name))), Num (int maxNameLen)])
      else if hd name = CHR ''-'' \<or> last name = CHR ''-'' then Some (errorf ''cannot start or end with a hyphen'' [])
      else if containsStr name ''--'' then Some (errorf ''cannot contain consecutive hyphens'' [])
      else (case find (\<lambda>r. \<not> nameRune r) (runes name) of
          Some r \<Rightarrow> Some (errorf ''contains %q; only lowercase letters, digits and hyphens are allowed'' [Lit r])
        | None \<Rightarrow> None))"

definition Validate :: "Frontmatter \<Rightarrow> goerr option" where
  "Validate fm =
     (let n = length (runes (fm_description fm)) in
      if fm_name fm = [] then Some (errorf ''frontmatter has no name'' [])
      else if fm_description fm = [] then
        Some (errorf ''frontmatter has no description (skill %q would be unselectable)'' [Lit (fm_name fm)])
      else if n > maxDescriptionLen then
        Some (errorf ''skill %q has a description of %d characters, the limit is %d''
          [Lit (fm_name fm), Num (int n), Num (int maxDescriptionLen)])
      else (case ValidName (fm_name fm) of
          Some e \<Rightarrow> Some (wrapf ''skill name %q: %w'' [Lit (fm_name fm)] e)
        | None \<Rightarrow>
            if fm_extra fm \<noteq> [] then
              Some (errorf ''skill %q has frontmatter fields the Agent Skills spec does not define: %s.''
                [Lit (fm_name fm), Joined '', '' (map Lit (fm_extra fm))])
            else None))"

definition ParseAndValidate :: "ylib \<Rightarrow> string \<Rightarrow> goerr + Frontmatter" where
  "ParseAndValidate Y content = (case Parse Y content of
      Inl e \<Rightarrow> Inl e
    | Inr fm \<Rightarrow> (case Validate fm of Some e \<Rightarrow> Inl e | None \<Rightarrow> Inr fm))"

definition Body :: "string \<Rightarrow> string" where
  "Body content = (case cutOpeningFence content of
      None \<Rightarrow> content
    | Some rest \<Rightarrow> (case findClosingFence rest of
        None \<Rightarrow> content
      | Some n \<Rightarrow>
          (let body = (case dropWhile (\<lambda>c. c \<noteq> nl) (drop n rest) of [] \<Rightarrow> [] | _ # b \<Rightarrow> b) in
           dropWhile (\<lambda>c. byte c \<in> {13, 10}) body)))"

section \<open>Names\<close>

lemma runes_length_ascii: "\<forall>c \<in> set s. byte c < 128 \<Longrightarrow> length (runes s) = length s"
  by (simp add: runes_ascii)

text \<open>A rune the check lets through is its byte.\<close>

lemma runes_nameRune: "list_all nameRune (runes s) \<Longrightarrow> \<forall>c \<in> set s. nameChar c \<or> c = CHR ''-''"
proof (induction s rule: runes.induct)
  case (2 c s)
  define k where "k = runeWidth (c # s)"
  show ?case
  proof (cases "k = 0")
    case True
    with 2(3) show ?thesis by (simp add: runes.simps(2) Let_def k_def nameRune_def replacementRune_def)
  next
    case False
    then have r: "runes (c # s) = take k (c # s) # runes (drop k (c # s))"
      by (simp add: runes.simps(2) Let_def k_def)
    with 2(3) have h: "nameRune (take k (c # s))" and t: "list_all nameRune (runes (drop k (c # s)))" by simp_all
    from h have tk: "take k (c # s) = [c]" "nameChar c \<or> c = CHR ''-''"
      using False by (cases k; auto simp: nameRune_def split: list.splits)+
    moreover have "drop k (c # s) = s"
      using tk(1) by (metis append_take_drop_id append_Cons append_Nil list.inject)
    ultimately show ?thesis using 2(2)[OF k_def] False t by simp
  qed
qed simp

lemma nameChar_byte: "nameChar c \<or> c = CHR ''-'' \<Longrightarrow> byte c < 128"
  by (auto simp: nameChar_def byte_def)

lemma containsStr_hyphens:
  "containsStr (c # d # s) ''--'' \<longleftrightarrow> c = CHR ''-'' \<and> d = CHR ''-'' \<or> containsStr (d # s) ''--''"
  by (auto simp: hasPrefix_def)

text \<open>The words between hyphens are nonempty exactly when no hyphen leads, trails or follows another.\<close>

lemma hd_splitOn: "hd (splitOn d s) = [] \<longleftrightarrow> s = [] \<or> hd s = d"
  by (cases s) (auto split: list.splits)

lemma tl_splitOn: "tl (splitOn d (c # s)) = (if c = d then splitOn d s else tl (splitOn d s))"
  by (simp split: list.splits)

lemma list_all_hd_tl: "xs \<noteq> [] \<Longrightarrow> list_all P xs \<longleftrightarrow> P (hd xs) \<and> list_all P (tl xs)"
  by (cases xs) auto

lemma hyphen_tail:
  "s \<noteq> [] \<Longrightarrow> list_all (\<lambda>w. w \<noteq> []) (tl (splitOn CHR ''-'' s)) \<longleftrightarrow>
     last s \<noteq> CHR ''-'' \<and> \<not> containsStr s ''--''"
proof (induction s)
  case (Cons c s)
  show ?case
  proof (cases s)
    case Nil
    then show ?thesis by (auto simp: hasPrefix_def)
  next
    case (Cons d t)
    have cs: "containsStr (c # s) ''--'' \<longleftrightarrow> c = CHR ''-'' \<and> d = CHR ''-'' \<or> containsStr s ''--''"
      unfolding Cons by (rule containsStr_hyphens)
    have IH: "list_all (\<lambda>w. w \<noteq> []) (tl (splitOn CHR ''-'' s)) \<longleftrightarrow> last s \<noteq> CHR ''-'' \<and> \<not> containsStr s ''--''"
      using Cons.IH Cons by simp
    have "list_all (\<lambda>w. w \<noteq> []) (splitOn CHR ''-'' s) \<longleftrightarrow> d \<noteq> CHR ''-'' \<and> list_all (\<lambda>w. w \<noteq> []) (tl (splitOn CHR ''-'' s))"
      using list_all_hd_tl[OF splitOn_not_Nil, of "\<lambda>w. w \<noteq> []" "CHR ''-''" s] hd_splitOn[of "CHR ''-''" s] Cons
      by (simp del: splitOn.simps)
    moreover have "last (c # s) = last s" using Cons by simp
    ultimately show ?thesis unfolding tl_splitOn cs using IH by auto
  qed
qed simp

lemma hyphen_words:
  "s \<noteq> [] \<Longrightarrow> list_all (\<lambda>w. w \<noteq> []) (splitOn CHR ''-'' s) \<longleftrightarrow>
     hd s \<noteq> CHR ''-'' \<and> last s \<noteq> CHR ''-'' \<and> \<not> containsStr s ''--''"
  using list_all_hd_tl[OF splitOn_not_Nil, of "\<lambda>w. w \<noteq> []" "CHR ''-''" s] hd_splitOn[of "CHR ''-''" s] hyphen_tail[of s]
  by simp

lemma set_splitOn: "set s \<subseteq> A \<union> {d} \<longleftrightarrow> (\<forall>w \<in> set (splitOn d s). set w \<subseteq> A \<union> {d})"
proof (induction s)
  case (Cons c s)
  obtain w ws where "splitOn d s = w # ws" using splitOn_not_Nil by (metis list.exhaust)
  with Cons show ?case by auto
qed simp

text \<open>The naming rule in one line. A name is accepted exactly when it is at most 64 characters of
  nonempty words of lowercase letters and digits, joined by single hyphens.\<close>

theorem ValidName_iff:
  "ValidName name = None \<longleftrightarrow> length name \<le> 64
     \<and> list_all (\<lambda>w. w \<noteq> [] \<and> list_all nameChar w) (splitOn CHR ''-'' name)"
proof (cases "name = []")
  case False
  define chars where "chars \<longleftrightarrow> (\<forall>c \<in> set name. nameChar c \<or> c = CHR ''-'')"
  have runes: "list_all nameRune (runes name) \<longleftrightarrow> chars"
  proof
    assume chars
    then have "\<forall>c \<in> set name. byte c < 128" using nameChar_byte by (auto simp: chars_def)
    then have "runes name = map (\<lambda>c. [c]) name" by (rule runes_ascii)
    with \<open>chars\<close> show "list_all nameRune (runes name)" by (auto simp: chars_def list_all_iff nameRune_def)
  qed (simp add: chars_def runes_nameRune)
  have len: "chars \<Longrightarrow> length (runes name) = length name"
    by (rule runes_length_ascii) (auto simp: chars_def nameChar_byte)
  have words: "chars \<longleftrightarrow> (\<forall>w \<in> set (splitOn CHR ''-'' name). list_all nameChar w)"
  proof -
    have "chars \<longleftrightarrow> set name \<subseteq> {c. nameChar c} \<union> {CHR ''-''}" by (auto simp: chars_def)
    also have "\<dots> \<longleftrightarrow> (\<forall>w \<in> set (splitOn CHR ''-'' name). set w \<subseteq> {c. nameChar c} \<union> {CHR ''-''})"
      by (rule set_splitOn)
    also have "\<dots> \<longleftrightarrow> (\<forall>w \<in> set (splitOn CHR ''-'' name). list_all nameChar w)"
      by (intro ball_cong refl) (use splitOn_no_sep[of _ "CHR ''-''" name] in \<open>auto simp: list_all_iff\<close>)
    finally show ?thesis .
  qed
  have "ValidName name = None \<longleftrightarrow> length (runes name) \<le> 64 \<and> hd name \<noteq> CHR ''-'' \<and> last name \<noteq> CHR ''-''
      \<and> \<not> containsStr name ''--'' \<and> list_all nameRune (runes name)"
    using False find_None_iff[of "\<lambda>r. \<not> nameRune r" "runes name"]
    by (cases "find (\<lambda>r. \<not> nameRune r) (runes name)")
      (auto simp: ValidName_def maxNameLen_def list_all_iff dest: find_SomeD)
  also have "\<dots> \<longleftrightarrow> length name \<le> 64 \<and> list_all (\<lambda>w. w \<noteq> []) (splitOn CHR ''-'' name) \<and> chars"
    using hyphen_words[OF False] runes len by auto
  also have "\<dots> \<longleftrightarrow> length name \<le> 64 \<and> list_all (\<lambda>w. w \<noteq> [] \<and> list_all nameChar w) (splitOn CHR ''-'' name)"
    using words by (auto simp: list_all_iff)
  finally show ?thesis .
qed (simp add: ValidName_def)

section \<open>Header and body\<close>

lemma split_at_nl: "s = takeWhile (\<lambda>c. c \<noteq> nl) s @ dropWhile (\<lambda>c. c \<noteq> nl) s"
  by simp

lemma dropWhile_nl: "dropWhile (\<lambda>c. c \<noteq> nl) s = c # rest \<Longrightarrow> c = nl \<and> s = takeWhile (\<lambda>c. c \<noteq> nl) s @ nl # rest"
  using hd_dropWhile[of "\<lambda>c. c \<noteq> nl" s] split_at_nl[of s] by auto

lemma not_isFence_Nil [simp]: "\<not> isFence []"
  by (simp add: isFence_def trimLine_def fence_def)

lemma nl_notin_takeWhile [simp]: "nl \<notin> set (takeWhile (\<lambda>c. c \<noteq> nl) s)"
  by (auto dest: set_takeWhileD)

text \<open>The closing fence: the first line from here that is one.\<close>

lemma fenceFrom_spec:
  "fenceFrom offset b = Some n \<Longrightarrow> \<exists>m. n = offset + m \<and> isFence (takeWhile (\<lambda>c. c \<noteq> nl) (drop m b))
     \<and> list_all (\<lambda>w. \<not> isFence w) (splitOn nl (take m b))"
proof (induction offset b rule: fenceFrom.induct)
  case (1 offset b)
  define w where "w = takeWhile (\<lambda>c. c \<noteq> nl) b"
  from 1(2) have b: "b \<noteq> []" by (auto simp: fenceFrom.simps[of _ b])
  show ?case
  proof (cases "isFence w")
    case True
    with 1(2) b have "n = offset" by (simp add: fenceFrom.simps[of _ b] w_def Let_def)
    with True show ?thesis by (intro exI[of _ 0]) (simp add: w_def)
  next
    case False
    with 1(2) b obtain c rest where d: "dropWhile (\<lambda>c. c \<noteq> nl) b = c # rest"
      and n: "fenceFrom (offset + length w + 1) rest = Some n"
      by (auto simp: fenceFrom.simps[of _ b] w_def Let_def split: list.splits)
    from dropWhile_nl[OF d] have bw: "b = w @ nl # rest" by (simp add: w_def)
    from 1(1)[OF b w_def False[unfolded w_def, folded w_def] d n] obtain m where
      m: "n = offset + length w + 1 + m" "isFence (takeWhile (\<lambda>c. c \<noteq> nl) (drop m rest))"
      "list_all (\<lambda>w. \<not> isFence w) (splitOn nl (take m rest))" by auto
    have "take (length w + 1 + m) b = w @ nl # take m rest" "drop (length w + 1 + m) b = drop m rest"
      by (simp_all add: bw)
    moreover have "nl \<notin> set w" by (simp add: w_def)
    ultimately show ?thesis
      using m False by (intro exI[of _ "length w + 1 + m"]) (simp add: splitOn_append)
  qed
qed

lemma cutOpeningFence_spec:
  assumes "cutOpeningFence content = Some rest"
  shows "\<exists>pre op. pre \<in> {[], bom} \<and> isFence op \<and> content = pre @ op @ nl # rest"
proof -
  define s where "s = (if hasPrefix content bom then drop (length bom) content else content)"
  have pre: "\<exists>pre \<in> {[], bom}. content = pre @ s"
    by (cases "hasPrefix content bom") (auto simp: s_def hasPrefix_iff)
  from assms obtain c where d: "dropWhile (\<lambda>c. c \<noteq> nl) s = c # rest" and f: "isFence (takeWhile (\<lambda>c. c \<noteq> nl) s)"
    by (auto simp: cutOpeningFence_def Let_def s_def split: list.splits if_splits)
  from dropWhile_nl[OF d] have "s = takeWhile (\<lambda>c. c \<noteq> nl) s @ nl # rest" by simp
  with pre f show ?thesis by metis
qed

text \<open>The body of a skill is what follows its header. When a file has a header it is, in this order:
  an optional byte-order mark, the opening fence line, the header that is parsed, none of whose lines
  is a fence, the closing fence line, line ends, and the body, which starts with none.\<close>

theorem body_follows_header:
  assumes "cutOpeningFence content = Some rest" and "findClosingFence rest = Some n"
  shows "\<exists>pre op cl gap. content = pre @ op @ [nl] @ take n rest @ cl @ gap @ Body content
     \<and> pre \<in> {[], bom} \<and> isFence op \<and> isFence cl
     \<and> list_all (\<lambda>w. \<not> isFence w) (splitOn nl (take n rest))
     \<and> list_all (\<lambda>c. byte c \<in> {13, 10}) gap
     \<and> (Body content = [] \<or> byte (hd (Body content)) \<notin> {13, 10})"
proof -
  obtain pre op where op: "pre \<in> {[], bom}" "isFence op" "content = pre @ op @ nl # rest"
    using cutOpeningFence_spec[OF assms(1)] by blast
  have hdr: "isFence (takeWhile (\<lambda>c. c \<noteq> nl) (drop n rest))" "list_all (\<lambda>w. \<not> isFence w) (splitOn nl (take n rest))"
    using fenceFrom_spec[of 0 rest n] assms(2) by (auto simp: findClosingFence_def)
  define t where "t = drop n rest"
  define body where "body = (case dropWhile (\<lambda>c. c \<noteq> nl) t of [] \<Rightarrow> [] | _ # b \<Rightarrow> b)"
  have B: "Body content = dropWhile (\<lambda>c. byte c \<in> {13, 10}) body"
    using assms by (simp add: Body_def body_def t_def Let_def)
  obtain sep where sep: "t = takeWhile (\<lambda>c. c \<noteq> nl) t @ sep @ body" "sep \<in> {[], [nl]}"
  proof (cases "dropWhile (\<lambda>c. c \<noteq> nl) t")
    case Nil
    then have "body = []" "t = takeWhile (\<lambda>c. c \<noteq> nl) t" using split_at_nl[of t] unfolding Nil by (simp_all only: body_def Nil list.case append_Nil2)
    then show ?thesis using that[of "[]"] by simp
  next
    case (Cons c b)
    then show ?thesis using that[of "[nl]"] dropWhile_nl[OF Cons] by (simp add: body_def)
  qed
  define gap where "gap = sep @ takeWhile (\<lambda>c. byte c \<in> {13, 10}) body"
  have "byte nl = 10" by (simp add: nl_def byte_def)
  then have "list_all (\<lambda>c. byte c \<in> {13, 10}) gap"
    using sep(2) by (auto simp: gap_def list_all_iff dest: set_takeWhileD)
  moreover have "t = takeWhile (\<lambda>c. c \<noteq> nl) t @ gap @ Body content"
    using sep(1) by (simp add: gap_def B)
  then have "rest = take n rest @ takeWhile (\<lambda>c. c \<noteq> nl) t @ gap @ Body content"
    by (metis append_take_drop_id t_def)
  then have "content = pre @ op @ [nl] @ take n rest @ takeWhile (\<lambda>c. c \<noteq> nl) t @ gap @ Body content"
    using op(3) by simp
  moreover have "Body content = [] \<or> byte (hd (Body content)) \<notin> {13, 10}"
    unfolding B using hd_dropWhile[of "\<lambda>c. byte c \<in> {13, 10}" body] by blast
  ultimately show ?thesis
    using op hdr by (intro exI[of _ pre] exI[of _ op] exI[of _ "takeWhile (\<lambda>c. c \<noteq> nl) t"] exI[of _ gap])
      (simp add: t_def)
qed

text \<open>A skill file with a quoted fence in its header and blanks on its fence lines.\<close>

definition sampleSkill :: string where
  "sampleSkill = ''--- '' @ [nl] @ ''name: a-b'' @ [nl] @ ''x: ---y'' @ [nl] @ ''---'' @ [nl, nl] @ ''Do it.''"

theorem body_follows_header_witness:
  "cutOpeningFence sampleSkill = Some (drop 5 sampleSkill) \<and> findClosingFence (drop 5 sampleSkill) = Some 18
   \<and> Body sampleSkill = ''Do it.''
   \<and> (\<exists>pre op cl gap. sampleSkill = pre @ op @ [nl] @ take 18 (drop 5 sampleSkill) @ cl @ gap @ Body sampleSkill)"
proof -
  have f: "cutOpeningFence sampleSkill = Some (drop 5 sampleSkill)" by code_simp
  have g: "findClosingFence (drop 5 sampleSkill) = Some 18" by code_simp
  have b: "Body sampleSkill = ''Do it.''" by code_simp
  from body_follows_header[OF f g] show ?thesis using f g b by blast
qed

end
