(* ===== verification/SkillCardController.thy ===== *)
theory SkillCardController
  imports SkillFormat SandboxBuild
begin

text \<open>
  The SkillCard controller (src/internal/controller/skillcard_controller.go, skillfrontmatter.go) and
  its registry check (imageresolve.go). The registry library is a parameter: parsing a reference, and
  the error of a HEAD request, with what the code reads of it.
\<close>

section \<open>Checking an image reference\<close>

datatype imageResolution = imageResolveUnknown | imageResolvePresent | imageResolveMissing

record transportError =
  te_errors :: "(string \<times> string) list" \<comment> \<open>code and message\<close>
  te_status :: int

record headError =
  he_transport :: "transportError option"
  he_message :: gofmt

record registry =
  parseReference :: "string \<Rightarrow> goerr + string"
  headManifest :: "duration \<Rightarrow> string \<Rightarrow> headError option" \<comment> \<open>the timeout of the request, the reference\<close>

record registryImageResolver =
  rir_registry :: registry \<comment> \<open>the library, with the controller's keychain\<close>
  rir_timeout :: duration

definition defaultResolveTimeout :: duration where
  "defaultResolveTimeout = 15 * second"

definition NewRegistryImageResolver :: "registry \<Rightarrow> registryImageResolver" where
  "NewRegistryImageResolver G = \<lparr>rir_registry = G, rir_timeout = defaultResolveTimeout\<rparr>"

definition unknownCodes :: "string list" where
  "unknownCodes = [''MANIFEST_UNKNOWN'', ''NAME_UNKNOWN'']"

definition classifyResolveError :: "string \<Rightarrow> headError \<Rightarrow> imageResolution \<times> gofmt" where
  "classifyResolveError ref err =
     (let unreached = (imageResolveUnknown, Fmt ''could not reach registry to confirm %s: %v'' [Lit ref, he_message err]) in
      case he_transport err of
        None \<Rightarrow> unreached
      | Some te \<Rightarrow> (case find (\<lambda>(code, msg). code \<in> set unknownCodes) (te_errors te) of
          Some (code, msg) \<Rightarrow> (imageResolveMissing, Fmt ''no manifest for %s in its registry: %s'' [Lit ref, Lit msg])
        | None \<Rightarrow>
            if te_status te = 404 then (imageResolveMissing, Fmt ''registry has no manifest for %s (404)'' [Lit ref])
            else if te_status te = 401 \<or> te_status te = 403 then
              (imageResolveUnknown, Fmt ''registry requires credentials the controller does not hold for %s; existence not confirmed'' [Lit ref])
            else unreached))"

definition Resolve :: "registryImageResolver \<Rightarrow> string \<Rightarrow> imageResolution \<times> gofmt" where
  "Resolve G ref = (case parseReference (rir_registry G) ref of
      Inl e \<Rightarrow> (imageResolveMissing, Fmt ''invalid image reference: %v'' [emsg e])
    | Inr parsed \<Rightarrow>
        (let timeout = (if rir_timeout G \<le> 0 then defaultResolveTimeout else rir_timeout G) in
         case headManifest (rir_registry G) timeout parsed of
           Some err \<Rightarrow> classifyResolveError parsed err
         | None \<Rightarrow> (imageResolvePresent, Fmt ''manifest found in registry: %s'' [Lit parsed])))"

section \<open>Reconcile\<close>

record SkillCardReconciler =
  scr_client :: kclient
  scr_lib :: klib
  scr_yaml :: ylib
  scr_resolver :: "(string \<Rightarrow> imageResolution \<times> gofmt) option"

definition resolvableRecheckInterval :: duration where
  "resolvableRecheckInterval = 10 * 60 * second"

definition validateInlineSkill :: "ylib \<Rightarrow> string \<Rightarrow> goerr option" where
  "validateInlineSkill Y content =
     (if trimSpace content = [] then Some (errorf ''inline content is empty'' [])
      else (case ParseAndValidate Y content of
          Inl e \<Rightarrow> Some (wrapf ''inline content is not a valid skill: %w'' [] e)
        | Inr fm \<Rightarrow> None))"

definition setCardCond :: "klib \<Rightarrow> string \<Rightarrow> cstatus \<Rightarrow> string \<Rightarrow> gofmt \<Rightarrow> SkillCard \<Rightarrow> SkillCard" where
  "setCardCond K t status reason message c = c\<lparr>card_status := (card_status c)\<lparr>scs_conditions :=
     setCond K (scs_conditions (card_status c)) (mkCond t status (m_generation (card_meta c)) reason message)\<rparr>\<rparr>"

definition dropResolvable :: "klib \<Rightarrow> SkillCard \<Rightarrow> SkillCard" where
  "dropResolvable K c = c\<lparr>card_status := (card_status c)\<lparr>scs_conditions :=
     removeCond K (scs_conditions (card_status c)) ConditionTypeResolvable\<rparr>\<rparr>"

definition delivered :: "string \<Rightarrow> string \<Rightarrow> SkillCard \<Rightarrow> SkillCard" where
  "delivered img mode c = c\<lparr>card_status := (card_status c)\<lparr>scs_resolvedImage := img, scs_deliveryMode := mode\<rparr>\<rparr>"

definition setResolvable :: "SkillCardReconciler \<Rightarrow> SkillCard \<Rightarrow> SkillCard \<times> duration" where
  "setResolvable R c = (case scr_resolver R of
      None \<Rightarrow> (dropResolvable (scr_lib R) c, 0)
    | Some resolve \<Rightarrow>
        (let (result, message) = resolve (sc_image (card_spec c));
             (status, reason) = (case result of
                imageResolvePresent \<Rightarrow> (CTrue, ''ArtifactPresent'')
              | imageResolveMissing \<Rightarrow> (CFalse, ''ArtifactMissing'')
              | imageResolveUnknown \<Rightarrow> (CUnknown, ''ResolveInconclusive'')) in
         (setCardCond (scr_lib R) ConditionTypeResolvable status reason message c, resolvableRecheckInterval)))"

definition reconcileImage :: "SkillCardReconciler \<Rightarrow> SkillCard \<Rightarrow> SkillCard \<times> duration" where
  "reconcileImage R c = setResolvable R (setCardCond (scr_lib R) ConditionTypeReady CTrue ''ImageResolved''
     (Fmt ''OCI image ref accepted: %s'' [Lit (sc_image (card_spec c))]) (delivered (sc_image (card_spec c)) ''image'' c))"

definition reconcileSource :: "SkillCardReconciler \<Rightarrow> SkillCard \<Rightarrow> SkillCard" where
  "reconcileSource R c = setCardCond (scr_lib R) ConditionTypeReady CTrue ''SourceAccepted''
     (Fmt ''git source accepted, cloned at pod start: %s'' [Lit (sc_source (card_spec c))])
     (dropResolvable (scr_lib R) (delivered [] ''source'' c))"

definition reconcileInline :: "SkillCardReconciler \<Rightarrow> SkillCard \<Rightarrow> SkillCard" where
  "reconcileInline R c =
     (let c1 = dropResolvable (scr_lib R) (delivered [] ''inline'' c) in
      case validateInlineSkill (scr_yaml R) (sc_inline (card_spec c)) of
        Some e \<Rightarrow> setCardCond (scr_lib R) ConditionTypeReady CFalse ''InvalidSkillContent'' (emsg e) c1
      | None \<Rightarrow> setCardCond (scr_lib R) ConditionTypeReady CTrue ''InlineAccepted'' (Lit ''inline skill content is valid'') c1)"

definition cardStatusFor :: "SkillCardReconciler \<Rightarrow> SkillCard \<Rightarrow> SkillCard \<times> duration" where
  "cardStatusFor R original =
     (let c = original\<lparr>card_status := (card_status original)\<lparr>scs_observedGeneration := m_generation (card_meta original)\<rparr>\<rparr>;
          spec = card_spec c in
      if sc_image spec \<noteq> [] then reconcileImage R c
      else if sc_source spec \<noteq> [] then (reconcileSource R c, 0)
      else if sc_inline spec \<noteq> [] then (reconcileInline R c, 0)
      else (setCardCond (scr_lib R) ConditionTypeReady CFalse ''NoSourceConfigured''
        (Lit ''No image, source, or inline content is set'') (dropResolvable (scr_lib R) (delivered [] [] c)), 0))"

definition Reconcile_card :: "SkillCardReconciler \<Rightarrow> key \<Rightarrow> cresult act" where
  "Reconcile_card R k = (case getSkillCard (scr_client R) k of
      Inl e \<Rightarrow> if isNotFound e then retE noRequeue else failE e
    | Inr c \<Rightarrow> (case cardStatusFor R c of (new, after) \<Rightarrow>
        bindE (sendE (scr_client R) (PatchSkillCardStatus c new)) (\<lambda>_. retE (requeueIn after))))"

section \<open>Validating inline content\<close>

lemma trimSpace_hyphen: "CHR ''-'' \<in> set s \<Longrightarrow> trimSpace s \<noteq> []"
  using trimSpace_keeps[of "CHR ''-''" s] by (auto simp: isSpaceRune_def Let_def byte_def)

lemma isFence_hyphen: "isFence w \<Longrightarrow> CHR ''-'' \<in> set w"
proof -
  assume "isFence w"
  then have "set (dropWhile (\<lambda>c. byte c \<in> {32, 9, 13}) (rev w)) = {CHR ''-''}"
    by (metis isFence_def trimLine_def fence_def set_rev empty_set insert_absorb2 list.simps(15))
  then show ?thesis by (metis set_dropWhileD set_rev singletonI)
qed


section \<open>The status of a card\<close>

lemma setCardCond_sel [simp]:
  "card_spec (setCardCond K t st r m c) = card_spec c" "card_meta (setCardCond K t st r m c) = card_meta c"
  "scs_resolvedImage (card_status (setCardCond K t st r m c)) = scs_resolvedImage (card_status c)"
  "scs_deliveryMode (card_status (setCardCond K t st r m c)) = scs_deliveryMode (card_status c)"
  by (simp_all add: setCardCond_def)

lemma dropResolvable_sel [simp]:
  "card_spec (dropResolvable K c) = card_spec c" "card_meta (dropResolvable K c) = card_meta c"
  "scs_resolvedImage (card_status (dropResolvable K c)) = scs_resolvedImage (card_status c)"
  "scs_deliveryMode (card_status (dropResolvable K c)) = scs_deliveryMode (card_status c)"
  by (simp_all add: dropResolvable_def)

lemma delivered_sel [simp]:
  "card_spec (delivered i d c) = card_spec c" "card_meta (delivered i d c) = card_meta c"
  "scs_resolvedImage (card_status (delivered i d c)) = i" "scs_deliveryMode (card_status (delivered i d c)) = d"
  "scs_conditions (card_status (delivered i d c)) = scs_conditions (card_status c)"
  by (simp_all add: delivered_def)

text \<open>What a condition of a card says, and the condition the registry's answer calls for.\<close>

definition cardCond :: "klib \<Rightarrow> string \<Rightarrow> SkillCard \<Rightarrow> cstatus option" where
  "cardCond K t c = map_option c_status (findCond K (scs_conditions (card_status c)) t)"

fun resolutionStatus :: "imageResolution \<Rightarrow> cstatus" where
  "resolutionStatus imageResolvePresent = CTrue"
| "resolutionStatus imageResolveMissing = CFalse"
| "resolutionStatus imageResolveUnknown = CUnknown"

lemma cardCond_simps:
  assumes "condition_store K"
  shows "cardCond K t (setCardCond K u st r m c) = (if t = u then Some st else cardCond K t c)"
    and "cardCond K t (dropResolvable K c) = (if t = ConditionTypeResolvable then None else cardCond K t c)"
  using assms by (simp_all add: cardCond_def setCardCond_def dropResolvable_def condition_store.find_mkCond
      condition_store.find_remove)

definition cardReady :: "ylib \<Rightarrow> SkillCard \<Rightarrow> bool" where
  "cardReady Y c \<longleftrightarrow> sc_image (card_spec c) \<noteq> [] \<or> sc_source (card_spec c) \<noteq> []
     \<or> sc_inline (card_spec c) \<noteq> [] \<and> (\<exists>fm. ParseAndValidate Y (sc_inline (card_spec c)) = Inr fm)"

definition checkedBy :: "SkillCardReconciler \<Rightarrow> SkillCard \<Rightarrow> (string \<Rightarrow> imageResolution \<times> gofmt) option" where
  "checkedBy R c = (if sc_image (card_spec c) \<noteq> [] then scr_resolver R else None)"

lemma types_distinct: "ConditionTypeReady \<noteq> ConditionTypeResolvable"
  by (simp add: ConditionTypeReady_def ConditionTypeResolvable_def)

lemma setResolvable_cond:
  assumes "condition_store (scr_lib R)"
  shows "cardCond (scr_lib R) ConditionTypeReady (fst (setResolvable R c)) = cardCond (scr_lib R) ConditionTypeReady c"
    and "cardCond (scr_lib R) ConditionTypeResolvable (fst (setResolvable R c))
       = map_option (\<lambda>f. resolutionStatus (fst (f (sc_image (card_spec c))))) (scr_resolver R)"
    and "snd (setResolvable R c) = (if scr_resolver R = None then 0 else resolvableRecheckInterval)"
    and "card_spec (fst (setResolvable R c)) = card_spec c"
    and "scs_resolvedImage (card_status (fst (setResolvable R c))) = scs_resolvedImage (card_status c)"
  using types_distinct by (auto simp: setResolvable_def Let_def cardCond_simps[OF assms] split: option.splits prod.splits imageResolution.splits)

lemma validateInline_iff:
  "validateInlineSkill Y content = None \<longleftrightarrow> (\<exists>fm. ParseAndValidate Y content = Inr fm)"
proof -
  have "trimSpace content \<noteq> []" if ok: "ParseAndValidate Y content = Inr fm" for fm
  proof -
    obtain rest where "cutOpeningFence content = Some rest"
      using ok by (cases "cutOpeningFence content") (simp_all add: ParseAndValidate_def Parse_def)
    then obtain pre op where "isFence op" "content = pre @ op @ nl # rest" using cutOpeningFence_spec by blast
    then have "CHR ''-'' \<in> set content" using isFence_hyphen by auto
    then show ?thesis by (rule trimSpace_hyphen)
  qed
  then show ?thesis by (auto simp: validateInlineSkill_def split: sum.splits)
qed

text \<open>What one reconcile makes of a card.\<close>

lemma cardStatusFor_spec:
  assumes "condition_store (scr_lib R)"
  shows "card_spec (fst (cardStatusFor R c)) = card_spec c"
    and "cardCond (scr_lib R) ConditionTypeReady (fst (cardStatusFor R c)) = Some (if cardReady (scr_yaml R) c then CTrue else CFalse)"
    and "cardCond (scr_lib R) ConditionTypeResolvable (fst (cardStatusFor R c))
       = map_option (\<lambda>f. resolutionStatus (fst (f (sc_image (card_spec c))))) (checkedBy R c)"
    and "scs_resolvedImage (card_status (fst (cardStatusFor R c))) = sc_image (card_spec c)"
    and "snd (cardStatusFor R c) = (if checkedBy R c = None then 0 else resolvableRecheckInterval)"
  using types_distinct
  by (simp_all add: cardStatusFor_def reconcileImage_def reconcileSource_def reconcileInline_def Let_def
      cardCond_simps[OF assms] setResolvable_cond[OF assms] cardReady_def checkedBy_def
      flip: validateInline_iff split: option.split)

text \<open>One reconcile of a SkillCard patches its status and nothing else. Ready is True exactly when the
  card names an image or a source or its inline content is a skill the loader accepts, and never waits on a
  registry. Resolvable is present exactly when the card names an image and a resolver is configured, then
  carries the resolver's answer, and the reconcile runs again after ten minutes. The recorded image is the
  one of the spec.\<close>

theorem card_status_exact:
  assumes "condition_store (scr_lib R)" and "getSkillCard (scr_client R) k = Inr c"
  shows "\<exists>new. fst (Reconcile_card R k) = [PatchSkillCardStatus c new] \<and> card_spec new = card_spec c
     \<and> cardCond (scr_lib R) ''Ready'' new = Some (if cardReady (scr_yaml R) c then CTrue else CFalse)
     \<and> cardCond (scr_lib R) ''Resolvable'' new
         = map_option (\<lambda>f. resolutionStatus (fst (f (sc_image (card_spec c))))) (checkedBy R c)
     \<and> scs_resolvedImage (card_status new) = sc_image (card_spec c)
     \<and> snd (Reconcile_card R k) = (case snd (sendE (scr_client R) (PatchSkillCardStatus c new)) of
          Inl e \<Rightarrow> Inl e
        | Inr u \<Rightarrow> Inr (requeueIn (if checkedBy R c = None then 0 else resolvableRecheckInterval)))"
proof -
  obtain new after where s: "cardStatusFor R c = (new, after)" by fastforce
  have "fst (Reconcile_card R k) = [PatchSkillCardStatus c new]"
    "snd (Reconcile_card R k) = (case snd (sendE (scr_client R) (PatchSkillCardStatus c new)) of
       Inl e \<Rightarrow> Inl e | Inr u \<Rightarrow> Inr (requeueIn after))"
    using assms(2) by (simp_all add: Reconcile_card_def s bindE_def split: sum.split)
  then show ?thesis
    using cardStatusFor_spec[OF assms(1), of c] unfolding s fst_conv snd_conv ConditionTypeReady_def ConditionTypeResolvable_def
    by blast
qed

lemma find_code:
  "(\<exists>x. find (\<lambda>(code, msg). code \<in> set unknownCodes) es = Some x)
     \<longleftrightarrow> (\<exists>code msg. (code, msg) \<in> set es \<and> code \<in> {''MANIFEST_UNKNOWN'', ''NAME_UNKNOWN''})"
  by (induction es) (auto simp: unknownCodes_def)

lemma classify_missing:
  "fst (classifyResolveError ref err) = imageResolveMissing \<longleftrightarrow> (\<exists>te. he_transport err = Some te
     \<and> (te_status te = 404 \<or> (\<exists>code msg. (code, msg) \<in> set (te_errors te) \<and> code \<in> {''MANIFEST_UNKNOWN'', ''NAME_UNKNOWN''})))"
proof (cases "he_transport err")
  case (Some te)
  show ?thesis
    unfolding find_code[symmetric] using Some
    by (cases "find (\<lambda>(code, msg). code \<in> set unknownCodes) (te_errors te)") (auto simp: classifyResolveError_def Let_def)
qed (simp add: classifyResolveError_def Let_def)

text \<open>The registry check condemns an image only on a definite answer: a reference the library cannot
  parse, a registry that answers that it has no such manifest or repository, or a plain 404. Failed
  authentication, a refused or failed connection and every other error leave the question open.\<close>

theorem missing_only_if_definite:
  "fst (Resolve G ref) = imageResolveMissing \<longleftrightarrow>
     (\<exists>e. parseReference (rir_registry G) ref = Inl e)
     \<or> (\<exists>parsed err te. parseReference (rir_registry G) ref = Inr parsed
          \<and> headManifest (rir_registry G) (if rir_timeout G \<le> 0 then defaultResolveTimeout else rir_timeout G) parsed = Some err
          \<and> he_transport err = Some te
          \<and> (te_status te = 404 \<or> (\<exists>code msg. (code, msg) \<in> set (te_errors te) \<and> code \<in> {''MANIFEST_UNKNOWN'', ''NAME_UNKNOWN''})))"
  by (cases "parseReference (rir_registry G) ref")
    (auto simp: Resolve_def Let_def classify_missing split: option.split)

section \<open>Witness\<close>

definition samplePin :: string where
  "samplePin = ''quay.io/acme/skill:v1''"

definition samplePinned :: SkillCard where
  "samplePinned = (emptyCard (''ns'', ''card''))\<lparr>card_spec := (card_spec (emptyCard (''ns'', ''card'')))\<lparr>sc_image := samplePin\<rparr>\<rparr>"

definition sampleCardReconciler :: SkillCardReconciler where
  "sampleCardReconciler = \<lparr>scr_client = quietClient\<lparr>getSkillCard := (\<lambda>_. Inr samplePinned)\<rparr>,
     scr_lib = refK, scr_yaml = \<lparr>yamlFields = (\<lambda>_. Inl (errorf ''none'' [])), yamlKeys = (\<lambda>_. Inl (errorf ''none'' []))\<rparr>,
     scr_resolver = Some (Resolve (NewRegistryImageResolver \<lparr>parseReference = Inr,
       headManifest = (\<lambda>t ref. Some \<lparr>he_transport = Some \<lparr>te_errors = [], te_status = 403\<rparr>, he_message = Lit ''forbidden''\<rparr>)\<rparr>))\<rparr>"

theorem card_status_exact_witness:
  "\<exists>new. fst (Reconcile_card sampleCardReconciler (''ns'', ''card''))
       = [PatchSkillCardStatus samplePinned new]
     \<and> cardCond refK ''Ready'' new = Some CTrue \<and> cardCond refK ''Resolvable'' new = Some CUnknown"
proof -
  define R where "R = sampleCardReconciler"
  define c where "c = samplePinned"
  have cs: "condition_store (scr_lib R)" using refstore.condition_store_axioms by (simp add: R_def sampleCardReconciler_def)
  have g: "getSkillCard (scr_client R) (''ns'', ''card'') = Inr c" by (simp add: R_def sampleCardReconciler_def c_def)
  have sel: "scr_lib R = refK" by (simp add: R_def sampleCardReconciler_def)
  have ready: "cardReady (scr_yaml R) c" by (simp add: cardReady_def c_def samplePinned_def samplePin_def)
  have chk: "map_option (\<lambda>f. resolutionStatus (fst (f (sc_image (card_spec c))))) (checkedBy R c) = Some CUnknown"
    by (simp add: checkedBy_def c_def samplePinned_def samplePin_def R_def sampleCardReconciler_def Resolve_def classifyResolveError_def
        NewRegistryImageResolver_def Let_def)
  from card_status_exact[OF cs g] show ?thesis
    unfolding R_def[symmetric] c_def[symmetric] by (auto simp: sel ready chk)
qed

end
