(* ===== verification/FileSystem.thy ===== *)
theory FileSystem
  imports FileMounts
begin

text \<open>
  What the programs of the repository use of package \<open>os\<close> and \<open>path/filepath\<close>: a tree of files,
  directories and symbolic links, the name resolution that follows links, and the operations that
  change the tree, which are logged. A path is the list of its segments from the root. Reads and
  writes may fail: what they are answered is part of the record \<open>ostree\<close>.
\<close>

section \<open>The tree\<close>

type_synonym fpath = "string list"

datatype inode =
    Regular string nat \<comment> \<open>content and permission bits\<close>
  | Directory
  | Symlink string
  | SpecialFile

datatype fsop =
    MkdirAll fpath
  | WriteFile fpath string nat
  | RemoveAll fpath
  | RemoveFile fpath
  | MkTemp fpath

record ostree =
  os_tree :: "(fpath \<times> inode) list"
  os_readErr :: "fpath \<Rightarrow> goerr option"
  os_writeErr :: "fsop \<Rightarrow> goerr option"

type_synonym 'a fsact = "(fsop, 'a) eact"

definition doOp :: "ostree \<Rightarrow> fsop \<Rightarrow> unit fsact" where
  "doOp F x = ([x], case os_writeErr F x of None \<Rightarrow> Inr () | Some e \<Rightarrow> Inl e)"

lemma fst_doOp [simp]: "fst (doOp F x) = [x]"
  by (simp add: doOp_def)

definition inodeAt :: "ostree \<Rightarrow> fpath \<Rightarrow> inode option" where
  "inodeAt F p = (if p = [] then Some Directory else map_of (os_tree F) p)"

definition errNotExist :: goerr where
  "errNotExist = \<lparr>ekind = NotFoundE, emsg = Lit ''file does not exist''\<rparr>"

section \<open>Name resolution\<close>

text \<open>Segments of a link target.\<close>

definition segments :: "string \<Rightarrow> string list" where
  "segments s = filter (\<lambda>x. x \<noteq> [] \<and> x \<noteq> ''.'') (splitOn CHR ''/'' s)"

text \<open>Walks the segments from a directory that is already resolved, following at most \<open>n\<close> links.\<close>

function walk :: "nat \<Rightarrow> ostree \<Rightarrow> fpath \<Rightarrow> string list \<Rightarrow> goerr + fpath" where
  "walk n F cur [] = Inr cur"
| "walk n F cur (x # xs) =
     (if x = ''..'' then walk n F (butlast cur) xs
      else (case inodeAt F (cur @ [x]) of
          None \<Rightarrow> Inl errNotExist
        | Some (Symlink target) \<Rightarrow>
            if n = 0 then Inl (errorf ''too many links'' [])
            else walk (n - 1) F (if isAbs target then [] else cur) (segments target @ xs)
        | Some Directory \<Rightarrow> walk n F (cur @ [x]) xs
        | Some k \<Rightarrow> if xs = [] then Inr (cur @ [x]) else Inl (errorf ''not a directory'' [])))"
  by pat_completeness auto
termination
  by (relation "measures [\<lambda>(n, F, cur, xs). n, \<lambda>(n, F, cur, xs). length xs]") auto

declare walk.simps(2) [simp del]

text \<open>\<open>filepath.EvalSymlinks\<close> gives up after 255 links, the kernel after 40.\<close>

definition evalSymlinks :: "ostree \<Rightarrow> fpath \<Rightarrow> goerr + fpath" where
  "evalSymlinks F p = walk 255 F [] p"

definition kernelPath :: "ostree \<Rightarrow> fpath \<Rightarrow> goerr + fpath" where
  "kernelPath F p = (case walk 40 F [] p of
      Inl e \<Rightarrow> Inl e
    | Inr q \<Rightarrow> (case os_readErr F q of Some e \<Rightarrow> Inl e | None \<Rightarrow> Inr q))"

definition stat :: "ostree \<Rightarrow> fpath \<Rightarrow> goerr + inode" where
  "stat F p = (case kernelPath F p of
      Inl e \<Rightarrow> Inl e
    | Inr q \<Rightarrow> (case inodeAt F q of None \<Rightarrow> Inl errNotExist | Some i \<Rightarrow> Inr i))"

definition existsPath :: "ostree \<Rightarrow> fpath \<Rightarrow> bool" where
  "existsPath F p = (case stat F p of Inl e \<Rightarrow> False | Inr i \<Rightarrow> True)"

definition isDirPath :: "ostree \<Rightarrow> fpath \<Rightarrow> bool" where
  "isDirPath F p = (stat F p = Inr Directory)"

definition readFile :: "ostree \<Rightarrow> fpath \<Rightarrow> goerr + string" where
  "readFile F p = (case stat F p of
      Inl e \<Rightarrow> Inl e
    | Inr (Regular content perm) \<Rightarrow> Inr content
    | Inr i \<Rightarrow> Inl (errorf ''is not a regular file'' []))"

text \<open>\<open>os.ReadDir\<close>: the entries of a directory by name, each with what it is itself, links unresolved.\<close>

definition childNames :: "ostree \<Rightarrow> fpath \<Rightarrow> string list" where
  "childNames F d = sort (remdups (List.map_filter (\<lambda>(p, i). if p \<noteq> [] \<and> butlast p = d then Some (last p) else None) (os_tree F)))"

definition readDir :: "ostree \<Rightarrow> fpath \<Rightarrow> goerr + (string \<times> inode) list" where
  "readDir F p = (case kernelPath F p of
      Inl e \<Rightarrow> Inl e
    | Inr q \<Rightarrow> if inodeAt F q \<noteq> Some Directory then Inl (errorf ''not a directory'' [])
        else Inr (List.map_filter (\<lambda>n. map_option (Pair n) (inodeAt F (q @ [n]))) (childNames F q)))"

section \<open>filepath.Rel\<close>

fun commonPrefix :: "'a list \<Rightarrow> 'a list \<Rightarrow> nat" where
  "commonPrefix (x # xs) (y # ys) = (if x = y then Suc (commonPrefix xs ys) else 0)"
| "commonPrefix _ _ = 0"

definition relPath :: "fpath \<Rightarrow> fpath \<Rightarrow> fpath" where
  "relPath base target = (let k = commonPrefix base target in
     replicate (length base - k) ''..'' @ drop k target)"

section \<open>Facts\<close>

lemma commonPrefix_take: "take (commonPrefix xs ys) xs = take (commonPrefix xs ys) ys"
  by (induction xs ys rule: commonPrefix.induct) auto

lemma commonPrefix_le: "commonPrefix xs ys \<le> length xs"
  by (induction xs ys rule: commonPrefix.induct) auto

text \<open>A relative path that does not start upwards stays below the base.\<close>

lemma relPath_inside:
  assumes "relPath base target = [] \<or> hd (relPath base target) \<noteq> ''..''"
  shows "\<exists>r. target = base @ r"
proof -
  define k where "k = commonPrefix base target"
  have "length base \<le> k" using assms by (cases "length base - k") (auto simp: relPath_def Let_def k_def)
  then have "k = length base" using commonPrefix_le[of base target] by (simp add: k_def)
  then have "take (length base) target = base" using commonPrefix_take[of base target] by (simp add: k_def)
  then show ?thesis by (metis append_take_drop_id)
qed

lemma relPath_below [simp]: "relPath base (base @ r) = r"
proof -
  have "commonPrefix base (base @ r) = length base" by (induction base) auto
  then show ?thesis by (simp add: relPath_def)
qed

lemma readDir_entries:
  assumes "readDir F p = Inr es" and "(n, i) \<in> set es"
  shows "\<exists>q. kernelPath F p = Inr q \<and> inodeAt F (q @ [n]) = Some i"
  using assms by (auto simp: readDir_def List.map_filter_def split: sum.splits if_splits)

lemma childNames_sorted [simp]: "sorted (childNames F d)" "distinct (childNames F d)"
  by (simp_all add: childNames_def)

text \<open>A path without links: what resolution returns, and resolves to itself.\<close>

definition solidInode :: "inode option \<Rightarrow> bool" where
  "solidInode i \<longleftrightarrow> (case i of None \<Rightarrow> False | Some (Symlink t) \<Rightarrow> False | Some k \<Rightarrow> True)"

definition realPath :: "ostree \<Rightarrow> fpath \<Rightarrow> bool" where
  "realPath F p \<longleftrightarrow> (\<forall>k < length p. inodeAt F (take k p) = Some Directory) \<and> solidInode (inodeAt F p) \<and> ''..'' \<notin> set p"

lemma realPath_Nil [simp]: "realPath F []"
  by (simp add: realPath_def inodeAt_def solidInode_def)

lemma realPath_snoc:
  "realPath F (p @ [x]) \<longleftrightarrow> realPath F p \<and> inodeAt F p = Some Directory \<and> x \<noteq> ''..'' \<and> solidInode (inodeAt F (p @ [x]))"
  by (auto simp: realPath_def less_Suc_eq solidInode_def)

lemma realPath_butlast: "realPath F p \<Longrightarrow> inodeAt F p = Some Directory \<Longrightarrow> realPath F (butlast p) \<and> inodeAt F (butlast p) = Some Directory"
  by (cases p rule: rev_cases) (auto simp: realPath_snoc)

lemma walk_real:
  "walk n F cur xs = Inr q \<Longrightarrow> realPath F cur \<Longrightarrow> inodeAt F cur = Some Directory \<Longrightarrow> realPath F q"
proof (induction n F cur xs rule: walk.induct)
  case (2 n F cur x xs)
  show ?case
  proof (cases "x = ''..''")
    case True
    with 2(1)[OF True] 2(4) realPath_butlast[OF 2(5,6)] show ?thesis by (simp add: walk.simps(2))
  next
    case False
    then obtain i where i: "inodeAt F (cur @ [x]) = Some i" using 2(4) by (auto simp: walk.simps(2) split: option.splits)
    show ?thesis
    proof (cases i)
      case (Symlink target)
      have "realPath F (if isAbs target then [] else cur)" "inodeAt F (if isAbs target then [] else cur) = Some Directory"
        using 2(5,6) by (auto simp: inodeAt_def)
      with 2(3)[OF False i Symlink] 2(4) False i Symlink show ?thesis by (auto simp: walk.simps(2) split: if_splits)
    next
      case Directory
      with 2(2)[OF False i Directory] 2(4-6) False i show ?thesis by (simp add: walk.simps(2) realPath_snoc solidInode_def)
    qed (use 2(4-6) False i in \<open>auto simp: walk.simps(2) realPath_snoc solidInode_def split: if_splits\<close>)
  qed
qed simp

lemma walk_id: "realPath F (cur @ xs) \<Longrightarrow> walk n F cur xs = Inr (cur @ xs)"
proof (induction xs arbitrary: cur)
  case (Cons x xs)
  have x: "x \<noteq> ''..''" using Cons.prems by (auto simp: realPath_def)
  show ?case
  proof (cases "xs = []")
    case True
    with Cons.prems x show ?thesis by (auto simp: walk.simps(2) realPath_snoc solidInode_def split: option.splits inode.splits)
  next
    case False
    then have "inodeAt F (take (Suc (length cur)) (cur @ x # xs)) = Some Directory"
      using Cons.prems unfolding realPath_def by (metis Suc_less_eq add_Suc_right length_Cons length_append length_greater_0_conv less_add_same_cancel1)
    then have "inodeAt F (cur @ [x]) = Some Directory" by simp
    with Cons.IH[of "cur @ [x]"] Cons.prems x show ?thesis by (simp add: walk.simps(2))
  qed
qed simp

lemma evalSymlinks_real: "evalSymlinks F p = Inr q \<Longrightarrow> realPath F q"
  unfolding evalSymlinks_def by (erule walk_real) (simp_all add: inodeAt_def)

lemma kernelPath_id: "realPath F p \<Longrightarrow> kernelPath F p = Inr q \<Longrightarrow> q = p"
  using walk_id[of F "[]" p 40] by (auto simp: kernelPath_def split: option.splits)

end
