(* ===== verification/JsonRoundTrip.thy ===== *)
theory JsonRoundTrip
  imports Json
begin

text \<open>
  Reading back what \<open>Marshal\<close> printed: the decoder of theory Json applied to the text of a value
  gives that value again, with every string in the form \<open>Marshal\<close> encodes, invalid bytes replaced.
  The programs of the repository pass their data to one another this way.
\<close>

section \<open>Runes of a valid string\<close>

definition validRune :: "string \<Rightarrow> bool" where
  "validRune r \<longleftrightarrow> r \<noteq> [] \<and> (\<forall>t. runeWidth (r @ t) = length r)"

definition validText :: "string \<Rightarrow> bool" where
  "validText s \<longleftrightarrow> concat (runes s) = s"

lemma runes_valid_append: "validRune r \<Longrightarrow> runes (r @ t) = r # runes t"
proof -
  assume v: "validRune r"
  then obtain c r' where r: "r = c # r'" by (cases r) (auto simp: validRune_def)
  have "runeWidth (c # (r' @ t)) = length r" using v r by (auto simp: validRune_def)
  then show ?thesis using r by (simp add: runes.simps(2) Let_def)
qed

lemma runes_concat: "\<forall>r \<in> set rs. validRune r \<Longrightarrow> runes (concat rs) = rs"
  by (induction rs) (auto simp: runes_valid_append)

lemma runeWidth_le: "runeWidth (c # s) \<le> 4"
  by (simp add: runeWidth.simps Let_def)

lemma runeWidth_2: "runeWidth (c # a # s) = 2 \<Longrightarrow> runeWidth (c # a # t) = 2"
  by (auto simp: runeWidth.simps Let_def split: if_splits)

lemma runeWidth_3: "runeWidth (c # a # b # s) = 3 \<Longrightarrow> runeWidth (c # a # b # t) = 3"
  by (auto simp: runeWidth.simps Let_def split: if_splits)

lemma runeWidth_4: "runeWidth (c # a # b # d # s) = 4 \<Longrightarrow> runeWidth (c # a # b # d # t) = 4"
  by (auto simp: runeWidth.simps Let_def split: if_splits)

lemma runeWidth_1: "runeWidth (c # s) = 1 \<longleftrightarrow> byte c < 128"
  by (auto simp: runeWidth.simps Let_def split: if_splits)

lemma runeWidth_take:
  assumes "runeWidth (c # s) = k" and "0 < k"
  shows "runeWidth (take k (c # s) @ t) = k"
proof -
  have len: "k - 1 \<le> length s" using runeWidth_shape[of c s] assms by (auto simp: runeShape_def)
  consider "k = 1" | "k = 2" | "k = 3" | "k = 4" using runeWidth_le[of c s] assms by linarith
  then show ?thesis
  proof cases
    case 1
    with assms runeWidth_1[of c s] runeWidth_1[of c t] show ?thesis by simp
  next
    case 2
    with len obtain a s' where "s = a # s'" by (cases s) auto
    with 2 assms runeWidth_2[of c a s' t] show ?thesis by simp
  next
    case 3
    with len obtain a b s' where "s = a # b # s'" by (cases s; cases "tl s") auto
    with 3 assms runeWidth_3[of c a b s' t] show ?thesis by simp
  next
    case 4
    with len obtain a b d s' where "s = a # b # d # s'" by (cases s; cases "tl s"; cases "tl (tl s)") auto
    with 4 assms runeWidth_4[of c a b d s' t] show ?thesis by simp
  qed
qed

lemma validRune_replacement: "validRune replacementRune"
  by (simp add: validRune_def replacementRune_def runeWidth.simps Let_def byte_def contByte_def)

lemma runes_valid: "\<forall>r \<in> set (runes s). validRune r"
proof (induction s rule: runes.induct)
  case (2 c s)
  define k where "k = runeWidth (c # s)"
  show ?case
  proof (cases "k = 0")
    case True
    with 2(1)[OF k_def] show ?thesis using validRune_replacement by (simp add: runes.simps(2) Let_def k_def)
  next
    case False
    have "k - 1 \<le> length s" using runeWidth_shape[of c s] False by (auto simp: runeShape_def k_def)
    then have "length (take k (c # s)) = k" using False by (cases k) auto
    then have "validRune (take k (c # s))" using runeWidth_take[of c s k] False by (auto simp: validRune_def k_def)
    with 2(2)[OF k_def] False show ?thesis by (simp add: runes.simps(2) Let_def k_def)
  qed
qed simp

lemma validRune_bytes:
  assumes "validRune r"
  shows "(\<exists>c. r = [c] \<and> byte c < 128) \<or> (1 < length r \<and> (\<forall>c \<in> set r. 128 \<le> byte c))"
proof -
  obtain c s where r: "r = c # s" using assms by (cases r) (auto simp: validRune_def)
  have w: "runeWidth (c # s) = length (c # s)" using assms r by (metis append_Nil2 validRune_def)
  show ?thesis
  proof (cases "s = []")
    case True
    with w r runeWidth_1[of c "[]"] show ?thesis by simp
  next
    case False
    then have "128 \<le> byte c" "\<forall>i < length s. 128 \<le> byte (s ! i)"
      using runeWidth_shape[of c s] w by (auto simp: runeShape_def)
    then show ?thesis using r False by (auto simp: in_set_conv_nth)
  qed
qed

text \<open>What \<open>Marshal\<close> walks over: runes, and bytes that belong to none.\<close>

definition strayByte :: "string \<Rightarrow> bool" where
  "strayByte r \<longleftrightarrow> (\<exists>c. r = [c] \<and> 128 \<le> byte c)"

definition canonRune :: "string \<Rightarrow> string" where
  "canonRune r = (if strayByte r then replacementRune else r)"

lemma validRune_not_stray: "validRune r \<Longrightarrow> \<not> strayByte r"
  using validRune_bytes[of r] by (auto simp: strayByte_def)

lemma runeBytes_pieces:
  "(\<forall>r \<in> set (runeBytes s). validRune r \<or> strayByte r) \<and> runes s = map canonRune (runeBytes s)"
proof (induction s rule: runes.induct)
  case (2 c s)
  define k where "k = runeWidth (c # s)"
  show ?case
  proof (cases "k = 0")
    case True
    then have "128 \<le> byte c" using runeWidth_1[of c s] by (cases "byte c < 128") (auto simp: k_def)
    then have "strayByte [c]" by (simp add: strayByte_def)
    with True 2(1)[OF k_def] show ?thesis by (simp add: runes.simps(2) runeBytes.simps(2) Let_def k_def canonRune_def)
  next
    case False
    have "validRune (take k (c # s))" using runes_valid[of "c # s"] False by (simp add: runes.simps(2) Let_def k_def)
    moreover from this have "canonRune (take k (c # s)) = take k (c # s)" using validRune_not_stray by (simp add: canonRune_def)
    moreover have "max 1 k = k" using False by simp
    ultimately show ?thesis using 2(2)[OF k_def] False by (simp add: runes.simps(2) runeBytes.simps(2) Let_def k_def)
  qed
qed simp

lemmas runeBytes_each = runeBytes_pieces[THEN conjunct1] and runes_runeBytes = runeBytes_pieces[THEN conjunct2]

section \<open>String literals\<close>

lemma lex_Cons: "lex st (c # s) = (case lexStep st c of None \<Rightarrow> [TBad] | Some (ts, st') \<Rightarrow> ts @ lex st' s)"
  by (cases st) simp_all

lemma lex_raw:
  "\<forall>c \<in> set r. 32 \<le> byte c \<and> byte c \<noteq> 34 \<and> byte c \<noteq> 92 \<Longrightarrow> lex (LStr us) (r @ t) = lex (LStr (rev (map Raw r) @ us)) t"
  by (induction r arbitrary: us) (auto simp: lex_Cons)

text \<open>The units an escaped rune is read as.\<close>

definition plainRune :: "string \<Rightarrow> bool" where
  "plainRune r \<longleftrightarrow> map byte r \<notin> {[34], [92], [38], [60], [62], [226, 128, 168], [226, 128, 169]} \<and> \<not> strayByte r
     \<and> (\<forall>c. r = [c] \<longrightarrow> 32 \<le> byte c)"

definition runeCode :: "string \<Rightarrow> nat" where
  "runeCode r = (if map byte r = [226, 128, 168] then 8232 else if map byte r = [226, 128, 169] then 8233
     else if strayByte r then 65533 else byte (hd r))"

definition unitsOf :: "string \<Rightarrow> unit16 list" where
  "unitsOf r = (if plainRune r then map Raw r else [U16 (runeCode r)])"

lemma unitsOf_plain: "plainRune r \<Longrightarrow> unitsOf r = map Raw r"
  and unitsOf_special: "\<not> plainRune r \<Longrightarrow> unitsOf r = [U16 (runeCode r)]"
  by (simp_all add: unitsOf_def)

lemma char_byte: "byte c = n \<Longrightarrow> c = char_of n"
  by (auto simp: byte_def)

lemma escape_plain: "validRune r \<Longrightarrow> plainRune r \<Longrightarrow> escapeRune r = r"
  using validRune_bytes[of r] by (auto simp: escapeRune_def plainRune_def Let_def split: list.splits)

lemma lex_plain: "validRune r \<Longrightarrow> plainRune r \<Longrightarrow> lex (LStr us) (escapeRune r @ t) = lex (LStr (rev (unitsOf r) @ us)) t"
  using validRune_bytes[of r] unfolding escape_plain
  by (subst lex_raw) (auto simp: unitsOf_def plainRune_def)

lemma hexVal_digit: "n < 16 \<Longrightarrow> hexVal (hexDigit n) = Some (int n)"
  by (auto simp: hexVal_def hexDigit_def Let_def numeral_eq_Suc less_Suc_eq)

lemma hex4_value:
  assumes "n < (65536 :: nat)"
  shows "16 * (16 * (16 * (n div 4096 mod 16) + n div 256 mod 16) + n div 16 mod 16) + n mod 16 = n"
proof -
  define a b c where "a = n div 16" and "b = a div 16" and "c = b div 16"
  have "n div 256 = b" "n div 4096 = c" by (simp_all add: a_def b_def c_def div_mult2_eq[symmetric])
  moreover have "c mod 16 = c" using assms by (simp add: a_def b_def c_def div_mult2_eq[symmetric])
  moreover have "16 * c + b mod 16 = b" "16 * b + a mod 16 = a" "16 * a + n mod 16 = n"
    by (simp_all add: a_def b_def c_def)
  ultimately show ?thesis unfolding a_def[symmetric] by simp
qed

lemma lex_hex4: "n < 65536 \<Longrightarrow> lex (LStr us) (CHR 0x5C # CHR ''u'' # hex4 n @ t) = lex (LStr (U16 n # us)) t"
  using hex4_value[of n] by (simp add: lex_Cons hex4_def byte_def hexVal_digit)

lemma lex_esc: "c \<noteq> CHR ''u'' \<Longrightarrow> escapeOf c = Some d \<Longrightarrow> lex (LStr us) (CHR 0x5C # c # t) = lex (LStr (U16 (byte d) # us)) t"
  by (simp add: lex_Cons byte_def)

lemma escapeOf_known:
  "escapeOf CHR 0x22 = Some (char_of (34 :: nat))" "escapeOf CHR 0x5C = Some (char_of (92 :: nat))"
  "escapeOf CHR ''b'' = Some (char_of (8 :: nat))" "escapeOf CHR ''f'' = Some (char_of (12 :: nat))"
  "escapeOf CHR ''n'' = Some (char_of (10 :: nat))" "escapeOf CHR ''r'' = Some (char_of (13 :: nat))"
  "escapeOf CHR ''t'' = Some (char_of (9 :: nat))"
  by (simp_all add: escapeOf_def)

lemma byte_char_of [simp]: "n < 256 \<Longrightarrow> byte (char_of n) = n"
  by (simp add: byte_def)

lemma lex_escaped_ascii:
  assumes "byte c < 32 \<or> byte c \<in> {34, 92, 38, 60, 62}"
  shows "lex (LStr us) (escapeRune [c] @ t) = lex (LStr (U16 (byte c) # us)) t"
proof -
  have lt: "byte c < 65536" using assms by auto
  consider "byte c \<in> {34, 92, 8, 12, 10, 13, 9}" | "byte c \<notin> {34, 92, 8, 12, 10, 13, 9}" by blast
  then show ?thesis
  proof cases
    case 1
    then have "\<exists>e d. escapeRune [c] = [CHR 0x5C, e] \<and> e \<noteq> CHR ''u'' \<and> escapeOf e = Some d \<and> byte d = byte c"
      by (elim insertE emptyE) (simp_all add: escapeRune_def Let_def escapeOf_known)
    then obtain e d where e: "escapeRune [c] = [CHR 0x5C, e]" "e \<noteq> CHR ''u''" "escapeOf e = Some d" "byte d = byte c" by blast
    show ?thesis unfolding e(1) append.simps lex_esc[OF e(2,3)] e(4) by (rule refl)
  next
    case 2
    then have "escapeRune [c] = CHR 0x5C # ''u'' @ hex4 (byte c)" using assms by (auto simp: escapeRune_def Let_def)
    then show ?thesis using lex_hex4[OF lt] by simp
  qed
qed

lemma special_runes:
  "map byte r = [226, 128, 168] \<Longrightarrow> escapeRune r = CHR 0x5C # ''u'' @ hex4 8232"
  "map byte r = [226, 128, 169] \<Longrightarrow> escapeRune r = CHR 0x5C # ''u'' @ hex4 8233"
  "strayByte r \<Longrightarrow> escapeRune r = CHR 0x5C # ''u'' @ hex4 65533"
  by (auto simp: escapeRune_def Let_def hex4_def hexDigit_def strayByte_def)

lemma lex_rune:
  assumes "validRune r \<or> strayByte r"
  shows "lex (LStr us) (escapeRune r @ t) = lex (LStr (rev (unitsOf r) @ us)) t"
proof (cases "plainRune r")
  case True
  then have "validRune r" using assms by (simp add: plainRune_def)
  with True show ?thesis by (intro lex_plain)
next
  case False
  have u: "unitsOf r = [U16 (runeCode r)]" using False by (simp add: unitsOf_def)
  consider "map byte r = [226, 128, 168]" | "map byte r = [226, 128, 169]" | "strayByte r"
    | c where "r = [c]" "byte c < 32 \<or> byte c \<in> {34, 92, 38, 60, 62}"
    using False assms validRune_bytes[of r] by (auto simp: plainRune_def)
  then show ?thesis
  proof cases
    case 1
    then show ?thesis using u lex_hex4[of 8232] by (simp add: special_runes runeCode_def)
  next
    case 2
    then show ?thesis using u lex_hex4[of 8233] by (simp add: special_runes runeCode_def)
  next
    case 3
    then have "runeCode r = 65533" by (auto simp: runeCode_def strayByte_def)
    then show ?thesis using 3 u lex_hex4[of 65533] by (simp add: special_runes)
  next
    case 4
    have "runeCode r = byte c" using 4 by (auto simp: runeCode_def strayByte_def)
    then show ?thesis using 4 u lex_escaped_ascii[OF 4(2)] by simp
  qed
qed

lemma lex_runes:
  "\<forall>r \<in> set rs. validRune r \<or> strayByte r \<Longrightarrow> lex (LStr us) (concat (map escapeRune rs) @ t) = lex (LStr (rev (concat (map unitsOf rs)) @ us)) t"
  by (induction rs arbitrary: us) (auto simp: lex_rune)

lemma utf8_code:
  assumes "validRune r \<or> strayByte r" and "\<not> plainRune r"
  shows "utf8 (runeCode r) = canonRune r \<and> \<not> isHighSurr (runeCode r) \<and> \<not> isLowSurr (runeCode r)"
proof -
  consider "map byte r = [226, 128, 168]" | "map byte r = [226, 128, 169]" | "strayByte r"
    | c where "r = [c]" "byte c < 128"
    using assms validRune_bytes[of r] by (auto simp: plainRune_def)
  then show ?thesis
  proof cases
    case 1
    then have "r = map char_of [226 :: nat, 128, 168]" by (auto simp: map_eq_Cons_conv dest!: char_byte)
    with 1 show ?thesis by (simp add: runeCode_def utf8_def isHighSurr_def isLowSurr_def canonRune_def strayByte_def)
  next
    case 2
    then have "r = map char_of [226 :: nat, 128, 169]" by (auto simp: map_eq_Cons_conv dest!: char_byte)
    with 2 show ?thesis by (simp add: runeCode_def utf8_def isHighSurr_def isLowSurr_def canonRune_def strayByte_def)
  next
    case 3
    then have "runeCode r = 65533" by (auto simp: runeCode_def strayByte_def)
    with 3 show ?thesis by (simp add: canonRune_def utf8_def isHighSurr_def isLowSurr_def replacementRune_def)
  next
    case 4
    have "runeCode r = byte c" "canonRune r = r" using 4 by (auto simp: runeCode_def strayByte_def canonRune_def)
    with 4 show ?thesis by (auto simp: utf8_def isHighSurr_def isLowSurr_def byte_def)
  qed
qed

lemma decode_unit:
  "\<not> isHighSurr h \<Longrightarrow> \<not> isLowSurr h \<Longrightarrow> decodeUnits raw (U16 h # us) = concat (runes (rev raw)) @ utf8 h @ decodeUnits [] us"
  by (cases us; cases "hd us") auto

lemma decode_raw: "decodeUnits raw (map Raw r @ us) = decodeUnits (rev r @ raw) us"
  by (induction r arbitrary: raw) auto

lemma decode_units:
  "\<forall>r \<in> set ps. validRune r \<Longrightarrow> \<forall>r \<in> set rs. validRune r \<or> strayByte r \<Longrightarrow> rev raw = concat ps \<Longrightarrow>
   decodeUnits raw (concat (map unitsOf rs)) = concat ps @ concat (map canonRune rs)"
proof (induction rs arbitrary: ps raw)
  case Nil
  then show ?case by (simp add: runes_concat)
next
  case (Cons r rs)
  show ?case
  proof (cases "plainRune r")
    case True
    then have "validRune r" "canonRune r = r" using Cons.prems(2) by (auto simp: plainRune_def canonRune_def)
    moreover from this have "decodeUnits (rev r @ raw) (concat (map unitsOf rs)) = concat (ps @ [r]) @ concat (map canonRune rs)"
      using Cons.prems by (intro Cons.IH) auto
    ultimately show ?thesis using unitsOf_plain[OF True] by (simp add: decode_raw)
  next
    case False
    have "decodeUnits [] (concat (map unitsOf rs)) = concat [] @ concat (map canonRune rs)"
      using Cons.prems by (intro Cons.IH) auto
    then show ?thesis using utf8_code[OF _ False] Cons.prems unitsOf_special[OF False] by (simp add: decode_unit runes_concat)
  qed
qed

lemma lex_quote: "lex LTop (quote s @ t) = TStr (concat (runes s)) # lex LTop t"
proof -
  have "lex LTop (quote s @ t) = lex (LStr []) (concat (map escapeRune (runeBytes s)) @ CHR 0x22 # t)"
    by (simp add: quote_def lex_Cons lexTop_def isSpaceByte_def isWordByte_def byte_def isDigit_def)
  also have "\<dots> = lex (LStr (rev (concat (map unitsOf (runeBytes s))))) (CHR 0x22 # t)"
    by (simp add: lex_runes runeBytes_each)
  also have "\<dots> = TStr (decodeUnits [] (concat (map unitsOf (runeBytes s)))) # lex LTop t"
    by (simp add: lex_Cons byte_def)
  finally show ?thesis using decode_units[of "[]" "runeBytes s" "[]"] runeBytes_each by (simp add: runes_runeBytes)
qed

section \<open>Values\<close>

declare lex.simps [simp del]

text \<open>A value as it is read back: its strings with invalid bytes replaced.\<close>

fun canon :: "json \<Rightarrow> json" where
  "canon (JStr s) = JStr (concat (runes s))"
| "canon (JArr vs) = JArr (map canon vs)"
| "canon (JObj ms) = JObj (map (\<lambda>(k, v). (concat (runes k), canon v)) ms)"
| "canon v = v"

text \<open>Numbers are kept as literals; this is what a literal must be.\<close>

fun numbersOK :: "json \<Rightarrow> bool" where
  "numbersOK (JNum n) = (n \<noteq> [] \<and> list_all isWordByte n \<and> isJsonNumber n)"
| "numbersOK (JArr vs) = list_all numbersOK vs"
| "numbersOK (JObj ms) = list_all (\<lambda>(k, v). numbersOK v) ms"
| "numbersOK v = True"

fun commas :: "token list list \<Rightarrow> token list" where
  "commas [] = []"
| "commas [t] = t"
| "commas (t # u # ts) = t @ TComma # commas (u # ts)"

fun toks :: "json \<Rightarrow> token list" where
  "toks (JStr s) = [TStr (concat (runes s))]"
| "toks (JArr vs) = TLBrack # commas (map toks vs) @ [TRBrack]"
| "toks (JObj ms) = TLBrace # commas (map (\<lambda>(k, v). TStr (concat (runes k)) # TColon # toks v) ms) @ [TRBrace]"
| "toks v = [TVal v]"

definition delimited :: "string \<Rightarrow> bool" where
  "delimited t \<longleftrightarrow> t = [] \<or> \<not> isWordByte (hd t) \<and> lexTop (hd t) \<noteq> None"

lemma lex_word_from: "list_all isWordByte w \<Longrightarrow> delimited t \<Longrightarrow> lex (LWord acc) (w @ t) = wordToken (rev acc @ w) # lex LTop t"
proof (induction w arbitrary: acc)
  case Nil
  then show ?case by (cases t) (auto simp: delimited_def lex_Cons lex.simps(1,2) split: option.splits)
qed (simp add: lex_Cons)

lemma word_not_space: "isWordByte c \<Longrightarrow> \<not> isSpaceByte c"
  by (auto simp: isWordByte_def isSpaceByte_def isDigit_def byte_def)

lemma lex_word: "w \<noteq> [] \<Longrightarrow> list_all isWordByte w \<Longrightarrow> delimited t \<Longrightarrow> lex LTop (w @ t) = wordToken w # lex LTop t"
  using lex_word_from[of "tl w" t "[hd w]"] by (cases w) (auto simp: lex_Cons lexTop_def word_not_space)

lemma lex_punct:
  "lex LTop (CHR ''['' # t) = TLBrack # lex LTop t" "lex LTop (CHR '']'' # t) = TRBrack # lex LTop t"
  "lex LTop (CHR ''{'' # t) = TLBrace # lex LTop t" "lex LTop (CHR ''}'' # t) = TRBrace # lex LTop t"
  "lex LTop (CHR '':'' # t) = TColon # lex LTop t" "lex LTop (CHR '','' # t) = TComma # lex LTop t"
  by (simp_all add: lex_Cons lexTop_def isSpaceByte_def isWordByte_def byte_def isDigit_def punct_def)

lemma delimited_punct [simp]: "delimited (CHR '']'' # t)" "delimited (CHR ''}'' # t)" "delimited (CHR '','' # t)" "delimited []"
  by (simp_all add: delimited_def isWordByte_def byte_def isDigit_def lexTop_def isSpaceByte_def punct_def)

lemma lex_space: "isSpaceByte c \<Longrightarrow> lex LTop (c # t) = lex LTop t"
  by (simp add: lex_Cons lexTop_def)

lemma lex_spaces: "list_all isSpaceByte w \<Longrightarrow> lex LTop (w @ t) = lex LTop t"
  by (induction w) (auto simp: lex_space)

lemma lex_joined:
  assumes "\<And>x t. x \<in> set xs \<Longrightarrow> delimited t \<Longrightarrow> lex LTop (f x @ t) = g x @ lex LTop t" and "delimited t" and "list_all isSpaceByte w"
  shows "lex LTop (joinStr (CHR '','' # w) (map f xs) @ t) = commas (map g xs) @ lex LTop t"
  using assms(1)
proof (induction xs)
  case (Cons x xs)
  show ?case
  proof (cases xs)
    case Nil
    then show ?thesis using Cons.prems[of x t] assms(2) by simp
  next
    case (Cons y ys)
    have "lex LTop (f x @ CHR '','' # w @ joinStr (CHR '','' # w) (map f xs) @ t) = g x @ TComma # lex LTop (joinStr (CHR '','' # w) (map f xs) @ t)"
      using Cons.prems[of x] lex_spaces[OF assms(3)] by (simp add: lex_punct)
    moreover have "lex LTop (joinStr (CHR '','' # w) (map f xs) @ t) = commas (map g xs) @ lex LTop t"
      using Cons.prems by (intro Cons.IH) auto
    ultimately show ?thesis using Cons by simp
  qed
qed simp

lemmas lex_joined_tight = lex_joined[where w = "[]", simplified]

lemma lex_marshal: "numbersOK v \<Longrightarrow> delimited t \<Longrightarrow> lex LTop (marshal v @ t) = toks v @ lex LTop t"
proof (induction v arbitrary: t)
  case JNull
  then show ?case using lex_word[of "''null''" t] by (simp add: isWordByte_def byte_def isDigit_def wordToken_def)
next
  case (JBool b)
  then show ?case using lex_word[of "''true''" t] lex_word[of "''false''" t]
    by (cases b) (simp_all add: isWordByte_def byte_def isDigit_def wordToken_def formatBool_def)
next
  case (JNum n)
  moreover have "n \<notin> {''null'', ''true'', ''false''}"
    using JNum by (auto simp: isJsonNumber_def scanDigits_def isDigit_def byte_def Let_def)
  ultimately show ?case using lex_word[of n t] by (simp add: wordToken_def)
next
  case (JStr s)
  then show ?case by (simp add: lex_quote)
next
  case (JArr vs)
  have "lex LTop (joinStr '','' (map marshal vs) @ CHR '']'' # t) = commas (map toks vs) @ lex LTop (CHR '']'' # t)"
    using JArr by (intro lex_joined_tight) (auto simp: list_all_iff)
  then show ?case by (simp add: lex_punct)
next
  case (JObj ms)
  have "lex LTop ((case m of (k, v) \<Rightarrow> quote k @ '':'' @ marshal v) @ u) = (case m of (k, v) \<Rightarrow> TStr (concat (runes k)) # TColon # toks v) @ lex LTop u"
    if "m \<in> set ms" "delimited u" for m u
  proof -
    obtain k v where m: "m = (k, v)" by (cases m) auto
    have "lex LTop (marshal v @ u) = toks v @ lex LTop u"
      using JObj.IH[of m v u] JObj.prems(1) that m by (auto simp: list_all_iff)
    then show ?thesis using m lex_quote[of k "CHR '':'' # marshal v @ u"] by (simp add: lex_punct)
  qed
  then have "lex LTop (joinStr '','' (map (\<lambda>(k, v). quote k @ '':'' @ marshal v) ms) @ CHR ''}'' # t)
      = commas (map (\<lambda>(k, v). TStr (concat (runes k)) # TColon # toks v) ms) @ lex LTop (CHR ''}'' # t)"
    by (intro lex_joined_tight) auto
  then show ?case by (simp add: lex_punct)
qed

text \<open>The indented form has the same tokens.\<close>

lemma newline_spaces: "list_all isSpaceByte (newline n)"
  by (auto simp: newline_def list_all_iff isSpaceByte_def byte_def)

lemma delimited_newline [simp]: "delimited (newline n @ t)"
  by (simp add: newline_def delimited_def isWordByte_def byte_def isDigit_def lexTop_def isSpaceByte_def)

lemma lex_marshalIndent: "numbersOK v \<Longrightarrow> delimited t \<Longrightarrow> lex LTop (marshalIndent n v @ t) = toks v @ lex LTop t"
proof (induction v arbitrary: n t)
  case (JArr vs)
  have "lex LTop (joinStr (CHR '','' # newline (Suc n)) (map (marshalIndent (Suc n)) vs) @ newline n @ CHR '']'' # t)
      = commas (map toks vs) @ lex LTop (newline n @ CHR '']'' # t)"
    using JArr by (intro lex_joined newline_spaces) (auto simp: list_all_iff)
  then show ?case by (simp add: lex_punct lex_spaces newline_spaces)
next
  case (JObj ms)
  have "lex LTop ((case m of (k, v) \<Rightarrow> quote k @ '': '' @ marshalIndent (Suc n) v) @ u) = (case m of (k, v) \<Rightarrow> TStr (concat (runes k)) # TColon # toks v) @ lex LTop u"
    if "m \<in> set ms" "delimited u" for m u
  proof -
    obtain k v where m: "m = (k, v)" by (cases m) auto
    have "lex LTop (marshalIndent (Suc n) v @ u) = toks v @ lex LTop u"
      using JObj.IH[of m v u "Suc n"] JObj.prems(1) that m by (auto simp: list_all_iff)
    moreover have "isSpaceByte CHR '' ''" by (simp add: isSpaceByte_def byte_def)
    ultimately show ?thesis using m lex_quote[of k "CHR '':'' # CHR '' '' # marshalIndent (Suc n) v @ u"] by (simp add: lex_punct lex_space)
  qed
  then have "lex LTop (joinStr (CHR '','' # newline (Suc n)) (map (\<lambda>(k, v). quote k @ '': '' @ marshalIndent (Suc n) v) ms) @ newline n @ CHR ''}'' # t)
      = commas (map (\<lambda>(k, v). TStr (concat (runes k)) # TColon # toks v) ms) @ lex LTop (newline n @ CHR ''}'' # t)"
    by (intro lex_joined newline_spaces) auto
  then show ?case by (simp add: lex_punct lex_spaces newline_spaces)
qed (simp_all only: marshalIndent.simps lex_marshal)

section \<open>Parsing the tokens\<close>

text \<open>The automaton on a prefix of the tokens.\<close>

fun runP :: "pstate \<Rightarrow> token list \<Rightarrow> pstate option" where
  "runP ps [] = Some ps"
| "runP ps (t # ts) = Option.bind (parse_step ps t) (\<lambda>ps'. runP ps' ts)"

lemma runP_append: "runP ps (ts @ us) = Option.bind (runP ps ts) (\<lambda>ps'. runP ps' us)"
  by (induction ps ts rule: runP.induct) (auto split: Option.bind_splits)

lemma parse_all_runP: "runP ps ts = Some (Done v, []) \<Longrightarrow> parse_all ps ts = Some v"
proof (induction ps ts rule: runP.induct)
  case (1 ps)
  then show ?case by (cases ps) simp
next
  case (2 ps t ts)
  then show ?case by (cases ps; cases "fst ps") (auto split: Option.bind_splits option.splits)
qed

lemma toks_start: "\<exists>t ts. toks v = t # ts \<and> t \<noteq> TRBrack"
  by (cases v) auto

lemma runP_first: "runP (WantValueOrClose, FArr [] # st) (toks v @ us) = runP (WantValue, FArr [] # st) (toks v @ us)"
proof -
  obtain t ts where "toks v = t # ts" "t \<noteq> TRBrack" using toks_start by blast
  then show ?thesis by (cases t) auto
qed

definition parsesTo :: "json \<Rightarrow> bool" where
  "parsesTo v \<longleftrightarrow> (\<forall>st. runP (WantValue, st) (toks v) = complete (canon v) st)"

lemma runP_elements:
  "\<forall>x \<in> set (x # xs). parsesTo x \<Longrightarrow>
   runP (WantValue, FArr acc # st) (commas (map toks (x # xs)) @ [TRBrack]) = complete (JArr (rev acc @ map canon (x # xs))) st"
proof (induction xs arbitrary: x acc)
  case Nil
  then show ?case by (simp add: parsesTo_def runP_append)
next
  case (Cons y ys)
  then have "runP (WantValue, FArr (canon x # acc) # st) (commas (map toks (y # ys)) @ [TRBrack])
      = complete (JArr (rev (canon x # acc) @ map canon (y # ys))) st" by simp
  with Cons.prems show ?case by (simp add: parsesTo_def runP_append)
qed

definition memberToks :: "string \<times> json \<Rightarrow> token list" where
  "memberToks m = TStr (concat (runes (fst m))) # TColon # toks (snd m)"

definition canonMember :: "string \<times> json \<Rightarrow> string \<times> json" where
  "canonMember m = (concat (runes (fst m)), canon (snd m))"

lemma runP_member:
  "parsesTo (snd m) \<Longrightarrow> w = WantKey \<or> w = WantKeyOrClose \<Longrightarrow>
   runP (w, FObj acc # st) (memberToks m @ ts) = runP (AfterValue, FObj (canonMember m # acc) # st) ts"
  by (auto simp: memberToks_def canonMember_def parsesTo_def runP_append)

lemma runP_members:
  "\<forall>m \<in> set (m # ms). parsesTo (snd m) \<Longrightarrow> w = WantKey \<or> w = WantKeyOrClose \<Longrightarrow>
   runP (w, FObj acc # st) (commas (map memberToks (m # ms)) @ [TRBrace]) = complete (JObj (rev acc @ map canonMember (m # ms))) st"
proof (induction ms arbitrary: m acc w)
  case Nil
  then show ?case using runP_member[of m w acc st "[TRBrace]"] by simp
next
  case (Cons n ns)
  have "runP (WantKey, FObj (canonMember m # acc) # st) (commas (map memberToks (n # ns)) @ [TRBrace])
      = complete (JObj (rev (canonMember m # acc) @ map canonMember (n # ns))) st"
    using Cons.prems by (intro Cons.IH) auto
  with Cons.prems show ?case
    using runP_member[of m w acc st "TComma # commas (map memberToks (n # ns)) @ [TRBrace]"] by simp
qed

lemma toks_parse: "parsesTo v"
proof (induction v)
  case (JArr vs)
  show ?case
  proof (cases vs)
    case Nil
    then show ?thesis by (simp add: parsesTo_def)
  next
    case (Cons x xs)
    have "runP (WantValueOrClose, FArr [] # st) (commas (map toks (x # xs)) @ [TRBrack]) = complete (JArr (map canon (x # xs))) st" for st
    proof -
      have "\<exists>us. commas (map toks (x # xs)) @ [TRBrack] = toks x @ us" by (cases xs) auto
      then obtain us where us: "commas (map toks (x # xs)) @ [TRBrack] = toks x @ us" by blast
      show ?thesis using runP_elements[of x xs "[]" st] JArr Cons unfolding us runP_first by simp
    qed
    then show ?thesis using Cons by (simp add: parsesTo_def)
  qed
next
  case (JObj ms)
  have t: "toks (JObj ms) = TLBrace # commas (map memberToks ms) @ [TRBrace]"
    by (simp add: memberToks_def[abs_def] case_prod_beta')
  have c: "canon (JObj ms) = JObj (map canonMember ms)"
    by (simp add: canonMember_def[abs_def] case_prod_beta')
  have p: "\<forall>m \<in> set ms. parsesTo (snd m)" using JObj by (auto simp: snds.simps)
  show ?case
  proof (cases ms)
    case Nil
    then show ?thesis by (simp add: parsesTo_def)
  next
    case (Cons m ms')
    then show ?thesis using runP_members[of m ms' WantKeyOrClose "[]"] p unfolding parsesTo_def t c by simp
  qed
qed (simp_all add: parsesTo_def)

text \<open>Reading back a marshalled value gives the value, with invalid bytes of its strings replaced.\<close>

theorem jsonParse_marshal: "numbersOK v \<Longrightarrow> jsonParse (marshal v) = Some (canon v)"
proof -
  assume "numbersOK v"
  then have "lex LTop (marshal v) = toks v" using lex_marshal[of v "[]"] by (simp add: lex.simps(1))
  moreover have "runP (WantValue, []) (toks v) = Some (Done (canon v), [])" using toks_parse[of v] by (simp add: parsesTo_def)
  ultimately show ?thesis unfolding jsonParse_def by (simp add: parse_all_runP)
qed

text \<open>So does reading back the indented form, with what follows it of white space.\<close>

theorem jsonParse_marshalIndent:
  assumes "numbersOK v" and "list_all isSpaceByte w"
  shows "jsonParse (marshalIndent n v @ w) = Some (canon v)"
proof -
  have "delimited w" using assms(2) by (cases w) (auto simp: delimited_def lexTop_def dest: word_not_space)
  then have "lex LTop (marshalIndent n v @ w) = toks v"
    using lex_marshalIndent[OF assms(1)] lex_spaces[OF assms(2), of "[]"] by (simp add: lex.simps(1))
  moreover have "runP (WantValue, []) (toks v) = Some (Done (canon v), [])" using toks_parse[of v] by (simp add: parsesTo_def)
  ultimately show ?thesis unfolding jsonParse_def by (simp add: parse_all_runP)
qed

end
