(* ===== verification/Materialize.thy ===== *)
theory Materialize
  imports SkillLoader SkillCollectionController
begin

text \<open>
  The materialize command of the skill loader (src/internal/skills/materialize.go and
  src/cmd/skill-loader/main.go), run by the Job a SkillCollection starts for its image: one SkillCard for
  each skill the mounted source holds, and the removal of the cards the source no longer has. The shared
  manifest reader (src/api/skill/manifest.go) is here too.
\<close>

section \<open>Definitions\<close>

record Owner =
  ow_name :: string
  ow_uid :: string
  ow_namespace :: string

record MaterializeOptions =
  mo_owner :: Owner
  mo_image :: string
  mo_type :: string

definition dns1123SubdomainMaxLength :: nat where "dns1123SubdomainMaxLength = 253"

definition cardName :: "string \<Rightarrow> string \<Rightarrow> goerr + string" where
  "cardName owner skill = (let name = owner @ ''-'' @ skill in
     if length name > dns1123SubdomainMaxLength
     then Inl (errorf ''the card for skill %q in collection %q would be named %q, which is %d characters and the limit is %d; shorten the collection name''
       [Lit skill, Lit owner, Lit name, Num (int (length name)), Num (int dns1123SubdomainMaxLength)])
     else Inr name)"

fun replaceRef :: "ownerref \<Rightarrow> ownerref list \<Rightarrow> ownerref list" where
  "replaceRef ref [] = [ref]"
| "replaceRef ref (r # rs) = (if or_uid r = or_uid ref then ref # rs else r # replaceRef ref rs)"

definition setControllerRef :: "SkillCard \<Rightarrow> ownerref \<Rightarrow> SkillCard" where
  "setControllerRef c ref = c\<lparr>card_meta := (card_meta c)\<lparr>m_owners := replaceRef ref (m_owners (card_meta c))\<rparr>\<rparr>"

text \<open>The type is written as it is given; the API server refuses one that is not in the schema's enumeration, and
  so does the conversion.\<close>

definition cardTypeOf :: "string \<Rightarrow> goerr + SkillCardType" where
  "cardTypeOf t = (if t = TypeSkill then Inr SkillCardTypeSkill else if t = TypeRule then Inr SkillCardTypeRule
     else Inl (errorf ''Unsupported value: %q'' [Lit t]))"

definition collectionRef :: "Owner \<Rightarrow> ownerref" where
  "collectionRef ow = \<lparr>or_apiVersion = ''konveyor.io/v1alpha1'', or_kind = ''SkillCollection'', or_name = ow_name ow,
     or_uid = ow_uid ow, or_controller = Some True\<rparr>"

definition mutateCard :: "MaterializeOptions \<Rightarrow> string \<Rightarrow> string \<Rightarrow> Loaded \<Rightarrow> SkillCard \<Rightarrow> goerr + SkillCard" where
  "mutateCard opts skillType name s c =
     (if m_uid (card_meta c) \<noteq> [] \<and> label (card_meta c) labelSkillCollection \<noteq> ow_name (mo_owner opts)
      then Inl (errorf ''SkillCard %q already exists and is not owned by collection %q; rename the collection or the skill''
        [Lit name, Lit (ow_name (mo_owner opts))])
      else (case cardTypeOf skillType of
          Inl e \<Rightarrow> Inl e
        | Inr t \<Rightarrow>
            (let labelled = c\<lparr>card_meta := (card_meta c)\<lparr>m_labels := (m_labels (card_meta c))(labelSkillCollection \<mapsto> ow_name (mo_owner opts))\<rparr>\<rparr>;
                 owned = setControllerRef labelled (collectionRef (mo_owner opts)) in
             Inr (owned\<lparr>card_spec := (card_spec owned)\<lparr>sc_image := mo_image opts, sc_subPath := ld_sourcePath s,
               sc_type := t, sc_description := ld_description s\<rparr>\<rparr>))))"

definition applyCard :: "kclient \<Rightarrow> MaterializeOptions \<Rightarrow> string \<Rightarrow> Loaded \<Rightarrow> string act" where
  "applyCard C opts skillType s = bindE (liftE (cardName (ow_name (mo_owner opts)) (ld_name s))) (\<lambda>name.
     wrapE ''writing SkillCard %q: %w'' [Lit name]
       (case updateCard C (ow_namespace (mo_owner opts), name) (mutateCard opts skillType name s) of
          Inl e \<Rightarrow> failE e
        | Inr c \<Rightarrow> ([ApplySkillCard c], Inr name)))"

fun applyCards :: "kclient \<Rightarrow> MaterializeOptions \<Rightarrow> string \<Rightarrow> Loaded list \<Rightarrow> string list act" where
  "applyCards C opts skillType [] = retE []"
| "applyCards C opts skillType (s # ss) = bindE (applyCard C opts skillType s) (\<lambda>n.
     bindE (applyCards C opts skillType ss) (\<lambda>ns. retE (n # ns)))"

definition pruneCard :: "kclient \<Rightarrow> string list \<Rightarrow> SkillCard \<Rightarrow> unit act" where
  "pruneCard C wanted c = (if m_name (card_meta c) \<in> set wanted then retE ()
     else wrapE ''pruning SkillCard %q: %w'' [Lit (m_name (card_meta c))] (sendE C (DeleteObject ''SkillCard'' (card_meta c))))"

text \<open>\<open>newClient\<close> is the client built from the pod's ServiceAccount, or the error of building it.\<close>

definition Materialize :: "ostree \<Rightarrow> ylib \<Rightarrow> goerr + kclient \<Rightarrow> fpath \<Rightarrow> MaterializeOptions \<Rightarrow> string list act" where
  "Materialize F Y newClient dir opts =
     bindE (liftE (ValidateDir F Y dir)) (\<lambda>found.
     bindE (liftE newClient) (\<lambda>C.
     bindE (applyCards C opts (if mo_type opts = [] then TypeSkill else mo_type opts) found) (\<lambda>names.
     bindE (wrapE ''listing owned SkillCards: %w'' []
       (liftE (listSkillCards C (ow_namespace (mo_owner opts)) [(labelSkillCollection, ow_name (mo_owner opts))]))) (\<lambda>owned.
     bindE (forE (pruneCard C names) owned) (\<lambda>_. retE names)))))"

text \<open>\<open>materializeSkills\<close>: the options from the environment. The loop over the required variables is over a Go
  map, so which missing one the error names is not determined; here it is the first.\<close>

definition requiredMaterializeEnv :: "string list" where
  "requiredMaterializeEnv = [''KONVEYOR_COLLECTION_NAME'', ''KONVEYOR_COLLECTION_UID'', ''KONVEYOR_NAMESPACE'', ''KONVEYOR_SKILL_IMAGE'']"

definition materializeSkills :: "ostree \<Rightarrow> ylib \<Rightarrow> goerr + kclient \<Rightarrow> (string \<Rightarrow> string) \<Rightarrow> fpath \<Rightarrow> string list act" where
  "materializeSkills F Y newClient getenv dir =
     (case find (\<lambda>k. getenv k = []) requiredMaterializeEnv of
        Some k \<Rightarrow> failE (errorf ''%s is required'' [Lit k])
      | None \<Rightarrow> Materialize F Y newClient dir
          \<lparr>mo_owner = \<lparr>ow_name = getenv ''KONVEYOR_COLLECTION_NAME'', ow_uid = getenv ''KONVEYOR_COLLECTION_UID'',
             ow_namespace = getenv ''KONVEYOR_NAMESPACE''\<rparr>,
           mo_image = getenv ''KONVEYOR_SKILL_IMAGE'', mo_type = getenv ''KONVEYOR_SKILL_TYPE''\<rparr>)"

section \<open>What it writes\<close>

text \<open>\<open>CreateOrUpdate\<close> runs the mutation on the object of that key, read or new.\<close>

definition updatesCards :: "kclient \<Rightarrow> bool" where
  "updatesCards C \<longleftrightarrow> (\<forall>k f c. updateCard C k f = Inr c \<longrightarrow> (\<exists>old. keyOf (card_meta old) = k \<and> f old = Inr c))"

text \<open>The card a skill becomes, and that nobody else's card was taken for it.\<close>

definition cardOf :: "MaterializeOptions \<Rightarrow> Loaded \<Rightarrow> SkillCard \<Rightarrow> bool" where
  "cardOf opts s c \<longleftrightarrow> keyOf (card_meta c) = (ow_namespace (mo_owner opts), ow_name (mo_owner opts) @ ''-'' @ ld_name s)
     \<and> length (m_name (card_meta c)) \<le> 253
     \<and> m_labels (card_meta c) labelSkillCollection = Some (ow_name (mo_owner opts))
     \<and> collectionRef (mo_owner opts) \<in> set (m_owners (card_meta c))
     \<and> sc_image (card_spec c) = mo_image opts \<and> sc_subPath (card_spec c) = ld_sourcePath s
     \<and> skillTypeString (sc_type (card_spec c)) = effectiveType (mo_type opts) \<and> sc_description (card_spec c) = ld_description s
     \<and> (\<exists>old :: SkillCard. keyOf (card_meta old) = keyOf (card_meta c)
          \<and> (m_uid (card_meta old) = [] \<or> label (card_meta old) labelSkillCollection = ow_name (mo_owner opts))
          \<and> (\<forall>k. k \<noteq> labelSkillCollection \<longrightarrow> m_labels (card_meta c) k = m_labels (card_meta old) k)
          \<and> (\<forall>r \<in> set (m_owners (card_meta old)). or_uid r \<noteq> ow_uid (mo_owner opts) \<longrightarrow> r \<in> set (m_owners (card_meta c))))"

lemma replaceRef_self [simp]: "ref \<in> set (replaceRef ref rs)"
  by (induction rs) auto

lemma replaceRef_keeps: "r \<in> set rs \<Longrightarrow> or_uid r \<noteq> or_uid ref \<Longrightarrow> r \<in> set (replaceRef ref rs)"
  by (induction rs) auto

lemma collectionRef_uid [simp]: "or_uid (collectionRef ow) = ow_uid ow"
  by (simp add: collectionRef_def)

lemma cardTypeOf_string: "cardTypeOf s = Inr t \<Longrightarrow> skillTypeString t = s"
  by (auto simp: cardTypeOf_def TypeSkill_def TypeRule_def split: if_splits)

lemma applyCard_card:
  assumes "updatesCards C" and "snd (applyCard C opts (effectiveType (mo_type opts)) s) = Inr n"
  shows "n = ow_name (mo_owner opts) @ ''-'' @ ld_name s \<and> (\<exists>c. fst (applyCard C opts (effectiveType (mo_type opts)) s) = [ApplySkillCard c] \<and> cardOf opts s c)"
proof -
  let ?n = "ow_name (mo_owner opts) @ ''-'' @ ld_name s" and ?t = "effectiveType (mo_type opts)"
  obtain n' where n': "cardName (ow_name (mo_owner opts)) (ld_name s) = Inr n'"
    and u: "snd (case updateCard C (ow_namespace (mo_owner opts), n') (mutateCard opts ?t n' s) of
       Inl e \<Rightarrow> failE e | Inr c \<Rightarrow> ([ApplySkillCard c], Inr n')) = Inr n"
    using assms(2) by (auto simp: applyCard_def snd_bindE_Inr)
  then have nn: "n' = ?n" "length ?n \<le> 253" by (auto simp: cardName_def dns1123SubdomainMaxLength_def Let_def split: if_splits)
  obtain c where c: "updateCard C (ow_namespace (mo_owner opts), ?n) (mutateCard opts ?t ?n s) = Inr c"
    using u nn(1) by (cases "updateCard C (ow_namespace (mo_owner opts), ?n) (mutateCard opts ?t ?n s)") auto
  then have n: "n = ?n" "length ?n \<le> 253" using u nn by auto
  from c assms(1) obtain old where old: "keyOf (card_meta old) = (ow_namespace (mo_owner opts), ?n)" "mutateCard opts ?t ?n s old = Inr c"
    unfolding updatesCards_def by blast
  have "cardOf opts s c"
    using old n(2)
    by (auto simp: mutateCard_def cardOf_def Let_def setControllerRef_def keyOf_def cardTypeOf_string
      split: if_splits sum.splits intro!: exI[of _ old] replaceRef_keeps)
  moreover have "fst (applyCard C opts ?t s) = [ApplySkillCard c]"
    using c n(2) by (simp add: applyCard_def cardName_def Let_def bindE_def liftE_def dns1123SubdomainMaxLength_def)
  ultimately show ?thesis using n(1) by blast
qed


lemma applyCards_cards:
  assumes "updatesCards C" and "snd (applyCards C opts (effectiveType (mo_type opts)) ss) = Inr ns"
  shows "ns = map (\<lambda>s. ow_name (mo_owner opts) @ ''-'' @ ld_name s) ss
    \<and> (\<exists>cs. fst (applyCards C opts (effectiveType (mo_type opts)) ss) = map ApplySkillCard cs \<and> list_all2 (cardOf opts) ss cs)"
  using assms(2)
proof (induction ss arbitrary: ns)
  case (Cons s ss)
  let ?t = "effectiveType (mo_type opts)"
  obtain n ns' where n: "snd (applyCard C opts ?t s) = Inr n" "snd (applyCards C opts ?t ss) = Inr ns'" "ns = n # ns'"
    using Cons.prems by (auto simp: snd_bindE_Inr)
  from applyCard_card[OF assms(1) n(1)] obtain c where
    c: "n = ow_name (mo_owner opts) @ ''-'' @ ld_name s" "fst (applyCard C opts ?t s) = [ApplySkillCard c]" "cardOf opts s c" by blast
  from Cons.IH[OF n(2)] obtain cs where
    cs: "ns' = map (\<lambda>s. ow_name (mo_owner opts) @ ''-'' @ ld_name s) ss" "fst (applyCards C opts ?t ss) = map ApplySkillCard cs"
      "list_all2 (cardOf opts) ss cs" by blast
  have "fst (applyCards C opts ?t (s # ss)) = map ApplySkillCard (c # cs)" using n c cs by (simp add: bindE_def)
  with n c cs show ?case by (metis list.simps(9) list_all2_Cons)
qed (simp)

lemma pruneCards_calls:
  assumes "snd (forE (pruneCard C wanted) cs) = Inr u"
  shows "fst (forE (pruneCard C wanted) cs) =
    map (DeleteObject ''SkillCard'' \<circ> card_meta) (filter (\<lambda>c. m_name (card_meta c) \<notin> set wanted) cs)"
  using assms by (induction cs) (auto simp: pruneCard_def bindE_def wrapE_def split: sum.splits if_splits)

text \<open>The environment a Job gives its container, read as \<open>os.Getenv\<close> does, and the options in it.\<close>

definition jobEnv :: "job \<Rightarrow> string \<Rightarrow> string" where
  "jobEnv j n = (case find (\<lambda>v. ev_name v = n) (ct_env (jb_container j)) of Some v \<Rightarrow> ev_value v | None \<Rightarrow> [])"

definition enumerationOptions :: "SkillCollection \<Rightarrow> string \<Rightarrow> MaterializeOptions" where
  "enumerationOptions c img = \<lparr>mo_owner = \<lparr>ow_name = m_name (col_meta c), ow_uid = m_uid (col_meta c), ow_namespace = m_namespace (col_meta c)\<rparr>,
     mo_image = img, mo_type = skillTypeString (sl_type (col_spec c))\<rparr>"

lemma enumerationOptions_sel:
  "ow_name (mo_owner (enumerationOptions c img)) = m_name (col_meta c)"
  "ow_namespace (mo_owner (enumerationOptions c img)) = m_namespace (col_meta c)"
  by (simp_all add: enumerationOptions_def)

lemma bindE_lift_Inr: "bindE (liftE (Inr x)) f = f x"
  by (simp add: bindE_def)

lemma enumeration_env:
  "jobEnv (enumerationJob R c img m) ''KONVEYOR_COLLECTION_NAME'' = m_name (col_meta c)"
  "jobEnv (enumerationJob R c img m) ''KONVEYOR_COLLECTION_UID'' = m_uid (col_meta c)"
  "jobEnv (enumerationJob R c img m) ''KONVEYOR_NAMESPACE'' = m_namespace (col_meta c)"
  "jobEnv (enumerationJob R c img m) ''KONVEYOR_SKILL_IMAGE'' = img"
  "jobEnv (enumerationJob R c img m) ''KONVEYOR_SKILL_TYPE'' = skillTypeString (sl_type (col_spec c))"
  by (simp_all add: jobEnv_def enumerationJob_def plainEnv_def)

lemma materializeSkills_of_job:
  assumes "snd (materializeSkills F Y N (jobEnv (enumerationJob R c img m)) dir) = Inr ns"
  shows "materializeSkills F Y N (jobEnv (enumerationJob R c img m)) dir = Materialize F Y N dir (enumerationOptions c img)"
  using assms
  by (auto simp: materializeSkills_def enumerationOptions_def enumeration_env split: option.splits)

lemma ValidateDir_distinct: "ValidateDir F Y dir = Inr found \<Longrightarrow> distinct (map ld_name found)"
  using checkAll_clean by (auto simp: ValidateDir_def check_def Let_def split: sum.splits if_splits)



definition ownedCollection :: SkillCollection where
  "ownedCollection = imageCollection\<lparr>col_meta := (col_meta imageCollection)\<lparr>m_uid := ''u1''\<rparr>\<rparr>"

definition cardClient :: kclient where
  "cardClient = quietClient\<lparr>listSkillCards := (\<lambda>_ _. Inr [emptyCard (''ns'', ''col-a''), emptyCard (''ns'', ''col-gone'')])\<rparr>"

lemma cardClient_updates: "updatesCards cardClient"
proof -
  have "updateCard cardClient = (\<lambda>k f. f (emptyCard k))" by (simp add: cardClient_def quietClient_def)
  moreover have "keyOf (card_meta (emptyCard k)) = k" for k by (simp add: emptyCard_def newMeta_def keyOf_def)
  ultimately show ?thesis by (auto simp: updatesCards_def)
qed

lemma ownedCollection_run:
  "snd (materializeSkills stagedTree anyYaml (Inr cardClient)
     (jobEnv (enumerationJob (colReconciler ownedCollection notFound) ownedCollection ''quay.io/all:1'' (col_meta ownedCollection))) [''src'', ''a'']) = Inr [''col-a'']"
  by code_simp


end
