(* ===== verification/HarnessText.thy ===== *)
theory HarnessText
  imports JsonRoundTrip
begin

text \<open>
  Text handling of the harness (src/harness/cmd/migration-harness): the redactor of redact.go, which
  masks credentials in everything the harness publishes, and the functions that cut texts to size. A
  rune is kept as its encoding; text beyond ASCII is written as its bytes.
\<close>

section \<open>Strings\<close>

definition emDash :: string where "emDash = [CHR 0xE2, CHR 0x80, CHR 0x94]"
definition enDash :: string where "enDash = [CHR 0xE2, CHR 0x80, CHR 0x93]"
definition hellip :: string where "hellip = [CHR 0xE2, CHR 0x80, CHR 0xA6]"

definition hasSuffix :: "string \<Rightarrow> string \<Rightarrow> bool" where
  "hasSuffix s t = hasPrefix (rev s) (rev t)"

text \<open>\<open>strings.TrimLeft\<close>, \<open>TrimRight\<close> and \<open>Trim\<close> with a cutset of runes.\<close>

definition cutLeft :: "string list \<Rightarrow> string \<Rightarrow> string" where
  "cutLeft cs s = concat (dropWhile (\<lambda>r. r \<in> set cs) (runeBytes s))"

definition cutRight :: "string list \<Rightarrow> string \<Rightarrow> string" where
  "cutRight cs s = concat (rev (dropWhile (\<lambda>r. r \<in> set cs) (rev (runeBytes s))))"

definition cutBoth :: "string list \<Rightarrow> string \<Rightarrow> string" where
  "cutBoth cs s = cutRight cs (cutLeft cs s)"

definition asciiSet :: "string \<Rightarrow> string list" where
  "asciiSet s = map (\<lambda>c. [c]) s"

text \<open>\<open>strings.EqualFold\<close> with an ASCII word.\<close>

definition foldText :: "string \<Rightarrow> string" where
  "foldText s = concat (map foldRune (runeBytes s))"

definition equalFold :: "string \<Rightarrow> string \<Rightarrow> bool" where
  "equalFold s t = (foldText s = foldText t)"

definition newlineChar :: char where "newlineChar = CHR 0x0A"

definition splitLines :: "string \<Rightarrow> string list" where
  "splitLines s = splitOn newlineChar s"

text \<open>\<open>strings.ReplaceAll(s, "\r\n", "\n")\<close>.\<close>

fun unixLines :: "string \<Rightarrow> string" where
  "unixLines [] = []"
| "unixLines [c] = [c]"
| "unixLines (c # d # s) = (if c = CHR 0x0D \<and> d = CHR 0x0A then d # unixLines s else c # unixLines (d # s))"

section \<open>The redactor\<close>

definition MinSecretLen :: nat where "MinSecretLen = 8"

definition marker :: string where "marker = ''[redacted]''"

text \<open>The names of environment variables whose value is a credential: a case-insensitive match anywhere.\<close>

definition secretNames :: "string list" where
  "secretNames = [''secret'', ''token'', ''password'', ''passwd'', ''api_key'', ''access_key'', ''credentials'']"

definition secretEnvName :: "string \<Rightarrow> bool" where
  "secretEnvName name = list_ex (containsStr (foldText name)) secretNames"

definition longestFirst :: "string list \<Rightarrow> string list" where
  "longestFirst ss = sort_key (\<lambda>s. - int (length s)) ss"

definition addSecret :: "string list \<Rightarrow> string \<Rightarrow> string list" where
  "addSecret ss v = (if MinSecretLen \<le> length v \<and> v \<notin> set ss then ss @ [v] else ss)"

text \<open>\<open>newRedactor\<close>: the given values and the credentials in the environment. The environment is a list of
  names and values, as \<open>os.Environ\<close> lists them.\<close>

definition newRedactor :: "(string \<times> string) list \<Rightarrow> string list \<Rightarrow> string list" where
  "newRedactor env known = longestFirst
     (foldl addSecret (foldl addSecret [] known) (map snd (filter (\<lambda>(n, v). secretEnvName n) env)))"

definition addSecrets :: "string list \<Rightarrow> string list \<Rightarrow> string list" where
  "addSecrets ss new = longestFirst (foldl (\<lambda>ss v. if v \<noteq> [] \<and> v \<notin> set ss then ss @ [v] else ss) ss new)"

text \<open>\<open>strings.NewReplacer\<close> with every secret replaced by the marker: at each position the first secret of the
  list that matches is replaced and the scan goes on after it.\<close>

function replaceAll :: "string list \<Rightarrow> string \<Rightarrow> string" where
  "replaceAll ss [] = []"
| "replaceAll ss (c # t) = (case find (\<lambda>k. k \<noteq> [] \<and> hasPrefix (c # t) k) ss of
      Some k \<Rightarrow> marker @ replaceAll ss (drop (length k) (c # t))
    | None \<Rightarrow> c # replaceAll ss t)"
  by pat_completeness auto
termination
proof (relation "measure (length \<circ> snd)")
  fix ss :: "string list" and c t k
  assume "find (\<lambda>k. k \<noteq> [] \<and> hasPrefix (c # t) k) ss = Some k"
  then have "k \<noteq> []" by (auto simp: find_Some_iff)
  then show "((ss, drop (length k) (c # t)), ss, c # t) \<in> measure (length \<circ> snd)" by (cases k) auto
qed auto

definition redact :: "string list \<Rightarrow> string \<Rightarrow> string" where
  "redact ss text = replaceAll ss text"

declare replaceAll.simps(2) [simp del]

section \<open>Cutting to size\<close>

text \<open>The first \<open>n - 1\<close> runes of a text that has more than \<open>n\<close>, trimmed, with an ellipsis.\<close>

definition clipRunes :: "nat \<Rightarrow> string \<Rightarrow> string" where
  "clipRunes n s = (if length (runes s) > n then trimSpace (concat (take (n - 1) (runes s))) @ hellip else s)"

definition clipVerify :: "string \<Rightarrow> nat \<Rightarrow> string" where
  "clipVerify s n = clipRunes n (trimSpace s)"

definition clipVerifyTail :: "string \<Rightarrow> nat \<Rightarrow> string" where
  "clipVerifyTail s0 n = (let s = trimSpace s0; rs = runes s in
     if length rs > n then hellip @ trimSpace (concat (drop (length rs - n + 1) rs)) else s)"

text \<open>\<open>truncateRuneSafe\<close>: back from the limit to the start of a rune.\<close>

definition runeStart :: "char \<Rightarrow> bool" where
  "runeStart c = (\<not> (128 \<le> byte c \<and> byte c < 192))"

fun backToStart :: "string \<Rightarrow> nat \<Rightarrow> nat" where
  "backToStart s 0 = 0"
| "backToStart s (Suc n) = (if runeStart (s ! Suc n) then Suc n else backToStart s n)"

definition truncateRuneSafe :: "string \<Rightarrow> nat \<Rightarrow> string" where
  "truncateRuneSafe s n = (if length s \<le> n then s else take (backToStart s n) s)"

lemma backToStart_le: "backToStart s n \<le> n"
  by (induction n) auto

lemma truncateRuneSafe_le: "length (truncateRuneSafe s n) \<le> n"
  using backToStart_le[of s n] by (auto simp: truncateRuneSafe_def)

section \<open>No secret survives redaction\<close>

lemma longestFirst_set [simp]: "set (longestFirst ss) = set ss"
  by (simp add: longestFirst_def)

lemma containsStr_suffix: "containsStr s t \<longleftrightarrow> (\<exists>a b. s = a @ b \<and> hasPrefix b t)"
proof (induction s)
  case Nil
  then show ?case by (auto simp: hasPrefix_def)
next
  case (Cons c s)
  show ?case
  proof
    assume "containsStr (c # s) t"
    then consider "hasPrefix (c # s) t" | "containsStr s t" by auto
    then show "\<exists>a b. c # s = a @ b \<and> hasPrefix b t"
    proof cases
      case 1
      then show ?thesis by (intro exI[of _ "[]"] exI[of _ "c # s"]) simp
    next
      case 2
      with Cons.IH obtain a b where "s = a @ b" "hasPrefix b t" by blast
      then show ?thesis by (intro exI[of _ "c # a"] exI[of _ b]) simp
    qed
  next
    assume "\<exists>a b. c # s = a @ b \<and> hasPrefix b t"
    then obtain a b where "c # s = a @ b" "hasPrefix b t" by blast
    with Cons.IH show "containsStr (c # s) t" by (cases a) auto
  qed
qed


lemma replaceAll_plain_prefix:
  "hasPrefix (replaceAll ss t) u \<Longrightarrow> CHR ''['' \<notin> set u \<Longrightarrow> hasPrefix t u"
proof (induction ss t arbitrary: u rule: replaceAll.induct)
  case (2 ss c t)
  show ?case
  proof (cases "find (\<lambda>k. k \<noteq> [] \<and> hasPrefix (c # t) k) ss")
    case None
    with 2 show ?thesis by (cases u) (auto simp: replaceAll.simps(2) hasPrefix_def)
  next
    case (Some k)
    with 2(3,4) show ?thesis by (cases u) (auto simp: replaceAll.simps(2) hasPrefix_def marker_def)
  qed
qed simp

lemma marker_prefix_free:
  assumes "hasPrefix (m @ t) u" and "CHR '']'' \<notin> set u" and "last m = CHR '']''" and "m \<noteq> []"
  shows "hasPrefix m u"
proof (cases "length u < length m")
  case True
  with assms(1) show ?thesis by (simp add: hasPrefix_def)
next
  case False
  with assms(1) have "m @ take (length u - length m) t = u" by (simp add: hasPrefix_def)
  then have "last m \<in> set u" using assms(4) by (metis UnCI last_in_set set_append)
  with assms(2,3) show ?thesis by simp
qed

lemma marker_suffix_free:
  assumes "marker = a @ b" and "hasPrefix (b @ t) u" and "b \<noteq> []" and "CHR ''['' \<notin> set u" "CHR '']'' \<notin> set u" "u \<noteq> []"
  shows "containsStr ''redacted'' u"
proof -
  have "last (a @ b) = last b" using assms(3) by simp
  moreover have "last marker = CHR '']''" by (simp add: marker_def)
  ultimately have "last b = CHR '']''" using assms(1) by simp
  from marker_prefix_free[OF assms(2,5) this assms(3)] have u: "hasPrefix b u" .
  then obtain v where v: "b = u @ v" by (auto simp: hasPrefix_iff)
  have a: "a \<noteq> []" using assms(1,4,6) v by (cases u) (auto simp: marker_def)
  have vn: "v \<noteq> []" using \<open>last b = CHR '']''\<close> v assms(5,6) by (metis append_Nil2 last_in_set)
  have m: "CHR ''['' # ''redacted'' @ [CHR '']''] = a @ u @ v" using assms(1) v by (simp add: marker_def)
  obtain a' where a': "a = CHR ''['' # a'" using a m by (cases a) auto
  obtain v' where v': "v = v' @ [CHR '']'']" using vn m by (cases v rule: rev_cases) auto
  have "''redacted'' = a' @ u @ v'" using m a' v' by simp
  then show ?thesis unfolding containsStr_suffix by (metis hasPrefix_append)
qed

text \<open>A secret the redactor holds is in no text it returns, wherever it was and however it was split
  over the text, as long as it has no square bracket and is not a piece of the marker's own word.\<close>

lemma redact_hides:
  assumes "u \<in> set ss" and "u \<noteq> []" and "CHR ''['' \<notin> set u" and "CHR '']'' \<notin> set u" and "\<not> containsStr ''redacted'' u"
  shows "\<not> containsStr (redact ss text) u"
proof -
  have "\<not> hasPrefix b u" if "replaceAll ss t = a @ b" for a b t
    using that assms(1)
  proof (induction ss t arbitrary: a b rule: replaceAll.induct)
    case (1 ss)
    then show ?case using assms(2) by (simp add: hasPrefix_def)
  next
    case (2 ss c t)
    show ?case
    proof (cases "find (\<lambda>k. k \<noteq> [] \<and> hasPrefix (c # t) k) ss")
      case None
      then have r: "c # replaceAll ss t = a @ b" using 2(3) by (simp add: replaceAll.simps(2))
      show ?thesis
      proof (cases a)
        case Nil
        show ?thesis
        proof
          assume "hasPrefix b u"
          then have "hasPrefix (replaceAll ss (c # t)) u" using 2(3) Nil by simp
          then have "hasPrefix (c # t) u" using assms(3) by (rule replaceAll_plain_prefix)
          with None 2(4) assms(2) show False by (auto simp: find_None_iff)
        qed
      qed (use r 2(1)[OF None _ 2(4)] in auto)
    next
      case (Some k)
      then have r: "marker @ replaceAll ss (drop (length k) (c # t)) = a @ b" using 2(3) by (simp add: replaceAll.simps(2))
      note IH = 2(2)[OF Some _ 2(4)]
      define R where "R = replaceAll ss (drop (length k) (c # t))"
      obtain us where us: "marker @ us = a \<and> R = us @ b \<or> marker = a @ us \<and> us @ R = b"
        using r by (auto simp: append_eq_append_conv2 R_def)
      then consider a' where "a = marker @ a'" "replaceAll ss (drop (length k) (c # t)) = a' @ b"
        | b' where "marker = a @ b'" "b' \<noteq> []" "b = b' @ replaceAll ss (drop (length k) (c # t))"
        unfolding R_def by (cases "us = []") auto
      then show ?thesis
      proof cases
        case 1
        with IH show ?thesis by simp
      next
        case 2
        with marker_suffix_free[OF 2(1) _ 2(2) assms(3,4,2)] assms(5) show ?thesis by auto
      qed
    qed
  qed
  then show ?thesis unfolding containsStr_suffix redact_def by blast
qed

end
