(* ===== verification/Regexp.thy ===== *)
theory Regexp
  imports HarnessText
begin

text \<open>
  The regular expressions of the harness, matched over runes with the leftmost-first rule of Go's regexp
  package: of the ways to match at a position the one a backtracking search finds first counts. Repetition
  is of one class of runes, as in every expression the harness uses.
\<close>

datatype regex =
    Rep "string \<Rightarrow> bool" nat "nat option" bool \<comment> \<open>class, least and most number, greedy\<close>
  | Seq regex regex
  | Alt regex regex
  | Grp regex
  | EndText
  | Eps

text \<open>The ways to match at the start of a text, by priority: the runes taken, the rest, the groups.\<close>

definition repCounts :: "nat \<Rightarrow> nat option \<Rightarrow> bool \<Rightarrow> nat \<Rightarrow> nat list" where
  "repCounts lo hi greedy k = (let ns = [lo..<Suc (case hi of None \<Rightarrow> k | Some h \<Rightarrow> min h k)] in if greedy then rev ns else ns)"

fun ways :: "regex \<Rightarrow> string list \<Rightarrow> (string list \<times> string list \<times> string list) list" where
  "ways (Rep p lo hi greedy) rs = map (\<lambda>n. (take n rs, drop n rs, [])) (repCounts lo hi greedy (length (takeWhile p rs)))"
| "ways (Seq a b) rs = concat (map (\<lambda>(c1, r1, g1). map (\<lambda>(c2, r2, g2). (c1 @ c2, r2, g1 @ g2)) (ways b r1)) (ways a rs))"
| "ways (Alt a b) rs = ways a rs @ ways b rs"
| "ways (Grp a) rs = map (\<lambda>(c, r, g). (c, r, concat c # g)) (ways a rs)"
| "ways EndText rs = (if rs = [] then [([], [], [])] else [])"
| "ways Eps rs = [([], rs, [])]"

text \<open>\<open>FindStringSubmatch\<close> and \<open>MatchString\<close> of an expression anchored at the start.\<close>

definition submatch :: "regex \<Rightarrow> string \<Rightarrow> string list option" where
  "submatch r s = (case ways r (runeBytes s) of [] \<Rightarrow> None | (c, t, g) # ws \<Rightarrow> Some g)"

definition matches :: "regex \<Rightarrow> string \<Rightarrow> bool" where
  "matches r s = (ways r (runeBytes s) \<noteq> [])"

text \<open>\<open>MatchString\<close> of an expression that is not anchored.\<close>

fun searchFrom :: "regex \<Rightarrow> string list \<Rightarrow> bool" where
  "searchFrom r [] = (ways r [] \<noteq> [])"
| "searchFrom r (x # xs) = (ways r (x # xs) \<noteq> [] \<or> searchFrom r xs)"

definition search :: "regex \<Rightarrow> string \<Rightarrow> bool" where
  "search r s = searchFrom r (runeBytes s)"

text \<open>\<open>ReplaceAllString\<close> of an expression that matches no empty text.\<close>

function replaceFrom :: "regex \<Rightarrow> string \<Rightarrow> string list \<Rightarrow> string" where
  "replaceFrom r t [] = []"
| "replaceFrom r t (x # xs) = (case ways r (x # xs) of
      (y # ys, rest, g) # ws \<Rightarrow> t @ replaceFrom r t (drop (length ys) xs)
    | _ \<Rightarrow> x @ replaceFrom r t xs)"
  by pat_completeness auto
termination
  by (relation "measure (\<lambda>(r, t, xs). length xs)") auto

declare replaceFrom.simps(2) [simp del]

definition replaceMatches :: "regex \<Rightarrow> string \<Rightarrow> string \<Rightarrow> string" where
  "replaceMatches r t s = replaceFrom r t (runeBytes s)"

section \<open>Classes and literals\<close>

definition reSpace :: "string \<Rightarrow> bool" where
  "reSpace r = (r \<in> {[CHR 0x09], [CHR 0x0A], [CHR 0x0C], [CHR 0x0D], '' ''})"

definition anyRune :: "string \<Rightarrow> bool" where "anyRune r = (r \<noteq> [CHR 0x0A])"

definition oneOf :: "string \<Rightarrow> string \<Rightarrow> bool" where "oneOf cs r = (\<exists>c\<in>set cs. r = [c])"

definition notOf :: "char \<Rightarrow> string \<Rightarrow> bool" where "notOf c r = (r \<noteq> [c])"

definition letterRune :: "string \<Rightarrow> bool" where
  "letterRune r = (case r of [c] \<Rightarrow> 65 \<le> byte c \<and> byte c \<le> 90 \<or> 97 \<le> byte c \<and> byte c \<le> 122 | _ \<Rightarrow> False)"

definition upperRune :: "string \<Rightarrow> bool" where
  "upperRune r = (case r of [c] \<Rightarrow> 65 \<le> byte c \<and> byte c \<le> 90 | _ \<Rightarrow> False)"

definition digitRune :: "string \<Rightarrow> bool" where
  "digitRune r = (case r of [c] \<Rightarrow> isDigit c | _ \<Rightarrow> False)"

abbreviation star :: "(string \<Rightarrow> bool) \<Rightarrow> regex" where "star p \<equiv> Rep p 0 None True"
abbreviation plus1 :: "(string \<Rightarrow> bool) \<Rightarrow> regex" where "plus1 p \<equiv> Rep p 1 None True"
abbreviation maybe :: "(string \<Rightarrow> bool) \<Rightarrow> regex" where "maybe p \<equiv> Rep p 0 (Some 1) True"
abbreviation once :: "(string \<Rightarrow> bool) \<Rightarrow> regex" where "once p \<equiv> Rep p 1 (Some 1) True"

text \<open>A word that is matched whatever its case, and a sequence.\<close>

fun seqs :: "regex list \<Rightarrow> regex" where
  "seqs [] = Eps"
| "seqs [r] = r"
| "seqs (r # rs) = Seq r (seqs rs)"

definition anyCase :: "string \<Rightarrow> regex" where
  "anyCase w = seqs (map (\<lambda>c. once (\<lambda>r. foldRune r = [c])) w)"

section \<open>What a match is\<close>

lemma ways_split: "(c, r, g) \<in> set (ways e rs) \<Longrightarrow> c @ r = rs"
proof (induction e arbitrary: rs c r g)
  case (Seq a b)
  then show ?case by fastforce
next
  case (Alt a b)
  then show ?case by auto
next
  case (Grp a)
  then show ?case by fastforce
qed (auto split: if_splits)

lemma ways_Seq_iff: "(c, t, g) \<in> set (ways (Seq a b) rs) \<longleftrightarrow>
    (\<exists>c1 r1 g1 c2 g2. (c1, r1, g1) \<in> set (ways a rs) \<and> (c2, t, g2) \<in> set (ways b r1) \<and> c = c1 @ c2 \<and> g = g1 @ g2)"
  by (force simp: image_iff)

lemma ways_Alt_iff: "(c, t, g) \<in> set (ways (Alt a b) rs) \<longleftrightarrow> (c, t, g) \<in> set (ways a rs) \<or> (c, t, g) \<in> set (ways b rs)"
  by auto

lemma ways_Grp_iff: "(c, t, g) \<in> set (ways (Grp a) rs) \<longleftrightarrow> (\<exists>g'. (c, t, g') \<in> set (ways a rs) \<and> g = concat c # g')"
  by (force simp: image_iff)

lemmas ways_iff = ways_Seq_iff ways_Alt_iff ways_Grp_iff

lemma ways_Rep_groups: "(c, t, g) \<in> set (ways (Rep p lo hi greedy) rs) \<Longrightarrow> g = []"
  by auto

end
