(* ===== verification/HarnessHandoff.thy ===== *)
theory HarnessHandoff
  imports Regexp
begin

text \<open>
  The handoff document (src/harness/cmd/migration-harness/handoff.go): a stage appends a section with its own
  verdict on its work, and the harness reads the last one. The file and the repository are parameters: the
  answers of \<open>git.FileChangedSince\<close> and \<open>os.ReadFile\<close>.
\<close>

definition handoffPath :: string where "handoffPath = ''.konveyor/handoff.md''"
definition handoffStatusFailed :: string where "handoffStatusFailed = ''failed''"
definition handoffStatusesOK :: "string list" where
  "handoffStatusesOK = [''completed'', ''passed'', ''succeeded'', ''done'']"
definition handoffDetailLen :: nat where "handoffDetailLen = 300"

record handoffVerdict =
  hdv_status :: string
  hdv_detail :: string

definition verdictFailed :: "handoffVerdict \<Rightarrow> bool" where
  "verdictFailed v = (hdv_status v = handoffStatusFailed)"

definition recognised :: "handoffVerdict \<Rightarrow> bool" where
  "recognised v = (verdictFailed v \<or> hdv_status v \<in> set handoffStatusesOK)"

definition handoffStopReason :: "handoffVerdict \<Rightarrow> string" where
  "handoffStopReason v = (if hdv_detail v \<noteq> [] then ''handoff: '' @ hdv_detail v else ''handoff: Status: '' @ hdv_status v)"

section \<open>The expressions\<close>

definition bullet :: regex where
  "bullet = Alt (Seq (once (oneOf ''-*'')) (star reSpace)) Eps"

definition labelled :: "regex \<Rightarrow> regex" where
  "labelled w = seqs [star reSpace, bullet, star (oneOf ''*''), w, star (oneOf ''*''), star reSpace, once (oneOf '':''), star reSpace,
     Grp (Rep anyRune 1 None False), star reSpace, EndText]"

definition handoffStatusLine :: regex where "handoffStatusLine = labelled (anyCase ''status'')"
definition handoffDetailLine :: regex where
  "handoffDetailLine = labelled (Alt (anyCase ''summary'') (Alt (anyCase ''error'') (anyCase ''reason'')))"
definition tableSeparator :: regex where
  "tableSeparator = seqs [maybe (oneOf '':''), plus1 (oneOf ''-''), maybe (oneOf '':''), EndText]"
definition handoffFence :: regex where
  "handoffFence = Seq (Rep (oneOf '' '') 0 (Some 3) True) (Grp (Alt (Rep (oneOf [CHR 0x60]) 3 None True) (Rep (oneOf ''~'') 3 None True)))"

text \<open>The group of an expression that has one.\<close>

definition group1 :: "regex \<Rightarrow> string \<Rightarrow> string option" where
  "group1 e s = map_option (\<lambda>g. g ! 0) (submatch e s)"

section \<open>Prose\<close>

record proseLine =
  pl_text :: string
  pl_fence :: bool

definition closesFence :: "string \<Rightarrow> string \<Rightarrow> bool" where
  "closesFence fence line = (case group1 handoffFence line of
      None \<Rightarrow> False
    | Some m \<Rightarrow> take 1 m = take 1 fence \<and> length fence \<le> length m \<and> trimSpace line = m)"

fun proseFrom :: "string \<Rightarrow> string list \<Rightarrow> proseLine list" where
  "proseFrom fence [] = []"
| "proseFrom fence (l # ls) =
     (if fence = [] then (case group1 handoffFence l of
          Some m \<Rightarrow> \<lparr>pl_text = l, pl_fence = True\<rparr> # proseFrom m ls
        | None \<Rightarrow> \<lparr>pl_text = l, pl_fence = False\<rparr> # proseFrom [] ls)
      else proseFrom (if closesFence fence l then [] else fence) ls)"

definition handoffProseLines :: "string \<Rightarrow> proseLine list" where
  "handoffProseLines content = proseFrom [] (splitLines (unixLines content))"

definition handoffProse :: "string \<Rightarrow> string list" where
  "handoffProse content = map pl_text (filter (\<lambda>e. \<not> pl_fence e) (handoffProseLines content))"

definition sectionOpens :: "string \<Rightarrow> bool" where
  "sectionOpens line = hasPrefix (cutLeft (asciiSet [CHR '' '', CHR 0x09]) line) ''## ''"

fun lastSection :: "string list \<Rightarrow> string list \<Rightarrow> string list" where
  "lastSection cur [] = cur"
| "lastSection cur (l # ls) = lastSection (if sectionOpens l then ls else cur) ls"

definition lastHandoffSection :: "string \<Rightarrow> string list" where
  "lastHandoffSection content = (let lines = handoffProse content in lastSection lines lines)"

section \<open>The verdict\<close>

definition splitHandoffStatus :: "string \<Rightarrow> string \<times> string" where
  "splitHandoffStatus v0 = (let v = cutLeft (asciiSet [CHR ''*'', CHR '' '', CHR 0x09]) v0 in
     case fieldsOf v of
       [] \<Rightarrow> ([], [])
     | f # fs \<Rightarrow>
         (let status = toLower (cutBoth (asciiSet (''.,;:!*'' @ [CHR 0x60, CHR 0x22, CHR 0x27] @ ''()'')) f);
              rest0 = (if hasPrefix v f then drop (length f) v else v);
              rest1 = trimSpace (cutLeft (asciiSet [CHR '' '', CHR 0x09, CHR ''-'', CHR '':'', CHR ''|'', CHR ''('', CHR '',''] @ [emDash, enDash]) rest0) in
          (status, trimSpace (cutRight (asciiSet '')'') rest1))))"

definition placeholderCells :: "string list" where
  "placeholderCells = [[], ''-'', emDash, enDash, handoffStatusFailed, ''n/a'', ''none'']"

definition failedRowDetail :: "string \<Rightarrow> string" where
  "failedRowDetail line0 = (let line = trimSpace line0 in
     if \<not> hasPrefix line ''|'' then []
     else (let cells = map trimSpace (splitOn (CHR ''|'') (cutBoth (asciiSet ''|'') line)) in
       if list_all (matches tableSeparator) cells \<or> \<not> list_ex (\<lambda>c. equalFold c handoffStatusFailed) cells then []
       else if toLower (last cells) \<in> set placeholderCells then [] else last cells))"

definition clipHandoffDetail :: "string \<Rightarrow> string" where
  "clipHandoffDetail d = clipRunes handoffDetailLen d"

text \<open>The loop over the lines of the section: the verdict found, the detail of the table and of a line.\<close>

fun scanVerdict :: "handoffVerdict option \<Rightarrow> string \<Rightarrow> string \<Rightarrow> string list \<Rightarrow> (handoffVerdict \<times> string \<times> string) option" where
  "scanVerdict v td ld [] = map_option (\<lambda>x. (x, td, ld)) v"
| "scanVerdict v td ld (l # ls) =
     (let td' = (if td = [] then failedRowDetail l else td);
          ld' = (if ld = [] then (case group1 handoffDetailLine l of Some d \<Rightarrow> d | None \<Rightarrow> []) else ld) in
      case v of
        Some x \<Rightarrow> scanVerdict v td' ld' ls
      | None \<Rightarrow> (case group1 handoffStatusLine l of
          Some m \<Rightarrow> (case splitHandoffStatus m of (st, d) \<Rightarrow> scanVerdict (Some \<lparr>hdv_status = st, hdv_detail = d\<rparr>) td ld ls)
        | None \<Rightarrow> scanVerdict None td' ld' ls))"

definition parseHandoffVerdict :: "string list \<Rightarrow> string \<Rightarrow> handoffVerdict option" where
  "parseHandoffVerdict red content = map_option (\<lambda>(v, td, ld).
     (let d1 = (if hdv_detail v = [] then td else hdv_detail v); d2 = (if d1 = [] then ld else d1) in
      v\<lparr>hdv_detail := clipHandoffDetail (redact red d2)\<rparr>)) (scanVerdict None [] [] (lastHandoffSection content))"

text \<open>\<open>stageHandoff\<close>: \<open>changed\<close> is the answer of \<open>git.FileChangedSince\<close> (an error on the left), \<open>content\<close> the text of the
  file where it can be read.\<close>

definition stageHandoff :: "string list \<Rightarrow> string + bool \<Rightarrow> string option \<Rightarrow> handoffVerdict option" where
  "stageHandoff red changed content = (case changed of
      Inl e \<Rightarrow> None
    | Inr c \<Rightarrow> if \<not> c then None else (case content of None \<Rightarrow> None | Some t \<Rightarrow> parseHandoffVerdict red t))"

section \<open>Quoted blocks\<close>

text \<open>The fence that is open after some lines.\<close>

fun fenceAfter :: "string \<Rightarrow> string list \<Rightarrow> string" where
  "fenceAfter fence [] = fence"
| "fenceAfter fence (l # ls) = fenceAfter
     (if fence = [] then (case group1 handoffFence l of Some m \<Rightarrow> m | None \<Rightarrow> [])
      else if closesFence fence l then [] else fence) ls"

lemma proseFrom_append: "proseFrom fence (as @ bs) = proseFrom fence as @ proseFrom (fenceAfter fence as) bs"
  by (induction fence as rule: proseFrom.induct) (auto split: option.splits)

lemma proseFrom_inside: "fence \<noteq> [] \<Longrightarrow> list_all (\<lambda>l. \<not> closesFence fence l) ls \<Longrightarrow>
    proseFrom fence ls = [] \<and> fenceAfter fence ls = fence"
  by (induction ls) auto

lemma ways_run: "(c, t, g) \<in> set (ways (Rep (oneOf cs) 3 None True) rs) \<Longrightarrow> concat c \<noteq> []"
proof -
  assume "(c, t, g) \<in> set (ways (Rep (oneOf cs) 3 None True) rs)"
  then obtain n where n: "c = take n rs" "3 \<le> n" "n \<le> length (takeWhile (oneOf cs) rs)" by (auto simp: repCounts_def)
  then obtain x xs where rs: "rs = x # xs" by (cases rs) auto
  then have "oneOf cs x" using n by (auto split: if_splits)
  then show ?thesis using n rs by (cases n) (auto simp: oneOf_def)
qed

lemma fence_nonempty: "group1 handoffFence l = Some m \<Longrightarrow> m \<noteq> []"
proof -
  assume "group1 handoffFence l = Some m"
  then obtain c t g ws where w: "ways handoffFence (runeBytes l) = (c, t, g) # ws" and m: "m = g ! 0"
    by (auto simp: group1_def submatch_def split: list.splits)
  then have "(c, t, g) \<in> set (ways handoffFence (runeBytes l))" by simp
  then have "\<exists>c2 t2 g2 rs. g = concat c2 # g2 \<and> ((c2, t2, g2) \<in> set (ways (Rep (oneOf [CHR 0x60]) 3 None True) rs) \<or>
      (c2, t2, g2) \<in> set (ways (Rep (oneOf ''~'') 3 None True) rs))"
    unfolding handoffFence_def ways_iff using ways_Rep_groups by fastforce
  then show "m \<noteq> []" unfolding m using ways_run by (metis nth_Cons_0)
qed

lemma unixLines_id: "CHR 0x0D \<notin> set s \<Longrightarrow> unixLines s = s"
  by (induction s rule: unixLines.induct) auto

lemma joinStr_chars: "c \<in> set (joinStr sep ws) \<Longrightarrow> c \<in> set sep \<or> (\<exists>w\<in>set ws. c \<in> set w)"
  by (induction sep ws rule: joinStr.induct) auto

lemma prose_of_lines:
  assumes "list_all (\<lambda>l. newlineChar \<notin> set l \<and> CHR 0x0D \<notin> set l) ls" and "ls \<noteq> []"
  shows "handoffProseLines (joinStr [newlineChar] ls) = proseFrom [] ls"
proof -
  have "CHR 0x0D \<notin> set (joinStr [newlineChar] ls)"
    using assms(1) joinStr_chars [of "CHR 0x0D" "[newlineChar]" ls] by (auto simp: list_all_iff newlineChar_def)
  then show ?thesis
    using assms by (simp add: handoffProseLines_def splitLines_def unixLines_id splitOn_joinStr list_all_iff)
qed

text \<open>Quoted material does not speak for the stage. A fenced block in a handoff document, whatever it holds,
  leaves the verdict as it is without the block.\<close>

theorem quoted_block_is_ignored:
  assumes "list_all (\<lambda>l. newlineChar \<notin> set l \<and> CHR 0x0D \<notin> set l) (pre @ [opening] @ body @ [closing] @ post)"
    and "pre @ post \<noteq> []"
    and "fenceAfter [] pre = []" and "group1 handoffFence opening = Some m"
    and "list_all (\<lambda>l. \<not> closesFence m l) body" and "closesFence m closing"
  shows "parseHandoffVerdict red (joinStr [newlineChar] (pre @ [opening] @ body @ [closing] @ post)) =
     parseHandoffVerdict red (joinStr [newlineChar] (pre @ post))"
proof -
  have m: "m \<noteq> []" using fence_nonempty [OF assms(4)] .
  have inside: "proseFrom m body = []" "fenceAfter m body = m" using proseFrom_inside [OF m assms(5)] by auto
  have post: "list_all (\<lambda>l. newlineChar \<notin> set l \<and> CHR 0x0D \<notin> set l) (pre @ post)" using assms(1) by simp
  have "filter (\<lambda>e. \<not> pl_fence e) (proseFrom [] (pre @ [opening] @ body @ [closing] @ post)) = filter (\<lambda>e. \<not> pl_fence e) (proseFrom [] (pre @ post))"
    by (simp add: proseFrom_append assms(3,4,6) inside m)
  then have "handoffProse (joinStr [newlineChar] (pre @ [opening] @ body @ [closing] @ post)) = handoffProse (joinStr [newlineChar] (pre @ post))"
    unfolding handoffProse_def using prose_of_lines [OF assms(1)] prose_of_lines [OF post assms(2)] by simp
  then show ?thesis by (simp add: parseHandoffVerdict_def lastHandoffSection_def)
qed

definition ticks :: string where "ticks = [CHR 0x60, CHR 0x60, CHR 0x60]"

text \<open>A stage that failed quotes the plan: the quoted heading and status are not its own.\<close>

theorem quoted_block_is_ignored_witness:
  "parseHandoffVerdict [] (joinStr [newlineChar] ([''## Execute'', ''- Status: failed''] @ [ticks @ ''md''] @ [''## Goal'', ''- Status: passed''] @ [ticks] @ [''end''])) =
   parseHandoffVerdict [] (joinStr [newlineChar] ([''## Execute'', ''- Status: failed''] @ [''end'']))"
  by (rule quoted_block_is_ignored [where m = ticks]) code_simp+

end
