(* ===== verification/HarnessPlan.thy ===== *)
theory HarnessPlan
  imports HarnessHandoff
begin

text \<open>
  The Verification section of the plan (src/harness/cmd/migration-harness/verify.go): which of its lines are
  commands the harness runs, which are skipped and why.
\<close>

definition planPath :: string where "planPath = ''docs/plan.md''"
definition verifyMaxSteps :: nat where "verifyMaxSteps = 12"
definition verifyCommandMaxLen :: nat where "verifyCommandMaxLen = 300"

section \<open>The expressions\<close>

definition upTo3Spaces :: regex where "upTo3Spaces = Rep (oneOf '' '') 0 (Some 3) True"

definition verificationHeading :: regex where
  "verificationHeading = seqs [upTo3Spaces, Rep (oneOf ''#'') 2 None True, plus1 reSpace, star (oneOf ''*''), anyCase ''verification'',
     star (oneOf ''*''), star reSpace, maybe (oneOf '':''), star reSpace, EndText]"

definition labelRune :: "string \<Rightarrow> bool" where
  "labelRune r = (letterRune r \<or> digitRune r \<or> oneOf '' _/-'' r)"

definition verificationItem :: regex where
  "verificationItem = seqs [star reSpace, once (oneOf ''-*''), star reSpace, star (oneOf ''*''), star reSpace,
     Grp (Seq (once letterRune) (Rep labelRune 0 None False)), star reSpace, star (oneOf ''*''), star reSpace, once (oneOf '':''), star reSpace,
     Grp (star anyRune), EndText]"

definition sectionHeading :: regex where
  "sectionHeading = seqs [upTo3Spaces, Grp (Rep (oneOf ''#'') 1 (Some 6) True), plus1 reSpace, once (\<lambda>r. \<not> reSpace r)]"

definition verifySentence :: regex where
  "verifySentence = seqs [once letterRune, once (oneOf ''.!?''), maybe (oneOf [CHR 0x22, CHR 0x27, CHR '')'']),
     Grp (Alt (Seq (plus1 reSpace) (once upperRune)) EndText)]"

definition verifyQuoted :: regex where
  "verifyQuoted = Alt (seqs [once (oneOf [CHR 0x27]), star (notOf CHR 0x27), once (oneOf [CHR 0x27])])
     (seqs [once (oneOf [CHR 0x22]), star (notOf CHR 0x22), once (oneOf [CHR 0x22])])"

definition shellOperator :: "string \<Rightarrow> bool" where
  "shellOperator v = (containsStr v ''&&'' \<or> containsStr v ''||'' \<or> containsStr v ''$('')"

section \<open>Lines\<close>

definition verifyProseLabels :: "string list" where
  "verifyProseLabels = [''blackbox'', ''manual'', ''note'', ''notes'', ''steps'']"

definition verifyEmptyValues :: "string list" where
  "verifyEmptyValues = [[], ''none'', ''n/a'', ''na'', ''-'', emDash, enDash, ''skip'', ''skipped'', ''omit'', ''omitted'', ''tbd'']"

record planStep =
  ps_label :: string
  ps_command :: string
  ps_skip :: string

definition runnable :: "planStep \<Rightarrow> bool" where
  "runnable s = (ps_command s \<noteq> [])"

definition verifyFirstWord :: "string \<Rightarrow> string" where
  "verifyFirstWord v = (case fieldsOf v of [] \<Rightarrow> []
     | f # fs \<Rightarrow> toLower (cutBoth (asciiSet (''.,;:!?'' @ [CHR 0x60, CHR 0x22, CHR 0x27, CHR ''*''])) f))"

definition verifyLooksLikeProse :: "string \<Rightarrow> bool" where
  "verifyLooksLikeProse v =
     (if CHR '' '' \<notin> set v \<and> CHR 0x09 \<notin> set v then False
      else if shellOperator v then False
      else search verifySentence (replaceMatches verifyQuoted '' '' v))"

definition unticked :: "string \<Rightarrow> string" where
  "unticked v0 = (let v = trimSpace v0 in
     if length v > 1 \<and> hasPrefix v [CHR 0x60] \<and> hasSuffix v [CHR 0x60] then trimSpace (cutBoth (asciiSet [CHR 0x60]) v) else v)"

definition classifyVerifyItem :: "string \<Rightarrow> string \<Rightarrow> planStep" where
  "classifyVerifyItem lbl v0 =
     (let l = joinStr '' '' (fieldsOf lbl); v = unticked v0; first = verifyFirstWord v;
          skip = (\<lambda>why. \<lparr>ps_label = l, ps_command = [], ps_skip = why\<rparr>) in
      if toLower l \<in> set verifyProseLabels then skip ''manual steps, not a command the harness can run or score''
      else if toLower v \<in> set verifyEmptyValues then skip ''the plan names no command here''
      else if first \<noteq> [] \<and> first \<in> set verifyEmptyValues
        then skip (''the plan says '' @ [CHR 0x22] @ first @ [CHR 0x22] @ '' here, not a command'')
      else if hasPrefix v ''<'' then skip ''unfilled placeholder in the plan, not a command''
      else if length (runes v) > verifyCommandMaxLen then skip ''prose, not a command (too long to be one)''
      else if verifyLooksLikeProse v then skip ''prose, not a command (reads as a sentence)''
      else \<lparr>ps_label = l, ps_command = v, ps_skip = []\<rparr>)"

definition proseChild :: "string \<Rightarrow> string \<Rightarrow> planStep" where
  "proseChild lbl parent = \<lparr>ps_label = lbl, ps_command = [],
     ps_skip = ''nested under '' @ parent @ '' '' @ emDash @ '' part of its manual steps, not a command the harness can run or score''\<rparr>"

fun itemIndent :: "string \<Rightarrow> nat" where
  "itemIndent [] = 0"
| "itemIndent (c # s) = (if c = CHR '' '' then 1 + itemIndent s else if c = CHR 0x09 then 4 + itemIndent s else 0)"

definition nestedUnderProse :: "string \<Rightarrow> (nat \<times> string) option \<Rightarrow> bool" where
  "nestedUnderProse line block = (case block of None \<Rightarrow> False | Some (indent, parent) \<Rightarrow> indent < itemIndent line)"

section \<open>The section\<close>

record planVerification =
  pv_steps :: "planStep list"
  pv_found :: bool
  pv_truncated :: bool
  pv_fence :: string

definition emptyPlan :: planVerification where
  "emptyPlan = \<lparr>pv_steps = [], pv_found = False, pv_truncated = False, pv_fence = []\<rparr>"

definition planRunnable :: "planVerification \<Rightarrow> bool" where
  "planRunnable p = list_ex runnable (pv_steps p)"

text \<open>The state of the scan: what is parsed, whether the section is open, the prose line whose block is open
  with its indentation and label.\<close>

record planScan =
  sn_parsed :: planVerification
  sn_inSection :: bool
  sn_prose :: "(nat \<times> string) option"

text \<open>One item of the section.\<close>

definition addItem :: "string \<Rightarrow> string \<Rightarrow> string \<Rightarrow> planScan \<Rightarrow> planScan" where
  "addItem line lbl v sc =
     (let parsed = sn_parsed sc in
      if verifyMaxSteps \<le> length (pv_steps parsed) then sc\<lparr>sn_parsed := parsed\<lparr>pv_truncated := True\<rparr>\<rparr>
      else (let step = classifyVerifyItem lbl v;
                add = (\<lambda>s. parsed\<lparr>pv_steps := pv_steps parsed @ [s]\<rparr>) in
        if nestedUnderProse line (sn_prose sc)
        then sc\<lparr>sn_parsed := add (proseChild (ps_label step) (case sn_prose sc of Some (i, parent) \<Rightarrow> parent | None \<Rightarrow> []))\<rparr>
        else if toLower (ps_label step) \<in> set verifyProseLabels
        then sc\<lparr>sn_parsed := add step, sn_prose := Some (itemIndent line, ps_label step)\<rparr>
        else sc\<lparr>sn_parsed := add step, sn_prose := None\<rparr>))"

definition scanFence :: "string \<Rightarrow> planScan \<Rightarrow> planScan" where
  "scanFence line sc =
     (if sn_inSection sc \<and> pv_fence (sn_parsed sc) = [] \<and> \<not> nestedUnderProse line (sn_prose sc)
      then sc\<lparr>sn_parsed := (sn_parsed sc)\<lparr>pv_fence := trimSpace line\<rparr>\<rparr> else sc)"

definition scanLine :: "string \<Rightarrow> planScan \<Rightarrow> planScan" where
  "scanLine line sc = (case group1 sectionHeading line of
      Some marks \<Rightarrow>
        (let sc' = sc\<lparr>sn_prose := None\<rparr> in
         if matches verificationHeading line then sc'\<lparr>sn_inSection := True, sn_parsed := emptyPlan\<lparr>pv_found := True\<rparr>\<rparr>
         else if length marks \<le> 2 then sc'\<lparr>sn_inSection := False\<rparr> else sc')
    | None \<Rightarrow>
        if \<not> sn_inSection sc then sc
        else (case submatch verificationItem line of
            Some [lbl, v] \<Rightarrow> addItem line lbl v sc
          | _ \<Rightarrow> sc))"

definition scanEntry :: "proseLine \<Rightarrow> planScan \<Rightarrow> planScan" where
  "scanEntry e sc = (if pl_fence e then scanFence (pl_text e) sc else scanLine (pl_text e) sc)"

definition startScan :: planScan where
  "startScan = \<lparr>sn_parsed = emptyPlan, sn_inSection = False, sn_prose = None\<rparr>"

definition parsePlanVerification :: "string \<Rightarrow> planVerification" where
  "parsePlanVerification content = sn_parsed (fold scanEntry (handoffProseLines content) startScan)"

section \<open>Properties\<close>

text \<open>Both groups of an item line take part in every match.\<close>

lemma seqs_Cons: "rs \<noteq> [] \<Longrightarrow> seqs (r # rs) = Seq r (seqs rs)"
  by (cases rs) auto

lemma item_groups: "submatch verificationItem line = Some gs \<Longrightarrow> \<exists>a b. gs = [a, b]"
proof -
  assume "submatch verificationItem line = Some gs"
  then obtain c t where "(c, t, gs) \<in> set (ways verificationItem (runeBytes line))"
    by (auto simp: submatch_def split: list.splits intro: list.set_intros)
  then show ?thesis unfolding verificationItem_def by (force simp: ways_iff seqs_Cons simp del: ways.simps(1) ways.simps(2) dest: ways_Rep_groups)
qed

text \<open>Every line of the section is either a command or skipped with a reason, and the section is bounded.\<close>

definition stepOK :: "planStep \<Rightarrow> bool" where
  "stepOK s = (runnable s \<noteq> (ps_skip s \<noteq> []))"

lemma classify_ok: "stepOK (classifyVerifyItem l v)"
proof -
  have "v' \<noteq> []" if "toLower v' \<notin> set verifyEmptyValues" for v'
    using that by (auto simp: toLower_def verifyEmptyValues_def)
  then show ?thesis by (auto simp: classifyVerifyItem_def stepOK_def runnable_def Let_def)
qed

lemma proseChild_ok: "stepOK (proseChild l p)"
  by (simp add: proseChild_def stepOK_def runnable_def)

definition planOK :: "planVerification \<Rightarrow> bool" where
  "planOK p = (list_all stepOK (pv_steps p) \<and> length (pv_steps p) \<le> verifyMaxSteps \<and> (pv_truncated p \<longrightarrow> length (pv_steps p) = verifyMaxSteps))"

lemma scanEntry_ok: "planOK (sn_parsed sc) \<Longrightarrow> planOK (sn_parsed (scanEntry e sc))"
proof -
  assume ok: "planOK (sn_parsed sc)"
  have "planOK (sn_parsed (addItem line l v sc))" for line l v
    using ok by (auto simp: addItem_def planOK_def classify_ok proseChild_ok Let_def)
  then show ?thesis using ok
    by (auto simp: scanEntry_def scanFence_def scanLine_def planOK_def emptyPlan_def Let_def split: option.splits list.splits)
qed

text \<open>What the parser makes of any plan: at most \<open>verifyMaxSteps\<close> lines, each a command or skipped with a reason, and
  lines are dropped only when that many were read.\<close>

theorem plan_is_bounded:
  "planOK (parsePlanVerification content)"
proof -
  have "planOK (sn_parsed (fold scanEntry es sc))" if "planOK (sn_parsed sc)" for es sc
    using that by (induction es arbitrary: sc) (simp_all add: scanEntry_ok)
  then show ?thesis by (simp add: parsePlanVerification_def startScan_def planOK_def emptyPlan_def)
qed

end
