(* ===== verification/HarnessVerify.thy ===== *)
theory HarnessVerify
  imports HarnessPlan
begin

text \<open>
  The verification pass of the harness (src/harness/cmd/migration-harness/verify.go): it runs the commands of the
  plan's Verification section on the tree about to be pushed and records what each exited with. The file system,
  the repository and the commands are parameters: the answers of \<open>os.ReadFile\<close> and of the git package, and for every
  step of the plan what running it shows.
\<close>

section \<open>Durations\<close>

text \<open>\<open>time.Duration.String\<close>, on nanoseconds.\<close>

definition padLeft :: "nat \<Rightarrow> string \<Rightarrow> string" where
  "padLeft n s = replicate (n - length s) CHR ''0'' @ s"

definition fracText :: "nat \<Rightarrow> int \<Rightarrow> string" where
  "fracText prec v = (let ds = trimRight CHR ''0'' (padLeft prec (showDec (v mod 10 ^ prec))) in
     showDec (v div 10 ^ prec) @ (if ds = [] then [] else ''.'' @ ds))"

definition microSign :: string where "microSign = [CHR 0xC2, CHR 0xB5]"

definition durationText :: "duration \<Rightarrow> string" where
  "durationText d = (let u = \<bar>d\<bar>; neg = (if d < 0 then ''-'' else []) in
     if u = 0 then ''0s''
     else if u < 1000 then neg @ showDec u @ ''ns''
     else if u < 1000000 then neg @ fracText 3 u @ microSign @ ''s''
     else if u < 1000000000 then neg @ fracText 6 u @ ''ms''
     else (let s = u div 1000000000; m = s div 60; h = m div 60 in
       neg @ (if h > 0 then showDec h @ ''h'' else []) @ (if m > 0 then showDec (m mod 60) @ ''m'' else [])
         @ fracText 9 ((s mod 60) * 1000000000 + u mod 1000000000) @ ''s''))"

definition minute :: duration where "minute = 60 * second"

definition DefaultVerifyTimeout :: duration where "DefaultVerifyTimeout = 10 * minute"
definition DefaultVerifyTotalTimeout :: duration where "DefaultVerifyTotalTimeout = 30 * minute"

text \<open>\<open>elapsed.Round(time.Millisecond).Seconds()\<close> of a duration that is not negative.\<close>

definition roundMillis :: "duration \<Rightarrow> duration" where
  "roundMillis d = (let m = 1000000; r = d mod m in if r + r < m then d - r else sat64 (d + m - r))"

definition secondsFloat :: "duration \<Rightarrow> gofloat" where
  "secondsFloat d = (case round64 (of_int (d div 1000000000)) of
      Some s \<Rightarrow> (case round64 (of_int (d mod 1000000000) / 1000000000) of
        Some f \<Rightarrow> (case round64 (s + f) of Some x \<Rightarrow> FFin False x | None \<Rightarrow> FInf False)
      | None \<Rightarrow> FInf False)
    | None \<Rightarrow> FInf False)"

section \<open>The record\<close>

definition verificationPassed :: string where "verificationPassed = ''passed''"
definition verificationFailed :: string where "verificationFailed = ''failed''"
definition verificationNotRun :: string where "verificationNotRun = ''notRun''"
definition verificationIncomplete :: string where "verificationIncomplete = ''incomplete''"

definition verifyStepPassed :: string where "verifyStepPassed = ''passed''"
definition verifyStepFailed :: string where "verifyStepFailed = ''failed''"
definition verifyStepTimedOut :: string where "verifyStepTimedOut = ''timedOut''"
definition verifyStepSkipped :: string where "verifyStepSkipped = ''skipped''"
definition verifyStepError :: string where "verifyStepError = ''error''"
definition verifyStepAborted :: string where "verifyStepAborted = ''aborted''"

lemmas verify_words = verificationPassed_def verificationFailed_def verificationNotRun_def verificationIncomplete_def
  verifyStepPassed_def verifyStepFailed_def verifyStepTimedOut_def verifyStepSkipped_def verifyStepError_def verifyStepAborted_def

record verificationStep =
  vs_label :: string
  vs_command :: string
  vs_status :: string
  vs_exitCode :: "int option"
  vs_seconds :: gofloat
  vs_reason :: string
  vs_output :: string

record verification =
  vf_status :: string
  vf_reason :: string
  vf_commit :: string
  vf_commands :: "verificationStep list"

definition vfFailed :: "verification option \<Rightarrow> bool" where
  "vfFailed v = (case v of None \<Rightarrow> False | Some x \<Rightarrow> vf_status x = verificationFailed)"

definition vfIncomplete :: "verification option \<Rightarrow> bool" where
  "vfIncomplete v = (case v of None \<Rightarrow> False | Some x \<Rightarrow> vf_status x = verificationIncomplete)"

definition unmet :: "verification option \<Rightarrow> bool" where
  "unmet v = (vfFailed v \<or> vfIncomplete v)"

definition withoutOutput :: "verification option \<Rightarrow> verification option" where
  "withoutOutput v = map_option (\<lambda>x. x\<lparr>vf_commands := map (\<lambda>c. c\<lparr>vs_output := []\<rparr>) (vf_commands x)\<rparr>) v"

definition verdictOnly :: "verification option \<Rightarrow> verification option" where
  "verdictOnly v = map_option (\<lambda>x. x\<lparr>vf_commands := []\<rparr>) v"

definition verifyOutputCapture :: nat where "verifyOutputCapture = 65536"
definition verifyOutputBlob :: nat where "verifyOutputBlob = 200"
definition verifyCommandLen :: nat where "verifyCommandLen = 120"
definition verifyReasonLen :: nat where "verifyReasonLen = 160"

definition notRun :: "string \<Rightarrow> verification" where
  "notRun why = \<lparr>vf_status = verificationNotRun, vf_reason = clipVerify why verifyReasonLen, vf_commit = [], vf_commands = []\<rparr>"

definition incomplete :: "string list \<Rightarrow> string \<Rightarrow> verification" where
  "incomplete red why = \<lparr>vf_status = verificationIncomplete, vf_reason = clipVerify (redact red why) verifyReasonLen, vf_commit = [], vf_commands = []\<rparr>"

section \<open>Output\<close>

text \<open>\<open>tailBuffer\<close>.\<close>

record tailBuffer =
  tb_limit :: nat
  tb_buf :: string
  tb_dropped :: bool

definition tbWrite :: "string \<Rightarrow> tailBuffer \<Rightarrow> tailBuffer" where
  "tbWrite p0 t =
     (let long = length p0 > tb_limit t;
          p = (if long then drop (length p0 - tb_limit t) p0 else p0);
          buf = tb_buf t @ p; over = length buf - tb_limit t in
      t\<lparr>tb_buf := drop over buf, tb_dropped := tb_dropped t \<or> long \<or> over > 0\<rparr>)"

definition tbString :: "tailBuffer \<Rightarrow> string" where
  "tbString t = (if tb_dropped t then hellip @ tb_buf t else tb_buf t)"

definition captured :: "string list \<Rightarrow> string" where
  "captured ws = tbString (fold tbWrite ws \<lparr>tb_limit = verifyOutputCapture, tb_buf = [], tb_dropped = False\<rparr>)"

definition lastLines :: "string \<Rightarrow> string" where
  "lastLines output =
     (let ls = splitLines (trimRight newlineChar output);
          kept = map (trimRight CHR 0x0D) (filter (\<lambda>l. trimSpace l \<noteq> []) ls);
          joined = joinStr '' | '' kept; rs = runes joined in
      if length rs > verifyOutputBlob then hellip @ concat (drop (length rs - verifyOutputBlob + 1) rs) else joined)"

section \<open>The tree being pushed\<close>

text \<open>What the git package answers: whether there is a repository, the tip of the branch, HEAD, and the paths that
  are not committed.\<close>

record repoView =
  rv_present :: bool
  rv_tip :: "string + string"
  rv_head :: "string + string"
  rv_uncommitted :: "string + string list"

definition shortSHA :: "string \<Rightarrow> string" where
  "shortSHA sha = (if length sha > 12 then take 12 sha else if sha = [] then ''unknown'' else sha)"

text \<open>\<open>verifyTarget\<close>: the commit, or on the left why it cannot be verified.\<close>

definition verifyTarget :: "repoView \<Rightarrow> string \<Rightarrow> string + string" where
  "verifyTarget repo branch =
     (if \<not> rv_present repo \<or> branch = [] then Inl ''the harness could not identify the commit being pushed''
      else (case rv_tip repo of
          Inl e \<Rightarrow> Inl (''resolve branch '' @ branch @ '': '' @ e)
        | Inr tip \<Rightarrow> (case rv_head repo of
            Inl e \<Rightarrow> Inl (''resolve HEAD: '' @ e)
          | Inr h \<Rightarrow>
              if h \<noteq> tip then Inl (''the working tree is at '' @ shortSHA h @ '' but branch '' @ branch @ '' points at '' @ shortSHA tip
                @ '' '' @ emDash @ '' the harness cannot verify the commit being pushed'')
              else Inr tip)))"

definition verifyIgnoredPaths :: "string list" where
  "verifyIgnoredPaths = [''.konveyor/analysis.json'', handoffPath]"

definition worktreeGap :: "repoView \<Rightarrow> string \<Rightarrow> string + string" where
  "worktreeGap repo commit = (case rv_uncommitted repo of
      Inl e \<Rightarrow> Inl e
    | Inr paths \<Rightarrow>
        (let kept = filter (\<lambda>p. p \<notin> set verifyIgnoredPaths) paths; shown = take 3 kept;
             more = (if length kept > length shown then '', and '' @ showNat (length kept - length shown) @ '' more'' else []) in
         if kept = [] then Inr []
         else Inr (showNat (length kept) @ '' path(s) in the working tree are not in commit '' @ shortSHA commit @ '' ('' @ joinStr '', '' shown
           @ more @ ''), so the commands did not run on the tree being pushed'')))"

section \<open>The pass\<close>

datatype ctxErr = CtxCanceled | CtxDeadline

text \<open>What \<open>cmd.Run\<close> returns: an exit code other than 0, or an error to start or wait.\<close>

datatype cmdErr = ExitError int | RunError string

text \<open>What happens at one step: the state of the pass's context before and after the command, whether the command's own
  deadline passed, what it returned, what it wrote and how long it took.\<close>

record cmdWorld =
  cw_before :: "ctxErr option"
  cw_after :: "ctxErr option"
  cw_deadline :: bool
  cw_err :: "cmdErr option"
  cw_writes :: "string list"
  cw_elapsed :: duration

definition passStopped :: "ctxErr \<Rightarrow> duration \<Rightarrow> string" where
  "passStopped e budget = (if e = CtxDeadline then ''the verification pass ran out of its '' @ durationText budget @ '' budget''
     else ''the run was cancelled'')"

definition truncatedGap :: "bool \<Rightarrow> string" where
  "truncatedGap t = (if \<not> t then []
     else ''the ## Verification section lists more than '' @ showNat verifyMaxSteps @ '' commands; the rest were not run'')"

definition withStatus :: "string \<Rightarrow> int option \<Rightarrow> string \<Rightarrow> verificationStep \<Rightarrow> verificationStep" where
  "withStatus st code why r = r\<lparr>vs_status := st, vs_exitCode := code, vs_reason := why\<rparr>"

definition runVerifyStep :: "duration \<Rightarrow> duration \<Rightarrow> string list \<Rightarrow> planStep \<Rightarrow> cmdWorld \<Rightarrow> verificationStep" where
  "runVerifyStep timeout budget red step w =
     (let r0 = \<lparr>vs_label = ps_label step, vs_command = clipVerify (redact red (ps_command step)) verifyCommandLen, vs_status = [],
            vs_exitCode = None, vs_seconds = secondsFloat (roundMillis (cw_elapsed w)), vs_reason = [], vs_output = []\<rparr>;
          output = redact red (captured (cw_writes w));
          r = (case cw_after w of
              Some e \<Rightarrow> withStatus verifyStepAborted None (passStopped e budget @ '' during this command'') r0
            | None \<Rightarrow>
                if cw_deadline w then withStatus verifyStepTimedOut None (''no exit after '' @ durationText timeout) r0
                else (case cw_err w of
                    Some (ExitError code) \<Rightarrow> withStatus verifyStepFailed (Some code) [] r0
                  | Some (RunError e) \<Rightarrow> withStatus verifyStepError None (clipVerify (redact red e) verifyReasonLen) r0
                  | None \<Rightarrow> withStatus verifyStepPassed (Some 0) [] r0)) in
      if vs_status r \<noteq> verifyStepPassed \<and> output \<noteq> [] then r\<lparr>vs_output := clipVerify (lastLines output) verifyOutputBlob\<rparr> else r)"

definition skippedStep :: "string list \<Rightarrow> planStep \<Rightarrow> verificationStep" where
  "skippedStep red step = \<lparr>vs_label = ps_label step, vs_command = [], vs_status = verifyStepSkipped, vs_exitCode = None,
     vs_seconds = FFin False 0, vs_reason = clipVerify (redact red (ps_skip step)) verifyReasonLen, vs_output = []\<rparr>"

definition abortedStep :: "duration \<Rightarrow> string list \<Rightarrow> planStep \<Rightarrow> ctxErr \<Rightarrow> verificationStep" where
  "abortedStep budget red step e = \<lparr>vs_label = ps_label step, vs_command = clipVerify (redact red (ps_command step)) verifyCommandLen,
     vs_status = verifyStepAborted, vs_exitCode = None, vs_seconds = FFin False 0, vs_reason = passStopped e budget @ '' before this command'',
     vs_output = []\<rparr>"

definition measureStep :: "duration \<Rightarrow> duration \<Rightarrow> string list \<Rightarrow> planStep \<Rightarrow> cmdWorld \<Rightarrow> verificationStep" where
  "measureStep timeout budget red step w =
     (if \<not> runnable step then skippedStep red step
      else (case cw_before w of
          Some e \<Rightarrow> abortedStep budget red step e
        | None \<Rightarrow> runVerifyStep timeout budget red step w))"

section \<open>The verdict\<close>

definition stepMeasured :: "verificationStep \<Rightarrow> bool" where
  "stepMeasured c = (vs_status c \<in> set [verifyStepPassed, verifyStepFailed, verifyStepTimedOut, verifyStepError])"

definition stepBad :: "verificationStep \<Rightarrow> bool" where
  "stepBad c = (vs_status c \<in> set [verifyStepFailed, verifyStepTimedOut, verifyStepError])"

definition stepGap :: "verificationStep \<Rightarrow> string list" where
  "stepGap c = (if vs_status c = verifyStepAborted then [vs_label c @ '' was not measured ('' @ vs_reason c @ '')''] else [])"

text \<open>\<open>settle\<close>: the first measured failure, else the gaps, else a pass; a record that says failed keeps its reason.\<close>

definition settleLoop :: "verificationStep \<Rightarrow> (string \<times> string) \<times> string list \<times> nat \<Rightarrow> (string \<times> string) \<times> string list \<times> nat" where
  "settleLoop c s = (case s of ((st, why), gaps, done0) \<Rightarrow>
     if vs_status c = verifyStepPassed then ((st, why), gaps, done0 + 1)
     else if vs_status c = verifyStepFailed \<or> vs_status c = verifyStepTimedOut \<or> vs_status c = verifyStepError
     then ((if st = verificationFailed then (st, why)
            else (verificationFailed, vs_label c @ '' '' @ vs_status c @ '': '' @ vs_command c)), gaps, done0 + 1)
     else if vs_status c = verifyStepAborted then ((st, why), gaps @ stepGap c, done0)
     else ((st, why), gaps, done0))"

definition settle :: "string list \<Rightarrow> string list \<Rightarrow> verification \<Rightarrow> verification" where
  "settle red extra v =
     (case fold settleLoop (vf_commands v) ((vf_status v, vf_reason v), filter (\<lambda>g. g \<noteq> []) extra, 0) of ((st, why), gaps, done0) \<Rightarrow>
       (let (st', why') =
          (if st = verificationFailed then (st, why)
           else if gaps \<noteq> [] then (verificationIncomplete, joinStr ''; '' gaps)
           else if done0 = 0 then (verificationIncomplete, ''no verification command produced a result'')
           else (st, why)) in
        v\<lparr>vf_status := st', vf_reason := clipVerify (redact red why') verifyReasonLen\<rparr>))"

text \<open>\<open>os.ReadFile\<close> of the plan: the content, or an error with whether it says that there is no file.\<close>

type_synonym planRead = "(bool \<times> string) + string"

definition orDefault :: "duration \<Rightarrow> duration \<Rightarrow> duration" where
  "orDefault d def = (if d \<le> 0 then def else d)"

definition runSteps ::
  "duration \<Rightarrow> duration \<Rightarrow> string list \<Rightarrow> planVerification \<Rightarrow> (nat \<Rightarrow> cmdWorld) \<Rightarrow> string \<Rightarrow> string \<Rightarrow> verification" where
  "runSteps timeout budget red parsed world commit gap = settle red [gap, truncatedGap (pv_truncated parsed)]
     \<lparr>vf_status = verificationPassed, vf_reason = [], vf_commit = commit,
      vf_commands = map (\<lambda>(i, s). measureStep timeout budget red s (world i)) (enumerate 0 (pv_steps parsed))\<rparr>"

definition runPlanVerification ::
  "repoView \<Rightarrow> planRead \<Rightarrow> string \<Rightarrow> duration \<Rightarrow> duration \<Rightarrow> string list \<Rightarrow> (nat \<Rightarrow> cmdWorld) \<Rightarrow> verification" where
  "runPlanVerification repo plan branch timeout0 budget0 red world =
     (let timeout = orDefault timeout0 DefaultVerifyTimeout; budget = orDefault budget0 DefaultVerifyTotalTimeout in
      case plan of
        Inl (noFile, e) \<Rightarrow>
          notRun (if noFile then planPath @ '' not found '' @ emDash @ '' no verification commands to run'' else ''read '' @ planPath @ '': '' @ redact red e)
      | Inr content \<Rightarrow>
          (let parsed = parsePlanVerification content in
           if \<not> pv_found parsed then notRun (planPath @ '' has no ## Verification section'')
           else if \<not> planRunnable parsed then
             (if pv_truncated parsed then incomplete red (truncatedGap True)
              else if pv_fence parsed \<noteq> [] then incomplete red (''the ## Verification section of '' @ planPath @ '' names no command outside a fenced ''
                @ pv_fence parsed @ '' block, which the harness does not read '' @ emDash @ '' nothing was measured'')
              else if pv_steps parsed = [] then notRun (''the ## Verification section of '' @ planPath @ '' is empty'')
              else notRun (''the ## Verification section of '' @ planPath @ '' names no command to run''))
           else (case verifyTarget repo branch of
               Inl mismatch \<Rightarrow> incomplete red mismatch
             | Inr target \<Rightarrow> (case worktreeGap repo target of
                 Inl e \<Rightarrow> incomplete red (''inspect the working tree: '' @ e)
               | Inr gap \<Rightarrow> runSteps timeout budget red parsed world target gap))))"

section \<open>Properties\<close>

lemma step_words [simp]: "verifyStepPassed \<noteq> verifyStepFailed" "verifyStepPassed \<noteq> verifyStepTimedOut" "verifyStepPassed \<noteq> verifyStepError"
  "verifyStepPassed \<noteq> verifyStepAborted" "verifyStepPassed \<noteq> verifyStepSkipped" "verifyStepAborted \<noteq> verifyStepFailed" "verifyStepAborted \<noteq> verifyStepTimedOut"
  "verifyStepAborted \<noteq> verifyStepError" "verifyStepSkipped \<noteq> verifyStepPassed" "verifyStepSkipped \<noteq> verifyStepFailed" "verifyStepSkipped \<noteq> verifyStepTimedOut"
  "verifyStepSkipped \<noteq> verifyStepError" "verifyStepSkipped \<noteq> verifyStepAborted" "verificationPassed \<noteq> verificationFailed"
  "verificationPassed \<noteq> verificationIncomplete" "verificationPassed \<noteq> verificationNotRun" "verificationIncomplete \<noteq> verificationPassed"
  "verificationNotRun \<noteq> verificationPassed" "verificationFailed \<noteq> verificationPassed" "verificationIncomplete \<noteq> verificationFailed"
  "verificationNotRun \<noteq> verificationFailed" "verificationNotRun \<noteq> verificationIncomplete"
  by (simp_all add: verify_words)

text \<open>What the loop of \<open>settle\<close> gathers.\<close>

lemma settle_fold:
  "\<exists>why'. fold settleLoop cs ((st, why), gaps, done0) =
     ((if list_ex stepBad cs \<or> st = verificationFailed then verificationFailed else st, why'), gaps @ concat (map stepGap cs), done0 + length (filter stepMeasured cs))
     \<and> (\<not> list_ex stepBad cs \<longrightarrow> why' = why)"
proof (induction cs arbitrary: st why gaps done0)
  case (Cons c cs)
  obtain st1 why1 gaps1 ran1 where one: "settleLoop c ((st, why), gaps, done0) = ((st1, why1), gaps1, ran1)" by (metis prod.exhaust)
  then have "st1 = (if stepBad c \<or> st = verificationFailed then verificationFailed else st)" "gaps1 = gaps @ stepGap c"
    "ran1 = done0 + (if stepMeasured c then 1 else 0)" "\<not> stepBad c \<longrightarrow> why1 = why"
    by (auto simp: settleLoop_def stepBad_def stepMeasured_def stepGap_def verify_words split: if_splits)
  then show ?case using Cons.IH [of st1 why1 gaps1 ran1] by (auto simp: one)
qed simp

lemma settle_status:
  "vf_status (settle red extra v) =
     (if list_ex stepBad (vf_commands v) \<or> vf_status v = verificationFailed then verificationFailed
      else if list_ex (\<lambda>g. g \<noteq> []) extra \<or> list_ex (\<lambda>c. vs_status c = verifyStepAborted) (vf_commands v) \<or> \<not> list_ex stepMeasured (vf_commands v)
      then verificationIncomplete else vf_status v)"
proof -
  obtain why' where f: "fold settleLoop (vf_commands v) ((vf_status v, vf_reason v), filter (\<lambda>g. g \<noteq> []) extra, 0) =
     ((if list_ex stepBad (vf_commands v) \<or> vf_status v = verificationFailed then verificationFailed else vf_status v, why'),
      filter (\<lambda>g. g \<noteq> []) extra @ concat (map stepGap (vf_commands v)), 0 + length (filter stepMeasured (vf_commands v)))"
    using settle_fold by blast
  have gaps: "(filter (\<lambda>g. g \<noteq> []) extra @ concat (map stepGap (vf_commands v)) = []) =
      (\<not> list_ex (\<lambda>g. g \<noteq> []) extra \<and> \<not> list_ex (\<lambda>c. vs_status c = verifyStepAborted) (vf_commands v))"
    by (auto simp: list_ex_iff filter_empty_conv stepGap_def)
  have done0: "(0 + length (filter stepMeasured (vf_commands v)) = 0) = (\<not> list_ex stepMeasured (vf_commands v))"
    by (auto simp: list_ex_iff filter_empty_conv)
  show ?thesis unfolding settle_def f using gaps done0 by (simp add: Let_def)
qed

text \<open>A step that was measured and passed, one that was measured and did not, and one that was not measured.\<close>

definition commandPassed :: "cmdWorld \<Rightarrow> bool" where
  "commandPassed w = (cw_before w = None \<and> cw_after w = None \<and> \<not> cw_deadline w \<and> cw_err w = None)"

definition commandFailed :: "cmdWorld \<Rightarrow> bool" where
  "commandFailed w = (cw_before w = None \<and> cw_after w = None \<and> (cw_deadline w \<or> cw_err w \<noteq> None))"

lemma runVerifyStep_status: "vs_status (runVerifyStep timeout budget red s w) =
    (if cw_after w \<noteq> None then verifyStepAborted else if cw_deadline w then verifyStepTimedOut
     else (case cw_err w of None \<Rightarrow> verifyStepPassed | Some (ExitError c) \<Rightarrow> verifyStepFailed | Some (RunError e) \<Rightarrow> verifyStepError))"
  by (auto simp: runVerifyStep_def withStatus_def Let_def verify_words split: option.splits cmdErr.splits)

lemma measure_status:
  "vs_status (measureStep timeout budget red s w) = verifyStepPassed \<longleftrightarrow> runnable s \<and> commandPassed w"
  "stepBad (measureStep timeout budget red s w) \<longleftrightarrow> runnable s \<and> commandFailed w"
  "vs_status (measureStep timeout budget red s w) = verifyStepAborted \<longleftrightarrow> runnable s \<and> \<not> commandPassed w \<and> \<not> commandFailed w"
  "stepMeasured (measureStep timeout budget red s w) \<longleftrightarrow> runnable s \<and> (commandPassed w \<or> commandFailed w)"
  by (auto simp: measureStep_def skippedStep_def abortedStep_def runVerifyStep_status stepBad_def stepMeasured_def commandPassed_def commandFailed_def
      verify_words split: option.splits cmdErr.splits)

text \<open>The commands of a plan with what happened to each.\<close>

definition commandsOf :: "planVerification \<Rightarrow> (nat \<Rightarrow> cmdWorld) \<Rightarrow> cmdWorld list" where
  "commandsOf parsed world = map (\<lambda>(i, s). world i) (filter (\<lambda>(i, s). runnable s) (enumerate 0 (pv_steps parsed)))"

lemma commands_ex:
  assumes "\<And>s w. Q (measureStep timeout budget red s w) = (runnable s \<and> P w)"
  shows "list_ex Q (map (\<lambda>(i, s). measureStep timeout budget red s (world i)) (enumerate 0 (pv_steps parsed))) = list_ex P (commandsOf parsed world)"
proof -
  have "list_ex Q (map (\<lambda>(i, s). measureStep timeout budget red s (world i)) xs) = list_ex P (map (\<lambda>(i, s). world i) (filter (\<lambda>(i, s). runnable s) xs))" for xs
    by (induction xs) (auto simp: assms)
  then show ?thesis by (simp add: commandsOf_def)
qed

lemma commandsOf_empty: "commandsOf p world = [] \<longleftrightarrow> \<not> planRunnable p"
proof -
  have "filter (\<lambda>(i, s). runnable s) (enumerate n ss) = [] \<longleftrightarrow> \<not> list_ex runnable ss" for n ss
    by (induction ss arbitrary: n) auto
  then show ?thesis by (simp add: commandsOf_def planRunnable_def)
qed

lemma runSteps_status:
  "vf_status (runSteps timeout budget red parsed world commit gap) =
     (if list_ex commandFailed (commandsOf parsed world) then verificationFailed
      else if gap = [] \<and> \<not> pv_truncated parsed \<and> commandsOf parsed world \<noteq> [] \<and> list_all commandPassed (commandsOf parsed world)
      then verificationPassed else verificationIncomplete)"
proof -
  let ?cs = "map (\<lambda>(i, s). measureStep timeout budget red s (world i)) (enumerate 0 (pv_steps parsed))"
  have bad: "list_ex stepBad ?cs = list_ex commandFailed (commandsOf parsed world)"
    by (rule commands_ex) (simp add: measure_status)
  have ab: "list_ex (\<lambda>c. vs_status c = verifyStepAborted) ?cs = list_ex (\<lambda>w. \<not> commandPassed w \<and> \<not> commandFailed w) (commandsOf parsed world)"
    by (rule commands_ex) (simp add: measure_status)
  have me: "list_ex stepMeasured ?cs = list_ex (\<lambda>w. commandPassed w \<or> commandFailed w) (commandsOf parsed world)"
    by (rule commands_ex) (simp add: measure_status)
  have t: "(truncatedGap (pv_truncated parsed) \<noteq> []) = pv_truncated parsed" by (simp add: truncatedGap_def)
  have v: "list_ex (\<lambda>g. g \<noteq> []) [gap, truncatedGap (pv_truncated parsed)] = (gap \<noteq> [] \<or> pv_truncated parsed)" using t by simp
  have e: "commandsOf parsed world \<noteq> [] \<and> list_all commandPassed (commandsOf parsed world) \<longleftrightarrow>
      \<not> list_ex (\<lambda>w. \<not> commandPassed w \<and> \<not> commandFailed w) (commandsOf parsed world) \<and> list_ex (\<lambda>w. commandPassed w \<or> commandFailed w) (commandsOf parsed world)"
    if "\<not> list_ex commandFailed (commandsOf parsed world)"
    using that by (cases "commandsOf parsed world") (auto simp: list_ex_iff list_all_iff)
  show ?thesis unfolding runSteps_def settle_status using bad ab me v e by (auto simp: verify_words)
qed

lemma runPlan_passes:
  "vf_status (runPlanVerification repo plan branch timeout budget red world) = verificationPassed \<longleftrightarrow>
     (\<exists>content target paths. plan = Inr content \<and> rv_present repo \<and> branch \<noteq> [] \<and> rv_tip repo = Inr target \<and> rv_head repo = Inr target
        \<and> rv_uncommitted repo = Inr paths \<and> set paths \<subseteq> set verifyIgnoredPaths
        \<and> pv_found (parsePlanVerification content) \<and> \<not> pv_truncated (parsePlanVerification content)
        \<and> commandsOf (parsePlanVerification content) world \<noteq> [] \<and> list_all commandPassed (commandsOf (parsePlanVerification content) world))"
proof -
  have run: "planRunnable p \<longleftrightarrow> commandsOf p world \<noteq> []" for p
    by (simp add: commandsOf_empty)
  have fail: "list_ex commandFailed cs \<Longrightarrow> \<not> list_all commandPassed cs" for cs
    by (auto simp: list_ex_iff list_all_iff commandPassed_def commandFailed_def)
  have gap: "worktreeGap repo t = Inr [] \<longleftrightarrow> (\<exists>paths. rv_uncommitted repo = Inr paths \<and> set paths \<subseteq> set verifyIgnoredPaths)" for t
    by (auto simp: worktreeGap_def Let_def filter_empty_conv split: sum.splits)
  show ?thesis
  proof (cases plan)
    case (Inl a)
    then show ?thesis by (auto simp: runPlanVerification_def notRun_def split: prod.splits)
  next
    case (Inr content)
    show ?thesis
    proof (cases "verifyTarget repo branch")
      case i: (Inl a)
      then show ?thesis using Inr run
        by (auto simp: runPlanVerification_def notRun_def incomplete_def Let_def verifyTarget_def split: if_splits sum.splits)
    next
      case t: (Inr target)
      then have T: "rv_present repo \<and> branch \<noteq> [] \<and> rv_tip repo = Inr target \<and> rv_head repo = Inr target"
        by (auto simp: verifyTarget_def split: if_splits sum.splits)
      show ?thesis using Inr t T run gap [of target] fail
        by (auto simp: runPlanVerification_def notRun_def incomplete_def Let_def runSteps_status split: sum.splits)
    qed
  qed
qed

lemma settle_commit: "vf_commit (settle red extra v) = vf_commit v"
  by (auto simp: settle_def split: prod.splits)

lemma runPlan_commit:
  assumes "vf_status (runPlanVerification repo plan branch timeout budget red world) = verificationPassed"
  shows "rv_tip repo = Inr (vf_commit (runPlanVerification repo plan branch timeout budget red world))"
proof -
  obtain content where plan: "plan = Inr content" using assms by (cases plan) (auto simp: runPlanVerification_def notRun_def split: prod.splits)
  show ?thesis using assms
    by (auto simp: plan runPlanVerification_def Let_def notRun_def incomplete_def verifyTarget_def runSteps_def settle_commit split: if_splits sum.splits)
qed

text \<open>C13: A verdict of \<open>passed\<close> is earned. The pass reports it exactly when the plan could be read and names at least one
  command, no line of its section was left unread, HEAD is the tip of the branch being pushed and is the commit
  reported, nothing but the bookkeeping files is uncommitted, and every command of the section was run to its end
  and exited with 0.\<close>

theorem verified_pass_is_earned:
  "vf_status (runPlanVerification repo plan branch timeout budget red world) = verificationPassed \<longleftrightarrow>
     (\<exists>content target paths. plan = Inr content \<and> rv_present repo \<and> branch \<noteq> [] \<and> rv_tip repo = Inr target \<and> rv_head repo = Inr target
        \<and> vf_commit (runPlanVerification repo plan branch timeout budget red world) = target
        \<and> rv_uncommitted repo = Inr paths \<and> set paths \<subseteq> set verifyIgnoredPaths
        \<and> pv_found (parsePlanVerification content) \<and> \<not> pv_truncated (parsePlanVerification content)
        \<and> commandsOf (parsePlanVerification content) world \<noteq> [] \<and> list_all commandPassed (commandsOf (parsePlanVerification content) world))"
  using runPlan_commit [of repo plan branch timeout budget red world] unfolding runPlan_passes by auto

end
