(* ===== verification/JsonStruct.thy ===== *)
theory JsonStruct
  imports Json
begin

text \<open>
  \<open>encoding/json\<close> decoding of an object into a struct, by the fields the struct names: shared by the frames of the
  agent client protocol and the parameter file of the harness.
\<close>

text \<open>\<open>json.Unmarshal\<close> of an object into a struct, one field at a time: the members that match the field, in
  order. A value of the wrong type fails the decode, null leaves the field.\<close>

definition members :: "string \<Rightarrow> (string \<times> json) list \<Rightarrow> json list" where
  "members f ms = map snd (filter (\<lambda>(k, v). fieldMatches f k) ms)"

definition foldField :: "('a \<Rightarrow> json \<Rightarrow> 'a option) \<Rightarrow> 'a \<Rightarrow> json list \<Rightarrow> 'a option" where
  "foldField dec zero vs = foldl (\<lambda>acc v. Option.bind acc (\<lambda>x. dec x v)) (Some zero) vs"

definition strField :: "string \<Rightarrow> (string \<times> json) list \<Rightarrow> string option" where
  "strField f ms = foldField intoString [] (members f ms)"

fun intoObj :: "(string \<times> json) list \<Rightarrow> json \<Rightarrow> (string \<times> json) list option" where
  "intoObj old (JObj ms) = Some (old @ ms)"
| "intoObj old JNull = Some old"
| "intoObj old _ = None"

text \<open>A nested struct: the members of the objects given for it, which are decoded into the same struct.\<close>

definition objField :: "string \<Rightarrow> (string \<times> json) list \<Rightarrow> (string \<times> json) list option" where
  "objField f ms = foldField intoObj [] (members f ms)"

fun intoPtr :: "(string \<times> json) list option \<Rightarrow> json \<Rightarrow> (string \<times> json) list option option" where
  "intoPtr old (JObj ms) = Some (Some ((case old of None \<Rightarrow> [] | Some o1 \<Rightarrow> o1) @ ms))"
| "intoPtr old JNull = Some None"
| "intoPtr old _ = None"

definition ptrField :: "string \<Rightarrow> (string \<times> json) list \<Rightarrow> (string \<times> json) list option option" where
  "ptrField f ms = foldField intoPtr None (members f ms)"

fun intoInt :: "int \<Rightarrow> json \<Rightarrow> int option" where
  "intoInt old (JNum n) = (if n \<noteq> [] \<and> hd n = CHR ''+'' then None else parseInt64 n)"
| "intoInt old JNull = Some old"
| "intoInt old _ = None"

definition intField :: "string \<Rightarrow> (string \<times> json) list \<Rightarrow> int option" where
  "intField f ms = foldField intoInt 0 (members f ms)"

definition zeroFloat :: gofloat where "zeroFloat = FFin False 0"

fun intoFloat :: "gofloat \<Rightarrow> json \<Rightarrow> gofloat option" where
  "intoFloat old (JNum n) = (case parseFloat64 n of Some (FFin s q) \<Rightarrow> Some (FFin s q) | _ \<Rightarrow> None)"
| "intoFloat old JNull = Some old"
| "intoFloat old _ = None"

definition floatField :: "string \<Rightarrow> (string \<times> json) list \<Rightarrow> gofloat option" where
  "floatField f ms = foldField intoFloat zeroFloat (members f ms)"

text \<open>A field of type \<open>json.RawMessage\<close> holds the last value given.\<close>

definition rawField :: "string \<Rightarrow> (string \<times> json) list \<Rightarrow> json option" where
  "rawField f ms = (let vs = members f ms in if vs = [] then None else Some (last vs))"

end
