(* ===== verification/AcpSession.thy ===== *)
theory AcpSession
  imports HarnessText JsonStruct
begin

text \<open>
  The agent client protocol session of the harness (src/harness/internal/acp/session.go and jsonrpc.go):
  frames, the bookkeeping of one prompt over the notifications that stream in, and the answers to what the
  agent asks. The websocket is a parameter: a prompt is a sequence of the events its select loop receives,
  an answer is a list of the frames sent.
\<close>

section \<open>Frames\<close>

record RPCError =
  re_code :: int
  re_message :: string
  re_data :: string \<comment> \<open>the raw text of the data field\<close>

record RPCResponse =
  rpc_id :: "json option"
  rpc_result :: "json option"
  rpc_error :: "RPCError option"
  rpc_method :: string
  rpc_params :: "json option"

definition HasID :: "RPCResponse \<Rightarrow> bool" where
  "HasID r = (case rpc_id r of None \<Rightarrow> False | Some v \<Rightarrow> v \<noteq> JNull)"

definition IntID :: "RPCResponse \<Rightarrow> int option" where
  "IntID r = (if \<not> HasID r then None else (case rpc_id r of Some v \<Rightarrow> intoInt 0 v | None \<Rightarrow> None))"

definition IsNotification :: "RPCResponse \<Rightarrow> bool" where
  "IsNotification r = (\<not> HasID r \<and> rpc_method r \<noteq> [])"

definition IsAgentRequest :: "RPCResponse \<Rightarrow> bool" where
  "IsAgentRequest r = (HasID r \<and> rpc_method r \<noteq> [])"

text \<open>\<open>json.Compact\<close> of a valid text: white space outside string literals is dropped.\<close>

fun compactFrom :: "bool \<Rightarrow> string \<Rightarrow> string" where
  "compactFrom lit [] = []"
| "compactFrom False (c # s) = (if isSpaceByte c then compactFrom False s else c # compactFrom (c = CHR 0x22) s)"
| "compactFrom True [c] = [c]"
| "compactFrom True (c # d # s) =
     (if c = CHR 0x5C then c # d # compactFrom True s else c # compactFrom (c \<noteq> CHR 0x22) (d # s))"

definition Detail :: "RPCError \<Rightarrow> string" where
  "Detail e = (let d = trimSpace (re_data e) in
     if d = [] \<or> d = ''null'' then []
     else (case jsonParse d of
         Some (JStr s) \<Rightarrow> trimSpace s
       | Some _ \<Rightarrow> compactFrom False d
       | None \<Rightarrow> d))"

definition rpcErrorText :: "RPCError \<Rightarrow> string" where
  "rpcErrorText e = (if Detail e \<noteq> [] then re_message e @ '' '' @ emDash @ '' '' @ Detail e else re_message e)"

section \<open>Provider failures\<close>

definition providerErrorPrefixes :: "string list" where
  "providerErrorPrefixes = [''Ran into this error'', ''The provider refused this request.'', ''The model returned an empty response.'']"

definition providerErrorSuffixes :: "string list" where
  "providerErrorSuffixes = [''Please resend your message to try again.'']"

text \<open>The text after the last newline.\<close>

definition lastLine :: "string \<Rightarrow> string" where
  "lastLine s = rev (takeWhile (\<lambda>c. c \<noteq> newlineChar) (rev s))"

text \<open>The lines from the last one that opens with a prefix.\<close>

fun fromLastPrefix :: "string list \<Rightarrow> string list \<Rightarrow> string list option" where
  "fromLastPrefix ps [] = None"
| "fromLastPrefix ps (w # ws) = (case fromLastPrefix ps ws of
      Some v \<Rightarrow> Some v
    | None \<Rightarrow> if list_ex (hasPrefix (trimSpace w)) ps then Some (w # ws) else None)"

definition ProviderErrorText :: "string \<Rightarrow> string" where
  "ProviderErrorText text = (let t = trimSpace text in
     case find (hasSuffix t) providerErrorSuffixes of
       Some m \<Rightarrow> (let body = trimSpace (take (length t - length m) t) in
         trimSpace (drop (length body - length (lastLine body)) t))
     | None \<Rightarrow> (case fromLastPrefix providerErrorPrefixes (splitLines t) of
         Some ws \<Rightarrow> trimSpace (joinStr [newlineChar] ws)
       | None \<Rightarrow> []))"

definition LooksLikeProviderError :: "string \<Rightarrow> bool" where
  "LooksLikeProviderError text = (ProviderErrorText text \<noteq> [])"

section \<open>The result of a prompt\<close>

record PromptResult =
  pr_stopReason :: string
  pr_chunks :: "string list"
  pr_costLimitReached :: bool
  pr_cost :: gofloat
  pr_turnsUsed :: int
  pr_contextUsed :: int
  pr_contextSize :: int
  pr_closing :: "string list"
  pr_closingMessageID :: string
  pr_notices :: "string list"

definition emptyResult :: PromptResult where
  "emptyResult = \<lparr>pr_stopReason = [], pr_chunks = [], pr_costLimitReached = False, pr_cost = zeroFloat, pr_turnsUsed = 0,
     pr_contextUsed = 0, pr_contextSize = 0, pr_closing = [], pr_closingMessageID = [], pr_notices = []\<rparr>"

definition FinalMessage :: "PromptResult \<Rightarrow> string" where
  "FinalMessage r = joinStr [newlineChar] (pr_closing r)"

definition ClosingProviderError :: "PromptResult \<Rightarrow> bool" where
  "ClosingProviderError r = list_ex LooksLikeProviderError (pr_closing r)"

definition appendClosing :: "string \<Rightarrow> string \<Rightarrow> PromptResult \<Rightarrow> PromptResult" where
  "appendClosing text messageID r =
     (let cl = pr_closing r in
      r\<lparr>pr_closing := (if cl \<noteq> [] \<and> (messageID = [] \<or> messageID = pr_closingMessageID r)
          then butlast cl @ [last cl @ text] else cl @ [text]),
        pr_closingMessageID := messageID\<rparr>)"

section \<open>Notifications\<close>

definition gooseUpdateMethod :: string where "gooseUpdateMethod = ''_goose/unstable/session/update''"
definition sessionUpdateMethod :: string where "sessionUpdateMethod = ''session/update''"

text \<open>The parameters of a frame as the members of an object; \<open>None\<close> where the decode fails.\<close>

definition paramsOf :: "RPCResponse \<Rightarrow> (string \<times> json) list option" where
  "paramsOf r = Option.bind (rpc_params r) (intoObj [])"

definition updateOf :: "RPCResponse \<Rightarrow> (string \<times> json) list option" where
  "updateOf r = Option.bind (paramsOf r) (objField ''update'')"

definition isToolCall :: "RPCResponse \<Rightarrow> bool" where
  "isToolCall r = (rpc_method r = sessionUpdateMethod \<and> Option.bind (updateOf r) (strField ''sessionUpdate'') = Some ''tool_call'')"

definition trackUsage :: "RPCResponse \<Rightarrow> PromptResult \<Rightarrow> PromptResult" where
  "trackUsage n r =
     (if rpc_method n \<noteq> gooseUpdateMethod then r
      else (case updateOf n of
          None \<Rightarrow> r
        | Some u \<Rightarrow> (case (strField ''sessionUpdate'' u, intField ''used'' u, intField ''size'' u, intField ''contextLimit'' u,
              Option.bind (ptrField ''cost'' u) (\<lambda>c. case c of None \<Rightarrow> Some None | Some ms \<Rightarrow> map_option Some (floatField ''amount'' ms))) of
            (Some kind, Some used, Some size0, Some contextLimit, Some cost) \<Rightarrow>
              if kind \<noteq> ''usage_update'' then r
              else (let r1 = (case cost of None \<Rightarrow> r | Some amount \<Rightarrow> r\<lparr>pr_cost := amount\<rparr>);
                        sz = (if size0 = 0 then contextLimit else size0) in
                    if sz > 0 then r1\<lparr>pr_contextUsed := used, pr_contextSize := sz\<rparr> else r1)
          | _ \<Rightarrow> r)))"

definition handleGooseNotice :: "RPCResponse \<Rightarrow> PromptResult \<Rightarrow> PromptResult" where
  "handleGooseNotice n r = (case updateOf n of
      None \<Rightarrow> r
    | Some u \<Rightarrow> (case (strField ''sessionUpdate'' u, Option.bind (objField ''status'' u) (strField ''type''),
          Option.bind (objField ''status'' u) (strField ''message'')) of
        (Some kind, Some ty, Some msg) \<Rightarrow>
          if kind \<noteq> ''status_message'' \<or> ty \<noteq> ''notice'' then r
          else if trimSpace msg \<noteq> [] then r\<lparr>pr_notices := pr_notices r @ [trimSpace msg]\<rparr> else r
      | _ \<Rightarrow> r))"

text \<open>\<open>handlePromptNotification\<close>: the fields the struct names must all decode; what is used of them is the kind,
  the content and the message id.\<close>

definition promptUpdate :: "(string \<times> json) list \<Rightarrow> (string \<times> string) option" where
  "promptUpdate u = (case (strField ''sessionUpdate'' u, strField ''title'' u, strField ''status'' u, strField ''text'' u, strField ''type'' u,
       Option.bind (objField ''_meta'' u) (\<lambda>m. Option.bind (objField ''goose'' m) (strField ''messageId''))) of
     (Some kind, Some _, Some _, Some _, Some _, Some mid) \<Rightarrow> Some (kind, mid) | _ \<Rightarrow> None)"

definition textContent :: "(string \<times> json) list \<Rightarrow> string option" where
  "textContent u = (case rawField ''content'' u of
      None \<Rightarrow> None
    | Some v \<Rightarrow> (case intoObj [] v of
        None \<Rightarrow> None
      | Some c \<Rightarrow> (case (strField ''type'' c, strField ''text'' c) of
          (Some ty, Some t) \<Rightarrow> if ty = ''text'' then Some t else None | _ \<Rightarrow> None)))"

definition handlePromptNotification :: "RPCResponse \<Rightarrow> PromptResult \<Rightarrow> PromptResult" where
  "handlePromptNotification n r =
     (if rpc_method n = gooseUpdateMethod then handleGooseNotice n r
      else if rpc_method n \<noteq> sessionUpdateMethod then r
      else (case Option.bind (updateOf n) promptUpdate of
          None \<Rightarrow> r
        | Some (kind, mid) \<Rightarrow>
            if kind = ''agent_message_chunk'' then
              (case Option.bind (updateOf n) textContent of
                 None \<Rightarrow> r | Some t \<Rightarrow> appendClosing t mid (r\<lparr>pr_chunks := pr_chunks r @ [t]\<rparr>))
            else if kind = ''user_message_chunk'' \<or> kind = ''tool_call'' then r\<lparr>pr_closing := []\<rparr>
            else r))"

text \<open>\<open>process\<close>: the closure that takes in one notification.\<close>

definition processFrame :: "RPCResponse \<Rightarrow> PromptResult \<Rightarrow> PromptResult" where
  "processFrame n r = trackUsage n (handlePromptNotification n
     (if isToolCall n then r\<lparr>pr_turnsUsed := pr_turnsUsed r + 1\<rparr> else r))"

section \<open>SendPrompt\<close>

text \<open>Comparison of floats.\<close>

fun floatVal :: "bool \<Rightarrow> rat \<Rightarrow> rat" where
  "floatVal neg q = (if neg then - q else q)"

fun floatGe :: "gofloat \<Rightarrow> gofloat \<Rightarrow> bool" where
  "floatGe FNaN _ = False"
| "floatGe _ FNaN = False"
| "floatGe (FInf s) f = (\<not> s \<or> f = FInf True)"
| "floatGe (FFin s q) (FInf t) = t"
| "floatGe (FFin s q) (FFin t p) = (floatVal s q \<ge> floatVal t p)"

definition floatGt :: "gofloat \<Rightarrow> gofloat \<Rightarrow> bool" where
  "floatGt a b = (floatGe a b \<and> \<not> floatGe b a)"

datatype promptErr =
    ErrConnectionLost
  | PromptRPCError RPCError
  | PromptParse "json option" \<comment> \<open>the response could not be decoded\<close>
  | PromptOther string

text \<open>The text of an error; the message of the JSON decoder is a parameter.\<close>

fun promptErrText :: "(json option \<Rightarrow> string) \<Rightarrow> promptErr \<Rightarrow> string" where
  "promptErrText decodeErr ErrConnectionLost = ''websocket connection closed during prompt''"
| "promptErrText decodeErr (PromptRPCError e) = ''prompt error '' @ formatInt (re_code e) @ '': '' @ rpcErrorText e"
| "promptErrText decodeErr (PromptParse v) = ''parse prompt result: '' @ decodeErr v"
| "promptErrText decodeErr (PromptOther s) = s"

text \<open>What the select loop receives: a notification, the response or the end of the connection (with the
  notifications that are buffered by then, and the response if it was routed already), or the end of the
  context.\<close>

datatype pevent =
    EvNotif RPCResponse
  | EvResponse "RPCResponse list" RPCResponse
  | EvClosed "RPCResponse list" "RPCResponse option"
  | EvDone string

definition maybeCancelForCost :: "gofloat \<Rightarrow> PromptResult \<Rightarrow> PromptResult \<times> nat" where
  "maybeCancelForCost costLimit r =
     (if floatGt costLimit zeroFloat \<and> \<not> pr_costLimitReached r \<and> floatGe (pr_cost r) costLimit
      then (r\<lparr>pr_costLimitReached := True\<rparr>, 1) else (r, 0))"

text \<open>\<open>json.Unmarshal(msg.Result, result)\<close>: the fields of \<open>PromptResult\<close> that the decoder sees are \<open>stopReason\<close>
  and \<open>Notices\<close>, which carries no tag.\<close>

definition intoPromptResult :: "PromptResult \<Rightarrow> json \<Rightarrow> PromptResult option" where
  "intoPromptResult r v = Option.bind (intoObj [] v) (\<lambda>ms.
     Option.bind (foldField intoString (pr_stopReason r) (members ''stopReason'' ms)) (\<lambda>sr.
     Option.bind (foldField (intoSlice intoString []) (pr_notices r) (members ''Notices'' ms)) (\<lambda>ns.
     Some (r\<lparr>pr_stopReason := sr, pr_notices := ns\<rparr>))))"

definition finishPrompt :: "RPCResponse \<Rightarrow> PromptResult \<Rightarrow> PromptResult option \<times> promptErr option" where
  "finishPrompt msg r = (case rpc_error msg of
      Some e \<Rightarrow> (Some r, Some (PromptRPCError e))
    | None \<Rightarrow> (case Option.bind (rpc_result msg) (intoPromptResult r) of
        None \<Rightarrow> (None, Some (PromptParse (rpc_result msg)))
      | Some r' \<Rightarrow> (Some r', None)))"

text \<open>The loop: the number of \<open>session/cancel\<close> notifications it sent, and what it returns; no result as long
  as it waits.\<close>

fun promptLoop :: "gofloat \<Rightarrow> PromptResult \<Rightarrow> pevent list \<Rightarrow> nat \<times> (PromptResult option \<times> promptErr option) option" where
  "promptLoop costLimit r [] = (0, None)"
| "promptLoop costLimit r (EvDone e # evs) = (0, Some (None, Some (PromptOther e)))"
| "promptLoop costLimit r (EvClosed ns (Some msg) # evs) = (0, Some (finishPrompt msg (fold processFrame ns r)))"
| "promptLoop costLimit r (EvClosed ns None # evs) = (0, Some (Some (fold processFrame ns r), Some ErrConnectionLost))"
| "promptLoop costLimit r (EvResponse ns msg # evs) = (0, Some (finishPrompt msg (fold processFrame ns r)))"
| "promptLoop costLimit r (EvNotif n # evs) = (case maybeCancelForCost costLimit (processFrame n r) of (r', k) \<Rightarrow>
     (case promptLoop costLimit r' evs of (k', out) \<Rightarrow> (k + k', out)))"

definition SendPrompt :: "string option \<Rightarrow> gofloat \<Rightarrow> pevent list \<Rightarrow> nat \<times> (PromptResult option \<times> promptErr option) option" where
  "SendPrompt sendErr costLimit evs = (case sendErr of
      Some e \<Rightarrow> (0, Some (None, Some (PromptOther (''send prompt: '' @ e))))
    | None \<Rightarrow> promptLoop costLimit emptyResult evs)"

section \<open>Calls\<close>

text \<open>\<open>WSClient.Call\<close>: the result or an error, with the notifications received while waiting. On a closed
  connection the buffered notifications are only drained when the response is there.\<close>

definition callResult :: "RPCResponse \<Rightarrow> string + json option" where
  "callResult msg = (case rpc_error msg of
      Some e \<Rightarrow> Inl (''ACP error '' @ formatInt (re_code e) @ '': '' @ rpcErrorText e)
    | None \<Rightarrow> Inr (rpc_result msg))"

fun callLoop :: "RPCResponse list \<Rightarrow> pevent list \<Rightarrow> ((string + json option) \<times> RPCResponse list) option" where
  "callLoop acc [] = None"
| "callLoop acc (EvDone e # evs) = Some (Inl e, acc)"
| "callLoop acc (EvClosed ns (Some msg) # evs) = Some (callResult msg, acc @ ns)"
| "callLoop acc (EvClosed ns None # evs) = Some (Inl ''websocket connection closed'', acc)"
| "callLoop acc (EvNotif n # evs) = callLoop (acc @ [n]) evs"
| "callLoop acc (EvResponse ns msg # evs) = Some (callResult msg, acc @ ns)"

definition Call :: "string \<Rightarrow> string option \<Rightarrow> pevent list \<Rightarrow> ((string + json option) \<times> RPCResponse list) option" where
  "Call callMethod sendErr evs = (case sendErr of
      Some e \<Rightarrow> Some (Inl (''send '' @ callMethod @ '': '' @ e), [])
    | None \<Rightarrow> callLoop [] evs)"

text \<open>\<open>SessionClient\<close>: the handshake, the session and the latch of an unanswered question.\<close>

record SessionClient =
  sc_initialized :: bool
  sc_sessionID :: string
  sc_hitlUnanswered :: bool

type_synonym wire = "string option \<times> pevent list"

definition decodeInitResult :: "json option \<Rightarrow> int option" where
  "decodeInitResult v = Option.bind v (\<lambda>j. Option.bind (intoObj [] j) (intField ''protocolVersion''))"

text \<open>\<open>Initialize\<close>: nothing when the handshake was done before. The result is \<open>None\<close> as long as the call waits.\<close>

definition Initialize :: "(json option \<Rightarrow> string) \<Rightarrow> wire \<Rightarrow> SessionClient \<Rightarrow> ((string + int option) \<times> SessionClient) option" where
  "Initialize decodeErr w c =
     (if sc_initialized c then Some (Inr None, c)
      else map_option (\<lambda>(res, ns). (case res of
          Inl e \<Rightarrow> (Inl (''initialize: '' @ e), c)
        | Inr v \<Rightarrow> (case decodeInitResult v of
            None \<Rightarrow> (Inl (''parse initialize result: '' @ decodeErr v), c)
          | Some pv \<Rightarrow> (Inr (Some pv), c\<lparr>sc_initialized := True\<rparr>)))) (Call ''initialize'' (fst w) (snd w)))"

fun extractSessionIDFromNotifications :: "RPCResponse list \<Rightarrow> string" where
  "extractSessionIDFromNotifications [] = []"
| "extractSessionIDFromNotifications (n # ns) =
     (if rpc_method n \<noteq> sessionUpdateMethod then extractSessionIDFromNotifications ns
      else (case Option.bind (paramsOf n) (strField ''sessionId'') of
          Some sid \<Rightarrow> if sid \<noteq> [] then sid else extractSessionIDFromNotifications ns
        | None \<Rightarrow> extractSessionIDFromNotifications ns))"

definition responseSessionID :: "json option \<Rightarrow> string" where
  "responseSessionID v = (case Option.bind v (\<lambda>j. Option.bind (intoObj [] j) (strField ''sessionId'')) of Some sid \<Rightarrow> sid | None \<Rightarrow> [])"

definition newSession :: "wire \<Rightarrow> SessionClient \<Rightarrow> ((string + string) \<times> SessionClient) option" where
  "newSession w c = map_option (\<lambda>(res, ns). (case res of
      Inl e \<Rightarrow> (Inl (''session/new: '' @ e), c)
    | Inr v \<Rightarrow> (let sid0 = extractSessionIDFromNotifications ns; sid = (if sid0 = [] then responseSessionID v else sid0) in
        if sid = [] then (Inl ''session/new: no session ID received'', c) else (Inr sid, c\<lparr>sc_sessionID := sid\<rparr>))))
     (Call ''session/new'' (fst w) (snd w))"

definition CreateSession ::
  "(json option \<Rightarrow> string) \<Rightarrow> wire \<Rightarrow> wire \<Rightarrow> SessionClient \<Rightarrow> ((string + string) \<times> SessionClient) option" where
  "CreateSession decodeErr initW newW c = Option.bind (Initialize decodeErr initW c) (\<lambda>(res, c').
     case res of Inl e \<Rightarrow> Some (Inl e, c') | Inr _ \<Rightarrow> newSession newW c')"

section \<open>What the agent asks\<close>

datatype PermissionForwardOutcome = ForwardNoViewers | ForwardAnswered | ForwardTimeout

text \<open>\<open>PermissionForwarder\<close>: what the tee answers to the parameters of an ask.\<close>

record PermissionForwarder =
  ForwardPermission :: "json option \<Rightarrow> json \<times> PermissionForwardOutcome"
  ForwardElicitation :: "json option \<Rightarrow> json \<times> PermissionForwardOutcome"

datatype sent =
    SentResponse "json option" "json option" "(int \<times> string) option" \<comment> \<open>id, result, error\<close>
  | SentNotify string json

record PermissionOption =
  po_optionID :: string
  po_name :: string
  po_kind :: string

definition decodeOption :: "(string \<times> json) list \<Rightarrow> PermissionOption option" where
  "decodeOption ms = Option.bind (strField ''optionId'' ms) (\<lambda>oid. Option.bind (strField ''name'' ms) (\<lambda>nm.
     Option.bind (strField ''kind'' ms) (\<lambda>kd. Some \<lparr>po_optionID = oid, po_name = nm, po_kind = kd\<rparr>)))"

fun allSome :: "'a option list \<Rightarrow> 'a list option" where
  "allSome [] = Some []"
| "allSome (None # xs) = None"
| "allSome (Some x # xs) = map_option ((#) x) (allSome xs)"

definition permissionOptions :: "RPCResponse \<Rightarrow> PermissionOption list option" where
  "permissionOptions msg = Option.bind (paramsOf msg) (\<lambda>ps.
     Option.bind (Option.bind (objField ''toolCall'' ps) (strField ''title'')) (\<lambda>title.
     Option.bind (foldField (intoSlice intoObj []) [] (members ''options'' ps)) (\<lambda>os. allSome (map decodeOption os))))"

definition cancelledOutcome :: json where
  "cancelledOutcome = JObj [(''outcome'', JObj [(''outcome'', JStr ''cancelled'')])]"

definition selectedOutcome :: "PermissionOption \<Rightarrow> json" where
  "selectedOutcome p = JObj [(''outcome'', JObj [(''optionId'', JStr (po_optionID p)), (''outcome'', JStr ''selected'')])]"

text \<open>The answer of the headless harness: the first one-shot rejection offered, else cancelled.\<close>

definition denyOutcome :: "PermissionOption list \<Rightarrow> json" where
  "denyOutcome opts = (case find (\<lambda>p. po_kind p = ''reject_once'') opts of Some p \<Rightarrow> selectedOutcome p | None \<Rightarrow> cancelledOutcome)"

definition answerPermission :: "PermissionForwarder option \<Rightarrow> RPCResponse \<Rightarrow> json" where
  "answerPermission fwd msg = (case permissionOptions msg of
      None \<Rightarrow> cancelledOutcome
    | Some opts \<Rightarrow> (case fwd of
        None \<Rightarrow> denyOutcome opts
      | Some f \<Rightarrow> (case ForwardPermission f (rpc_params msg) of (result, fo) \<Rightarrow>
          if fo = ForwardAnswered then result else denyOutcome opts)))"

definition cancelTurn :: "SessionClient \<Rightarrow> sent list" where
  "cancelTurn c = (if sc_sessionID c = [] then [] else [SentNotify ''session/cancel'' (JObj [(''sessionId'', JStr (sc_sessionID c))])])"

definition answerElicitation :: "PermissionForwarder option \<Rightarrow> RPCResponse \<Rightarrow> SessionClient \<Rightarrow> sent list \<times> SessionClient" where
  "answerElicitation fwd msg c =
     (case map_option (\<lambda>f. ForwardElicitation f (rpc_params msg)) fwd of
        Some (result, ForwardAnswered) \<Rightarrow> ([SentResponse (rpc_id msg) (Some result) None], c)
      | _ \<Rightarrow> (SentResponse (rpc_id msg) (Some (JObj [(''action'', JStr ''cancel'')])) None # cancelTurn c, c\<lparr>sc_hitlUnanswered := True\<rparr>))"

definition elicitationMethod :: string where "elicitationMethod = ''elicitation/create''"
definition permissionMethod :: string where "permissionMethod = ''session/request_permission''"

definition answerAgentRequest :: "PermissionForwarder option \<Rightarrow> RPCResponse \<Rightarrow> SessionClient \<Rightarrow> sent list \<times> SessionClient" where
  "answerAgentRequest fwd msg c =
     (if rpc_method msg = elicitationMethod then answerElicitation fwd msg c
      else if rpc_method msg \<noteq> permissionMethod
      then ([SentResponse (rpc_id msg) None (Some (- 32601, ''method not supported by harness''))], c)
      else ([SentResponse (rpc_id msg) (Some (answerPermission fwd msg)) None], c))"

text \<open>The requests of a run, each with the forwarder as it behaves at the time.\<close>

definition answerAll :: "(PermissionForwarder option \<times> RPCResponse) list \<Rightarrow> SessionClient \<Rightarrow> sent list \<times> SessionClient" where
  "answerAll rs c0 = fold (\<lambda>(fwd, msg) (out, c). case answerAgentRequest fwd msg c of (o1, c') \<Rightarrow> (out @ o1, c')) rs ([], c0)"

section \<open>The demultiplexer\<close>

text \<open>\<open>WSClient\<close>: the requests that wait for a response, the responses handed to them (their channel has room for
  one), the sinks with their buffers (\<open>256\<close> each) and the raw subscribers with theirs.\<close>

record RawNotification =
  rn_seq :: int
  rn_method :: string

record WSClient =
  ws_pending :: "int list"
  ws_delivered :: "(int \<times> RPCResponse) list"
  ws_sinks :: "(int \<times> RPCResponse list) list"
  ws_rawSubs :: "(int \<times> nat \<times> RawNotification list) list"
  ws_seq :: int
  ws_requests :: "RPCResponse list" \<comment> \<open>handed to the handler of agent requests\<close>

definition sinkCap :: nat where "sinkCap = 256"

text \<open>A send that never blocks: what does not fit is dropped.\<close>

definition trySend :: "nat \<Rightarrow> 'a \<Rightarrow> 'a list \<Rightarrow> 'a list" where
  "trySend cap x buf = (if length buf < cap then buf @ [x] else buf)"

definition fanOutNotification :: "RPCResponse \<Rightarrow> WSClient \<Rightarrow> WSClient" where
  "fanOutNotification resp w = (let s = ws_seq w + 1 in
     w\<lparr>ws_seq := s, ws_sinks := map (\<lambda>(i, buf). (i, trySend sinkCap resp buf)) (ws_sinks w),
       ws_rawSubs := map (\<lambda>(i, cap, buf). (i, cap, trySend cap \<lparr>rn_seq = s, rn_method = rpc_method resp\<rparr> buf)) (ws_rawSubs w)\<rparr>)"

definition registerPending :: "int \<Rightarrow> WSClient \<Rightarrow> WSClient" where
  "registerPending i w = w\<lparr>ws_pending := i # filter (\<lambda>j. j \<noteq> i) (ws_pending w)\<rparr>"

definition unregisterPending :: "int \<Rightarrow> WSClient \<Rightarrow> WSClient" where
  "unregisterPending i w = w\<lparr>ws_pending := filter (\<lambda>j. j \<noteq> i) (ws_pending w)\<rparr>"

definition routeResponse :: "RPCResponse \<Rightarrow> WSClient \<Rightarrow> WSClient" where
  "routeResponse resp w = (case IntID resp of
      None \<Rightarrow> w
    | Some i \<Rightarrow> if i \<in> set (ws_pending w)
        then w\<lparr>ws_pending := filter (\<lambda>j. j \<noteq> i) (ws_pending w), ws_delivered := ws_delivered w @ [(i, resp)]\<rparr>
        else w)"

text \<open>One round of \<open>readLoop\<close>: \<open>None\<close> is a frame that does not decode.\<close>

definition readFrame :: "RPCResponse option \<Rightarrow> WSClient \<Rightarrow> WSClient" where
  "readFrame f w = (case f of
      None \<Rightarrow> w
    | Some resp \<Rightarrow>
        if IsNotification resp then fanOutNotification resp w
        else if IsAgentRequest resp then w\<lparr>ws_requests := ws_requests w @ [resp]\<rparr>
        else if HasID resp then routeResponse resp w
        else w)"

definition readLoop :: "RPCResponse option list \<Rightarrow> WSClient \<Rightarrow> WSClient" where
  "readLoop fs w = fold readFrame fs w"

section \<open>Properties of a prompt\<close>

text \<open>The fields of the result that one step of the bookkeeping leaves alone.\<close>

lemma notification_turns [simp]: "pr_turnsUsed (handlePromptNotification n r) = pr_turnsUsed r"
  "pr_costLimitReached (handlePromptNotification n r) = pr_costLimitReached r"
  "pr_cost (handlePromptNotification n r) = pr_cost r"
  by (auto simp: handlePromptNotification_def handleGooseNotice_def appendClosing_def Let_def split: option.splits prod.splits)

lemma trackUsage_turns [simp]: "pr_turnsUsed (trackUsage n r) = pr_turnsUsed r"
  "pr_costLimitReached (trackUsage n r) = pr_costLimitReached r"
  by (auto simp: trackUsage_def Let_def split: option.splits prod.splits)

lemma processFrame_turns [simp]: "pr_turnsUsed (processFrame n r) = pr_turnsUsed r + (if isToolCall n then 1 else 0)"
  "pr_costLimitReached (processFrame n r) = pr_costLimitReached r"
  by (simp_all add: processFrame_def)

lemma fold_turns: "pr_turnsUsed (fold processFrame ns r) = pr_turnsUsed r + int (length (filter isToolCall ns))"
  by (induction ns arbitrary: r) auto

lemma fold_limit: "pr_costLimitReached (fold processFrame ns r) = pr_costLimitReached r"
  by (induction ns arbitrary: r) auto

lemma maybeCancel_turns: "maybeCancelForCost l r = (r', k) \<Longrightarrow> pr_turnsUsed r' = pr_turnsUsed r"
  by (auto simp: maybeCancelForCost_def split: if_splits)

lemma finish_keeps:
  assumes "finishPrompt msg r = (Some r', e)"
  shows "pr_turnsUsed r' = pr_turnsUsed r \<and> pr_costLimitReached r' = pr_costLimitReached r"
  using assms by (auto simp: finishPrompt_def intoPromptResult_def split: option.splits Option.bind_splits)

text \<open>The notifications a prompt has taken in by the time it returns.\<close>

fun takenIn :: "pevent list \<Rightarrow> RPCResponse list" where
  "takenIn [] = []"
| "takenIn (EvNotif n # evs) = n # takenIn evs"
| "takenIn (EvResponse ns msg # evs) = ns"
| "takenIn (EvClosed ns m # evs) = ns"
| "takenIn (EvDone e # evs) = []"

lemma promptLoop_turns:
  assumes "promptLoop l r evs = (k, Some (Some r', e))"
  shows "pr_turnsUsed r' = pr_turnsUsed r + int (length (filter isToolCall (takenIn evs)))"
  using assms
  by (induction l r evs arbitrary: k rule: promptLoop.induct)
     (auto simp: fold_turns dest!: finish_keeps maybeCancel_turns split: prod.splits)

text \<open>\<open>TurnsUsed\<close> is the number of tool calls among the notifications the prompt took in, those buffered behind
  the response or the end of the connection included.\<close>

theorem turns_are_tool_calls:
  assumes "SendPrompt sendErr costLimit evs = (k, Some (Some r, e))"
  shows "pr_turnsUsed r = int (length (filter isToolCall (takenIn evs)))"
proof -
  have "promptLoop costLimit emptyResult evs = (k, Some (Some r, e))"
    using assms by (cases sendErr) (auto simp: SendPrompt_def)
  then show ?thesis using promptLoop_turns by (fastforce simp: emptyResult_def)
qed

definition toolCallFrame :: RPCResponse where
  "toolCallFrame = \<lparr>rpc_id = None, rpc_result = None, rpc_error = None, rpc_method = ''session/update'',
     rpc_params = Some (JObj [(''sessionId'', JStr ''s1''), (''update'', JObj [(''sessionUpdate'', JStr ''tool_call''), (''title'', JStr ''shell'')])])\<rparr>"

definition endTurn :: RPCResponse where
  "endTurn = \<lparr>rpc_id = Some (JNum ''2''), rpc_result = Some (JObj [(''stopReason'', JStr ''end_turn'')]), rpc_error = None, rpc_method = [], rpc_params = None\<rparr>"

lemma sample_toolcall: "isToolCall toolCallFrame" "\<not> isToolCall endTurn" by code_simp+

lemma sample_prompt: "\<exists>r. SendPrompt None zeroFloat [EvNotif toolCallFrame, EvResponse [toolCallFrame] endTurn] = (0, Some (Some r, None))"
proof -
  have ms: "members ''stopReason'' [(''stopReason'', JStr ''end_turn'')] = [JStr ''end_turn'']" "members ''Notices'' [(''stopReason'', JStr ''end_turn'')] = []"
    by code_simp+
  have "\<exists>r. finishPrompt endTurn x = (Some r, None)" for x
    by (simp add: finishPrompt_def endTurn_def intoPromptResult_def ms foldField_def)
  then show ?thesis
    by (auto simp: SendPrompt_def maybeCancelForCost_def floatGt_def)
qed

theorem turns_are_tool_calls_witness:
  "\<exists>r. SendPrompt None zeroFloat [EvNotif toolCallFrame, EvResponse [toolCallFrame] endTurn] = (0, Some (Some r, None)) \<and> pr_turnsUsed r = 2"
proof -
  obtain r where r: "SendPrompt None zeroFloat [EvNotif toolCallFrame, EvResponse [toolCallFrame] endTurn] = (0, Some (Some r, None))"
    using sample_prompt by blast
  then show ?thesis using turns_are_tool_calls [OF r] by (auto simp: sample_toolcall)
qed

text \<open>The cost a sequence of notifications leaves, and the notifications handled while the prompt waits.\<close>

definition costAfter :: "RPCResponse list \<Rightarrow> gofloat" where
  "costAfter ns = pr_cost (fold processFrame ns emptyResult)"

fun live :: "pevent list \<Rightarrow> RPCResponse list" where
  "live (EvNotif n # evs) = n # live evs"
| "live _ = []"

lemma trackUsage_cost_only: "pr_cost r = pr_cost r' \<Longrightarrow> pr_cost (trackUsage n r) = pr_cost (trackUsage n r')"
  by (auto simp: trackUsage_def Let_def split: option.splits prod.splits)

lemma processFrame_cost_only: "pr_cost r = pr_cost r' \<Longrightarrow> pr_cost (processFrame n r) = pr_cost (processFrame n r')"
  unfolding processFrame_def by (rule trackUsage_cost_only) simp

lemma maybeCancel_cost: "pr_cost (fst (maybeCancelForCost l r)) = pr_cost r"
  by (simp add: maybeCancelForCost_def)

definition overLimit :: "gofloat \<Rightarrow> gofloat \<Rightarrow> bool" where
  "overLimit l c = (floatGt l zeroFloat \<and> floatGe c l)"

text \<open>One of the prefixes of the notifications brings the cost over the limit.\<close>

fun reaches :: "gofloat \<Rightarrow> PromptResult \<Rightarrow> RPCResponse list \<Rightarrow> bool" where
  "reaches l r [] = False"
| "reaches l r (n # ns) = (overLimit l (pr_cost (processFrame n r)) \<or> reaches l (processFrame n r) ns)"

lemma reaches_cost_only: "pr_cost r = pr_cost r' \<Longrightarrow> reaches l r ns = reaches l r' ns"
proof (induction ns arbitrary: r r')
  case (Cons n ns)
  show ?case using Cons.IH [OF processFrame_cost_only [OF Cons.prems, of n]] processFrame_cost_only [OF Cons.prems, of n] by (simp only: reaches.simps)
qed simp

lemma reaches_prefix: "reaches l r ns = (\<exists>i\<in>{1..length ns}. overLimit l (pr_cost (fold processFrame (take i ns) r)))"
proof (induction ns arbitrary: r)
  case (Cons n ns)
  have "(\<exists>i\<in>{1..length (n # ns)}. overLimit l (pr_cost (fold processFrame (take i (n # ns)) r)))
      = (\<exists>j\<le>length ns. overLimit l (pr_cost (fold processFrame (take j ns) (processFrame n r))))" (is "?L = ?R")
  proof
    assume ?L
    then obtain i where i: "i \<in> {1..length (n # ns)}" "overLimit l (pr_cost (fold processFrame (take i (n # ns)) r))" by blast
    then obtain j where "i = Suc j" by (cases i) auto
    then show ?R using i by auto
  next
    assume ?R
    then obtain j where "j \<le> length ns" "overLimit l (pr_cost (fold processFrame (take j ns) (processFrame n r)))" by blast
    then show ?L by (intro bexI [of _ "Suc j"]) auto
  qed
  also have "\<dots> = reaches l r (n # ns)"
  proof -
    have "(\<exists>j\<le>length ns. Q j) = (Q 0 \<or> (\<exists>j\<in>{1..length ns}. Q j))" for Q :: "nat \<Rightarrow> bool"
      by (metis One_nat_def Suc_leI atLeastAtMost_iff le0 neq0_conv)
    then show ?thesis by (simp only: reaches.simps Cons.IH [of "processFrame n r"]) simp
  qed
  finally show ?case by simp
qed simp

lemma promptLoop_cancels: "fst (promptLoop l r evs) = (if \<not> pr_costLimitReached r \<and> reaches l r (live evs) then 1 else 0)"
proof (induction l r evs rule: promptLoop.induct)
  case (6 l r n evs)
  define r1 where "r1 = processFrame n r"
  obtain r' k where m: "maybeCancelForCost l r1 = (r', k)" by fastforce
  have c: "pr_cost r' = pr_cost r1" using maybeCancel_cost [of l r1] m by simp
  have k: "k = (if overLimit l (pr_cost r1) \<and> \<not> pr_costLimitReached r then 1 else 0)"
    "pr_costLimitReached r' = (pr_costLimitReached r \<or> overLimit l (pr_cost r1))"
    using m by (auto simp: maybeCancelForCost_def overLimit_def r1_def split: if_splits)
  have "fst (promptLoop l r (EvNotif n # evs)) = k + fst (promptLoop l r' evs)"
    using m by (simp add: r1_def split: prod.splits)
  then show ?case
    using k 6 [OF m [unfolded r1_def, symmetric]] reaches_cost_only [OF c] by (auto simp: r1_def)
qed auto

text \<open>The cost limit. The harness sends \<open>session/cancel\<close> exactly once if the cost reported so far reaches a
  positive limit after one of the notifications it handles, and never otherwise.\<close>

theorem cost_cancel_once:
  "fst (SendPrompt None costLimit evs) =
     (if \<exists>i\<in>{1..length (live evs)}. overLimit costLimit (costAfter (take i (live evs))) then 1 else 0)"
  by (simp add: SendPrompt_def promptLoop_cancels costAfter_def reaches_prefix) (simp add: emptyResult_def)

lemma promptLoop_limit:
  assumes "promptLoop l r evs = (k, Some (Some r', e))"
  shows "pr_costLimitReached r' = (pr_costLimitReached r \<or> k = 1) \<and> (pr_costLimitReached r \<longrightarrow> k = 0) \<and> k \<le> 1"
  using assms
proof (induction l r evs arbitrary: k rule: promptLoop.induct)
  case (6 l r n evs)
  obtain r1 k1 where m: "maybeCancelForCost l (processFrame n r) = (r1, k1)" by fastforce
  obtain k2 where k2: "promptLoop l r1 evs = (k2, Some (Some r', e))" "k = k1 + k2"
    using 6(2) m by (auto split: prod.splits)
  have "k1 = (if pr_costLimitReached r1 \<and> \<not> pr_costLimitReached r then 1 else 0)" "pr_costLimitReached r \<longrightarrow> pr_costLimitReached r1"
    using m by (auto simp: maybeCancelForCost_def split: if_splits)
  then show ?case using 6(1) [OF m [symmetric] k2(1)] k2(2) by (auto split: if_splits)
qed (auto simp: fold_limit dest!: finish_keeps)

section \<open>Properties of the answers\<close>

text \<open>Permission asks fail closed. The harness answers an ask for permission with one response to its id, which
  is what an attached viewer answered, or denies it: the cancelled outcome, or an option of the ask that rejects.\<close>

theorem permission_fails_closed:
  assumes "rpc_method msg = permissionMethod"
  shows "\<exists>res. answerAgentRequest fwd msg c = ([SentResponse (rpc_id msg) (Some res) None], c) \<and>
     ((\<exists>f. fwd = Some f \<and> ForwardPermission f (rpc_params msg) = (res, ForwardAnswered)) \<or> res = cancelledOutcome \<or>
      (\<exists>opts p. permissionOptions msg = Some opts \<and> p \<in> set opts \<and> po_kind p = ''reject_once'' \<and> res = selectedOutcome p))"
proof -
  have deny: "denyOutcome opts = cancelledOutcome \<or> (\<exists>p\<in>set opts. po_kind p = ''reject_once'' \<and> denyOutcome opts = selectedOutcome p)" for opts
    by (auto simp: denyOutcome_def find_Some_iff split: option.splits)
  have "answerAgentRequest fwd msg c = ([SentResponse (rpc_id msg) (Some (answerPermission fwd msg)) None], c)"
    using assms by (simp add: answerAgentRequest_def elicitationMethod_def permissionMethod_def)
  moreover have "(\<exists>f. fwd = Some f \<and> ForwardPermission f (rpc_params msg) = (answerPermission fwd msg, ForwardAnswered)) \<or>
      (\<exists>opts. permissionOptions msg = Some opts \<and> answerPermission fwd msg = denyOutcome opts) \<or> answerPermission fwd msg = cancelledOutcome"
    by (auto simp: answerPermission_def split: option.splits prod.splits if_splits)
  ultimately show ?thesis using deny by metis
qed

definition permissionAsk :: RPCResponse where
  "permissionAsk = \<lparr>rpc_id = Some (JStr ''u1''), rpc_result = None, rpc_error = None, rpc_method = ''session/request_permission'',
     rpc_params = Some (JObj [(''toolCall'', JObj [(''title'', JStr ''rm'')]), (''options'', JArr [
       JObj [(''optionId'', JStr ''a''), (''kind'', JStr ''allow_once'')], JObj [(''optionId'', JStr ''r''), (''kind'', JStr ''reject_once'')]])])\<rparr>"

definition freshClient :: SessionClient where
  "freshClient = \<lparr>sc_initialized = True, sc_sessionID = ''s1'', sc_hitlUnanswered = False\<rparr>"

theorem permission_fails_closed_witness:
  "\<exists>res. answerAgentRequest None permissionAsk freshClient = ([SentResponse (Some (JStr ''u1'')) (Some res) None], freshClient) \<and>
     (res = cancelledOutcome \<or> (\<exists>opts p. permissionOptions permissionAsk = Some opts \<and> p \<in> set opts \<and> po_kind p = ''reject_once'' \<and> res = selectedOutcome p))"
  using permission_fails_closed [of permissionAsk None freshClient]
  by (simp add: permissionAsk_def permissionMethod_def)

text \<open>An ask that a viewer answered.\<close>

definition viewerAnswers :: "PermissionForwarder option \<Rightarrow> RPCResponse \<Rightarrow> bool" where
  "viewerAnswers fwd msg = (case fwd of None \<Rightarrow> False | Some f \<Rightarrow> snd (ForwardElicitation f (rpc_params msg)) = ForwardAnswered)"

lemma answer_latch: "answerAgentRequest fwd msg c = (out, c') \<Longrightarrow>
    sc_hitlUnanswered c' = (sc_hitlUnanswered c \<or> (rpc_method msg = elicitationMethod \<and> \<not> viewerAnswers fwd msg))"
  by (auto simp: answerAgentRequest_def answerElicitation_def viewerAnswers_def split: option.splits if_splits prod.splits
      PermissionForwardOutcome.splits)

text \<open>Over the requests of a run, whatever their number and order, the latch is set exactly if a question was left
  without an answer of a viewer.\<close>

theorem unanswered_question_latches:
  "sc_hitlUnanswered (snd (answerAll rs c)) =
     (sc_hitlUnanswered c \<or> (\<exists>(fwd, msg) \<in> set rs. rpc_method msg = elicitationMethod \<and> \<not> viewerAnswers fwd msg))"
proof -
  have "sc_hitlUnanswered (snd (fold (\<lambda>(fwd, msg) (out, c). case answerAgentRequest fwd msg c of (o1, c') \<Rightarrow> (out @ o1, c')) rs (out, c))) =
     (sc_hitlUnanswered c \<or> (\<exists>(fwd, msg) \<in> set rs. rpc_method msg = elicitationMethod \<and> \<not> viewerAnswers fwd msg))" for out
  proof (induction rs arbitrary: c out)
    case (Cons a rs)
    obtain fwd msg where a: "a = (fwd, msg)" by fastforce
    obtain o1 c' where o: "answerAgentRequest fwd msg c = (o1, c')" by fastforce
    show ?case using Cons.IH [of "out @ o1" c'] answer_latch [OF o] by (auto simp: a o)
  qed simp
  then show ?thesis by (simp add: answerAll_def)
qed

section \<open>Properties of the demultiplexer\<close>

definition answers :: "int \<Rightarrow> RPCResponse option \<Rightarrow> bool" where
  "answers i f = (case f of None \<Rightarrow> False | Some resp \<Rightarrow> rpc_method resp = [] \<and> IntID resp = Some i)"

lemma readFrame_pending:
  "set (ws_pending (readFrame f w)) = set (ws_pending w) - {i. answers i f}"
  by (auto simp: readFrame_def answers_def fanOutNotification_def routeResponse_def IsNotification_def IsAgentRequest_def IntID_def
      Let_def split: option.splits if_splits)

lemma readFrame_delivered:
  "ws_delivered (readFrame f w) = ws_delivered w @ (case f of None \<Rightarrow> [] | Some resp \<Rightarrow>
     (case IntID resp of Some i \<Rightarrow> if rpc_method resp = [] \<and> i \<in> set (ws_pending w) then [(i, resp)] else [] | None \<Rightarrow> []))"
  by (auto simp: readFrame_def fanOutNotification_def routeResponse_def IsNotification_def IsAgentRequest_def IntID_def
      Let_def split: option.splits if_splits)

text \<open>Responses reach the call that waits for them. After any sequence of frames a request that was registered
  has been handed the first response to its id and no other, and nothing is handed to a request that was not.\<close>

theorem responses_are_routed:
  assumes "ws_delivered w = []"
  shows "map snd (filter (\<lambda>(j, r). j = i) (ws_delivered (readLoop fs w))) =
     (if i \<in> set (ws_pending w) then (case find (answers i) fs of Some (Some resp) \<Rightarrow> [resp] | _ \<Rightarrow> []) else [])"
proof -
  let ?d = "\<lambda>w. map snd (filter (\<lambda>(j, r). j = i) (ws_delivered w))"
  have "?d (fold readFrame fs w) = ?d w @
      (if i \<in> set (ws_pending w) then (case find (answers i) fs of Some (Some resp) \<Rightarrow> [resp] | _ \<Rightarrow> []) else [])"
  proof (induction fs arbitrary: w)
    case (Cons f fs)
    have step: "?d (readFrame f w) = ?d w @ (if answers i f \<and> i \<in> set (ws_pending w) then (case f of Some resp \<Rightarrow> [resp] | None \<Rightarrow> []) else [])"
      by (auto simp: readFrame_delivered answers_def split: option.splits)
    show ?case using Cons.IH [of "readFrame f w"] step
      by (auto simp: readFrame_pending answers_def split: option.splits)
  qed simp
  then show ?thesis using assms by (simp add: readLoop_def)
qed

definition waitingClient :: WSClient where
  "waitingClient = \<lparr>ws_pending = [2], ws_delivered = [], ws_sinks = [], ws_rawSubs = [], ws_seq = 0, ws_requests = []\<rparr>"

theorem responses_are_routed_witness:
  "map snd (filter (\<lambda>(j, r). j = 2) (ws_delivered (readLoop [Some toolCallFrame, None, Some endTurn, Some endTurn] waitingClient))) = [endTurn]"
proof -
  have "answers 2 (Some endTurn)" "\<not> answers 2 (Some toolCallFrame)" "\<not> answers 2 None" by code_simp+
  then show ?thesis
    by (subst responses_are_routed) (simp_all add: waitingClient_def)
qed

end
