(* ===== verification/JsonNumbers.thy ===== *)
theory JsonNumbers
  imports JsonRoundTrip
begin

text \<open>The literals \<open>json.Marshal\<close> writes for integers and floats are JSON numbers, and how long texts get.\<close>

definition digits :: "string \<Rightarrow> bool" where
  "digits s = (s \<noteq> [] \<and> list_all isDigit s)"

lemma scan_digits:
  assumes "list_all isDigit ip" and "r = [] \<or> \<not> isDigit (hd r)"
  shows "scanDigits (ip @ r) = (ip, r)"
  using assms by (cases r) (auto simp: scanDigits_def list_all_iff takeWhile_append dropWhile_append)

text \<open>A fraction and an exponent as they are written: both may be missing.\<close>

definition fracPart :: "string \<Rightarrow> bool" where
  "fracPart f = (f = [] \<or> (\<exists>d. f = CHR ''.'' # d \<and> digits d))"

definition expPart :: "string \<Rightarrow> bool" where
  "expPart e = (e = [] \<or> (\<exists>s d. e = CHR ''e'' # s # d \<and> (s = CHR ''+'' \<or> s = CHR ''-'') \<and> digits d))"

lemma not_digit [simp]: "\<not> isDigit CHR ''.''" "\<not> isDigit CHR ''e''" "\<not> isDigit CHR ''E''"
  by (simp_all add: isDigit_def)

lemma json_number:
  assumes "digits ip" and "hd ip \<noteq> CHR ''0'' \<or> length ip = 1" and "fracPart f" and "expPart e"
  shows "isJsonNumber (ip @ f @ e) \<and> isJsonNumber (CHR ''-'' # ip @ f @ e)"
proof -
  have e0: "e = [] \<or> hd e = CHR ''e''" using assms(4) by (auto simp: expPart_def)
  have f0: "f = [] \<or> hd f = CHR ''.''" using assms(3) by (auto simp: fracPart_def)
  have i0: "hd (ip @ f @ e) \<noteq> CHR ''-''" using assms(1) by (cases ip) (auto simp: digits_def)
  have scan: "scanDigits (ip @ f @ e) = (ip, f @ e)"
    by (rule scan_digits) (use assms(1) e0 f0 in \<open>auto simp: digits_def hd_append\<close>)
  have frac: "(if f @ e \<noteq> [] \<and> hd (f @ e) = CHR ''.'' then
                (case scanDigits (tl (f @ e)) of (d, u) \<Rightarrow> if d = [] then None else Some u) else Some (f @ e)) = Some e"
  proof (cases "f = []")
    case True
    then show ?thesis using e0 by auto
  next
    case False
    then obtain d where d: "f = CHR ''.'' # d" "digits d" using assms(3) by (auto simp: fracPart_def)
    have "scanDigits (d @ e) = (d, e)" by (rule scan_digits) (use d e0 in \<open>auto simp: digits_def\<close>)
    then show ?thesis using d by (auto simp: digits_def)
  qed
  have expo: "(if e \<noteq> [] \<and> (hd e = CHR ''e'' \<or> hd e = CHR ''E'') then
                (let u = tl e; v = (if u \<noteq> [] \<and> (hd u = CHR ''+'' \<or> hd u = CHR ''-'') then tl u else u)
                 in case scanDigits v of (d, w) \<Rightarrow> if d = [] then None else Some w) else Some e) = Some []"
  proof (cases "e = []")
    case False
    then obtain s d where d: "e = CHR ''e'' # s # d" "s = CHR ''+'' \<or> s = CHR ''-''" "digits d" using assms(4) by (auto simp: expPart_def)
    have "scanDigits d = (d, [])" using scan_digits [of d "[]"] d(3) by (simp add: digits_def)
    then show ?thesis using d by (auto simp: digits_def)
  qed simp
  have ip: "ip \<noteq> []" "hd ip = CHR ''0'' \<longrightarrow> length ip = 1" using assms(1,2) by (auto simp: digits_def)
  show ?thesis unfolding isJsonNumber_def using i0 scan frac expo ip by (simp add: Let_def)
qed

lemma digit_word: "digits s \<Longrightarrow> list_all isWordByte s"
  by (auto simp: digits_def isWordByte_def list_all_iff)

lemma word_e: "isWordByte CHR ''e''" by code_simp

lemma number_word:
  assumes "digits ip" and "fracPart f" and "expPart e"
  shows "list_all isWordByte (ip @ f @ e)"
proof -
  have "list_all isWordByte f" using assms(2) digit_word by (auto simp: fracPart_def isWordByte_def)
  moreover have "list_all isWordByte e" using assms(3) digit_word word_e by (auto simp: expPart_def isWordByte_def [of "CHR ''+''"] isWordByte_def [of "CHR ''-''"])
  ultimately show ?thesis using assms(1) digit_word by simp
qed

lemma numberOK:
  assumes "digits ip" and "hd ip \<noteq> CHR ''0'' \<or> length ip = 1" and "fracPart f" and "expPart e"
  shows "numbersOK (JNum (ip @ f @ e)) \<and> numbersOK (JNum (CHR ''-'' # ip @ f @ e))"
  using json_number [OF assms] number_word [OF assms(1,3,4)] assms(1) by (simp add: digits_def isWordByte_def)

section \<open>Integers\<close>

lemma digits_showDec: "0 \<le> n \<Longrightarrow> digits (showDec n)"
  by (simp add: digits_def showDec_digits)

lemma showDec_lead: "0 < n \<Longrightarrow> hd (showDec n) \<noteq> CHR ''0''"
proof (induction n rule: showDec.induct)
  case (1 n)
  show ?case
  proof (cases "n < 10")
    case True
    have "digitVal CHR ''0'' = 0" by (simp add: digitVal_def)
    then have "digitChar n \<noteq> CHR ''0''" using True 1 digitVal_digitChar [of n] by fastforce
    then show ?thesis using True by (simp add: showDec.simps [of n])
  next
    case False
    then have "hd (showDec (n div 10)) \<noteq> CHR ''0''" using 1 by simp
    then show ?thesis using False by (simp add: showDec.simps [of n] hd_append)
  qed
qed

lemma showDec_form: "0 \<le> n \<Longrightarrow> hd (showDec n) \<noteq> CHR ''0'' \<or> length (showDec n) = 1"
  using showDec_lead [of n] by (cases "n = 0") (auto simp: showDec.simps [of 0])

lemma formatInt_number: "numbersOK (JNum (formatInt n))"
  using numberOK [of "showDec \<bar>n\<bar>" "[]" "[]"] digits_showDec [of "\<bar>n\<bar>"] showDec_form [of "\<bar>n\<bar>"]
  by (auto simp: formatInt_def fracPart_def expPart_def abs_if)

section \<open>Floats\<close>

lemma shortest_form:
  assumes "shortest v e ns = (ds, dp)"
  shows "digits ds \<and> (hd ds \<noteq> CHR ''0'' \<or> ds = ''0'' \<and> dp = 1)"
  using assms
proof (induction v e ns rule: shortest.induct)
  case (1 v e)
  then show ?case by (auto simp: digits_def isDigit_def)
next
  case (2 v e n ns)
  show ?case
  proof (cases "candidate v e n")
    case None
    then show ?thesis using 2 by simp
  next
    case (Some d)
    then have "0 < d" by (auto simp: candidate_def Let_def split: if_splits)
    then show ?thesis using 2(2) Some digits_showDec [of d] showDec_lead [of d] by (auto simp: Let_def)
  qed
qed

lemma digits_zeros: "list_all isDigit (zeros n)"
  by (auto simp: zeros_def list_all_iff isDigit_def)

lemma fixedForm_number: "numbersOK (JNum (fixedForm v)) \<and> numbersOK (JNum (CHR ''-'' # fixedForm v))"
proof (cases "v = 0")
  case True
  then show ?thesis using numberOK [of "''0''" "[]" "[]"] by (simp add: fixedForm_def digits_def isDigit_def fracPart_def expPart_def)
next
  case False
  obtain ds dp where sd: "shortDigits v = (ds, dp)" by fastforce
  have ds: "digits ds" "hd ds \<noteq> CHR ''0'' \<or> ds = ''0'' \<and> dp = 1" using shortest_form sd by (auto simp: shortDigits_def)
  define whole where "whole = (if dp \<le> 0 then ''0'' else take (nat dp) ds @ zeros (dp - int (length ds)))"
  define frac where "frac = (if dp \<le> 0 then zeros (- dp) @ ds else drop (nat dp) ds)"
  have fr: "list_all isDigit frac" using ds(1) digits_zeros [of "- dp"] set_drop_subset [of "nat dp" ds] by (auto simp: frac_def digits_def list_all_iff)
  have wh: "digits whole" using ds(1) digits_zeros set_take_subset [of "nat dp" ds] by (auto simp: whole_def digits_def list_all_iff isDigit_def)
  have wl: "hd whole \<noteq> CHR ''0'' \<or> length whole = 1"
    using ds by (auto simp: whole_def digits_def zeros_def hd_append hd_take)
  have ff: "fixedForm v = whole @ (if frac = [] then [] else CHR ''.'' # frac) @ []"
    using False sd by (simp add: fixedForm_def Let_def whole_def frac_def)
  have "fracPart (if frac = [] then [] else CHR ''.'' # frac)" using fr by (simp add: fracPart_def digits_def)
  then show ?thesis unfolding ff by (rule numberOK [OF wh wl]) (simp add: expPart_def)
qed

lemma expForm_number: "numbersOK (JNum (expForm v)) \<and> numbersOK (JNum (CHR ''-'' # expForm v))"
proof -
  obtain ds dp where sd: "shortDigits v = (ds, dp)" by fastforce
  have ds: "digits ds" using shortest_form sd by (auto simp: shortDigits_def)
  define f where "f = (if length ds > 1 then CHR ''.'' # drop 1 ds else [])"
  define e where "e = CHR ''e'' # (if dp - 1 < 0 then CHR ''-'' # showDec (- (dp - 1))
     else CHR ''+'' # (if dp - 1 < 10 then ''0'' else []) @ showDec (dp - 1))"
  have ex: "expForm v = take 1 ds @ f @ e" using sd by (simp add: expForm_def Let_def f_def e_def)
  have "digits (take 1 ds)" "length (take 1 ds) = 1" using ds by (cases ds; auto simp: digits_def)+
  moreover have "fracPart f" using ds by (auto simp: f_def fracPart_def digits_def list_all_iff dest: in_set_dropD)
  moreover have "expPart e" using digits_showDec [of "- (dp - 1)"] digits_showDec [of "dp - 1"] by (auto simp: e_def expPart_def digits_def isDigit_def)
  ultimately show ?thesis unfolding ex using numberOK by blast
qed

lemma marshalFloat_number: "marshalFloat x = Some lit \<Longrightarrow> numbersOK (JNum lit)"
  using fixedForm_number expForm_number by (auto simp: marshalFloat_def split: gofloat.splits if_splits)

section \<open>Sizes\<close>

lemma escapeRune_le6: "length (escapeRune r) \<le> max 6 (length r)"
  by (auto simp: escapeRune_def hex4_def Let_def split: list.splits)

lemma runeBytes_piece_len: "r \<in> set (runeBytes s) \<Longrightarrow> 1 \<le> length r \<and> length r \<le> 4"
proof (induction s rule: runeBytes.induct)
  case (2 c s)
  then show ?case using runeWidth_le [of c s] by (auto simp: runeBytes.simps(2) Let_def Suc_le_eq)
qed simp

lemma length_runes: "length (runes s) = length (runeBytes s)"
  by (simp add: runes_runeBytes)

lemma concat_le: "(\<forall>x\<in>set xs. length (f x) \<le> k) \<Longrightarrow> length (concat (map f xs)) \<le> k * length xs"
  by (induction xs) auto

lemma length_runeBytes_le: "length (runeBytes s) \<le> length s"
proof -
  have "length xs \<le> length (concat xs)" if "\<forall>x\<in>set xs. 1 \<le> length (x :: string)" for xs
    using that by (induction xs) auto
  then show ?thesis using runeBytes_piece_len [of _ s] concat_runeBytes [of s] by metis
qed

text \<open>A text is written with at most six bytes for each of its runes.\<close>

lemma quote_le_runes: "length (quote s) \<le> 2 + 6 * length (runes s)"
proof -
  have "length (concat (map escapeRune (runeBytes s))) \<le> 6 * length (runeBytes s)"
  proof (rule concat_le, rule ballI)
    fix r
    assume "r \<in> set (runeBytes s)"
    then show "length (escapeRune r) \<le> 6" using escapeRune_le6 [of r] runeBytes_piece_len [of r s] by linarith
  qed
  then show ?thesis by (simp add: quote_def length_runes)
qed

lemma quote_le_bytes: "length (quote s) \<le> 2 + 6 * length s"
  using quote_le_runes [of s] length_runeBytes_le [of s] by (simp add: length_runes)

lemma runeBytes_valid_append: "validRune r \<Longrightarrow> runeBytes (r @ t) = r # runeBytes t"
proof -
  assume v: "validRune r"
  then obtain c r' where r: "r = c # r'" by (cases r) (auto simp: validRune_def)
  have "runeWidth (c # (r' @ t)) = length r" using v r by (auto simp: validRune_def)
  then show ?thesis using r by (simp add: runeBytes.simps(2) Let_def)
qed

lemma runeBytes_concat: "\<forall>r \<in> set rs. validRune r \<Longrightarrow> runeBytes (concat rs) = rs"
  by (induction rs) (auto simp: runeBytes_valid_append)

lemma trimSpace_concat:
  assumes "\<forall>r \<in> set rs. validRune r"
  shows "\<exists>qs. trimSpace (concat rs) = concat qs \<and> set qs \<subseteq> set rs \<and> length qs \<le> length rs"
proof -
  let ?qs = "rev (dropWhile isSpaceRune (rev (dropWhile isSpaceRune rs)))"
  have "trimSpace (concat rs) = concat ?qs" by (simp add: trimSpace_def runeBytes_concat [OF assms])
  moreover have "set ?qs \<subseteq> set rs" using set_dropWhileD [of _ isSpaceRune rs] by (auto dest!: set_dropWhileD [of _ isSpaceRune "rev (dropWhile isSpaceRune rs)"])
  moreover have "length ?qs \<le> length rs"
    using length_dropWhile_le [of isSpaceRune "rev (dropWhile isSpaceRune rs)"] length_dropWhile_le [of isSpaceRune rs] by simp
  ultimately show ?thesis by blast
qed

end
