(* ===== verification/HarnessOutcome.thy ===== *)
theory HarnessOutcome
  imports HarnessVerify AcpSession JsonNumbers Verification
begin

text \<open>
  The outcome of a stage and the termination log (src/harness/cmd/migration-harness/outcome.go): what a prompt earned,
  the exit code that stands for it, and the JSON blob the controller reads, which is kept within the 4096 bytes of a
  termination message.
\<close>

section \<open>Outcomes\<close>

definition gitWriteAccessPrefix :: string where "gitWriteAccessPrefix = ''git write access:''"

record gitCredentials =
  gc_identityName :: string
  gc_repoURL :: string
  gc_branch :: string

text \<open>The text of the pre-flight error; \<open>goQuote\<close> is \<open>strconv.Quote\<close>.\<close>

definition gitWriteAccessError :: "(string \<Rightarrow> string) \<Rightarrow> gitCredentials \<Rightarrow> string" where
  "gitWriteAccessError goQuote cred =
     (if gc_identityName cred = []
      then gitWriteAccessPrefix @ '' no write access to '' @ gc_repoURL cred @ '' for branch '' @ gc_branch cred
        @ '': the application has no source credential (attach a Source Control credential with push access to the application in the Hub)''
      else gitWriteAccessPrefix @ '' no write access to '' @ gc_repoURL cred @ '' with credential '' @ goQuote (gc_identityName cred)
        @ '': the token can read but not push'')"

datatype outcome = OutcomeSucceeded | OutcomeFailed | OutcomeLimitReached | OutcomeRefused

fun outcomeString :: "outcome \<Rightarrow> string" where
  "outcomeString OutcomeSucceeded = ''succeeded''"
| "outcomeString OutcomeLimitReached = ''limitReached''"
| "outcomeString OutcomeRefused = ''refused''"
| "outcomeString OutcomeFailed = ''failed''"

fun exitCode :: "outcome \<Rightarrow> int" where
  "exitCode OutcomeSucceeded = 0"
| "exitCode OutcomeLimitReached = 2"
| "exitCode OutcomeRefused = 3"
| "exitCode OutcomeFailed = 1"

datatype limitKind = LimitNone | LimitMaxTurns | LimitMaxCost

fun limitText :: "limitKind \<Rightarrow> string" where
  "limitText LimitNone = []"
| "limitText LimitMaxTurns = ''maxTurns''"
| "limitText LimitMaxCost = ''maxCost''"

definition stopReasonMaxTurns :: string where "stopReasonMaxTurns = ''max_turn_requests''"

text \<open>\<open>classifyOutcome\<close>; \<open>None\<close> is the panic on a nil result without an error.\<close>

definition classifyOutcome :: "PromptResult option \<Rightarrow> promptErr option \<Rightarrow> int \<Rightarrow> bool \<Rightarrow> (outcome \<times> limitKind) option" where
  "classifyOutcome result err nativeMaxTurns providerError = (case err of
      Some e \<Rightarrow>
        Some (if e = ErrConnectionLost \<and> (case result of None \<Rightarrow> False | Some r \<Rightarrow> nativeMaxTurns > 0 \<and> pr_turnsUsed r \<ge> nativeMaxTurns)
          then (OutcomeLimitReached, LimitMaxTurns) else (OutcomeFailed, LimitNone))
    | None \<Rightarrow> map_option (\<lambda>r.
        if pr_stopReason r = ''cancelled'' \<and> pr_costLimitReached r then (OutcomeLimitReached, LimitMaxCost)
        else if pr_stopReason r = ''cancelled'' then (OutcomeFailed, LimitNone)
        else if providerError \<and> pr_turnsUsed r = 0 then (OutcomeFailed, LimitNone)
        else if pr_stopReason r = stopReasonMaxTurns then (OutcomeLimitReached, LimitMaxTurns)
        else if nativeMaxTurns > 0 \<and> pr_turnsUsed r \<ge> nativeMaxTurns then (OutcomeLimitReached, LimitMaxTurns)
        else if pr_costLimitReached r then (OutcomeSucceeded, LimitMaxCost)
        else (OutcomeSucceeded, LimitNone)) result)"

section \<open>Usage\<close>

record usage =
  us_turnsUsed :: int
  us_contextUsed :: int
  us_contextSize :: int
  us_cost :: gofloat

definition combineUsage :: "PromptResult \<Rightarrow> PromptResult option \<Rightarrow> usage" where
  "combineUsage primary handoff =
     (let u = \<lparr>us_turnsUsed = pr_turnsUsed primary, us_contextUsed = pr_contextUsed primary, us_contextSize = pr_contextSize primary, us_cost = pr_cost primary\<rparr> in
      case handoff of None \<Rightarrow> u
      | Some h \<Rightarrow>
          (let u1 = u\<lparr>us_turnsUsed := us_turnsUsed u + pr_turnsUsed h\<rparr>;
               u2 = (if floatGt (pr_cost h) (us_cost u1) then u1\<lparr>us_cost := pr_cost h\<rparr> else u1) in
           if pr_contextSize h > 0 then u2\<lparr>us_contextUsed := pr_contextUsed h, us_contextSize := pr_contextSize h\<rparr> else u2))"

section \<open>Failures in words\<close>

definition providerErrorSummaryLen :: nat where "providerErrorSummaryLen = 1000"

definition providerErrorSummary :: "string \<Rightarrow> string" where
  "providerErrorSummary text =
     (let t = (if ProviderErrorText text \<noteq> [] then ProviderErrorText text else text) in
      case find (\<lambda>l. l \<noteq> []) (map trimSpace (splitLines t)) of None \<Rightarrow> [] | Some l \<Rightarrow> clipRunes providerErrorSummaryLen l)"

text \<open>\<open>promptFailureDetail\<close>: \<open>gooseError\<close> is what the runtime logged, \<open>None\<close> where there is no function to ask.\<close>

definition promptFailureDetail :: "(json option \<Rightarrow> string) \<Rightarrow> promptErr option \<Rightarrow> string list \<Rightarrow> string option \<Rightarrow> string" where
  "promptFailureDetail decodeErr err red gooseError = (case err of
      None \<Rightarrow> []
    | Some e \<Rightarrow>
        (let detail = redact red (promptErrText decodeErr e) in
         if (case e of PromptRPCError re \<Rightarrow> Detail re \<noteq> [] | _ \<Rightarrow> False) then detail
         else (case gooseError of
             None \<Rightarrow> detail
           | Some line \<Rightarrow> if line = [] then detail else detail @ '' '' @ emDash @ '' '' @ providerErrorSummary (redact red line))))"

section \<open>The blob\<close>

record terminationBlob =
  tb_exitCode :: int
  tb_outcome :: string
  tb_limitReached :: string
  tb_handoffStatus :: string
  tb_stopReason :: string
  tb_mavenProxyWarning :: string
  tb_usage :: "usage option"
  tb_verification :: "verification option"

definition executeErrorTerminationBlob :: "string \<Rightarrow> int \<Rightarrow> terminationBlob" where
  "executeErrorTerminationBlob errText code = \<lparr>tb_exitCode = code, tb_outcome = outcomeString OutcomeFailed, tb_limitReached = [],
     tb_handoffStatus = [], tb_stopReason = errText, tb_mavenProxyWarning = [], tb_usage = None, tb_verification = None\<rparr>"

text \<open>The members of an object; \<open>omitempty\<close> leaves out what is empty. A float that is not finite has no encoding.\<close>

definition strMember :: "string \<Rightarrow> string \<Rightarrow> (string \<times> json) list" where
  "strMember k v = (if v = [] then [] else [(k, JStr v)])"

definition intMember :: "string \<Rightarrow> int \<Rightarrow> (string \<times> json) list" where
  "intMember k v = (if v = 0 then [] else [(k, JNum (formatInt v))])"

definition isZeroFloat :: "gofloat \<Rightarrow> bool" where
  "isZeroFloat f = (case f of FFin s q \<Rightarrow> q = 0 | _ \<Rightarrow> False)"

definition floatMember :: "string \<Rightarrow> gofloat \<Rightarrow> (string \<times> json) list option" where
  "floatMember k f = (if isZeroFloat f then Some [] else map_option (\<lambda>l. [(k, JNum l)]) (marshalFloat f))"

definition usageJson :: "usage \<Rightarrow> json option" where
  "usageJson u = map_option (\<lambda>c. JObj (intMember ''turnsUsed'' (us_turnsUsed u) @ intMember ''contextUsed'' (us_contextUsed u)
     @ intMember ''contextSize'' (us_contextSize u) @ c)) (floatMember ''cost'' (us_cost u))"

definition stepJson :: "verificationStep \<Rightarrow> json option" where
  "stepJson s = map_option (\<lambda>secs. JObj ((''label'', JStr (vs_label s)) # strMember ''command'' (vs_command s)
     @ [(''status'', JStr (vs_status s))] @ (case vs_exitCode s of None \<Rightarrow> [] | Some c \<Rightarrow> [(''exitCode'', JNum (formatInt c))])
     @ secs @ strMember ''reason'' (vs_reason s) @ strMember ''output'' (vs_output s))) (floatMember ''seconds'' (vs_seconds s))"

definition verificationJson :: "verification \<Rightarrow> json option" where
  "verificationJson v = map_option (\<lambda>cs. JObj ((''status'', JStr (vf_status v)) # strMember ''reason'' (vf_reason v)
     @ strMember ''commit'' (vf_commit v) @ (if cs = [] then [] else [(''commands'', JArr cs)]))) (allSome (map stepJson (vf_commands v)))"

definition optMember :: "string \<Rightarrow> json option option \<Rightarrow> (string \<times> json) list option" where
  "optMember k v = (case v of None \<Rightarrow> Some [] | Some None \<Rightarrow> None | Some (Some j) \<Rightarrow> Some [(k, j)])"

definition blobHead :: "terminationBlob \<Rightarrow> (string \<times> json) list" where
  "blobHead t = (''exitCode'', JNum (formatInt (tb_exitCode t))) # (''outcome'', JStr (tb_outcome t))
     # strMember ''limitReached'' (tb_limitReached t) @ strMember ''handoffStatus'' (tb_handoffStatus t) @ strMember ''stopReason'' (tb_stopReason t)
     @ strMember ''mavenProxyWarning'' (tb_mavenProxyWarning t)"

definition blobJson :: "terminationBlob \<Rightarrow> json option" where
  "blobJson t = Option.bind (optMember ''usage'' (map_option usageJson (tb_usage t))) (\<lambda>u.
     Option.bind (optMember ''verification'' (map_option verificationJson (tb_verification t))) (\<lambda>v.
     Some (JObj (blobHead t @ u @ v))))"

definition marshalBlob :: "terminationBlob \<Rightarrow> string option" where
  "marshalBlob t = map_option marshal (blobJson t)"

section \<open>The termination log\<close>

definition maxTerminationLogBytes :: nat where "maxTerminationLogBytes = 4096"

definition fits :: "string option \<Rightarrow> bool" where
  "fits d = (case d of None \<Rightarrow> False | Some x \<Rightarrow> length x \<le> maxTerminationLogBytes)"

text \<open>The rungs of the trim ladder.\<close>

definition trimPayload :: "terminationBlob \<Rightarrow> terminationBlob" where
  "trimPayload t = t\<lparr>tb_verification := withoutOutput (tb_verification t),
     tb_stopReason := (if length (tb_stopReason t) > 200 then truncateRuneSafe (tb_stopReason t) 200 @ hellip else tb_stopReason t)\<rparr>"

definition trimToVerdict :: "terminationBlob \<Rightarrow> terminationBlob" where
  "trimToVerdict t = \<lparr>tb_exitCode = tb_exitCode t, tb_outcome = tb_outcome t, tb_limitReached = tb_limitReached t, tb_handoffStatus = [],
     tb_stopReason = [], tb_mavenProxyWarning = truncateRuneSafe (tb_mavenProxyWarning t) 200, tb_usage = None,
     tb_verification = verdictOnly (tb_verification t)\<rparr>"

definition trimVerification :: "terminationBlob \<Rightarrow> terminationBlob" where
  "trimVerification t = t\<lparr>tb_verification := None\<rparr>"

text \<open>\<open>writeTerminationLog\<close>: the bytes written, \<open>None\<close> where nothing is.\<close>

definition writeTerminationLog :: "terminationBlob \<Rightarrow> string option" where
  "writeTerminationLog t = (case marshalBlob t of
      None \<Rightarrow> None
    | Some data0 \<Rightarrow>
        if length data0 \<le> maxTerminationLogBytes then Some data0
        else (let t1 = trimPayload t in
          if fits (marshalBlob t1) then marshalBlob t1
          else (let t2 = trimToVerdict t1 in
            if fits (marshalBlob t2) then marshalBlob t2
            else Some (case marshalBlob (trimVerification t2) of None \<Rightarrow> [] | Some d \<Rightarrow> d))))"

section \<open>Every blob that is written is JSON\<close>

lemma floatMember_ok: "floatMember k f = Some ms \<Longrightarrow> list_all (\<lambda>(k, v). numbersOK v) ms"
  using marshalFloat_number by (auto simp: floatMember_def split: if_splits)

lemma strMember_ok [simp]: "list_all (\<lambda>(k, v). numbersOK v) (strMember k v)" "list_all (\<lambda>(k, v). numbersOK v) (intMember k n)"
  using formatInt_number by (simp_all add: strMember_def intMember_def)

lemma stepJson_ok: "stepJson s = Some j \<Longrightarrow> numbersOK j"
  using formatInt_number by (auto simp: stepJson_def dest!: floatMember_ok split: option.splits)

lemma allSome_iff: "allSome xs = Some ys \<longleftrightarrow> xs = map Some ys"
  by (induction xs arbitrary: ys rule: allSome.induct) auto

lemma verificationJson_ok:
  assumes "verificationJson v = Some j"
  shows "numbersOK j"
proof -
  obtain cs where cs: "map stepJson (vf_commands v) = map Some cs"
      and j: "j = JObj ((''status'', JStr (vf_status v)) # strMember ''reason'' (vf_reason v) @ strMember ''commit'' (vf_commit v)
        @ (if cs = [] then [] else [(''commands'', JArr cs)]))"
    using assms by (auto simp: verificationJson_def allSome_iff)
  have "numbersOK c" if "c \<in> set cs" for c
  proof -
    have "Some c \<in> set (map stepJson (vf_commands v))" using that cs by auto
    then show ?thesis using stepJson_ok by auto
  qed
  then have "list_all numbersOK cs" by (simp add: list_all_iff)
  then show ?thesis by (simp add: j)
qed

lemma blobJson_ok: "blobJson t = Some j \<Longrightarrow> numbersOK j"
  using formatInt_number verificationJson_ok
  by (auto simp: blobJson_def blobHead_def optMember_def usageJson_def dest!: floatMember_ok split: Option.bind_splits option.splits)

text \<open>What cannot be encoded is a float that is not finite: trimming never introduces one.\<close>

lemma withoutOutput_json:
  "verificationJson (v\<lparr>vf_commands := map (\<lambda>c. c\<lparr>vs_output := []\<rparr>) (vf_commands v)\<rparr>) = None \<longleftrightarrow> verificationJson v = None"
proof -
  have step: "stepJson (c\<lparr>vs_output := []\<rparr>) = None \<longleftrightarrow> stepJson c = None" for c by (simp add: stepJson_def)
  have "allSome (map stepJson (map (\<lambda>c. c\<lparr>vs_output := []\<rparr>) cs)) = None \<longleftrightarrow> allSome (map stepJson cs) = None" for cs
  proof (induction cs)
    case (Cons c cs)
    show ?case using step [of c] Cons.IH
      by (cases "stepJson c"; cases "stepJson (c\<lparr>vs_output := []\<rparr>)") auto
  qed simp
  then show ?thesis by (simp add: verificationJson_def)
qed

lemma trimPayload_json: "blobJson t \<noteq> None \<Longrightarrow> blobJson (trimPayload t) \<noteq> None"
  by (auto simp: blobJson_def trimPayload_def optMember_def withoutOutput_def withoutOutput_json split: Option.bind_splits option.splits)

lemma trimToVerdict_json: "blobJson (trimToVerdict t) \<noteq> None"
  by (auto simp: blobJson_def trimToVerdict_def optMember_def verdictOnly_def verificationJson_def split: option.splits)

lemma trimVerification_json: "blobJson (trimVerification (trimToVerdict t)) \<noteq> None"
  by (simp add: blobJson_def trimVerification_def trimToVerdict_def optMember_def)

section \<open>Sizes\<close>

definition memberLen :: "string \<times> json \<Rightarrow> nat" where
  "memberLen m = length (quote (fst m)) + length (marshal (snd m)) + 2"

lemma joinStr_len: "length (joinStr sep ws) \<le> sum_list (map (\<lambda>w. length w + length sep) ws)"
  by (induction sep ws rule: joinStr.induct) auto

lemma marshal_obj_len: "length (marshal (JObj ms)) \<le> 2 + sum_list (map memberLen ms)"
proof -
  have "sum_list (map (\<lambda>w. length w + length '','') (map (\<lambda>(k, v). quote k @ '':'' @ marshal v) ms)) = sum_list (map memberLen ms)"
    by (induction ms) (auto simp: memberLen_def)
  then show ?thesis using joinStr_len [of "'',''" "map (\<lambda>(k, v). quote k @ '':'' @ marshal v) ms"] by simp
qed

lemma strMember_len: "sum_list (map memberLen (strMember k v)) \<le> length (quote k) + length (quote v) + 2"
  by (simp add: strMember_def memberLen_def)

lemma showDec_small: "0 \<le> n \<Longrightarrow> n \<le> 255 \<Longrightarrow> length (showDec n) \<le> 3"
  by (simp add: showDec.simps [of n] showDec.simps [of "n div 10"] showDec.simps [of "n div 10 div 10"])

lemma key_lengths: "length (quote ''exitCode'') = 10" "length (quote ''outcome'') = 9" "length (quote ''limitReached'') = 14"
  "length (quote ''mavenProxyWarning'') = 19" "length (quote ''verification'') = 14" "length (quote ''status'') = 8"
  "length (quote ''reason'') = 8" "length (quote ''commit'') = 8"
  by code_simp+

text \<open>A blob whose outcome and limit are words of the contract.\<close>

definition contractBlob :: "terminationBlob \<Rightarrow> bool" where
  "contractBlob t = (0 \<le> tb_exitCode t \<and> tb_exitCode t \<le> 255
     \<and> tb_outcome t \<in> set (map outcomeString [OutcomeSucceeded, OutcomeFailed, OutcomeLimitReached, OutcomeRefused])
     \<and> tb_limitReached t \<in> set (map limitText [LimitNone, LimitMaxTurns, LimitMaxCost]))"

lemma trimmed_head_len:
  assumes "contractBlob t"
  shows "sum_list (map memberLen (blobHead (trimToVerdict t))) \<le> 1500"
proof -
  have "length (tb_outcome t) \<le> 12" "length (tb_limitReached t) \<le> 8" using assms by (auto simp: contractBlob_def)
  then have q: "length (quote (tb_outcome t)) \<le> 74" "length (quote (tb_limitReached t)) \<le> 50"
    using quote_le_bytes [of "tb_outcome t"] quote_le_bytes [of "tb_limitReached t"] by auto
  have w: "length (quote (truncateRuneSafe (tb_mavenProxyWarning t) 200)) \<le> 1202"
    using quote_le_bytes [of "truncateRuneSafe (tb_mavenProxyWarning t) 200"] truncateRuneSafe_le [of "tb_mavenProxyWarning t" 200] by linarith
  have e: "length (formatInt (tb_exitCode t)) \<le> 3" using showDec_small assms by (simp add: formatInt_def contractBlob_def)
  have l: "sum_list (map memberLen (strMember ''limitReached'' (tb_limitReached t))) \<le> 66"
    using strMember_len [of "''limitReached''" "tb_limitReached t"] q by (simp add: key_lengths)
  have m: "sum_list (map memberLen (strMember ''mavenProxyWarning'' (truncateRuneSafe (tb_mavenProxyWarning t) 200))) \<le> 1223"
    using strMember_len [of "''mavenProxyWarning''" "truncateRuneSafe (tb_mavenProxyWarning t) 200"] w by (simp add: key_lengths)
  have n: "strMember k [] = []" for k by (simp add: strMember_def)
  show ?thesis using q e l m by (simp add: blobHead_def trimToVerdict_def n memberLen_def [of "(_, _)"] key_lengths)
qed

lemma trimVerification_fits:
  assumes "contractBlob t"
  shows "fits (marshalBlob (trimVerification (trimToVerdict t)))"
proof -
  have "blobJson (trimVerification (trimToVerdict t)) = Some (JObj (blobHead (trimToVerdict t)))"
    by (simp add: blobJson_def optMember_def trimVerification_def) (simp add: trimToVerdict_def blobHead_def)
  then show ?thesis using marshal_obj_len [of "blobHead (trimToVerdict t)"] trimmed_head_len [OF assms]
    by (simp add: marshalBlob_def fits_def maxTerminationLogBytes_def del: marshal.simps)
qed

text \<open>The rungs by which a blob may be written, in order.\<close>

definition ladder :: "terminationBlob \<Rightarrow> terminationBlob list" where
  "ladder t = [t, trimPayload t, trimToVerdict (trimPayload t), trimVerification (trimToVerdict (trimPayload t))]"

lemma contract_trim: "contractBlob t \<Longrightarrow> contractBlob (trimPayload t)"
  by (simp add: contractBlob_def trimPayload_def)

definition rung :: "terminationBlob \<Rightarrow> terminationBlob option" where
  "rung t = find (\<lambda>t'. fits (marshalBlob t')) (ladder t)"

lemma written_rung:
  assumes "contractBlob t" and "blobJson t \<noteq> None"
  shows "\<exists>t'. rung t = Some t' \<and> writeTerminationLog t = marshalBlob t'"
proof -
  let ?t2 = "trimToVerdict (trimPayload t)"
  obtain d where d: "marshalBlob t = Some d" using assms(2) by (auto simp: marshalBlob_def)
  have four: "fits (marshalBlob (trimVerification ?t2))" using trimVerification_fits [OF contract_trim [OF assms(1)]] .
  have last: "marshalBlob (trimVerification ?t2) \<noteq> None" using trimVerification_json by (simp add: marshalBlob_def)
  have one: "fits (Some d) \<longleftrightarrow> length d \<le> maxTerminationLogBytes" by (simp add: fits_def)
  show ?thesis unfolding rung_def ladder_def writeTerminationLog_def using four last d
    by (auto simp: Let_def one)
qed

text \<open>C15: The termination log. Whatever the stage puts into its blob, what is written is the JSON text of the first
  rung of the trim ladder that fits: it is at most 4096 bytes long and reads back.\<close>

theorem termination_log_fits:
  assumes "contractBlob t" and "blobJson t \<noteq> None"
  shows "\<exists>t' j d. rung t = Some t' \<and> blobJson t' = Some j \<and> writeTerminationLog t = Some d \<and> length d \<le> 4096 \<and> jsonParse d = Some (canon j)"
proof -
  obtain t' where t': "rung t = Some t'" "writeTerminationLog t = marshalBlob t'" using written_rung [OF assms] by blast
  then have "fits (marshalBlob t')" by (auto simp: rung_def find_Some_iff)
  then obtain d where d: "marshalBlob t' = Some d" "length d \<le> 4096" by (auto simp: fits_def maxTerminationLogBytes_def split: option.splits)
  then obtain j where j: "blobJson t' = Some j" "d = marshal j" by (auto simp: marshalBlob_def)
  then show ?thesis using t' d jsonParse_marshal [OF blobJson_ok [OF j(1)]] by auto
qed

definition sampleBlob :: terminationBlob where
  "sampleBlob = \<lparr>tb_exitCode = 3, tb_outcome = ''refused'', tb_limitReached = [], tb_handoffStatus = ''failed'', tb_stopReason = ''handoff: no plan'',
     tb_mavenProxyWarning = [], tb_usage = None, tb_verification = None\<rparr>"

theorem termination_log_fits_witness:
  "\<exists>t' j d. rung sampleBlob = Some t' \<and> blobJson t' = Some j \<and> writeTerminationLog sampleBlob = Some d \<and> length d \<le> 4096 \<and> jsonParse d = Some (canon j)"
  by (rule termination_log_fits) (simp_all add: contractBlob_def sampleBlob_def blobJson_def optMember_def)

section \<open>The verdict reaches the controller\<close>

lemma foreign_keys_eval:
  "(\<not> fieldMatches ''verification'' (concat (runes ''exitCode'')))
   \<and> (\<not> fieldMatches ''verification'' (concat (runes ''outcome'')))
   \<and> (\<not> fieldMatches ''verification'' (concat (runes ''limitReached'')))
   \<and> (\<not> fieldMatches ''verification'' (concat (runes ''handoffStatus'')))
   \<and> (\<not> fieldMatches ''verification'' (concat (runes ''stopReason'')))
   \<and> (\<not> fieldMatches ''verification'' (concat (runes ''mavenProxyWarning'')))
   \<and> (\<not> fieldMatches ''verification'' (concat (runes ''usage'')))
   \<and> (fieldMatches ''verification'' (concat (runes ''verification'')))"
  by code_simp

lemma foreign_keys:
  "\<not> fieldMatches ''verification'' (concat (runes ''exitCode''))" "\<not> fieldMatches ''verification'' (concat (runes ''outcome''))"
  "\<not> fieldMatches ''verification'' (concat (runes ''limitReached''))" "\<not> fieldMatches ''verification'' (concat (runes ''handoffStatus''))"
  "\<not> fieldMatches ''verification'' (concat (runes ''stopReason''))" "\<not> fieldMatches ''verification'' (concat (runes ''mavenProxyWarning''))"
  "\<not> fieldMatches ''verification'' (concat (runes ''usage''))" "fieldMatches ''verification'' (concat (runes ''verification''))"
  using foreign_keys_eval by blast+

lemma verdict_keys_eval:
  "(fieldMatches ''status'' (concat (runes ''status'')))
   \<and> (\<not> fieldMatches ''status'' (concat (runes ''reason'')))
   \<and> (\<not> fieldMatches ''status'' (concat (runes ''commit'')))
   \<and> (\<not> fieldMatches ''status'' (concat (runes ''commands'')))
   \<and> (fieldMatches ''reason'' (concat (runes ''reason'')))
   \<and> (\<not> fieldMatches ''reason'' (concat (runes ''commit'')))
   \<and> (\<not> fieldMatches ''reason'' (concat (runes ''commands'')))
   \<and> (fieldMatches ''commit'' (concat (runes ''commit'')))
   \<and> (\<not> fieldMatches ''commit'' (concat (runes ''commands'')))"
  by code_simp

lemma verdict_keys:
  "fieldMatches ''status'' (concat (runes ''status''))" "\<not> fieldMatches ''status'' (concat (runes ''reason''))"
  "\<not> fieldMatches ''status'' (concat (runes ''commit''))" "\<not> fieldMatches ''status'' (concat (runes ''commands''))"
  "fieldMatches ''reason'' (concat (runes ''reason''))" "\<not> fieldMatches ''reason'' (concat (runes ''commit''))" "\<not> fieldMatches ''reason'' (concat (runes ''commands''))"
  "fieldMatches ''commit'' (concat (runes ''commit''))" "\<not> fieldMatches ''commit'' (concat (runes ''commands''))"
  using verdict_keys_eval by blast+

definition canonText :: "string \<Rightarrow> string" where
  "canonText s = concat (runes s)"

lemma canonText_Nil [simp]: "canonText [] = []" by (simp add: canonText_def)

text \<open>What the controller decodes from a blob.\<close>

lemma controller_reads_verification:
  assumes "verificationJson v = Some (JObj ms)"
  shows "intoVerification emptyVerification (map (\<lambda>(k, v). (concat (runes k), canon v)) ms) =
     Some \<lparr>hv_status = canonText (vf_status v), hv_reason = canonText (vf_reason v), hv_commit = canonText (vf_commit v)\<rparr>"
  using assms by (auto simp: verificationJson_def strMember_def verdict_keys emptyVerification_def canonText_def split: if_splits)

lemma intoTermination_skip:
  "list_all (\<lambda>(k, j). \<not> fieldMatches ''verification'' k) ms \<Longrightarrow> intoTermination w (ms @ ns) = intoTermination w ns"
  by (induction ms) auto

lemma controller_reads_blob:
  assumes "blobJson t = Some j" and "tb_verification t = Some v"
  shows "unmarshalTermination (marshal j) =
     Some (Some \<lparr>hv_status = canonText (vf_status v), hv_reason = canonText (vf_reason v), hv_commit = canonText (vf_commit v)\<rparr>)"
proof -
  let ?c = "map (\<lambda>(k, v). (concat (runes k), canon v))"
  obtain u vj where u: "optMember ''usage'' (map_option usageJson (tb_usage t)) = Some u" and vj: "verificationJson v = Some vj"
      and j: "j = JObj (blobHead t @ u @ [(''verification'', vj)])"
    using assms by (auto simp: blobJson_def optMember_def split: Option.bind_splits option.splits)
  obtain ms where ms: "vj = JObj ms" using vj by (auto simp: verificationJson_def)
  have skip: "list_all (\<lambda>(k, j). \<not> fieldMatches ''verification'' k) (?c (blobHead t @ u))"
    using u by (auto simp: blobHead_def strMember_def optMember_def foreign_keys split: option.splits)
  have "jsonParse (marshal j) = Some (JObj (?c (blobHead t @ u) @ [(concat (runes ''verification''), JObj (?c ms))]))"
    using jsonParse_marshal [OF blobJson_ok [OF assms(1)]] by (simp add: j ms)
  then show ?thesis
    using controller_reads_verification [OF vj [unfolded ms]]
    by (simp add: unmarshalTermination_def intoTermination_skip [OF skip] foreign_keys(8) del: map_append)
qed

definition verdictOK :: "verification \<Rightarrow> bool" where
  "verdictOK v = (vf_status v \<in> set [verificationPassed, verificationFailed, verificationNotRun, verificationIncomplete]
     \<and> length (runes (vf_reason v)) \<le> verifyReasonLen \<and> length (vf_commit v) \<le> 64)"

lemma trimToVerdict_fits:
  assumes "contractBlob t" and "tb_verification t = Some v" and "verdictOK v"
  shows "fits (marshalBlob (trimToVerdict t))"
proof -
  define ms where "ms = (''status'', JStr (vf_status v)) # strMember ''reason'' (vf_reason v) @ strMember ''commit'' (vf_commit v)"
  have b: "blobJson (trimToVerdict t) = Some (JObj (blobHead (trimToVerdict t) @ [(''verification'', JObj ms)]))"
    using assms(2) by (simp add: blobJson_def trimToVerdict_def optMember_def verdictOnly_def verificationJson_def ms_def)
  have "length (vf_status v) \<le> 10" using assms(3) by (auto simp: verdictOK_def verify_words)
  then have s: "length (quote (vf_status v)) \<le> 62" using quote_le_bytes [of "vf_status v"] by linarith
  have r: "length (quote (vf_reason v)) \<le> 962" using quote_le_runes [of "vf_reason v"] assms(3) by (simp add: verdictOK_def verifyReasonLen_def)
  have c: "length (quote (vf_commit v)) \<le> 386" using quote_le_bytes [of "vf_commit v"] assms(3) by (simp add: verdictOK_def)
  have "sum_list (map memberLen ms) \<le> 1450"
    using s strMember_len [of "''reason''" "vf_reason v"] strMember_len [of "''commit''" "vf_commit v"] r c
    by (simp add: ms_def memberLen_def [of "(_, _)"] key_lengths)
  then have "length (marshal (JObj ms)) \<le> 1452" using marshal_obj_len [of ms] by linarith
  then have "memberLen (''verification'', JObj ms) \<le> 1468" by (simp add: memberLen_def key_lengths del: marshal.simps)
  then show ?thesis
    using marshal_obj_len [of "blobHead (trimToVerdict t) @ [(''verification'', JObj ms)]"] trimmed_head_len [OF assms(1)]
    by (simp add: marshalBlob_def b fits_def maxTerminationLogBytes_def del: marshal.simps)
qed

lemma rung_keeps_verdict:
  assumes "contractBlob t" and "tb_verification t = Some v" and "verdictOK v" and "rung t = Some t'"
  shows "\<exists>v'. tb_verification t' = Some v' \<and> vf_status v' = vf_status v \<and> vf_reason v' = vf_reason v \<and> vf_commit v' = vf_commit v"
proof -
  have p: "tb_verification (trimPayload t) = Some (v\<lparr>vf_commands := map (\<lambda>c. c\<lparr>vs_output := []\<rparr>) (vf_commands v)\<rparr>)"
    using assms(2) by (simp add: trimPayload_def withoutOutput_def)
  have "fits (marshalBlob (trimToVerdict (trimPayload t)))"
    by (rule trimToVerdict_fits [OF contract_trim [OF assms(1)] p]) (use assms(3) in \<open>simp add: verdictOK_def\<close>)
  then have "t' = t \<or> t' = trimPayload t \<or> t' = trimToVerdict (trimPayload t)"
    using assms(4) by (auto simp: rung_def ladder_def split: if_splits)
  then show ?thesis using assms(2) p by (auto simp: trimToVerdict_def verdictOnly_def)
qed

lemma canonText_words: "canonText ''passed'' = ''passed''" "canonText ''failed'' = ''failed''" "canonText ''notRun'' = ''notRun''"
  "canonText ''incomplete'' = ''incomplete''"
  by code_simp+

text \<open>C16: The verdict survives. However much a blob has to be trimmed, the controller decodes from the termination log
  the status, the reason and the commit of the verification the harness recorded.\<close>

theorem verdict_reaches_controller:
  assumes "contractBlob t" and "blobJson t \<noteq> None" and "tb_verification t = Some v" and "verdictOK v"
  shows "harnessVerificationFrom (writeTerminationLog t) =
     Some \<lparr>hv_status = vf_status v, hv_reason = canonText (vf_reason v), hv_commit = canonText (vf_commit v)\<rparr>"
proof -
  obtain t' where t': "rung t = Some t'" "writeTerminationLog t = marshalBlob t'" using written_rung [OF assms(1,2)] by blast
  obtain v' where v': "tb_verification t' = Some v'" "vf_status v' = vf_status v" "vf_reason v' = vf_reason v" "vf_commit v' = vf_commit v"
    using rung_keeps_verdict [OF assms(1,3,4) t'(1)] by blast
  have "fits (marshalBlob t')" using t'(1) by (auto simp: rung_def find_Some_iff)
  then obtain j where j: "blobJson t' = Some j" by (auto simp: fits_def marshalBlob_def split: option.splits)
  have n: "marshal j \<noteq> []" using j by (auto simp: blobJson_def split: Option.bind_splits)
  have s: "vf_status v \<noteq> []" "canonText (vf_status v) = vf_status v"
    using assms(4) canonText_words by (auto simp: verdictOK_def verify_words)
  show ?thesis using controller_reads_blob [OF j v'(1)] n s v' by (simp add: t'(2) marshalBlob_def j harnessVerificationFrom_def)
qed

definition failedVerification :: verification where
  "failedVerification = \<lparr>vf_status = ''failed'', vf_reason = ''Build failed: mvn compile'', vf_commit = ''0123456789abcdef'', vf_commands = []\<rparr>"

definition longBlob :: terminationBlob where
  "longBlob = sampleBlob\<lparr>tb_handoffStatus := replicate 5000 CHR ''x'', tb_verification := Some failedVerification\<rparr>"

theorem verdict_reaches_controller_witness:
  "harnessVerificationFrom (writeTerminationLog longBlob) =
     Some \<lparr>hv_status = ''failed'', hv_reason = canonText ''Build failed: mvn compile'', hv_commit = canonText ''0123456789abcdef''\<rparr>"
proof -
  have v: "verdictOK failedVerification" by code_simp
  have "contractBlob longBlob" by (simp add: contractBlob_def longBlob_def sampleBlob_def)
  moreover have "blobJson longBlob \<noteq> None"
    by (simp add: blobJson_def longBlob_def sampleBlob_def optMember_def failedVerification_def verificationJson_def)
  moreover have "tb_verification longBlob = Some failedVerification" by (simp add: longBlob_def)
  ultimately have "harnessVerificationFrom (writeTerminationLog longBlob) =
      Some \<lparr>hv_status = vf_status failedVerification, hv_reason = canonText (vf_reason failedVerification), hv_commit = canonText (vf_commit failedVerification)\<rparr>"
    using v by (rule verdict_reaches_controller)
  then show ?thesis by (simp add: failedVerification_def)
qed

section \<open>The harness's own verdicts\<close>

lemma hellip_rune: "validRune hellip"
proof -
  have "runeWidth (CHR 0xE2 # CHR 0x80 # CHR 0xA6 # t) = 3" for t
    by (simp add: runeWidth.simps contByte_def byte_def Let_def)
  then show ?thesis by (simp add: validRune_def hellip_def)
qed

lemma clipRunes_len: "0 < n \<Longrightarrow> length (runes (clipRunes n s)) \<le> n"
proof (cases "length (runes s) > n")
  case True
  assume n: "0 < n"
  let ?rs = "take (n - 1) (runes s)"
  have "\<forall>r\<in>set ?rs. validRune r" using runes_valid [of s] by (meson in_set_takeD)
  then obtain qs where qs: "trimSpace (concat ?rs) = concat qs" "set qs \<subseteq> set ?rs" "length qs \<le> length ?rs" "\<forall>r\<in>set qs. validRune r"
    using trimSpace_concat [of ?rs] by blast
  have "runes (concat (qs @ [hellip])) = qs @ [hellip]" by (rule runes_concat) (use qs(4) hellip_rune in auto)
  then have "length (runes (trimSpace (concat ?rs) @ hellip)) = Suc (length qs)" using qs(1) by simp
  then show ?thesis using qs(3) True n by (simp add: clipRunes_def)
next
  case False
  then show ?thesis by (simp add: clipRunes_def)
qed

lemma runPlan_verdictOK:
  assumes "\<And>target. rv_tip repo = Inr target \<Longrightarrow> length target \<le> 64"
  shows "verdictOK (runPlanVerification repo plan branch timeout budget red world)"
proof -
  have clip: "length (runes (clipVerify s verifyReasonLen)) \<le> verifyReasonLen" for s
    using clipRunes_len [of verifyReasonLen] by (simp add: clipVerify_def verifyReasonLen_def)
  have n: "verdictOK (notRun why)" "verdictOK (incomplete red why)" for why
    using clip by (simp_all add: verdictOK_def notRun_def incomplete_def)
  have st: "vf_reason (settle red extra v) = clipVerify w verifyReasonLen \<Longrightarrow> length (runes (vf_reason (settle red extra v))) \<le> verifyReasonLen" for extra v w
    using clip by simp
  have "\<exists>w. vf_reason (settle red extra v) = clipVerify w verifyReasonLen" for extra v
    by (auto simp: settle_def split: prod.splits)
  then have r: "length (runes (vf_reason (settle red extra v))) \<le> verifyReasonLen" for extra v using st by blast
  have c: "vf_commit (settle red extra v) = vf_commit v" for extra v by (auto simp: settle_def split: prod.splits)
  have "verdictOK (runSteps timeout' budget' red parsed world target gap)" if "length target \<le> 64" for timeout' budget' parsed target gap
    using that r runSteps_status [of timeout' budget' red parsed world target gap] by (auto simp: verdictOK_def c runSteps_def)
  then show ?thesis using n assms
    by (auto simp: runPlanVerification_def Let_def verifyTarget_def split: sum.splits prod.splits if_splits)
qed

section \<open>What a prompt earns\<close>

text \<open>A prompt always comes back with a result or an error, so its outcome is defined.\<close>

lemma finishPrompt_defined: "finishPrompt msg r = (None, None) \<Longrightarrow> False"
  by (auto simp: finishPrompt_def split: option.splits)

lemma SendPrompt_defined: "SendPrompt sendErr costLimit evs = (k, Some (result, err)) \<Longrightarrow> result \<noteq> None \<or> err \<noteq> None"
proof -
  have "promptLoop l r evs = (k, Some (None, None)) \<Longrightarrow> False" for l r evs k
    by (induction l r evs arbitrary: k rule: promptLoop.induct) (auto dest: finishPrompt_defined split: prod.splits)
  then show "SendPrompt sendErr costLimit evs = (k, Some (result, err)) \<Longrightarrow> ?thesis"
    by (cases sendErr; cases result; cases err) (auto simp: SendPrompt_def)
qed

text \<open>A prompt earns success exactly if it ended without an error and was not cancelled, its turns stayed below a
  configured ceiling and the runtime named no turn limit, and the model did more than report a provider failure.\<close>

theorem success_is_earned:
  assumes "SendPrompt sendErr costLimit evs = (k, Some (result, err))"
  shows "map_option fst (classifyOutcome result err nativeMaxTurns providerError) = Some OutcomeSucceeded \<longleftrightarrow>
     (\<exists>r. result = Some r \<and> err = None \<and> pr_stopReason r \<noteq> ''cancelled'' \<and> pr_stopReason r \<noteq> ''max_turn_requests''
        \<and> (nativeMaxTurns \<le> 0 \<or> int (length (filter isToolCall (takenIn evs))) < nativeMaxTurns)
        \<and> (providerError \<longrightarrow> list_ex isToolCall (takenIn evs)))"
proof -
  have turns: "pr_turnsUsed r = int (length (filter isToolCall (takenIn evs)))" if "result = Some r" for r
  proof -
    have "promptLoop costLimit emptyResult evs = (k, Some (Some r, err))" using assms that by (cases sendErr) (auto simp: SendPrompt_def)
    then show ?thesis using promptLoop_turns by (fastforce simp: emptyResult_def)
  qed
  have none: "(length (filter isToolCall (takenIn evs)) = 0) = (\<not> list_ex isToolCall (takenIn evs))"
    by (simp add: filter_empty_conv list_ex_iff)
  show ?thesis
    using turns none SendPrompt_defined [OF assms]
    by (cases err; cases result) (auto simp: classifyOutcome_def stopReasonMaxTurns_def)
qed

theorem success_is_earned_witness:
  "\<exists>r. SendPrompt None zeroFloat [EvNotif toolCallFrame, EvResponse [toolCallFrame] endTurn] = (0, Some (Some r, None))
     \<and> (map_option fst (classifyOutcome (Some r) None 2 False) = Some OutcomeSucceeded \<longleftrightarrow> False)"
proof -
  obtain r where r: "SendPrompt None zeroFloat [EvNotif toolCallFrame, EvResponse [toolCallFrame] endTurn] = (0, Some (Some r, None))"
    using sample_prompt by blast
  then show ?thesis using success_is_earned [OF r, of 2 False] by (auto simp: sample_toolcall)
qed

end
