(* ===== verification/HarnessGit.thy ===== *)
theory HarnessGit
  imports HarnessOutcome
begin

text \<open>
  The repository and the Hub as the harness sees them (src/harness/internal/git/git.go, writeaccess.go and
  src/harness/internal/hub/client.go): branch tips, what the run changed, how many commits it made, whether it may
  push. A repository is its HEAD, its branches, its commits and the files of its work tree; the remote's answers are
  parameters.
\<close>

section \<open>The repository\<close>

record gitCommit =
  cm_parents :: "string list"
  cm_files :: "(string \<times> string) list"

text \<open>A read of a file in the work tree: the content, or an error with whether it says that there is no file.\<close>

record gitRepo =
  rp_head :: "string option"
  rp_branches :: "(string \<times> string) list"
  rp_commits :: "(string \<times> gitCommit) list"
  rp_read :: "string \<Rightarrow> (bool \<times> string) + string"
  rp_status :: "string + string list"

definition HeadSHA :: "gitRepo \<Rightarrow> string + string" where
  "HeadSHA R = (case rp_head R of None \<Rightarrow> Inl ''resolve HEAD: reference not found'' | Some h \<Rightarrow> Inr h)"

definition BranchTipSHA :: "gitRepo \<Rightarrow> string \<Rightarrow> string + string" where
  "BranchTipSHA R branch = (case map_of (rp_branches R) branch of
      None \<Rightarrow> Inl (''resolve branch '' @ branch @ '': reference not found'') | Some h \<Rightarrow> Inr h)"

definition UncommittedPaths :: "gitRepo \<Rightarrow> string + string list" where
  "UncommittedPaths R = (case rp_status R of Inl e \<Rightarrow> Inl (''worktree status: '' @ e) | Inr ps \<Rightarrow> Inr (sort ps))"

text \<open>What the verification pass asks of the repository.\<close>

definition viewOf :: "gitRepo \<Rightarrow> string \<Rightarrow> repoView" where
  "viewOf R branch = \<lparr>rv_present = True, rv_tip = BranchTipSHA R branch, rv_head = HeadSHA R, rv_uncommitted = UncommittedPaths R\<rparr>"

definition FileChangedSince :: "gitRepo \<Rightarrow> string \<Rightarrow> string \<Rightarrow> string + bool" where
  "FileChangedSince R baseSHA relPath = (case rp_read R relPath of
      Inl (noFile, e) \<Rightarrow> if noFile then Inr False else Inl (''read '' @ relPath @ '': '' @ e)
    | Inr current \<Rightarrow>
        if baseSHA = [] then Inr True
        else (case map_of (rp_commits R) baseSHA of
            None \<Rightarrow> Inl (''resolve base commit '' @ baseSHA @ '': object not found'')
          | Some c \<Rightarrow> (case map_of (cm_files c) relPath of None \<Rightarrow> Inr True | Some old \<Rightarrow> Inr (old \<noteq> current))))"

section \<open>Counting commits\<close>

definition commitsSinceMaxWalk :: nat where "commitsSinceMaxWalk = 5000"

text \<open>The walk along first parents, with the number of steps that are left.\<close>

fun walkBack :: "gitRepo \<Rightarrow> string \<Rightarrow> nat \<Rightarrow> int \<Rightarrow> string \<Rightarrow> string + int" where
  "walkBack R base 0 n hash = (if hash = base then Inr n else Inr (- 1))"
| "walkBack R base (Suc k) n hash =
     (if hash = base then Inr n
      else (case map_of (rp_commits R) hash of
          None \<Rightarrow> Inl (''walk history from '' @ hash)
        | Some c \<Rightarrow> (case cm_parents c of [] \<Rightarrow> Inr (- 1) | p # ps \<Rightarrow> walkBack R base k (n + 1) p)))"

definition commitsSince :: "gitRepo \<Rightarrow> string \<Rightarrow> string \<Rightarrow> nat \<Rightarrow> string + int" where
  "commitsSince R branch baseSHA maxWalk =
     (if baseSHA = [] then Inr (- 1)
      else (case BranchTipSHA R branch of Inl e \<Rightarrow> Inl e | Inr tip \<Rightarrow> walkBack R baseSHA maxWalk 0 tip))"

definition CommitsSince :: "gitRepo \<Rightarrow> string \<Rightarrow> string \<Rightarrow> string + int" where
  "CommitsSince R branch baseSHA = commitsSince R branch baseSHA commitsSinceMaxWalk"

section \<open>Pushing\<close>

datatype PushOutcome = PushSkipped | PushUpToDate | PushAdvanced

fun pushOutcomeString :: "PushOutcome \<Rightarrow> string" where
  "pushOutcomeString PushSkipped = ''skipped''"
| "pushOutcomeString PushUpToDate = ''already up to date''"
| "pushOutcomeString PushAdvanced = ''advanced''"

text \<open>What the remote answers to the push of a commit.\<close>

datatype remoteAnswer = RemoteAccepts | RemoteUpToDate | RemoteFails string

text \<open>\<open>Push\<close>: the outcome with the error, and the commit sent, if one was.\<close>

definition Push :: "gitRepo \<Rightarrow> string \<Rightarrow> string \<Rightarrow> remoteAnswer \<Rightarrow> (PushOutcome \<times> string option) \<times> (string + string) option" where
  "Push R branch baseSHA answer =
     (if baseSHA \<noteq> [] \<and> BranchTipSHA R branch = Inr baseSHA then ((PushSkipped, None), None)
      else ((case answer of RemoteUpToDate \<Rightarrow> (PushUpToDate, None) | RemoteFails e \<Rightarrow> (PushSkipped, Some (''push '' @ branch @ '': '' @ e))
              | RemoteAccepts \<Rightarrow> (PushAdvanced, None)), Some (BranchTipSHA R branch)))"

section \<open>Write access\<close>

datatype writeAccess = WriteOK | ErrNoWriteAccess string | ErrWriteAccessUnknown string

datatype probeError = AuthenticationRequired | AuthorizationFailed | EmptyRemoteRepository | ProbeOther string

definition classifyProbeError :: "string \<Rightarrow> probeError \<Rightarrow> writeAccess" where
  "classifyProbeError repoURL e = (if e = AuthenticationRequired \<or> e = AuthorizationFailed then ErrNoWriteAccess repoURL else ErrWriteAccessUnknown repoURL)"

text \<open>\<open>CheckWriteAccess\<close>: the errors of its four round trips, in order.\<close>

definition CheckWriteAccess :: "string \<Rightarrow> string option \<Rightarrow> string option \<Rightarrow> probeError option \<Rightarrow> probeError option \<Rightarrow> writeAccess" where
  "CheckWriteAccess repoURL endpointErr clientErr sessionErr refsErr =
     (if endpointErr \<noteq> None \<or> clientErr \<noteq> None then ErrWriteAccessUnknown repoURL
      else (case sessionErr of
          Some e \<Rightarrow> classifyProbeError repoURL e
        | None \<Rightarrow> (case refsErr of None \<Rightarrow> WriteOK | Some e \<Rightarrow> if e = EmptyRemoteRepository then WriteOK else classifyProbeError repoURL e)))"

section \<open>The Hub\<close>

record hubRepository =
  hr_url :: string
  hr_kind :: string
  hr_branch :: string

record hubApp =
  ha_name :: string
  ha_repository :: "hubRepository option"

record hubIdentity =
  hi_name :: string
  hi_user :: string
  hi_password :: string

record Credentials =
  cr_username :: string
  cr_token :: string
  cr_repoURL :: string
  cr_branch :: string
  cr_identityName :: string

text \<open>\<open>strconv.ParseUint(s, 10, 64)\<close>.\<close>

definition parseUint64 :: "string \<Rightarrow> nat option" where
  "parseUint64 s = (case readDec s of Some n \<Rightarrow> if n < 2 ^ 64 then Some (nat n) else None | None \<Rightarrow> None)"

definition ValidateSourceRepository :: "hubRepository option \<Rightarrow> string option" where
  "ValidateSourceRepository r = (case r of
      None \<Rightarrow> Some ''unsupported source SCM: source repository has no URL''
    | Some repo \<Rightarrow>
        if hr_url repo = [] then Some ''unsupported source SCM: source repository has no URL''
        else if toLower (trimSpace (hr_kind repo)) \<in> set [[], ''git''] then None
        else Some ''unsupported source SCM: only git is supported'')"

text \<open>\<open>resolveFromHub\<close>: the Hub's answers are parameters.\<close>

definition resolveFromHub :: "string \<Rightarrow> (nat \<Rightarrow> string + hubApp) \<Rightarrow> (nat \<Rightarrow> string + hubIdentity option) \<Rightarrow> string + Credentials" where
  "resolveFromHub appID fetchApp fetchGitCreds = (case parseUint64 appID of
      None \<Rightarrow> Inl (''invalid APP_ID '' @ appID)
    | Some i \<Rightarrow> (case fetchApp i of
        Inl e \<Rightarrow> Inl (''fetch app: '' @ e)
      | Inr app \<Rightarrow> (case ha_repository app of
          None \<Rightarrow> Inl (''application has no source repository configured: '' @ ha_name app)
        | Some repo \<Rightarrow> (case ValidateSourceRepository (Some repo) of
            Some e \<Rightarrow> Inl e
          | None \<Rightarrow> (case fetchGitCreds i of
              Inl e \<Rightarrow> Inl (''fetch git creds: '' @ e)
            | Inr None \<Rightarrow> Inr \<lparr>cr_username = [], cr_token = [], cr_repoURL = hr_url repo, cr_branch = hr_branch repo, cr_identityName = []\<rparr>
            | Inr (Some ident) \<Rightarrow> Inr \<lparr>cr_username = (if hi_user ident = [] then ''x-access-token'' else hi_user ident), cr_token = hi_password ident,
                cr_repoURL = hr_url repo, cr_branch = hr_branch repo, cr_identityName = hi_name ident\<rparr>)))))"

text \<open>\<open>Auth\<close>: the user and token sent, none for an anonymous run.\<close>

definition Auth :: "Credentials \<Rightarrow> (string \<times> string) option" where
  "Auth c = (if cr_username c = [] \<and> cr_token c = [] then None else Some (cr_username c, cr_token c))"

text \<open>\<open>ClearEnv\<close>.\<close>

definition ClearEnv :: "(string \<times> string) list \<Rightarrow> (string \<times> string) list" where
  "ClearEnv env = filter (\<lambda>(k, v). k \<notin> set [''HUB_BASE_URL'', ''HUB_TOKEN'', ''HUB_TOKEN_ID'', ''APP_ID'']) env"

section \<open>Properties\<close>

text \<open>The commit a number of first parents back.\<close>

fun ancestor :: "gitRepo \<Rightarrow> nat \<Rightarrow> string \<Rightarrow> string option" where
  "ancestor R 0 hash = Some hash"
| "ancestor R (Suc n) hash = (case map_of (rp_commits R) hash of
     Some c \<Rightarrow> (case cm_parents c of p # ps \<Rightarrow> ancestor R n p | [] \<Rightarrow> None) | None \<Rightarrow> None)"

lemma walkBack_ge: "walkBack R base k n hash = Inr m \<Longrightarrow> 0 \<le> m \<Longrightarrow> n \<le> m"
proof (induction R base k n hash rule: walkBack.induct)
  case (2 R base k n hash)
  then show ?case by (fastforce split: if_splits option.splits list.splits)
qed (auto split: if_splits)

lemma walkBack_spec:
  "walkBack R base k n hash = Inr m \<and> n \<le> m \<longleftrightarrow>
     (\<exists>j\<le>k. m = n + int j \<and> ancestor R j hash = Some base \<and> (\<forall>i<j. ancestor R i hash \<noteq> Some base))"
  (is "?L k n hash \<longleftrightarrow> ?R k n hash") if "0 \<le> n" for n
  using that
proof (induction R base k n hash arbitrary: m rule: walkBack.induct)
  case (1 R base n hash)
  then show ?case by auto
next
  case (2 R base k n hash)
  show ?case
  proof (cases "hash = base")
    case True
    have "(\<exists>j\<le>Suc k. m = n + int j \<and> ancestor R j base = Some base \<and> (\<forall>i<j. ancestor R i base \<noteq> Some base)) \<longleftrightarrow> m = n"
    proof
      assume "\<exists>j\<le>Suc k. m = n + int j \<and> ancestor R j base = Some base \<and> (\<forall>i<j. ancestor R i base \<noteq> Some base)"
      then obtain j where j: "m = n + int j" "\<forall>i<j. ancestor R i base \<noteq> Some base" by blast
      then show "m = n" by (cases j) auto
    next
      assume "m = n"
      then show "\<exists>j\<le>Suc k. m = n + int j \<and> ancestor R j base = Some base \<and> (\<forall>i<j. ancestor R i base \<noteq> Some base)"
        by (intro exI [of _ 0]) simp
    qed
    then show ?thesis using True by auto
  next
    case False
    have zero: "(\<exists>j\<le>Suc k. P j) \<longleftrightarrow> (\<exists>j\<le>k. P (Suc j))" if "\<not> P 0" for P :: "nat \<Rightarrow> bool"
      using that by (metis Suc_le_mono not0_implies_Suc)
    show ?thesis
    proof (cases "\<exists>c p ps. map_of (rp_commits R) hash = Some c \<and> cm_parents c = p # ps")
      case True
      then obtain c p ps where c: "map_of (rp_commits R) hash = Some c" "cm_parents c = p # ps" by blast
      have anc: "ancestor R (Suc j) hash = ancestor R j p" for j using c by simp
      have less: "(\<forall>i<Suc j. ancestor R i hash \<noteq> Some base) \<longleftrightarrow> (\<forall>i<j. ancestor R i p \<noteq> Some base)" for j
        using False anc by (auto simp: less_Suc_eq_0_disj)
      have "walkBack R base (Suc k) n hash = walkBack R base k (n + 1) p" using False c by simp
      moreover have "walkBack R base k (n + 1) p = Inr m \<and> n \<le> m \<longleftrightarrow> walkBack R base k (n + 1) p = Inr m \<and> n + 1 \<le> m"
        using walkBack_ge [of R base k "n + 1" p m] 2(2) by auto
      moreover have "0 \<le> n + 1" using 2(2) by simp
      note 2(1) [OF False c(1) c(2) this, of m]
      moreover have "(\<exists>j\<le>Suc k. m = n + int j \<and> ancestor R j hash = Some base \<and> (\<forall>i<j. ancestor R i hash \<noteq> Some base)) \<longleftrightarrow>
          (\<exists>j\<le>k. m = n + 1 + int j \<and> ancestor R j p = Some base \<and> (\<forall>i<j. ancestor R i p \<noteq> Some base))"
        by (subst zero) (use False in \<open>auto simp: anc less simp del: ancestor.simps(2)\<close>)
      ultimately show ?thesis by presburger
    next
      case no: False
      then have "ancestor R (Suc j) hash = None" for j by (auto split: option.splits list.splits)
      then have r: "\<not> (\<exists>j\<le>Suc k. m = n + int j \<and> ancestor R j hash = Some base \<and> (\<forall>i<j. ancestor R i hash \<noteq> Some base))"
        using False by (metis ancestor.simps(1) not0_implies_Suc option.distinct(1) option.inject)
      have "\<not> (walkBack R base (Suc k) n hash = Inr m \<and> n \<le> m)" using False no 2(2) by (auto split: option.splits list.splits)
      then show ?thesis using r by blast
    qed
  qed
qed

text \<open>The commits a run made. The count the harness reports is \<open>j\<close> exactly if the commit the run started from is met
  after \<open>j\<close> first parents from the tip of the branch being pushed, for the first time and within the bound of the walk.\<close>

theorem commits_are_counted:
  "CommitsSince R branch baseSHA = Inr (int j) \<longleftrightarrow>
     baseSHA \<noteq> [] \<and> (\<exists>tip. BranchTipSHA R branch = Inr tip \<and> j \<le> 5000 \<and> ancestor R j tip = Some baseSHA
       \<and> list_all (\<lambda>i. ancestor R i tip \<noteq> Some baseSHA) [0..<j])"
proof -
  have "walkBack R baseSHA 5000 0 tip = Inr (int j) \<longleftrightarrow>
      j \<le> 5000 \<and> ancestor R j tip = Some baseSHA \<and> list_all (\<lambda>i. ancestor R i tip \<noteq> Some baseSHA) [0..<j]" for tip
    using walkBack_spec [of 0 R baseSHA 5000 tip "int j"] by (auto simp: list_all_iff)
  then show ?thesis by (auto simp: CommitsSince_def commitsSince_def commitsSinceMaxWalk_def split: sum.splits)
qed


definition samplePlan :: string where
  "samplePlan = joinStr [newlineChar] [''## Verification'', ''- Build: make'']"

definition sampleRepo :: gitRepo where
  "sampleRepo = \<lparr>rp_head = Some ''c2'', rp_branches = [(''migrate'', ''c2'')], rp_commits = [(''c2'', \<lparr>cm_parents = [''c1''], cm_files = []\<rparr>), (''c1'', \<lparr>cm_parents = [], cm_files = []\<rparr>)],
     rp_read = (\<lambda>p. Inl (True, [])), rp_status = Inr [''.konveyor/handoff.md'']\<rparr>"

definition cleanWorld :: cmdWorld where
  "cleanWorld = \<lparr>cw_before = None, cw_after = None, cw_deadline = False, cw_err = None, cw_writes = [], cw_elapsed = second\<rparr>"

lemma sample_parsed: "parsePlanVerification samplePlan = \<lparr>pv_steps = [\<lparr>ps_label = ''Build'', ps_command = ''make'', ps_skip = []\<rparr>], pv_found = True, pv_truncated = False, pv_fence = []\<rparr>"
  by code_simp

lemma sample_passes: "vf_status (runPlanVerification (viewOf sampleRepo ''migrate'') (Inr samplePlan) ''migrate'' 0 0 [] (\<lambda>i. cleanWorld)) = verificationPassed"
  unfolding runPlan_passes
  by (simp add: sample_parsed viewOf_def sampleRepo_def BranchTipSHA_def HeadSHA_def UncommittedPaths_def verifyIgnoredPaths_def handoffPath_def
      commandsOf_def runnable_def commandPassed_def cleanWorld_def)


end
