(* ===== verification/SkillManifest.thy ===== *)
theory SkillManifest
  imports SkillLoader
begin

text \<open>
  Reading the manifest (src/api/skill/manifest.go): what the loader recorded in the skills root is read
  by the harness in another container, and the rules it names are read there as prompt text.
\<close>

section \<open>Definitions\<close>

record Rule =
  rl_name :: string
  rl_body :: string

text \<open>\<open>json.Unmarshal\<close> into the struct, field by field. An element of a slice is decoded into the element
  already there, if any: null leaves it, and a field that is absent keeps its value.\<close>

fun intoLoaded :: "(string \<times> json) list \<Rightarrow> Loaded \<Rightarrow> Loaded option" where
  "intoLoaded [] l = Some l"
| "intoLoaded ((k, v) # ms) l =
     (if fieldMatches ''name'' k then (case intoString (ld_name l) v of None \<Rightarrow> None | Some u \<Rightarrow> intoLoaded ms (l\<lparr>ld_name := u\<rparr>))
      else if fieldMatches ''description'' k then (case intoString (ld_description l) v of None \<Rightarrow> None | Some u \<Rightarrow> intoLoaded ms (l\<lparr>ld_description := u\<rparr>))
      else if fieldMatches ''type'' k then (case intoString (ld_type l) v of None \<Rightarrow> None | Some u \<Rightarrow> intoLoaded ms (l\<lparr>ld_type := u\<rparr>))
      else if fieldMatches ''source'' k then (case intoString (ld_source l) v of None \<Rightarrow> None | Some u \<Rightarrow> intoLoaded ms (l\<lparr>ld_source := u\<rparr>))
      else if fieldMatches ''sourcePath'' k then (case intoString (ld_sourcePath l) v of None \<Rightarrow> None | Some u \<Rightarrow> intoLoaded ms (l\<lparr>ld_sourcePath := u\<rparr>))
      else intoLoaded ms l)"

definition loadedElem :: "Loaded \<Rightarrow> json \<Rightarrow> Loaded option" where
  "loadedElem l v = (case v of JObj ms \<Rightarrow> intoLoaded ms l | JNull \<Rightarrow> Some l | _ \<Rightarrow> None)"

definition emptyLoaded :: Loaded where
  "emptyLoaded = \<lparr>ld_name = [], ld_description = [], ld_type = [], ld_source = [], ld_sourcePath = []\<rparr>"

definition emptyManifest :: Manifest where
  "emptyManifest = \<lparr>mf_skills = [], mf_rules = []\<rparr>"

fun intoManifest :: "(string \<times> json) list \<Rightarrow> Manifest \<Rightarrow> Manifest option" where
  "intoManifest [] m = Some m"
| "intoManifest ((k, v) # ms) m =
     (if fieldMatches ''skills'' k then (case intoSlice loadedElem emptyLoaded (mf_skills m) v of None \<Rightarrow> None | Some u \<Rightarrow> intoManifest ms (m\<lparr>mf_skills := u\<rparr>))
      else if fieldMatches ''rules'' k then (case intoSlice intoString [] (mf_rules m) v of None \<Rightarrow> None | Some u \<Rightarrow> intoManifest ms (m\<lparr>mf_rules := u\<rparr>))
      else intoManifest ms m)"

definition decodeManifest :: "string \<Rightarrow> Manifest option" where
  "decodeManifest raw = (case jsonParse raw of
      Some (JObj ms) \<Rightarrow> intoManifest ms emptyManifest
    | Some JNull \<Rightarrow> Some emptyManifest
    | _ \<Rightarrow> None)"

definition ReadManifest :: "ostree \<Rightarrow> fpath \<Rightarrow> goerr + Manifest" where
  "ReadManifest F dir = (case readFile F (dir @ [ManifestFile]) of
      Inl e \<Rightarrow> if isNotFound e then Inr emptyManifest else Inl (wrapf ''reading %s: %w'' [Lit ManifestFile] e)
    | Inr raw \<Rightarrow> (case decodeManifest raw of
        None \<Rightarrow> Inl (errorf ''parsing %s'' [Lit ManifestFile])
      | Some m \<Rightarrow> Inr m))"

fun ruleBodies :: "ostree \<Rightarrow> fpath \<Rightarrow> string list \<Rightarrow> goerr + Rule list" where
  "ruleBodies F dir [] = Inr []"
| "ruleBodies F dir (n # ns) = (case readFile F (dir @ segments n @ [SkillFile]) of
      Inl e \<Rightarrow> Inl (wrapf ''reading rule %q: %w'' [Lit n] e)
    | Inr body \<Rightarrow> map_sum id ((#) \<lparr>rl_name = n, rl_body = Body body\<rparr>) (ruleBodies F dir ns))"

definition RuleContent :: "ostree \<Rightarrow> fpath \<Rightarrow> Manifest \<Rightarrow> goerr + Rule list" where
  "RuleContent F dir m = ruleBodies F dir (mf_rules m)"

section \<open>The manifest is read back\<close>

definition loadedText :: "Loaded \<Rightarrow> bool" where
  "loadedText l \<longleftrightarrow> list_all validText [ld_name l, ld_description l, ld_type l, ld_source l, ld_sourcePath l]"

lemma manifest_fields:
  "fieldMatches ''skills'' ''skills''" "\<not> fieldMatches ''skills'' ''rules''" "fieldMatches ''rules'' ''rules''"
  "\<not> fieldMatches ''name'' ''description''" "fieldMatches ''description'' ''description''" "\<not> fieldMatches ''description'' ''type''"
  "\<not> fieldMatches ''name'' ''source''" "\<not> fieldMatches ''description'' ''source''" "\<not> fieldMatches ''type'' ''source''" "fieldMatches ''source'' ''source''"
  "\<not> fieldMatches ''name'' ''sourcePath''" "\<not> fieldMatches ''description'' ''sourcePath''" "\<not> fieldMatches ''type'' ''sourcePath''"
  "\<not> fieldMatches ''source'' ''sourcePath''" "fieldMatches ''sourcePath'' ''sourcePath''"
  by (simp_all add: fieldMatches_def foldRune_def runes.simps(2) runeWidth.simps byte_def lowerASCII_def)

lemma manifest_keys: "concat (runes ''skills'') = ''skills''" "concat (runes ''rules'') = ''rules''" "concat (runes ''description'') = ''description''"
  "concat (runes ''source'') = ''source''" "concat (runes ''sourcePath'') = ''sourcePath''"
  by (simp_all add: runes.simps(2) runeWidth.simps byte_def)

lemma loaded_read_back: "loadedText l \<Longrightarrow> loadedElem emptyLoaded (canon (loadedJson l)) = Some l"
  by (auto simp: loadedElem_def loadedJson_def loadedText_def canon_omit key_text manifest_keys field_names manifest_fields validText_def emptyLoaded_def)

lemma elems_read_back: "\<forall>x \<in> set xs. dec zero (f x) = Some x \<Longrightarrow> intoElems dec zero [] (map f xs) = Some xs"
  by (induction xs) auto

lemma manifest_decoded:
  assumes "list_all loadedText (mf_skills m)" and "list_all validText (mf_rules m)"
  shows "decodeManifest (marshalIndent 0 (manifestJson m) @ [CHR 0x0A]) = Some m"
proof -
  have n: "numbersOK (manifestJson m)"
    by (auto simp: manifestJson_def list_all_iff loadedJson_def omitStr_def)
  have s: "intoElems loadedElem emptyLoaded [] (map (canon \<circ> loadedJson) (mf_skills m)) = Some (mf_skills m)"
    using assms(1) by (intro elems_read_back) (auto simp: list_all_iff loaded_read_back)
  have r: "intoElems intoString [] [] (map (canon \<circ> JStr) (mf_rules m)) = Some (mf_rules m)"
    using assms(2) by (intro elems_read_back) (auto simp: list_all_iff validText_def)
  have "jsonParse (marshalIndent 0 (manifestJson m) @ [CHR 0x0A]) = Some (canon (manifestJson m))"
    using n by (intro jsonParse_marshalIndent) (auto simp: isSpaceByte_def byte_def)
  with s r show ?thesis
    by (simp add: decodeManifest_def manifestJson_def manifest_keys manifest_fields intoSlice_def emptyManifest_def)
qed


text \<open>The one file a load writes at the manifest's path.\<close>

lemma copyTree_below: "WriteFile p c perm \<in> set (fst (copyTree F src dst)) \<Longrightarrow> \<exists>rel. p = dst @ rel \<and> rel \<noteq> []"
proof -
  assume w: "WriteFile p c perm \<in> set (fst (copyTree F src dst))"
  then obtain base where b: "evalSymlinks F src = Inr base" and d: "WriteFile p c perm \<in> set (fst (copyDir F base (Suc maxCopyDepth) base dst))"
    by (auto simp: copyTree_def split: sum.splits)
  from copyDir_contained[OF d evalSymlinks_real[OF b], of "[]"] show ?thesis by (auto simp: copiedSegs_def)
qed

lemma assembleOne_below:
  "WriteFile p c perm \<in> set (fst (assembleOne F dst k l)) \<Longrightarrow> \<exists>rel. p = dst @ [ld_name l] @ rel \<and> rel \<noteq> []"
  by (auto simp: assembleOne_def Let_def set_fst_bindE split: option.splits dest!: copyTree_below)

lemma prune_no_write: "WriteFile p c perm \<notin> set (fst (prune F dst keep))"
  by (auto simp: prune_def dest!: forE_calls split: sum.splits if_splits)

lemma collect_no_write: "WriteFile p c perm \<notin> set (fst (collect F G opts))"
  using collect_ops by (force simp: tempOp_def)

lemma writeManifest_write:
  "WriteFile (dst @ [ManifestFile]) c perm \<in> set (fst (writeManifest F dst m)) \<Longrightarrow> c = marshalIndent 0 (manifestJson m) @ [CHR 0x0A]"
  by (auto simp: writeManifest_def set_fst_bindE)

lemma load_manifest_write:
  assumes "snd (Load F G Y opts) = Inr m" and "WriteFile (op_destDir opts @ [ManifestFile]) c perm \<in> set (fst (Load F G Y opts))"
  shows "c = marshalIndent 0 (manifestJson m) @ [CHR 0x0A]"
proof -
  obtain cs where a: "snd (assemble F Y (op_destDir opts) cs) = Inr m"
    and w: "WriteFile (op_destDir opts @ [ManifestFile]) c perm \<in> set (fst (assemble F Y (op_destDir opts) cs))"
    using assms collect_no_write by (auto simp: Load_def Let_def snd_bindE_Inr set_fst_bindE)
  have "\<exists>m'. WriteFile (op_destDir opts @ [ManifestFile]) c perm \<in> set (fst (writeManifest F (op_destDir opts) m'))
      \<and> snd (writeManifest F (op_destDir opts) m') = Inr m"
    using a w prune_no_write
    by (auto simp: assemble_def snd_bindE_Inr set_fst_bindE clearManifest_def split: if_splits dest!: forE_calls assembleOne_below)
  moreover have "snd (writeManifest F (op_destDir opts) m') = Inr m \<Longrightarrow> m' = m" for m'
    by (auto simp: writeManifest_def snd_bindE_Inr)
  ultimately show ?thesis using writeManifest_write by blast
qed

lemma load_result:
  assumes "snd (Load F G Y opts) = Inr m"
  shows "WriteFile (op_destDir opts @ [ManifestFile]) (marshalIndent 0 (manifestJson m) @ [CHR 0x0A]) 420 \<in> set (fst (Load F G Y opts))
    \<and> mf_rules m = map ld_name (filter (\<lambda>l. ld_type l = TypeRule) (mf_skills m))"
proof -
  obtain cs where cs: "snd (collect F G opts) = Inr cs" and a: "snd (assemble F Y (op_destDir opts) cs) = Inr m"
    using assms by (auto simp: Load_def Let_def snd_bindE_Inr)
  have "WriteFile (op_destDir opts @ [ManifestFile]) (marshalIndent 0 (manifestJson m) @ [CHR 0x0A]) 420 \<in> set (fst (assemble F Y (op_destDir opts) cs))
    \<and> mf_rules m = map ld_name (filter (\<lambda>l. ld_type l = TypeRule) (mf_skills m))"
    using a by (auto simp: assemble_def snd_bindE_Inr set_fst_bindE writeManifest_def split: if_splits)
  with cs show ?thesis by (auto simp: Load_def Let_def set_fst_bindE)
qed

text \<open>C38: the manifest arrives. A load that succeeds writes the manifest, with one content; a tree that has this
  content at the manifest's path, whatever else it holds, is read by the harness as exactly the skills and rules
  the load assembled, in order.\<close>

theorem manifest_read_back:
  assumes "snd (Load F G Y opts) = Inr m" and "list_all loadedText (mf_skills m)"
  shows "\<exists>content. WriteFile (op_destDir opts @ [ManifestFile]) content 420 \<in> set (fst (Load F G Y opts))
    \<and> (\<forall>c perm. WriteFile (op_destDir opts @ [ManifestFile]) c perm \<in> set (fst (Load F G Y opts)) \<longrightarrow> c = content)
    \<and> (\<forall>F'. readFile F' (op_destDir opts @ [ManifestFile]) = Inr content \<longrightarrow> ReadManifest F' (op_destDir opts) = Inr m)"
proof -
  have "list_all validText (mf_rules m)"
    using load_result[OF assms(1)] assms(2) by (auto simp: list_all_iff loadedText_def)
  from manifest_decoded[OF assms(2) this] load_result[OF assms(1)] load_manifest_write[OF assms(1)] show ?thesis
    by (intro exI[of _ "marshalIndent 0 (manifestJson m) @ [CHR 0x0A]"]) (auto simp: ReadManifest_def)
qed

theorem manifest_read_back_witness:
  "\<exists>content. WriteFile (op_destDir (stagedLoad [stagedRule]) @ [ManifestFile]) content 420 \<in> set (fst (Load stagedTree localGit anyYaml (stagedLoad [stagedRule])))
    \<and> (\<forall>c perm. WriteFile (op_destDir (stagedLoad [stagedRule]) @ [ManifestFile]) c perm \<in> set (fst (Load stagedTree localGit anyYaml (stagedLoad [stagedRule]))) \<longrightarrow> c = content)
    \<and> (\<forall>F'. readFile F' (op_destDir (stagedLoad [stagedRule]) @ [ManifestFile]) = Inr content \<longrightarrow> ReadManifest F' (op_destDir (stagedLoad [stagedRule])) = Inr stagedManifest)"
proof (rule manifest_read_back[OF stagedLoad_result])
  show "list_all loadedText (mf_skills stagedManifest)" by code_simp
qed

end
