(* ===== verification/HarnessConfig.thy ===== *)
theory HarnessConfig
  imports HarnessText JsonStruct JsonNumbers Params SkillManifest
begin

text \<open>
  What a stage is configured with: the environment (src/harness/internal/config/config.go), the parameter file the
  controller mounts (src/harness/internal/params/params.go) and the prompt composed from them
  (src/harness/internal/prompt/prompt.go). The environment is a function from names to values, empty where a variable
  is not set.
\<close>

section \<open>The parameter file\<close>

text \<open>\<open>ReserveFraction\<close> as a float64.\<close>

definition ReserveFraction :: rat where
  "ReserveFraction = (case round64 (85 / 100) of Some r \<Rightarrow> r | None \<Rightarrow> 0)"

definition NativeTurnLimit :: "int \<Rightarrow> int" where
  "NativeTurnLimit maxTurns =
     (if maxTurns \<le> 0 then 0
      else (case round64 (of_int maxTurns) of None \<Rightarrow> 1
        | Some m \<Rightarrow> (case round64 (m * ReserveFraction) of None \<Rightarrow> 1 | Some x \<Rightarrow> max 1 \<lfloor>x\<rfloor>)))"

record Execution =
  he_mode :: string
  he_askUser :: bool
  he_maxTurns :: int
  he_maxCost :: string

record File =
  hf_workflow :: "(string \<times> json) list"
  hf_agent :: "(string \<times> json) list"
  hf_execution :: Execution

definition zeroFile :: File where
  "zeroFile = \<lparr>hf_workflow = [], hf_agent = [], hf_execution = \<lparr>he_mode = [], he_askUser = False, he_maxTurns = 0, he_maxCost = []\<rparr>\<rparr>"

fun intoBool :: "bool \<Rightarrow> json \<Rightarrow> bool option" where
  "intoBool old (JBool b) = Some b"
| "intoBool old JNull = Some old"
| "intoBool old _ = None"

text \<open>An object into a \<open>map[string]any\<close>: its members are added to the map that is there, numbers must fit a float64.\<close>

fun intoMap :: "(string \<times> json) list \<Rightarrow> json \<Rightarrow> (string \<times> json) list option" where
  "intoMap old (JObj ms) = (if anyOK (JObj ms) then Some (foldl (\<lambda>al (k, v). AList.update k (goMaps v) al) old ms) else None)"
| "intoMap old JNull = Some []"
| "intoMap old _ = None"

definition decodeExecution :: "(string \<times> json) list \<Rightarrow> Execution option" where
  "decodeExecution ms = Option.bind (strField ''mode'' ms) (\<lambda>md. Option.bind (foldField intoBool False (members ''askUser'' ms)) (\<lambda>au.
     Option.bind (intField ''maxTurns'' ms) (\<lambda>mt. Option.bind (strField ''maxCost'' ms) (\<lambda>mc.
     Some \<lparr>he_mode = md, he_askUser = au, he_maxTurns = mt, he_maxCost = mc\<rparr>))))"

definition decodeFile :: "json \<Rightarrow> File option" where
  "decodeFile v = Option.bind (intoObj [] v) (\<lambda>ms.
     Option.bind (foldField intoMap [] (members ''workflow'' ms)) (\<lambda>w. Option.bind (foldField intoMap [] (members ''agent'' ms)) (\<lambda>a.
     Option.bind (Option.bind (objField ''execution'' ms) decodeExecution) (\<lambda>e.
     Some \<lparr>hf_workflow = w, hf_agent = a, hf_execution = e\<rparr>))))"

text \<open>\<open>Load\<close>: what reading the file gave is a parameter, an error with whether it says that there is no file.\<close>

datatype loadErr = ReadFailed string | ParseFailed

definition LoadParams :: "(bool \<times> string) + string \<Rightarrow> loadErr + File" where
  "LoadParams rd = (case rd of
      Inl (noFile, e) \<Rightarrow> if noFile then Inr zeroFile else Inl (ReadFailed e)
    | Inr data \<Rightarrow> (case Option.bind (jsonParse data) decodeFile of None \<Rightarrow> Inl ParseFailed | Some f \<Rightarrow> Inr f))"

definition fileMaxTurns :: "File \<Rightarrow> int option" where
  "fileMaxTurns f = (if he_maxTurns (hf_execution f) \<le> 0 then None else Some (he_maxTurns (hf_execution f)))"

section \<open>Rendering values\<close>

text \<open>\<^verbatim>\<open>%v\<close> of a float64: the exponent form below \<open>1e-4\<close> and from \<open>1e6\<close>.\<close>

definition formatG :: "gofloat \<Rightarrow> string" where
  "formatG f = (case f of FNaN \<Rightarrow> ''NaN'' | FInf neg \<Rightarrow> (if neg then ''-Inf'' else ''+Inf'')
     | FFin neg v \<Rightarrow> (if neg then ''-'' else []) @
         (if v = 0 then ''0''
          else (case shortDigits v of (ds, dp) \<Rightarrow>
            (let e = dp - 1; ae = \<bar>e\<bar> in
             if e < - 4 \<or> 6 \<le> e then take 1 ds @ (if length ds > 1 then ''.'' @ drop 1 ds else []) @ ''e''
               @ (if e < 0 then ''-'' else ''+'') @ (if ae < 10 then ''0'' else []) @ showDec ae
             else fixedForm v))))"

fun sprintAny :: "json \<Rightarrow> string" where
  "sprintAny JNull = ''<nil>''"
| "sprintAny (JBool b) = formatBool b"
| "sprintAny (JNum n) = (case parseFloat64 n of Some f \<Rightarrow> formatG f | None \<Rightarrow> n)"
| "sprintAny (JStr s) = s"
| "sprintAny (JArr vs) = ''['' @ joinStr '' '' (map sprintAny vs) @ '']''"
| "sprintAny (JObj ms) = ''map['' @ joinStr '' '' (map (\<lambda>(k, v). k @ '':'' @ sprintAny v) ms) @ '']''"

text \<open>\<open>int64(t)\<close> of a whole float: the one value of the range test that does not fit, \<open>2 ^ 63\<close>, converts to the least
  integer on the platforms the image is built for.\<close>

definition wholeInt64 :: "rat \<Rightarrow> int" where
  "wholeInt64 q = (let n = \<lfloor>q\<rfloor> in if n = 2 ^ 63 then - (2 ^ 63) else n)"

definition signedRat :: "bool \<Rightarrow> rat \<Rightarrow> rat" where
  "signedRat neg q = (if neg then - q else q)"

fun formatValue :: "json \<Rightarrow> string" where
  "formatValue (JNum n) = (case parseFloat64 n of
      Some (FFin neg q) \<Rightarrow>
        (if of_int \<lfloor>q\<rfloor> = q \<and> - (2 ^ 63) \<le> signedRat neg q \<and> signedRat neg q \<le> 2 ^ 63 then formatInt (wholeInt64 (signedRat neg q))
         else formatFloatF (FFin neg q))
    | Some f \<Rightarrow> formatFloatF f
    | None \<Rightarrow> n)"
| "formatValue (JBool b) = formatBool b"
| "formatValue (JStr s) = s"
| "formatValue v = sprintAny v"

definition renderValues :: "string \<Rightarrow> (string \<times> json) list \<Rightarrow> string" where
  "renderValues lbl vs =
     (if vs = [] then []
      else trimRight newlineChar (''### '' @ lbl @ [newlineChar]
        @ concat (map (\<lambda>(k, v). ''- '' @ k @ '': '' @ formatValue v @ [newlineChar]) (sort_key fst vs))))"

definition RenderSection :: "File \<Rightarrow> string" where
  "RenderSection f = joinStr [newlineChar, newlineChar]
     (filter (\<lambda>s. s \<noteq> []) [renderValues ''Workflow'' (hf_workflow f), renderValues ''Agent'' (hf_agent f)])"

section \<open>The configuration\<close>

type_synonym environment = "string \<Rightarrow> string"

record Config =
  cf_Model :: string
  cf_Provider :: string
  cf_Endpoint :: string
  cf_APIKey :: string
  cf_MaxTurns :: int
  cf_HubBaseURL :: string
  cf_HubToken :: string
  cf_HubTokenID :: string
  cf_AppID :: string
  cf_ACPSecretKey :: string
  cf_TargetBranch :: string
  cf_GitAuthorName :: string
  cf_GitAuthorEmail :: string
  cf_WorkflowStage :: string
  cf_WorkflowStageCount :: string
  cf_ACPTee :: bool
  cf_HITLTimeout :: duration
  cf_HITLSteer :: bool
  cf_HITLAsk :: bool
  cf_GitWriteCheck :: bool
  cf_HubProxy :: bool
  cf_Verify :: bool
  cf_VerifyEnforce :: bool
  cf_VerifyTimeout :: duration
  cf_VerifyTotalTimeout :: duration
  cf_AgentPrompt :: string
  cf_WorkflowGuide :: string
  cf_StageInstructions :: string
  cf_Params :: File
  cf_CostLimit :: gofloat
  cf_MaxCost :: gofloat

definition DefaultMaxTurns :: int where "DefaultMaxTurns = 200"
definition MaxHITLTimeoutSeconds :: int where "MaxHITLTimeoutSeconds = 600"
definition DefaultGitAuthorName :: string where "DefaultGitAuthorName = ''migration-agent''"
definition DefaultGitAuthorEmail :: string where "DefaultGitAuthorEmail = ''migration-agent@konveyor.io''"

definition envWithFallback :: "environment \<Rightarrow> string \<Rightarrow> string \<Rightarrow> string" where
  "envWithFallback env primary fallback = (if env primary \<noteq> [] then env primary else env fallback)"

definition gitAuthorFromEnv :: "environment \<Rightarrow> string \<times> string" where
  "gitAuthorFromEnv env = (let name = env ''KONVEYOR_GIT_AUTHOR_NAME''; email = env ''KONVEYOR_GIT_AUTHOR_EMAIL'' in
     if name = [] \<or> email = [] then (DefaultGitAuthorName, DefaultGitAuthorEmail) else (name, email))"

definition envSwitchedOff :: "environment \<Rightarrow> string \<Rightarrow> bool" where
  "envSwitchedOff env name = (toLower (trimSpace (env name)) \<in> set [''off'', ''false'', ''0'', ''disabled''])"

definition envSwitchedOn :: "environment \<Rightarrow> string \<Rightarrow> bool" where
  "envSwitchedOn env name = (toLower (trimSpace (env name)) \<in> set [''on'', ''true'', ''1'', ''enabled''])"

definition workflowGuideFromEnv :: "environment \<Rightarrow> string" where
  "workflowGuideFromEnv env = envWithFallback env ''KONVEYOR_WORKFLOW_GUIDE'' ''KONVEYOR_PLAYBOOK_INSTRUCTIONS''"

text \<open>A number of seconds from the environment, clamped; 0 where it is not a positive number.\<close>

definition clampSeconds :: "int \<Rightarrow> int \<Rightarrow> string \<Rightarrow> duration" where
  "clampSeconds lo hi s = (case parseInt64 s of None \<Rightarrow> 0 | Some n \<Rightarrow> if n > 0 then min (max n lo) hi * second else 0)"

text \<open>Why the configuration is refused. Of several missing variables the code names one, whichever it meets first.\<close>

datatype configErr = MissingEnv "string list" | ParamsErr loadErr | CostNotNumeric string | CostNotFinite string

definition requiredEnv :: "environment \<Rightarrow> (string \<times> string) list" where
  "requiredEnv env = [(''KONVEYOR_LLM_MODEL'', envWithFallback env ''KONVEYOR_LLM_MODEL'' ''KONVEYOR_MODEL_PRIMARY_MODEL''),
     (''HUB_BASE_URL'', env ''HUB_BASE_URL''), (''APP_ID'', env ''APP_ID''),
     (''KONVEYOR_ACP_SECRET_KEY'', env ''KONVEYOR_ACP_SECRET_KEY''), (''TARGET_BRANCH'', env ''TARGET_BRANCH'')]"

text \<open>\<open>execution.maxCost\<close>: the ceiling and its reserved share.\<close>

definition costLimits :: "string \<Rightarrow> configErr + gofloat \<times> gofloat" where
  "costLimits s =
     (if s = [] then Inr (FFin False 0, FFin False 0)
      else (case parseFloat64 s of
          None \<Rightarrow> Inl (CostNotNumeric s)
        | Some (FFin neg q) \<Rightarrow>
            if neg \<and> q \<noteq> 0 then Inl (CostNotFinite s)
            else if q > 0 then Inr (FFin False q, (case round64 (q * ReserveFraction) of Some x \<Rightarrow> FFin False x | None \<Rightarrow> FInf False))
            else Inr (FFin False 0, FFin False 0)
        | Some _ \<Rightarrow> Inl (CostNotFinite s)))"

definition LoadFromEnv :: "environment \<Rightarrow> (bool \<times> string) + string \<Rightarrow> configErr + Config" where
  "LoadFromEnv env rd =
     (let missing = map fst (filter (\<lambda>(k, v). v = []) (requiredEnv env)) in
      if missing \<noteq> [] then Inl (MissingEnv missing)
      else (case LoadParams rd of
          Inl e \<Rightarrow> Inl (ParamsErr e)
        | Inr pf \<Rightarrow> (case costLimits (he_maxCost (hf_execution pf)) of
            Inl e \<Rightarrow> Inl e
          | Inr (maxCost, costLimit) \<Rightarrow>
            (case gitAuthorFromEnv env of (an, ae) \<Rightarrow>
             Inr \<lparr>cf_Model = envWithFallback env ''KONVEYOR_LLM_MODEL'' ''KONVEYOR_MODEL_PRIMARY_MODEL'',
               cf_Provider = envWithFallback env ''KONVEYOR_LLM_PROVIDER'' ''KONVEYOR_MODEL_PRIMARY_PROVIDER'',
               cf_Endpoint = envWithFallback env ''KONVEYOR_LLM_ENDPOINT'' ''KONVEYOR_MODEL_PRIMARY_ENDPOINT'',
               cf_APIKey = envWithFallback env ''KONVEYOR_LLM_API_KEY'' ''KONVEYOR_MODEL_PRIMARY_API_KEY'',
               cf_MaxTurns = (case fileMaxTurns pf of Some n \<Rightarrow> n | None \<Rightarrow> DefaultMaxTurns),
               cf_HubBaseURL = env ''HUB_BASE_URL'', cf_HubToken = env ''HUB_TOKEN'', cf_HubTokenID = env ''HUB_TOKEN_ID'',
               cf_AppID = env ''APP_ID'', cf_ACPSecretKey = env ''KONVEYOR_ACP_SECRET_KEY'', cf_TargetBranch = env ''TARGET_BRANCH'',
               cf_GitAuthorName = an, cf_GitAuthorEmail = ae,
               cf_WorkflowStage = env ''KONVEYOR_WORKFLOW_STAGE'', cf_WorkflowStageCount = env ''KONVEYOR_WORKFLOW_STAGE_COUNT'',
               cf_ACPTee = (\<not> envSwitchedOff env ''HARNESS_ACP_TEE''),
               cf_HITLTimeout = clampSeconds 1 MaxHITLTimeoutSeconds (env ''HARNESS_HITL_TIMEOUT_SECONDS''),
               cf_HITLSteer = (\<not> envSwitchedOff env ''HARNESS_HITL_STEER''),
               cf_HITLAsk = ((he_askUser (hf_execution pf) \<or> envSwitchedOn env ''HARNESS_HITL_ASK'') \<and> \<not> envSwitchedOff env ''HARNESS_HITL_ASK''),
               cf_GitWriteCheck = (\<not> envSwitchedOff env ''HARNESS_GIT_WRITE_CHECK''), cf_HubProxy = (\<not> envSwitchedOff env ''HARNESS_HUB_PROXY''),
               cf_Verify = (\<not> envSwitchedOff env ''HARNESS_VERIFY''), cf_VerifyEnforce = envSwitchedOn env ''HARNESS_VERIFY_ENFORCE'',
               cf_VerifyTimeout = clampSeconds 30 3600 (env ''HARNESS_VERIFY_TIMEOUT_SECONDS''),
               cf_VerifyTotalTimeout = clampSeconds 60 14400 (env ''HARNESS_VERIFY_TOTAL_TIMEOUT_SECONDS''),
               cf_AgentPrompt = env ''KONVEYOR_PROMPT'', cf_WorkflowGuide = workflowGuideFromEnv env,
               cf_StageInstructions = env ''KONVEYOR_INSTRUCTIONS'', cf_Params = pf, cf_CostLimit = costLimit, cf_MaxCost = maxCost\<rparr>))))"

section \<open>The prompt\<close>

record Layers =
  ly_AgentPrompt :: string
  ly_Rules :: "Rule list"
  ly_WorkflowGuide :: string
  ly_Parameters :: string
  ly_StageTask :: string
  ly_AskUser :: bool

abbreviation blank :: string where "blank \<equiv> [newlineChar, newlineChar]"

definition layer :: "string \<Rightarrow> string \<Rightarrow> string" where
  "layer heading body = (if body = [] then [] else heading @ body @ blank)"

definition ruleText :: "Rule \<Rightarrow> string" where
  "ruleText r = ''### '' @ rl_name r @ blank @ trimRight newlineChar (rl_body r) @ blank"

text \<open>The environment rules, which open every prompt, and the guideline on questions.\<close>

definition stagingRules :: string where
  "stagingRules = joinStr [newlineChar] [
     ''## Working Environment'',
     [],
     ''Your working directory is a git repository. Anything you commit is pushed to the'',
     ''user's branch when the stage ends.'',
     [],
     ''Write ephemeral files to /tmp, never into the repository working tree:'',
     ''  - scripts you need to run: write them to /tmp, make them executable there,'',
     ''    and run them from there'',
     ''  - scratch notes, plans, logs, and intermediate output'',
     [],
     ''Only files the user actually asked for belong in the repository. Keep the'',
     ''worktree clean: anything left there is ambiguous, and gets swept into your'',
     ''commits if you stage broadly. This applies even when a skill's instructions do'',
     ''not say where to put something.'',
     []]"

definition askUserGuideline :: string where
  "askUserGuideline = ''A human may be watching this run. When you need a decision only a human can make ''
     @ emDash
     @ '' ''
     @ ''a missing prerequisite, an ambiguous requirement, a choice between approaches, anything destructive ''
     @ emDash
     @ '' ''
     @ ''call the ''
     @ [CHR 0x60]
     @ ''ask_user''
     @ [CHR 0x60]
     @ '' tool and wait for its answer. Do not ask questions in prose: nobody reads your ''
     @ ''messages until the run is over, and ending your turn on a question ends the run. ''
     @ ''A human may also redirect you mid-turn; if a redirect asks you to pause, check in, ''
     @ ''report status, or wait, call ''
     @ [CHR 0x60]
     @ ''ask_user''
     @ [CHR 0x60]
     @ '' with your status and the choices you see, and ''
     @ ''do not continue until it answers. ''
     @ ''If ''
     @ [CHR 0x60]
     @ ''ask_user''
     @ [CHR 0x60]
     @ '' reports that nobody answered, say what you needed and stop.''
     @ [newlineChar]
     @ [newlineChar]"

definition Build :: "Layers \<Rightarrow> string" where
  "Build l =
     trimRight newlineChar (stagingRules @ [newlineChar] @ layer [] (ly_AgentPrompt l)
       @ (if ly_Rules l = [] then [] else ''## Rules'' @ blank @ ''These always apply. They are not optional and not task-specific.'' @ blank
            @ concat (map ruleText (ly_Rules l)))
       @ layer (''## Workflow Guide'' @ blank) (ly_WorkflowGuide l) @ layer (''## Parameters'' @ blank) (ly_Parameters l)
       @ ''## Working Guidelines'' @ blank @ ''Commit your changes to git with a descriptive message when your work is complete.'' @ blank
       @ (if ly_AskUser l then askUserGuideline else [])
       @ (if ly_StageTask l = [] then [] else ''## Stage Task'' @ blank @ ly_StageTask l)) @ [newlineChar]"

section \<open>The prompt opens with the environment rules and carries the rules verbatim\<close>

lemma trimRight_keeps: "last a \<noteq> c \<Longrightarrow> a \<noteq> [] \<Longrightarrow> \<exists>b'. trimRight c (a @ b) = a @ b'"
proof -
  assume a: "last a \<noteq> c" "a \<noteq> []"
  then obtain a' x where x: "a = a' @ [x]" "x \<noteq> c" by (cases a rule: rev_cases) auto
  have "dropWhile (\<lambda>y. y = c) (rev b @ x # rev a') = dropWhile (\<lambda>y. y = c) (rev b) @ x # rev a'"
    using x(2) by (induction "rev b") (auto simp: dropWhile_append)
  then show ?thesis using x by (auto simp: trimRight_def)
qed

text \<open>Every prompt opens with the environment rules, and the always-loaded rules are in it between them and the
  task, each under its name, in their order and with the text of their file.\<close>

theorem rules_reach_the_prompt:
  "\<exists>pre post. Build l = stagingRules @ pre @ concat (map ruleText (ly_Rules l)) @ post
     \<and> (\<exists>tail. post = layer (''## Workflow Guide'' @ blank) (ly_WorkflowGuide l) @ tail)"
proof -
  define g where "g = ''## Working Guidelines'' @ blank @ ''Commit your changes to git with a descriptive message when your work is complete.''"
  define rules where "rules = (if ly_Rules l = [] then [] else ''## Rules'' @ blank @ ''These always apply. They are not optional and not task-specific.'' @ blank)"
  define wf where "wf = layer (''## Workflow Guide'' @ blank) (ly_WorkflowGuide l)"
  define pa where "pa = layer (''## Parameters'' @ blank) (ly_Parameters l)"
  let ?head = "stagingRules @ ([newlineChar] @ layer [] (ly_AgentPrompt l) @ rules) @ concat (map ruleText (ly_Rules l)) @ wf @ pa @ g"
  define rest where "rest = blank @ (if ly_AskUser l then askUserGuideline else []) @ (if ly_StageTask l = [] then [] else ''## Stage Task'' @ blank @ ly_StageTask l)"
  have b: "Build l = trimRight newlineChar (?head @ rest) @ [newlineChar]"
    by (simp add: Build_def g_def rules_def wf_def pa_def rest_def)
  have g: "g \<noteq> []" "last g \<noteq> newlineChar" by (simp_all add: g_def newlineChar_def)
  then have "last ?head \<noteq> newlineChar" "?head \<noteq> []" by (simp_all add: last_append)
  then obtain b' where "trimRight newlineChar (?head @ rest) = ?head @ b'" using trimRight_keeps by blast
  then have "Build l = stagingRules @ ([newlineChar] @ layer [] (ly_AgentPrompt l) @ rules) @ concat (map ruleText (ly_Rules l)) @ (wf @ pa @ g @ b' @ [newlineChar])"
    using b by simp
  then show ?thesis unfolding wf_def by blast
qed

section \<open>What the controller writes the harness reads\<close>

lemma anyOK_canon: "anyOK (canon v) = anyOK v"
  by (induction v) (auto simp: list_all_iff)

lemma key_runes_eval:
  "(concat (runes ''workflow'') = ''workflow'')
   \<and> (concat (runes ''agent'') = ''agent'')
   \<and> (concat (runes ''execution'') = ''execution'')
   \<and> (concat (runes ''mode'') = ''mode'')
   \<and> (concat (runes ''askUser'') = ''askUser'')
   \<and> (concat (runes ''maxTurns'') = ''maxTurns'')
   \<and> (concat (runes ''maxCost'') = ''maxCost'')"
  by code_simp

lemma key_runes: "concat (runes ''workflow'') = ''workflow''" "concat (runes ''agent'') = ''agent''" "concat (runes ''execution'') = ''execution''"
  "concat (runes ''mode'') = ''mode''" "concat (runes ''askUser'') = ''askUser''" "concat (runes ''maxTurns'') = ''maxTurns''" "concat (runes ''maxCost'') = ''maxCost''"
  using key_runes_eval by blast+

lemma key_matches_eval:
  "(fieldMatches ''workflow'' ''workflow'')
   \<and> (\<not> fieldMatches ''workflow'' ''agent'')
   \<and> (\<not> fieldMatches ''workflow'' ''execution'')
   \<and> (\<not> fieldMatches ''agent'' ''workflow'')
   \<and> (fieldMatches ''agent'' ''agent'')
   \<and> (\<not> fieldMatches ''agent'' ''execution'')
   \<and> (\<not> fieldMatches ''execution'' ''workflow'')
   \<and> (\<not> fieldMatches ''execution'' ''agent'')
   \<and> (fieldMatches ''execution'' ''execution'')
   \<and> (fieldMatches ''mode'' ''mode'')
   \<and> (\<not> fieldMatches ''mode'' ''askUser'')
   \<and> (\<not> fieldMatches ''mode'' ''maxTurns'')
   \<and> (\<not> fieldMatches ''mode'' ''maxCost'')
   \<and> (\<not> fieldMatches ''askUser'' ''mode'')
   \<and> (fieldMatches ''askUser'' ''askUser'')
   \<and> (\<not> fieldMatches ''askUser'' ''maxTurns'')
   \<and> (\<not> fieldMatches ''askUser'' ''maxCost'')
   \<and> (\<not> fieldMatches ''maxTurns'' ''mode'')
   \<and> (\<not> fieldMatches ''maxTurns'' ''askUser'')
   \<and> (fieldMatches ''maxTurns'' ''maxTurns'')
   \<and> (\<not> fieldMatches ''maxTurns'' ''maxCost'')
   \<and> (\<not> fieldMatches ''maxCost'' ''mode'')
   \<and> (\<not> fieldMatches ''maxCost'' ''askUser'')
   \<and> (\<not> fieldMatches ''maxCost'' ''maxTurns'')
   \<and> (fieldMatches ''maxCost'' ''maxCost'')"
  by code_simp

lemma key_matches:
  "fieldMatches ''workflow'' ''workflow''" "\<not> fieldMatches ''workflow'' ''agent''" "\<not> fieldMatches ''workflow'' ''execution''"
  "\<not> fieldMatches ''agent'' ''workflow''" "fieldMatches ''agent'' ''agent''" "\<not> fieldMatches ''agent'' ''execution''"
  "\<not> fieldMatches ''execution'' ''workflow''" "\<not> fieldMatches ''execution'' ''agent''" "fieldMatches ''execution'' ''execution''"
  "fieldMatches ''mode'' ''mode''" "\<not> fieldMatches ''mode'' ''askUser''" "\<not> fieldMatches ''mode'' ''maxTurns''" "\<not> fieldMatches ''mode'' ''maxCost''"
  "\<not> fieldMatches ''askUser'' ''mode''" "fieldMatches ''askUser'' ''askUser''" "\<not> fieldMatches ''askUser'' ''maxTurns''" "\<not> fieldMatches ''askUser'' ''maxCost''"
  "\<not> fieldMatches ''maxTurns'' ''mode''" "\<not> fieldMatches ''maxTurns'' ''askUser''" "fieldMatches ''maxTurns'' ''maxTurns''" "\<not> fieldMatches ''maxTurns'' ''maxCost''"
  "\<not> fieldMatches ''maxCost'' ''mode''" "\<not> fieldMatches ''maxCost'' ''askUser''" "\<not> fieldMatches ''maxCost'' ''maxTurns''" "fieldMatches ''maxCost'' ''maxCost''"
  using key_matches_eval by blast+

text \<open>The members of a Go map that was written sorted: the same, up to their order.\<close>

lemma members_sorted: "members f (map g (sort_key fst ms)) = map (\<lambda>m. snd (g m)) (sort_key fst (filter (\<lambda>m. fieldMatches f (fst (g m))) ms))"
  by (simp add: members_def filter_map filter_sort comp_def case_prod_beta)

definition canonMember :: "string \<times> json \<Rightarrow> string \<times> json" where
  "canonMember = (\<lambda>(k, v). (concat (runes k), canon v))"

text \<open>The execution section as the harness decodes it.\<close>

lemma execution_decodes:
  assumes "pvalsJson (executionSection exec) = Some ms"
    and "\<And>n. el_maxTurns (ex_limits (execOf exec)) = Some n \<Longrightarrow> - (2 ^ 63) \<le> n \<and> n < 2 ^ 63"
  shows "decodeExecution (map canonMember (sort_key fst ms)) = Some \<lparr>he_mode = concat (runes (modeString (effectiveMode exec))), he_askUser = ex_askUser (execOf exec),
     he_maxTurns = (case el_maxTurns (ex_limits (execOf exec)) of Some n \<Rightarrow> n | None \<Rightarrow> 0), he_maxCost = concat (runes (el_maxCost (ex_limits (execOf exec))))\<rparr>"
proof -
  have plus: "hd (formatInt n) \<noteq> CHR ''+''" for n
    using showDec_Cons [of n] showDec_not_Nil [of n] by (cases "showDec n") (auto simp: formatInt_def)
  have turns: "intoInt 0 (JNum (formatInt n)) = Some n" if "- (2 ^ 63) \<le> n" "n < 2 ^ 63" for n
    using plus parseInt64_formatInt that by auto
  note simps = decodeExecution_def strField_def intField_def members_sorted foldField_def executionSection_def canonMember_def key_runes key_matches
    emptyExecution_def emptyLimits_def
  show ?thesis
  proof (cases exec)
    case None
    then show ?thesis using assms(1) by (auto simp: simps)
  next
    case (Some e)
    show ?thesis
      using assms(1) turns assms(2)
      by (cases "ex_askUser e"; cases "el_maxTurns (ex_limits e)"; cases "el_maxCost (ex_limits e) = []") (auto simp: Some simps simp del: intoInt.simps)
  qed
qed

lemma execution_numbers: "pvalsJson (executionSection exec) = Some ms \<Longrightarrow> list_all (\<lambda>(k, v). numbersOK v) ms \<and> ms \<noteq> []"
  using formatInt_number
  by (cases exec) (auto simp: executionSection_def split: option.splits if_splits)

lemma mapJson_members: "numbersOK (mapJson ms) = list_all (\<lambda>(k, v). numbersOK v) ms" "anyOK (canon (mapJson ms)) = list_all (\<lambda>(k, v). anyOK v) ms"
  unfolding anyOK_canon by (simp_all add: mapJson_def list_all_iff)

lemma canon_mapJson: "canon (mapJson ms) = JObj (map canonMember (sort_key fst ms))"
  by (simp add: mapJson_def canonMember_def)

lemma section_decodes:
  assumes "list_all (\<lambda>(k, v). anyOK v) ms"
  shows "\<exists>m. foldField intoMap [] (map canon (if ms = [] then [] else [mapJson ms])) = Some m"
proof (cases "ms = []")
  case False
  then have "anyOK (JObj (map canonMember (sort_key fst ms)))" using assms mapJson_members(2) [of ms] by (simp add: canon_mapJson)
  then show ?thesis using False by (simp add: foldField_def canon_mapJson del: anyOK.simps)
qed (simp add: foldField_def)

lemma modeString_canon: "concat (runes (modeString m)) = modeString m"
proof -
  have "concat (runes ''auto'') = ''auto''" "concat (runes ''approve'') = ''approve''" by code_simp+
  then show ?thesis by (cases m) auto
qed

text \<open>C40: The controls of a run reach the harness. The file the controller renders for a run is one the harness loads,
  and its execution controls are the mode, the opt-in to questions and the limits the controller resolved.\<close>

theorem execution_reaches_harness:
  assumes "renderParamsFile f = Inr data" and "pf_execution f = executionSection exec"
    and "list_all (\<lambda>(k, v). numbersOK v \<and> anyOK v) (pf_workflow f)"
    and "pvalsJson (pf_agent f) = Some a" and "list_all (\<lambda>(k, v). numbersOK v \<and> anyOK v) a"
    and "\<And>n. el_maxTurns (ex_limits (execOf exec)) = Some n \<Longrightarrow> - (2 ^ 63) \<le> n \<and> n < 2 ^ 63"
  shows "\<exists>pf. LoadParams (Inr data) = Inr pf \<and> hf_execution pf = \<lparr>he_mode = modeString (effectiveMode exec), he_askUser = ex_askUser (execOf exec),
     he_maxTurns = (case el_maxTurns (ex_limits (execOf exec)) of Some n \<Rightarrow> n | None \<Rightarrow> 0), he_maxCost = concat (runes (el_maxCost (ex_limits (execOf exec))))\<rparr>"
proof -
  obtain e where e: "pvalsJson (executionSection exec) = Some e" using assms(1,2) by (auto simp: renderParamsFile_def split: option.splits prod.splits)
  have en: "list_all (\<lambda>(k, v). numbersOK v) e" "e \<noteq> []" using execution_numbers [OF e] by auto
  define whole where "whole = omitEmpty ''workflow'' (pf_workflow f) @ omitEmpty ''agent'' a @ omitEmpty ''execution'' e"
  have data: "data = marshalIndent 0 (JObj whole)" using assms(1,2,4) e by (simp add: renderParamsFile_def whole_def)
  have "numbersOK (JObj whole)" using assms(3,5) en
    by (auto simp: whole_def omitEmpty_def mapJson_members(1) list_all_iff)
  then have p: "jsonParse data = Some (JObj (map canonMember whole))" using jsonParse_marshalIndent [of "JObj whole" "[]" 0] by (simp add: data canonMember_def)
  have mw: "members ''workflow'' (map canonMember whole) = map canon (if pf_workflow f = [] then [] else [mapJson (pf_workflow f)])"
    "members ''agent'' (map canonMember whole) = map canon (if a = [] then [] else [mapJson a])"
    "members ''execution'' (map canonMember whole) = [canon (mapJson e)]"
    using en(2) by (simp_all add: whole_def omitEmpty_def members_def canonMember_def key_runes key_matches)
  obtain w where w: "foldField intoMap [] (map canon (if pf_workflow f = [] then [] else [mapJson (pf_workflow f)])) = Some w"
    using section_decodes [of "pf_workflow f"] assms(3) by (auto simp: list_all_iff)
  obtain b where b: "foldField intoMap [] (map canon (if a = [] then [] else [mapJson a])) = Some b"
    using section_decodes [of a] assms(5) by (auto simp: list_all_iff)
  have ob: "objField ''execution'' (map canonMember whole) = Some (map canonMember (sort_key fst e))"
    by (simp add: objField_def mw foldField_def canon_mapJson)
  show ?thesis
    using execution_decodes [OF e assms(6)]
    by (simp add: LoadParams_def p decodeFile_def mw w b ob modeString_canon)
qed

theorem execution_reaches_harness_witness:
  "\<exists>data pf. renderParamsFile \<lparr>pf_workflow = [], pf_agent = [(''jdk'', PInt 21)],
       pf_execution = executionSection (Some \<lparr>ex_mode = ExecutionModeApprove, ex_askUser = True, ex_limits = \<lparr>el_maxTurns = Some 50, el_maxCost = ''2.5''\<rparr>\<rparr>)\<rparr> = Inr data
     \<and> LoadParams (Inr data) = Inr pf \<and> hf_execution pf = \<lparr>he_mode = ''approve'', he_askUser = True, he_maxTurns = 50, he_maxCost = ''2.5''\<rparr>"
proof -
  let ?x = "Some \<lparr>ex_mode = ExecutionModeApprove, ex_askUser = True, ex_limits = \<lparr>el_maxTurns = Some 50, el_maxCost = ''2.5''\<rparr>\<rparr>"
  let ?f = "\<lparr>pf_workflow = [], pf_agent = [(''jdk'', PInt 21)], pf_execution = executionSection ?x\<rparr>"
  obtain data where d: "renderParamsFile ?f = Inr data" by (auto simp: renderParamsFile_def executionSection_def)
  have n: "anyOK (JNum (formatInt 21))" by code_simp
  have c: "concat (runes ''2.5'') = ''2.5''" by code_simp
  have "\<exists>pf. LoadParams (Inr data) = Inr pf \<and> hf_execution pf = \<lparr>he_mode = modeString (effectiveMode ?x), he_askUser = ex_askUser (execOf ?x),
     he_maxTurns = (case el_maxTurns (ex_limits (execOf ?x)) of Some n \<Rightarrow> n | None \<Rightarrow> 0), he_maxCost = concat (runes (el_maxCost (ex_limits (execOf ?x))))\<rparr>"
    by (rule execution_reaches_harness [OF d, where a = "[(''jdk'', JNum (formatInt 21))]"]) (use formatInt_number [of 21] n in \<open>auto simp del: numbersOK.simps anyOK.simps\<close>)
  then show ?thesis using d by (simp add: effectiveMode_def c)
qed

end
