(* ===== verification/HarnessContract.thy ===== *)
theory HarnessContract
  imports HarnessStage RunOutcome
begin

text \<open>
  The contract between the two programs: the harness of src/harness exits with a code and leaves a termination log, and
  the controller of src/internal/controller reads both off the pod. The theorems compose \<open>mainExit\<close> with
  \<open>updatePhaseFromSandbox\<close>; nothing is defined here that models code.
\<close>

section \<open>The blob of a stage\<close>

lemma inContract_blob: "inContract code t \<Longrightarrow> contractBlob t"
proof -
  assume "inContract code t"
  then obtain out l where "tb_exitCode t = exitCode out" "tb_outcome t = outcomeString out" "tb_limitReached t = limitText l"
    by (auto simp: inContract_def)
  then show "contractBlob t" by (cases out; cases l) (simp_all add: contractBlob_def)
qed

lemma mainExit_code: "fst (mainExit tx (Inr w)) = sr_code (runStage tx w)"
  using runStage_contract [of tx w] by (auto simp: mainExit_def Let_def)

text \<open>The tip of every branch is the name of a commit, so it is short.\<close>

definition shortTips :: "gitRepo \<Rightarrow> bool" where
  "shortTips R = list_all (\<lambda>(b, tip). length tip \<le> 64) (rp_branches R)"

lemma shortTips_tip: "shortTips R \<Longrightarrow> BranchTipSHA R b = Inr tip \<Longrightarrow> length tip \<le> 64"
  by (auto simp: shortTips_def BranchTipSHA_def list_all_iff dest!: map_of_SomeD split: option.splits)

lemma stageVerification_ok: "shortTips (sw_repo w) \<Longrightarrow> verdictOK (stageVerification red w cfg creds)"
proof -
  assume s: "shortTips (sw_repo w)"
  have "length (runes (clipVerify t verifyReasonLen)) \<le> verifyReasonLen" for t
    using clipRunes_len [of verifyReasonLen] by (simp add: clipVerify_def verifyReasonLen_def)
  then have n: "verdictOK (notRun why)" for why by (simp add: verdictOK_def notRun_def)
  have "verdictOK (runPlanVerification (viewOf (sw_repo w) branch) plan branch a b red c)" for branch plan a b c
    by (rule runPlan_verdictOK) (use shortTips_tip [OF s] in \<open>auto simp: viewOf_def\<close>)
  then show ?thesis by (simp add: stageVerification_def n)
qed

lemma runStage_verdictOK: "shortTips (sw_repo w) \<Longrightarrow> tb_verification (sr_blob (runStage tx w)) = Some v \<Longrightarrow> verdictOK v"
proof -
  assume s: "shortTips (sw_repo w)" and v: "tb_verification (sr_blob (runStage tx w)) = Some v"
  have f: "tb_verification (snd (snd (finishStage tx red w cfg creds))) = Some (stageVerification red w cfg creds)" for red cfg creds
    by (simp add: finishStage_def Let_def pushFailedBlob_def split: option.splits outcome.splits)
  obtain cfg where c: "sw_config w = Inr cfg" using v by (cases "sw_config w") (auto simp: runStage_def Let_def failedBlob_def)
  obtain red warn res where st: "setupStage tx w cfg = (red, warn, res)" by (metis prod_cases3)
  obtain creds where r: "res = Inr creds" using v by (cases res) (auto simp: runStage_def c st failedBlob_def)
  obtain code err t where fs: "finishStage tx red w cfg creds = (code, err, t)" by (metis prod_cases3)
  then have "tb_verification t = Some (stageVerification red w cfg creds)" using f [of red cfg creds] by simp
  then have "v = stageVerification red w cfg creds" using v by (simp add: runStage_def c st r fs)
  then show "verdictOK v" using stageVerification_ok [OF s] by blast
qed

section \<open>What the controller reads\<close>

lemma reads_no_verification:
  assumes "blobJson t = Some j" and "tb_verification t = None"
  shows "unmarshalTermination (marshal j) = Some None"
proof -
  let ?c = "map (\<lambda>(k, v). (concat (runes k), canon v))"
  obtain u where u: "optMember ''usage'' (map_option usageJson (tb_usage t)) = Some u" and j: "j = JObj (blobHead t @ u)"
    using assms by (auto simp: blobJson_def optMember_def split: Option.bind_splits option.splits)
  have skip: "list_all (\<lambda>(k, j). \<not> fieldMatches ''verification'' k) (?c (blobHead t @ u))"
    using u by (auto simp: blobHead_def strMember_def optMember_def foreign_keys split: option.splits)
  have "jsonParse (marshal j) = Some (JObj (?c (blobHead t @ u)))"
    using jsonParse_marshal [OF blobJson_ok [OF assms(1)]] by (simp add: j)
  then show ?thesis using intoTermination_skip [OF skip, of None "[]"] by (simp add: unmarshalTermination_def del: map_append)
qed

lemma rung_keeps_none: "tb_verification t = None \<Longrightarrow> rung t = Some t' \<Longrightarrow> tb_verification t' = None"
  by (auto simp: rung_def ladder_def trimPayload_def trimToVerdict_def trimVerification_def withoutOutput_def verdictOnly_def split: if_splits)

definition passedBlob :: "terminationBlob \<Rightarrow> bool" where
  "passedBlob t = (case tb_verification t of None \<Rightarrow> False | Some v \<Rightarrow> vf_status v = ''passed'')"

lemma log_reports_pass:
  assumes "contractBlob t" and "\<And>v. tb_verification t = Some v \<Longrightarrow> verdictOK v" and "writeTerminationLog t = Some msg"
  shows "(\<exists>v. harnessVerificationFrom (Some msg) = Some v \<and> hv_status v = ''passed'') \<longleftrightarrow> passedBlob t"
proof -
  have "blobJson t \<noteq> None" using assms(3) by (auto simp: writeTerminationLog_def marshalBlob_def split: option.splits)
  then obtain t' where t': "rung t = Some t'" "marshalBlob t' = Some msg" using written_rung [OF assms(1)] assms(3) by metis
  then obtain j where j: "blobJson t' = Some j" "msg = marshal j" by (auto simp: marshalBlob_def)
  show ?thesis
  proof (cases "tb_verification t")
    case None
    then show ?thesis using reads_no_verification [OF j(1) rung_keeps_none [OF None t'(1)]]
      by (auto simp: passedBlob_def harnessVerificationFrom_def j(2) split: if_splits)
  next
    case (Some v)
    obtain v' where v': "tb_verification t' = Some v'" "vf_status v' = vf_status v" using rung_keeps_verdict [OF assms(1) Some assms(2) [OF Some] t'(1)] by blast
    have n: "msg \<noteq> []" using j by (auto simp: blobJson_def split: Option.bind_splits)
    have s: "vf_status v \<noteq> []" "canonText (vf_status v) = vf_status v"
      using assms(2) [OF Some] canonText_words by (auto simp: verdictOK_def verify_words)
    show ?thesis using controller_reads_blob [OF j(1) v'(1)] n s v'(2) by (simp add: passedBlob_def Some harnessVerificationFrom_def j(2) [symmetric])
  qed
qed

section \<open>From the exit of the harness to the status of the run\<close>

text \<open>The reason of the run for each outcome of the harness.\<close>

fun outcomeReason :: "outcome \<Rightarrow> string" where
  "outcomeReason OutcomeSucceeded = ''Succeeded''"
| "outcomeReason OutcomeFailed = ''Failed''"
| "outcomeReason OutcomeLimitReached = ''LimitReached''"
| "outcomeReason OutcomeRefused = ''Refused''"

lemma exitReason_outcome:
  "exitReason (Some (word_of_int (exitCode out))) sr = outcomeReason out" "(word_of_int (exitCode out) = (0 :: int32)) = (out = OutcomeSucceeded)"
  by (cases out; simp add: exitReason_def)+

text \<open>C4: The run says what the harness did. When the pod of a finished Sandbox carries the exit code and the termination log
  of a stage, the run succeeds exactly if the blob names success, the reason of its Succeeded condition is the one of the
  outcome the blob names, and it is Verified exactly if the harness measured a pass and the log decodes.\<close>

theorem run_reports_the_stage:
  assumes "condition_store (rr_lib R)" and "finishedCondition sb = Some cond"
    and "mainExit tx (Inr w) = (code, Some msg)"
    and "agentContainerTermination (terminalPod R p sb) = Some \<lparr>t_exitCode = word_of_int code, t_message = msg\<rparr>"
    and "st_terminationData (run_status run) = None" and "shortTips (sw_repo w)"
  shows "let run' = fst (updatePhaseFromSandbox R run sb p); t = sr_blob (runStage tx w) in
     \<exists>out. tb_outcome t = outcomeString out
     \<and> (run_phase run' = PhaseSucceeded \<longleftrightarrow> out = OutcomeSucceeded)
     \<and> condReason (rr_lib R) ''Succeeded'' run' = Some (outcomeReason out)
     \<and> (condStatus (rr_lib R) ''Verified'' run' = Some CTrue \<longleftrightarrow> passedBlob t \<and> decodesToMap msg)"
proof -
  let ?t = "sr_blob (runStage tx w)"
  have code: "code = sr_code (runStage tx w)" and msg: "writeTerminationLog ?t = Some msg"
    using assms(3) mainExit_code [of tx w] by (auto simp: mainExit_def Let_def)
  have ic: "inContract code ?t" using runStage_contract [of tx w] code by simp
  then obtain out where out: "code = exitCode out" "tb_outcome ?t = outcomeString out" by (auto simp: inContract_def)
  have ex: "agentExitCode (terminalPod R p sb) = Some (word_of_int (exitCode out))" by (simp add: agentExitCode_def assms(4) out(1))
  have data: "finalData R run sb p = (if msg \<noteq> [] \<and> decodesToMap msg then Some msg else None)"
    by (simp add: finalData_def terminationDataFromPod_def assms(4,5))
  have "fst (verificationVerdict td) = CTrue \<longleftrightarrow> (\<exists>v. harnessVerificationFrom td = Some v \<and> hv_status v = ''passed'')" for td
    by (auto simp: verificationVerdict_def harness_statuses split: option.splits)
  then have "fst (verificationVerdict (finalData R run sb p)) = CTrue \<longleftrightarrow> passedBlob ?t \<and> decodesToMap msg"
    using log_reports_pass [OF inContract_blob [OF ic] runStage_verdictOK [OF assms(6)] msg] by (auto simp: data harnessVerificationFrom_def)
  then show ?thesis unfolding Let_def
    using finishRun_verified [OF assms(1), of run sb p cond] finishRun_reason [OF assms(1), of run sb p cond] finishRun_phase [of R run sb p cond] ex out(2) exitReason_outcome
    by (intro exI [of _ out]) (simp add: updatePhaseFromSandbox_def assms(2) condition_types)
qed

section \<open>A run that succeeds\<close>

definition unverifiedConfig :: Config where
  "unverifiedConfig = sampleConfig\<lparr>cf_Verify := False\<rparr>"

definition unverifiedStage :: stageWorld where
  "unverifiedStage = sampleWorld\<lparr>sw_config := Inr unverifiedConfig\<rparr>"

definition sampleRedactor :: "string list" where
  "sampleRedactor = addSecrets (addSecrets (newRedactor [] (heldSecrets sampleConfig sampleCreds)) []) []"

definition pushCreds :: Credentials where
  "pushCreds = sampleCreds\<lparr>cr_branch := ''migrate''\<rparr>"

lemma unverified_setup: "setupStage tx unverifiedStage unverifiedConfig = (sampleRedactor, [], Inr pushCreds)"
  by (simp add: setupStage_def unverifiedStage_def unverifiedConfig_def sampleWorld_def sampleRedactor_def heldSecrets_def sampleConfig_def sampleCreds_def
      pushCreds_def gitSetup_def preflight_def skillSetup_def agentSetup_def leftOf_def)

lemma unverified_prompt: "promptOutcome red unverifiedStage unverifiedConfig = (OutcomeSucceeded, LimitNone)"
  by (simp add: promptOutcome_def unverifiedStage_def unverifiedConfig_def sampleWorld_def classifyOutcome_def providerErr_def closingProviderFailure_def
      emptyResult_def stopReasonMaxTurns_def sampleConfig_def NativeTurnLimit_def ClosingProviderError_def)

lemma unverified_verdict: "stageVerdict red unverifiedStage unverifiedConfig = None"
proof -
  have "turnOutcome red unverifiedStage unverifiedConfig = (OutcomeSucceeded, LimitNone)"
    unfolding turnOutcome_def unverified_prompt by (simp add: unverifiedStage_def sampleWorld_def)
  then show ?thesis
    by (simp add: stageVerdict_def unverifiedStage_def sampleWorld_def readHandoff_def stageHandoff_def FileChangedSince_def handoffPath_def planPath_def)
qed

lemma unverified_outcome: "stageOutcome red unverifiedStage unverifiedConfig creds = (OutcomeSucceeded, LimitNone)"
proof -
  have "\<not> enforceVerification unverifiedConfig v" for v
  proof -
    have "isIntermediateWorkflowStage unverifiedConfig" by code_simp
    then show ?thesis by (simp add: enforceVerification_def)
  qed
  then show ?thesis unfolding stageOutcome_def claimedOutcome_def unverified_verdict turnOutcome_def unverified_prompt
    by (simp add: unverifiedStage_def sampleWorld_def)
qed

lemma unverified_push: "finalPush unverifiedStage pushCreds = (PushAdvanced, None)"
  by (simp add: finalPush_def unverifiedStage_def sampleWorld_def pushCreds_def Push_def sampleRepo_def BranchTipSHA_def)

lemma unverified_blob: "blobJson (stageBlob tx red unverifiedStage unverifiedConfig pushCreds) \<noteq> None"
proof -
  have v: "stageVerification red unverifiedStage unverifiedConfig pushCreds = notRun ''disabled (HARNESS_VERIFY=off)''"
    by (simp add: stageVerification_def unverifiedConfig_def)
  have u: "sw_prompt unverifiedStage = (Some (emptyResult\<lparr>pr_stopReason := ''end_turn'', pr_turnsUsed := 3\<rparr>), None)"
    by (simp add: unverifiedStage_def sampleWorld_def)
  show ?thesis
    by (simp add: stageBlob_def Let_def v u blobJson_def optMember_def notRun_def verificationJson_def handoffSent_def unverified_prompt combineUsage_def emptyResult_def
        usageJson_def floatMember_def isZeroFloat_def zeroFloat_def allSome_iff split: Option.bind_splits)
qed

lemma unverified_exit: "\<exists>msg. mainExit sampleTexts (Inr unverifiedStage) = (0, Some msg)"
proof -
  have c: "sw_config unverifiedStage = Inr unverifiedConfig" by (simp add: unverifiedStage_def)
  have r: "runStage sampleTexts unverifiedStage = \<lparr>sr_code = 0, sr_error = None,
      sr_blob = deferredBlob sampleRedactor [] None (stageBlob sampleTexts sampleRedactor unverifiedStage unverifiedConfig pushCreds), sr_revoked = revokes unverifiedConfig True\<rparr>"
    by (simp add: runStage_def c unverified_setup finishStage_def Let_def unverified_push unverified_outcome)
  have "blobJson (deferredBlob red warn err t) \<noteq> None \<longleftrightarrow> blobJson t \<noteq> None" for red warn err t
    by (auto simp: blobJson_def split: Option.bind_splits)
  then have "blobJson (sr_blob (runStage sampleTexts unverifiedStage)) \<noteq> None" using unverified_blob by (simp add: r)
  moreover have "contractBlob (sr_blob (runStage sampleTexts unverifiedStage))" using runStage_contract inContract_blob by blast
  ultimately have "writeTerminationLog (sr_blob (runStage sampleTexts unverifiedStage)) \<noteq> None"
    using written_rung by (fastforce simp: rung_def find_Some_iff fits_def split: option.splits)
  then show ?thesis by (auto simp: mainExit_def Let_def r)
qed

theorem run_reports_the_stage_witness:
  "\<exists>msg. mainExit sampleTexts (Inr unverifiedStage) = (0, Some msg)
     \<and> run_phase (fst (updatePhaseFromSandbox quietReconciler sampleRun (sampleSandbox [mkCond ''Finished'' CTrue 0 ''PodSucceeded'' (Lit [])]) (Some (samplePod 0 msg)))) = PhaseSucceeded"
proof -
  let ?sb = "sampleSandbox [mkCond ''Finished'' CTrue 0 ''PodSucceeded'' (Lit [])]"
  obtain msg where m: "mainExit sampleTexts (Inr unverifiedStage) = (0, Some msg)" using unverified_exit by blast
  have K: "condition_store (rr_lib quietReconciler)" using refstore.condition_store_axioms by simp
  have f: "finishedCondition ?sb = Some (mkCond ''Finished'' CTrue 0 ''PodSucceeded'' (Lit []))"
    by (simp add: sample_defs finishedCondition_def sandboxConditionFinished_def)
  have a: "agentContainerTermination (terminalPod quietReconciler (Some (samplePod 0 msg)) ?sb) = Some \<lparr>t_exitCode = word_of_int 0, t_message = msg\<rparr>"
    by (simp add: sample_defs terminalPod_def agentContainerTermination_def agentContainerName_def)
  have d: "st_terminationData (run_status sampleRun) = None" by (simp add: sample_defs)
  have t: "shortTips (sw_repo unverifiedStage)" by (simp add: shortTips_def unverifiedStage_def sampleWorld_def sampleRepo_def)
  have o: "tb_outcome (sr_blob (runStage sampleTexts unverifiedStage)) = outcomeString OutcomeSucceeded"
    by (simp add: runStage_def unverifiedStage_def [THEN arg_cong [of _ _ sw_config]] unverified_setup finishStage_def Let_def unverified_push unverified_outcome)
  have "outcomeString out = ''succeeded'' \<Longrightarrow> out = OutcomeSucceeded" for out by (cases out) simp_all
  then show ?thesis using run_reports_the_stage [OF K f m a d t] m o by (auto simp: Let_def)
qed

end
