(* ===== verification/Tee.thy ===== *)
theory Tee
  imports AcpSession
begin

text \<open>
  The tee between the run and its viewers (src/harness/internal/tee/tee.go): authorization, the replay ring, the asks
  offered to viewers, and the frames of a viewer that belong to the run. The server is a record and every critical
  section of the code an operation on it, so that the goroutines interleave as the events of a trace: a viewer joins in
  two steps, an ask is recorded, offered and settled; a frame is put in the ring and broadcast in one step. A select with several ready cases is any of their events. Sockets
  and timers are the events themselves.
\<close>

section \<open>Constants\<close>

definition DefaultQueueCap :: nat where "DefaultQueueCap = 256"
definition replayCap :: nat where "replayCap = 32"
definition replayKeyPlan :: string where "replayKeyPlan = ''plan''"
definition replayKeyOutcome :: string where "replayKeyOutcome = ''outcome''"
definition replayKeyPush :: string where "replayKeyPush = ''push''"
definition replayKeyPushUpdate :: string where "replayKeyPushUpdate = ''push/update''"
definition harnessPushPrefix :: string where "harnessPushPrefix = ''harness-push-''"
definition steerMethod :: string where "steerMethod = ''_goose/unstable/session/steer''"

lemmas replay_keys = replayKeyPlan_def replayKeyOutcome_def replayKeyPush_def replayKeyPushUpdate_def

section \<open>The server\<close>

record teeConfig =
  tc_SecretKey :: string
  tc_QueueCap :: int
  tc_SteerEnabled :: bool

datatype outFrame = HarnessFrame json | PipeFrame string

record viewer =
  vw_out :: "outFrame list"
  vw_closed :: bool

text \<open>A goroutine in \<open>forwardAsk\<close>: whether the viewers have been offered the ask, and what its channel holds.\<close>

record parkedAsk =
  pk_prefix :: string
  pk_frame :: json
  pk_offered :: bool
  pk_chan :: "json option"

record teeServer =
  ts_viewers :: "(nat \<times> viewer) list"
  ts_joining :: "(nat \<times> viewer) list" \<comment> \<open>caught up, not yet registered\<close>
  ts_perms :: "string list"
  ts_pendingAsks :: "(string \<times> json) list"
  ts_parked :: "(string \<times> parkedAsk) list"
  ts_results :: "(string \<times> json option \<times> PermissionForwardOutcome) list" \<comment> \<open>what \<open>forwardAsk\<close> returned\<close>
  ts_done :: bool
  ts_stopped :: bool
  ts_responsive :: bool
  ts_permSeq :: nat
  ts_runSession :: string \<comment> \<open>empty until \<open>AttachRun\<close>\<close>
  ts_runActive :: bool
  ts_replay :: "(string \<times> json) list" \<comment> \<open>key and frame\<close>
  ts_toRun :: "(string \<times> json) list" \<comment> \<open>frames relayed onto the run connection\<close>

definition newTee :: teeServer where
  "newTee = \<lparr>ts_viewers = [], ts_joining = [], ts_perms = [], ts_pendingAsks = [], ts_parked = [], ts_results = [], ts_done = False,
     ts_stopped = False, ts_responsive = False, ts_permSeq = 0, ts_runSession = [], ts_runActive = False, ts_replay = [], ts_toRun = []\<rparr>"

definition queueCap :: "teeConfig \<Rightarrow> nat" where
  "queueCap cfg = (if tc_QueueCap cfg \<le> 0 then DefaultQueueCap else nat (tc_QueueCap cfg))"

text \<open>\<open>authorized\<close>: the header decides if it is there, else the query.\<close>

definition authorized :: "teeConfig \<Rightarrow> string \<Rightarrow> string \<Rightarrow> bool" where
  "authorized cfg header token =
     (if tc_SecretKey cfg = [] then False
      else if header \<noteq> [] then header = tc_SecretKey cfg
      else if token \<noteq> [] then token = tc_SecretKey cfg
      else False)"

section \<open>Queues\<close>

definition shutdown :: "viewer \<Rightarrow> viewer" where
  "shutdown v = v\<lparr>vw_closed := True\<rparr>"

definition enqueue :: "nat \<Rightarrow> outFrame \<Rightarrow> viewer \<Rightarrow> viewer" where
  "enqueue n f v = (if vw_closed v then v else if length (vw_out v) < n then v\<lparr>vw_out := vw_out v @ [f]\<rparr> else shutdown v)"

definition broadcast :: "teeConfig \<Rightarrow> outFrame \<Rightarrow> teeServer \<Rightarrow> teeServer" where
  "broadcast cfg frame s = s\<lparr>ts_viewers := map (\<lambda>(i, v). (i, enqueue (queueCap cfg) frame v)) (ts_viewers s)\<rparr>"

definition toViewer :: "teeConfig \<Rightarrow> nat \<Rightarrow> outFrame \<Rightarrow> teeServer \<Rightarrow> teeServer" where
  "toViewer cfg i f s = s\<lparr>ts_viewers := map (\<lambda>(j, v). (j, if j = i then enqueue (queueCap cfg) f v else v)) (ts_viewers s)\<rparr>"

section \<open>The replay ring\<close>

definition strOf :: "json option \<Rightarrow> string" where
  "strOf j = (case j of Some (JStr t) \<Rightarrow> t | _ \<Rightarrow> [])"

definition replayKeyFor :: "(string \<times> json) list \<Rightarrow> string" where
  "replayKeyFor update =
     (let kind = strOf (map_of update ''sessionUpdate'') in
      if kind = replayKeyPlan then kind
      else if kind = ''tool_call'' \<or> kind = ''tool_call_update''
      then (if \<not> hasPrefix (strOf (map_of update ''toolCallId'')) harnessPushPrefix then []
            else if kind = ''tool_call'' then replayKeyPush else replayKeyPushUpdate)
      else [])"

fun dropKey :: "string \<Rightarrow> (string \<times> json) list \<Rightarrow> (string \<times> json) list" where
  "dropKey k [] = []"
| "dropKey k (e # es) = (if fst e = k then es else e # dropKey k es)"

text \<open>One round of \<open>trimReplayLocked\<close>: the oldest frame without a key goes, the oldest of all if every frame has one.\<close>

definition dropOldest :: "(string \<times> json) list \<Rightarrow> (string \<times> json) list" where
  "dropOldest ring = (if [] \<in> fst ` set ring then dropKey [] ring else tl ring)"

lemma length_dropKey: "k \<in> fst ` set ring \<Longrightarrow> length (dropKey k ring) < length ring"
  by (induction ring) auto

lemma length_dropOldest: "ring \<noteq> [] \<Longrightarrow> length (dropOldest ring) < length ring"
  by (simp add: dropOldest_def length_dropKey)

function trimReplay :: "(string \<times> json) list \<Rightarrow> (string \<times> json) list" where
  "trimReplay ring = (if length ring > replayCap then trimReplay (dropOldest ring) else ring)"
  by auto
termination
  by (relation "measure length") (auto simp: intro!: length_dropOldest)

declare trimReplay.simps [simp del]

definition remember :: "string \<Rightarrow> json \<Rightarrow> (string \<times> json) list \<Rightarrow> (string \<times> json) list" where
  "remember k frame ring = trimReplay ((if k \<noteq> [] then dropKey k ring else ring) @ [(k, frame)])"

definition runFrame :: "string \<Rightarrow> string \<Rightarrow> json \<Rightarrow> json" where
  "runFrame method session update = JObj [(''jsonrpc'', JStr ''2.0''), (''method'', JStr method),
     (''params'', JObj [(''sessionId'', JStr session), (''update'', update)])]"

definition emitRunFrame :: "teeConfig \<Rightarrow> string \<Rightarrow> json \<Rightarrow> string \<Rightarrow> teeServer \<Rightarrow> teeServer" where
  "emitRunFrame cfg method update k s =
     (if ts_runSession s = [] then s
      else (let frame = runFrame method (ts_runSession s) update in
        broadcast cfg (HarnessFrame frame) (s\<lparr>ts_replay := remember k frame (ts_replay s)\<rparr>)))"

definition noticeUpdate :: "string \<Rightarrow> json" where
  "noticeUpdate message = JObj [(''sessionUpdate'', JStr ''status_message''),
     (''status'', JObj [(''message'', JStr message), (''type'', JStr ''notice'')])]"

definition EmitRunUpdate :: "teeConfig \<Rightarrow> (string \<times> json) list \<Rightarrow> teeServer \<Rightarrow> teeServer" where
  "EmitRunUpdate cfg update s = emitRunFrame cfg sessionUpdateMethod (JObj update) (replayKeyFor update) s"

definition EmitRunNotice :: "teeConfig \<Rightarrow> string \<Rightarrow> teeServer \<Rightarrow> teeServer" where
  "EmitRunNotice cfg message s = emitRunFrame cfg gooseUpdateMethod (noticeUpdate message) [] s"

definition EmitRunOutcome :: "teeConfig \<Rightarrow> string \<Rightarrow> teeServer \<Rightarrow> teeServer" where
  "EmitRunOutcome cfg message s = emitRunFrame cfg gooseUpdateMethod (noticeUpdate message) replayKeyOutcome s"

section \<open>Viewers\<close>

text \<open>The start of \<open>serveViewer\<close>: the queue of a new viewer holds the replay ring and the outstanding asks.\<close>

definition backlog :: "teeServer \<Rightarrow> json list" where
  "backlog s = map snd (ts_replay s) @ map snd (ts_pendingAsks s)"

definition catchUp :: "teeConfig \<Rightarrow> teeServer \<Rightarrow> viewer" where
  "catchUp cfg s = fold (\<lambda>f. enqueue (queueCap cfg) (HarnessFrame f)) (backlog s) \<lparr>vw_out = [], vw_closed = False\<rparr>"

definition joinViewer :: "teeConfig \<Rightarrow> nat \<Rightarrow> teeServer \<Rightarrow> teeServer" where
  "joinViewer cfg i s = s\<lparr>ts_joining := ts_joining s @ [(i, catchUp cfg s)]\<rparr>"

definition addViewer :: "nat \<Rightarrow> teeServer \<Rightarrow> teeServer" where
  "addViewer i s = (case map_of (ts_joining s) i of
      None \<Rightarrow> s
    | Some v \<Rightarrow>
        (let s1 = s\<lparr>ts_joining := filter (\<lambda>(j, w). j \<noteq> i) (ts_joining s)\<rparr> in
         if ts_stopped s then s1 else s1\<lparr>ts_viewers := ts_viewers s1 @ [(i, v)], ts_responsive := True\<rparr>))"

definition removeViewer :: "nat \<Rightarrow> teeServer \<Rightarrow> teeServer" where
  "removeViewer i s = s\<lparr>ts_viewers := filter (\<lambda>(j, v). j \<noteq> i) (ts_viewers s)\<rparr>"

section \<open>Asks\<close>

definition cancelResult :: "string \<Rightarrow> json" where
  "cancelResult prefix = (if prefix = ''kask'' then JObj [(''action'', JStr ''cancel'')] else cancelledOutcome)"

definition emitAskResolution :: "teeConfig \<Rightarrow> string \<Rightarrow> json \<Rightarrow> teeServer \<Rightarrow> teeServer" where
  "emitAskResolution cfg i result s = broadcast cfg (HarnessFrame (JObj [(''id'', JStr i), (''jsonrpc'', JStr ''2.0''), (''result'', result)])) s"

definition askID :: "string \<Rightarrow> nat \<Rightarrow> string" where
  "askID prefix n = prefix @ ''-'' @ showNat n"

definition askFrame :: "string \<Rightarrow> string \<Rightarrow> json \<Rightarrow> json" where
  "askFrame i method params = JObj [(''id'', JStr i), (''jsonrpc'', JStr ''2.0''), (''method'', JStr method), (''params'', params)]"

text \<open>\<open>forwardAsk\<close> up to its critical section: refused at once, or recorded and parked.\<close>

definition forwardAsk :: "string \<Rightarrow> string \<Rightarrow> json \<Rightarrow> teeServer \<Rightarrow> teeServer" where
  "forwardAsk prefix method params s =
     (let n = Suc (ts_permSeq s); i = askID prefix n; frame = askFrame i method params; s1 = s\<lparr>ts_permSeq := n\<rparr> in
      if ts_stopped s \<or> ts_viewers s = [] \<or> \<not> ts_responsive s
      then s1\<lparr>ts_results := ts_results s @ [(i, None, ForwardNoViewers)]\<rparr>
      else s1\<lparr>ts_perms := i # ts_perms s, ts_pendingAsks := ts_pendingAsks s @ [(i, frame)],
        ts_parked := ts_parked s @ [(i, \<lparr>pk_prefix = prefix, pk_frame = frame, pk_offered = False, pk_chan = None\<rparr>)]\<rparr>)"

definition mapParked :: "string \<Rightarrow> (parkedAsk \<Rightarrow> parkedAsk) \<Rightarrow> teeServer \<Rightarrow> teeServer" where
  "mapParked i f s = s\<lparr>ts_parked := map (\<lambda>(j, p). (j, if j = i then f p else p)) (ts_parked s)\<rparr>"

text \<open>The viewers attached now are sent the ask.\<close>

definition offerAsk :: "teeConfig \<Rightarrow> string \<Rightarrow> teeServer \<Rightarrow> teeServer" where
  "offerAsk cfg i s = (case map_of (ts_parked s) i of
      Some p \<Rightarrow> if pk_offered p then s else mapParked i (\<lambda>p. p\<lparr>pk_offered := True\<rparr>) (broadcast cfg (HarnessFrame (pk_frame p)) s)
    | None \<Rightarrow> s)"

text \<open>The end of \<open>forwardAsk\<close>: the deferred cleanup and the value returned.\<close>

definition settleAsk :: "string \<Rightarrow> json option \<times> PermissionForwardOutcome \<Rightarrow> teeServer \<Rightarrow> teeServer" where
  "settleAsk i res s = s\<lparr>ts_perms := removeAll i (ts_perms s), ts_pendingAsks := filter (\<lambda>(j, f). j \<noteq> i) (ts_pendingAsks s),
     ts_parked := filter (\<lambda>(j, p). j \<noteq> i) (ts_parked s), ts_results := ts_results s @ [(i, res)]\<rparr>"

text \<open>The three cases of its select: the channel, the shutdown and the timer.\<close>

definition takeAnswer :: "string \<Rightarrow> teeServer \<Rightarrow> teeServer" where
  "takeAnswer i s = (case map_of (ts_parked s) i of
      Some p \<Rightarrow> (case pk_chan p of Some r \<Rightarrow> if pk_offered p then settleAsk i (Some r, ForwardAnswered) s else s | None \<Rightarrow> s)
    | None \<Rightarrow> s)"

definition askShutdown :: "teeConfig \<Rightarrow> string \<Rightarrow> teeServer \<Rightarrow> teeServer" where
  "askShutdown cfg i s = (case map_of (ts_parked s) i of
      Some p \<Rightarrow> if pk_offered p \<and> ts_done s then settleAsk i (None, ForwardNoViewers) (emitAskResolution cfg i (cancelResult (pk_prefix p)) s) else s
    | None \<Rightarrow> s)"

definition askTimeout :: "teeConfig \<Rightarrow> string \<Rightarrow> teeServer \<Rightarrow> teeServer" where
  "askTimeout cfg i s = (case map_of (ts_parked s) i of
      Some p \<Rightarrow> if pk_offered p
        then settleAsk i (None, ForwardTimeout) (emitAskResolution cfg i (cancelResult (pk_prefix p)) (s\<lparr>ts_responsive := False\<rparr>)) else s
    | None \<Rightarrow> s)"

definition resolveAsk :: "teeConfig \<Rightarrow> string \<Rightarrow> json option \<Rightarrow> teeServer \<Rightarrow> teeServer" where
  "resolveAsk cfg i result s =
     (let s1 = s\<lparr>ts_responsive := True\<rparr> in
      case result of
        None \<Rightarrow> s1
      | Some r \<Rightarrow>
          if i \<in> set (ts_perms s)
          then emitAskResolution cfg i r (mapParked i (\<lambda>p. p\<lparr>pk_chan := Some r\<rparr>)
            (s1\<lparr>ts_perms := removeAll i (ts_perms s), ts_pendingAsks := filter (\<lambda>(j, f). j \<noteq> i) (ts_pendingAsks s)\<rparr>))
          else s1)"

section \<open>What a viewer sends\<close>

text \<open>\<open>harnessAskAnswer\<close>: the ask a frame answers and the result, if it has one.\<close>

definition harnessAskAnswer :: "string \<Rightarrow> (string \<times> json option) option" where
  "harnessAskAnswer data = (case jsonParse data of
      Some (JObj ms) \<Rightarrow> (case strField ''method'' ms of
          Some method \<Rightarrow> if method \<noteq> [] then None
            else (case rawField ''id'' ms of
                None \<Rightarrow> None
              | Some raw \<Rightarrow> (case intoString [] raw of
                  None \<Rightarrow> None
                | Some i \<Rightarrow> if hasPrefix i ''kperm-'' \<or> hasPrefix i ''kask-'' then Some (i, rawField ''result'' ms) else None))
        | None \<Rightarrow> None)
    | _ \<Rightarrow> None)"

definition namesSession :: "string \<Rightarrow> json option \<Rightarrow> bool" where
  "namesSession session params = (case params of
      Some (JObj ps) \<Rightarrow> strField ''sessionId'' ps = Some session
    | _ \<Rightarrow> False)"

datatype route =
    RouteUpstream
  | RouteDropped
  | RouteRefused json int string
  | RouteSteer json json
  | RouteCancel json

text \<open>\<open>interceptRunFrame\<close>: the request of a viewer that names the run session.\<close>

definition runRoute :: "teeConfig \<Rightarrow> bool \<Rightarrow> string \<Rightarrow> json option \<Rightarrow> json \<Rightarrow> route" where
  "runRoute cfg active method rid params =
     (if method = steerMethod then (case rid of
          None \<Rightarrow> RouteUpstream
        | Some i \<Rightarrow> if \<not> tc_SteerEnabled cfg then RouteRefused i (-32601) ''viewer steering is disabled by harness policy (HARNESS_HITL_STEER=off)''
            else RouteSteer i params)
      else if method = ''session/cancel'' then (if \<not> tc_SteerEnabled cfg then RouteDropped else RouteCancel params)
      else if method = ''session/prompt'' then (case rid of
          None \<Rightarrow> RouteUpstream
        | Some i \<Rightarrow> if \<not> active then RouteUpstream else RouteRefused i (-32602) (''session already has an active run; use '' @ steerMethod))
      else RouteUpstream)"

definition interceptRunFrame :: "teeConfig \<Rightarrow> string \<Rightarrow> teeServer \<Rightarrow> route" where
  "interceptRunFrame cfg data s =
     (if ts_runSession s = [] then RouteUpstream
      else (case jsonParse data of
          Some (JObj ms) \<Rightarrow> (case strField ''method'' ms of
              Some method \<Rightarrow> if method = [] then RouteUpstream
                else (case rawField ''params'' ms of
                    Some params \<Rightarrow> if namesSession (ts_runSession s) (Some params) then runRoute cfg (ts_runActive s) method (rawField ''id'' ms) params else RouteUpstream
                  | None \<Rightarrow> RouteUpstream)
            | None \<Rightarrow> RouteUpstream)
        | _ \<Rightarrow> RouteUpstream))"

definition respondError :: "teeConfig \<Rightarrow> nat \<Rightarrow> json \<Rightarrow> (string \<times> json) list \<Rightarrow> teeServer \<Rightarrow> teeServer" where
  "respondError cfg v rid err s = toViewer cfg v (HarnessFrame (JObj [(''error'', JObj err), (''id'', rid), (''jsonrpc'', JStr ''2.0'')])) s"

definition respondResult :: "teeConfig \<Rightarrow> nat \<Rightarrow> json \<Rightarrow> json option \<Rightarrow> teeServer \<Rightarrow> teeServer" where
  "respondResult cfg v rid result s = toViewer cfg v (HarnessFrame (JObj [(''id'', rid), (''jsonrpc'', JStr ''2.0''),
     (''result'', case result of None \<Rightarrow> JNull | Some r \<Rightarrow> r)])) s"

definition errorMembers :: "int \<Rightarrow> string \<Rightarrow> (string \<times> json) list" where
  "errorMembers code message = [(''code'', JNum (formatInt code)), (''message'', JStr message)]"

text \<open>What the run connection answered to a steer.\<close>

datatype relayAnswer = RelayFailed string | RelayError RPCError | RelayResult "json option"

definition relaySteer :: "teeConfig \<Rightarrow> nat \<Rightarrow> json \<Rightarrow> json \<Rightarrow> relayAnswer \<Rightarrow> teeServer \<Rightarrow> teeServer" where
  "relaySteer cfg v rid params ans s =
     (let s1 = s\<lparr>ts_responsive := True, ts_toRun := ts_toRun s @ [(steerMethod, params)]\<rparr> in
      case ans of
        RelayFailed e \<Rightarrow> respondError cfg v rid (errorMembers (-32603) (''steer relay failed: '' @ e)) s1
      | RelayError e \<Rightarrow> respondError cfg v rid (errorMembers (re_code e) (re_message e)
          @ (case jsonParse (re_data e) of Some d \<Rightarrow> [(''data'', d)] | None \<Rightarrow> [])) s1
      | RelayResult r \<Rightarrow> respondResult cfg v rid r s1)"

text \<open>The client reader: what a frame of a viewer does, and whether it goes on to the viewer's own connection.\<close>

definition viewerFrame :: "teeConfig \<Rightarrow> nat \<Rightarrow> string \<Rightarrow> relayAnswer \<Rightarrow> teeServer \<Rightarrow> teeServer \<times> bool" where
  "viewerFrame cfg v data ans s = (case harnessAskAnswer data of
      Some (i, result) \<Rightarrow> (resolveAsk cfg i result s, False)
    | None \<Rightarrow> (case interceptRunFrame cfg data s of
        RouteUpstream \<Rightarrow> (s, True)
      | RouteDropped \<Rightarrow> (s, False)
      | RouteRefused rid code message \<Rightarrow> (respondError cfg v rid (errorMembers code message) s, False)
      | RouteSteer rid params \<Rightarrow> (relaySteer cfg v rid params ans s, False)
      | RouteCancel params \<Rightarrow> (s\<lparr>ts_responsive := True, ts_toRun := ts_toRun s @ [(''session/cancel'', params)]\<rparr>, False)))"

section \<open>Traces\<close>

datatype teeEvent =
    EvAttachRun string
  | EvRunActive bool
  | EvUpdate "(string \<times> json) list"
  | EvNotice string
  | EvOutcome string
  | EvRunNotification string string \<comment> \<open>method and frame\<close>
  | EvJoin nat
  | EvAdd nat
  | EvRemove nat
  | EvWrite nat
  | EvPipe nat string
  | EvClose nat
  | EvFrame nat string relayAnswer
  | EvPermission json
  | EvElicitation json
  | EvOffer string
  | EvTakeAnswer string
  | EvAskShutdown string
  | EvAskTimeout string
  | EvDone
  | EvStopped

definition onViewer :: "nat \<Rightarrow> (viewer \<Rightarrow> viewer) \<Rightarrow> teeServer \<Rightarrow> teeServer" where
  "onViewer i f s = s\<lparr>ts_viewers := map (\<lambda>(j, v). (j, if j = i then f v else v)) (ts_viewers s)\<rparr>"

fun teeStep :: "teeConfig \<Rightarrow> teeEvent \<Rightarrow> teeServer \<Rightarrow> teeServer" where
  "teeStep cfg (EvAttachRun session) s = s\<lparr>ts_runSession := session\<rparr>"
| "teeStep cfg (EvRunActive b) s = s\<lparr>ts_runActive := b\<rparr>"
| "teeStep cfg (EvUpdate u) s = EmitRunUpdate cfg u s"
| "teeStep cfg (EvNotice m) s = EmitRunNotice cfg m s"
| "teeStep cfg (EvOutcome m) s = EmitRunOutcome cfg m s"
| "teeStep cfg (EvRunNotification method frame) s =
     (if ts_runSession s \<noteq> [] \<and> (method = sessionUpdateMethod \<or> method = gooseUpdateMethod) then broadcast cfg (PipeFrame frame) s else s)"
| "teeStep cfg (EvJoin i) s = (if i \<in> fst ` set (ts_viewers s @ ts_joining s) then s else joinViewer cfg i s)"
| "teeStep cfg (EvAdd i) s = addViewer i s"
| "teeStep cfg (EvRemove i) s = removeViewer i s"
| "teeStep cfg (EvWrite i) s = onViewer i (\<lambda>v. v\<lparr>vw_out := tl (vw_out v)\<rparr>) s"
| "teeStep cfg (EvPipe i frame) s = toViewer cfg i (PipeFrame frame) s"
| "teeStep cfg (EvClose i) s = onViewer i shutdown s"
| "teeStep cfg (EvFrame i data ans) s = fst (viewerFrame cfg i data ans s)"
| "teeStep cfg (EvPermission params) s = forwardAsk ''kperm'' permissionMethod params s"
| "teeStep cfg (EvElicitation params) s = forwardAsk ''kask'' elicitationMethod params s"
| "teeStep cfg (EvOffer i) s = offerAsk cfg i s"
| "teeStep cfg (EvTakeAnswer i) s = takeAnswer i s"
| "teeStep cfg (EvAskShutdown i) s = askShutdown cfg i s"
| "teeStep cfg (EvAskTimeout i) s = askTimeout cfg i s"
| "teeStep cfg EvDone s = s\<lparr>ts_done := True\<rparr>"
| "teeStep cfg EvStopped s = (if ts_done s then s\<lparr>ts_stopped := True\<rparr> else s)"

inductive teeTrace :: "teeConfig \<Rightarrow> teeEvent list \<Rightarrow> teeServer \<Rightarrow> bool" for cfg where
  start: "teeTrace cfg [] newTee"
| step: "teeTrace cfg evs s \<Longrightarrow> teeTrace cfg (evs @ [e]) (teeStep cfg e s)"

inductive_simps teeTrace_Nil: "teeTrace cfg [] s"

lemma teeTrace_fold: "teeTrace cfg evs (fold (teeStep cfg) evs newTee)"
proof (induction evs rule: rev_induct)
  case (snoc e evs)
  then show ?case using teeTrace.step by fastforce
qed (simp add: teeTrace.start)

section \<open>Frames of the operations\<close>

lemma queue_frames [simp]:
  "ts_replay (broadcast cfg f s) = ts_replay s" "ts_replay (toViewer cfg i f s) = ts_replay s" "ts_replay (onViewer i g s) = ts_replay s"
  "ts_runSession (broadcast cfg f s) = ts_runSession s" "ts_runSession (toViewer cfg i f s) = ts_runSession s" "ts_runSession (onViewer i g s) = ts_runSession s"
  "ts_toRun (broadcast cfg f s) = ts_toRun s" "ts_toRun (toViewer cfg i f s) = ts_toRun s" "ts_toRun (onViewer i g s) = ts_toRun s"
  "ts_parked (broadcast cfg f s) = ts_parked s" "ts_parked (toViewer cfg i f s) = ts_parked s" "ts_parked (onViewer i g s) = ts_parked s"
  "ts_results (broadcast cfg f s) = ts_results s" "ts_results (toViewer cfg i f s) = ts_results s" "ts_results (onViewer i g s) = ts_results s"
  "ts_perms (broadcast cfg f s) = ts_perms s" "ts_perms (toViewer cfg i f s) = ts_perms s" "ts_perms (onViewer i g s) = ts_perms s"
  "ts_permSeq (broadcast cfg f s) = ts_permSeq s" "ts_permSeq (toViewer cfg i f s) = ts_permSeq s" "ts_permSeq (onViewer i g s) = ts_permSeq s"
  "ts_pendingAsks (broadcast cfg f s) = ts_pendingAsks s" "ts_pendingAsks (toViewer cfg i f s) = ts_pendingAsks s" "ts_pendingAsks (onViewer i g s) = ts_pendingAsks s"
  by (simp_all add: broadcast_def toViewer_def onViewer_def)

lemmas small_ops = joinViewer_def addViewer_def removeViewer_def emitAskResolution_def forwardAsk_def mapParked_def offerAsk_def settleAsk_def takeAnswer_def
  askShutdown_def askTimeout_def resolveAsk_def relaySteer_def respondError_def respondResult_def viewerFrame_def

lemma emit_frames [simp]:
  "ts_runSession (emitRunFrame cfg m u k s) = ts_runSession s" "ts_toRun (emitRunFrame cfg m u k s) = ts_toRun s" "ts_parked (emitRunFrame cfg m u k s) = ts_parked s"
  "ts_results (emitRunFrame cfg m u k s) = ts_results s" "ts_perms (emitRunFrame cfg m u k s) = ts_perms s" "ts_permSeq (emitRunFrame cfg m u k s) = ts_permSeq s"
  "ts_pendingAsks (emitRunFrame cfg m u k s) = ts_pendingAsks s"
  by (simp_all add: emitRunFrame_def Let_def)

section \<open>The replay ring\<close>

lemma dropKey_keeps: "k' \<noteq> k \<Longrightarrow> map_of (dropKey k ring) k' = map_of ring k'"
  by (induction ring) auto

lemma dropKey_subset: "set (dropKey k ring) \<subseteq> set ring"
  by (induction ring) auto

lemma dropKey_other: "k' \<noteq> k \<Longrightarrow> filter (\<lambda>e. fst e = k') (dropKey k ring) = filter (\<lambda>e. fst e = k') ring"
  by (induction ring) auto

definition keysOf :: "(string \<times> json) list \<Rightarrow> string list" where
  "keysOf ring = filter (\<lambda>k. k \<noteq> []) (map fst ring)"

definition replayKeys :: "string list" where
  "replayKeys = [replayKeyPlan, replayKeyOutcome, replayKeyPush, replayKeyPushUpdate]"

definition ringOK :: "(string \<times> json) list \<Rightarrow> bool" where
  "ringOK ring = (distinct (keysOf ring) \<and> set (keysOf ring) \<subseteq> set replayKeys)"

lemma dropKey_keysOf: "keysOf (dropKey k ring) = (if k = [] then keysOf ring else remove1 k (keysOf ring))"
  by (induction ring) (auto simp: keysOf_def)

lemma keyed_few: "ringOK ring \<Longrightarrow> [] \<notin> fst ` set ring \<Longrightarrow> length ring \<le> 4"
proof -
  assume r: "ringOK ring" "[] \<notin> fst ` set ring"
  have "filter (\<lambda>k. k \<noteq> []) (map fst ring) = map fst ring" using r(2) by (force simp: filter_id_conv)
  then have k: "keysOf ring = map fst ring" by (simp add: keysOf_def)
  have "card (set (keysOf ring)) \<le> card (set replayKeys)" using r(1) by (intro card_mono) (auto simp: ringOK_def)
  also have "\<dots> \<le> 4" using card_length [of replayKeys] by (simp add: replayKeys_def)
  finally show ?thesis using r(1) distinct_card [of "keysOf ring"] by (simp add: ringOK_def k)
qed

lemma trimReplay_keeps:
  assumes "ringOK ring"
  shows "length (trimReplay ring) \<le> replayCap \<and> ringOK (trimReplay ring) \<and> (\<forall>k. k \<noteq> [] \<longrightarrow> map_of (trimReplay ring) k = map_of ring k)"
  using assms
proof (induction ring rule: trimReplay.induct)
  case (1 ring)
  show ?case
  proof (cases "length ring > replayCap")
    case True
    then have "[] \<in> fst ` set ring" using keyed_few [OF 1(2)] by (fastforce simp: replayCap_def)
    then have d: "dropOldest ring = dropKey [] ring" by (simp add: dropOldest_def)
    have "ringOK (dropOldest ring)" using 1(2) by (simp add: d ringOK_def dropKey_keysOf)
    then show ?thesis using 1(1) [OF True] True dropKey_keeps by (simp add: trimReplay.simps [of ring] d)
  next
    case False
    then show ?thesis using 1(2) by (simp add: trimReplay.simps [of ring])
  qed
qed

lemma dropKey_gone: "distinct (keysOf ring) \<Longrightarrow> k \<noteq> [] \<Longrightarrow> map_of (dropKey k ring) k = None"
  by (induction ring) (auto simp: keysOf_def map_of_eq_None_iff split: if_splits)

lemma remember_ring:
  assumes "ringOK ring" and "k = [] \<or> k \<in> set replayKeys"
  shows "length (remember k f ring) \<le> replayCap \<and> ringOK (remember k f ring)
    \<and> (\<forall>j. j \<noteq> [] \<longrightarrow> map_of (remember k f ring) j = (if j = k then Some f else map_of ring j))"
proof -
  define r where "r = (if k \<noteq> [] then dropKey k ring else ring) @ [(k, f)]"
  have "keysOf r = (if k = [] then keysOf ring else remove1 k (keysOf ring) @ [k])" using dropKey_keysOf [of k ring] by (simp add: r_def keysOf_def)
  then have "ringOK r" using assms set_remove1_subset [of k "keysOf ring"] by (auto simp: ringOK_def)
  moreover have "map_of r j = (if j = k then Some f else map_of ring j)" if "j \<noteq> []" for j
    using that assms(1) dropKey_gone [of ring k] dropKey_keeps [of j k ring] by (auto simp: r_def map_add_def ringOK_def split: option.splits)
  ultimately show ?thesis using trimReplay_keeps [of r] by (simp add: remember_def r_def)
qed

text \<open>The frame the harness emitted last under a key, read off a trace.\<close>

fun emittedUnder :: "string \<Rightarrow> teeEvent \<Rightarrow> (string \<times> json) option" where
  "emittedUnder session (EvUpdate u) = (if session = [] then None else Some (replayKeyFor u, runFrame sessionUpdateMethod session (JObj u)))"
| "emittedUnder session (EvNotice m) = (if session = [] then None else Some ([], runFrame gooseUpdateMethod session (noticeUpdate m)))"
| "emittedUnder session (EvOutcome m) = (if session = [] then None else Some (replayKeyOutcome, runFrame gooseUpdateMethod session (noticeUpdate m)))"
| "emittedUnder session _ = None"

fun sessionAfter :: "string \<Rightarrow> teeEvent \<Rightarrow> string" where
  "sessionAfter session (EvAttachRun x) = x"
| "sessionAfter session _ = session"

definition runSessionOf :: "teeEvent list \<Rightarrow> string" where
  "runSessionOf evs = foldl sessionAfter [] evs"

fun lastBack :: "string \<Rightarrow> teeEvent list \<Rightarrow> json option" where
  "lastBack k [] = None"
| "lastBack k (e # es) = (case emittedUnder (runSessionOf (rev es)) e of
      Some (k', f) \<Rightarrow> if k' = k then Some f else lastBack k es
    | None \<Rightarrow> lastBack k es)"

definition lastEmitted :: "string \<Rightarrow> teeEvent list \<Rightarrow> json option" where
  "lastEmitted k evs = lastBack k (rev evs)"

lemma lastEmitted_snoc:
  "lastEmitted k (evs @ [e]) = (case emittedUnder (runSessionOf evs) e of Some (k', f) \<Rightarrow> if k' = k then Some f else lastEmitted k evs | None \<Rightarrow> lastEmitted k evs)"
  unfolding lastEmitted_def by simp

lemma step_session: "ts_runSession (teeStep cfg e s) = sessionAfter (ts_runSession s) e"
  by (cases e) (auto simp: EmitRunUpdate_def EmitRunNotice_def EmitRunOutcome_def small_ops Let_def split: option.splits route.splits relayAnswer.splits)

lemma step_replay:
  "ts_replay (teeStep cfg e s) = (case emittedUnder (ts_runSession s) e of Some (k, f) \<Rightarrow> remember k f (ts_replay s) | None \<Rightarrow> ts_replay s)"
  by (cases e) (auto simp: EmitRunUpdate_def EmitRunNotice_def EmitRunOutcome_def emitRunFrame_def small_ops Let_def split: option.splits route.splits relayAnswer.splits)

lemma replayKeyFor_key: "replayKeyFor u = [] \<or> replayKeyFor u \<in> set replayKeys"
  by (simp add: replayKeyFor_def replayKeys_def Let_def)

lemma emitted_key: "emittedUnder session e = Some (k, f) \<Longrightarrow> k = [] \<or> k \<in> set replayKeys"
  using replayKeyFor_key by (cases e) (auto simp: replayKeys_def split: if_splits)

lemma trace_session: "teeTrace cfg evs s \<Longrightarrow> ts_runSession s = runSessionOf evs"
  by (induction rule: teeTrace.induct) (simp_all add: newTee_def runSessionOf_def step_session)

lemma trace_replay:
  "teeTrace cfg evs s \<Longrightarrow> length (ts_replay s) \<le> replayCap \<and> ringOK (ts_replay s) \<and> (\<forall>k. k \<noteq> [] \<longrightarrow> map_of (ts_replay s) k = lastEmitted k evs)"
proof (induction rule: teeTrace.induct)
  case start
  then show ?case by (simp add: newTee_def ringOK_def keysOf_def lastEmitted_def)
next
  case (step evs s e)
  show ?case
  proof (cases "emittedUnder (runSessionOf evs) e")
    case None
    then show ?thesis using step.IH by (simp add: step_replay trace_session [OF step.hyps] lastEmitted_snoc)
  next
    case (Some kf)
    obtain k f where kf: "kf = (k, f)" by (cases kf)
    show ?thesis using remember_ring [of "ts_replay s" k f] emitted_key [OF Some [unfolded kf]] step.IH
      by (auto simp: step_replay trace_session [OF step.hyps] lastEmitted_snoc Some kf)
  qed
qed

lemma enqueue_fold:
  "length (vw_out v) + length fs \<le> n \<Longrightarrow> \<not> vw_closed v \<Longrightarrow> fold (\<lambda>f. enqueue n (HarnessFrame f)) fs v = v\<lparr>vw_out := vw_out v @ map HarnessFrame fs\<rparr>"
  by (induction fs arbitrary: v) (simp_all add: enqueue_def)

text \<open>C22: A late viewer is told where the run stands. Whatever was emitted before, at most 32 frames are kept, and a viewer
  that attaches is queued the last plan, the last push and its result, and the outcome, as they were emitted last, and
  every ask that is still open.\<close>

theorem late_viewer_catches_up:
  assumes "teeTrace cfg evs s" and "length (ts_pendingAsks s) \<le> n" and "32 + n \<le> queueCap cfg" and "k \<in> set replayKeys" and "lastEmitted k evs = Some f"
  shows "length (ts_replay s) \<le> 32 \<and> HarnessFrame f \<in> set (vw_out (catchUp cfg s)) \<and> HarnessFrame ` snd ` set (ts_pendingAsks s) \<subseteq> set (vw_out (catchUp cfg s))
     \<and> \<not> vw_closed (catchUp cfg s)"
proof -
  have k: "k \<noteq> []" using assms(4) by (auto simp: replayKeys_def replay_keys)
  have r: "length (ts_replay s) \<le> 32" "map_of (ts_replay s) k = Some f" using trace_replay [OF assms(1)] assms(5) k by (auto simp: replayCap_def)
  have "length (backlog s) \<le> queueCap cfg" using r(1) assms(2,3) by (simp add: backlog_def)
  then have c: "catchUp cfg s = \<lparr>vw_out = map HarnessFrame (backlog s), vw_closed = False\<rparr>" by (simp add: catchUp_def enqueue_fold)
  show ?thesis using r map_of_SomeD [OF r(2)] by (force simp: c backlog_def)
qed

section \<open>Asks are settled once\<close>

fun answersAsk :: "string \<Rightarrow> json \<Rightarrow> teeEvent \<Rightarrow> bool" where
  "answersAsk i r (EvFrame v data ans) = (harnessAskAnswer data = Some (i, Some r))"
| "answersAsk i r _ = False"

definition askName :: "nat \<Rightarrow> string \<Rightarrow> bool" where
  "askName n i = (\<exists>pre k. (pre = ''kperm'' \<or> pre = ''kask'') \<and> k \<le> n \<and> i = askID pre k)"

definition asksOK :: "teeEvent list \<Rightarrow> nat \<Rightarrow> string list \<Rightarrow> (string \<times> parkedAsk) list \<Rightarrow> (string \<times> json option \<times> PermissionForwardOutcome) list \<Rightarrow> bool" where
  "asksOK evs n perms parked results \<longleftrightarrow>
     distinct (map fst parked @ map fst results) \<and> list_all (askName n) (map fst parked @ map fst results) \<and> set perms \<subseteq> fst ` set parked
     \<and> (\<forall>i p r. (i, p) \<in> set parked \<longrightarrow> pk_chan p = Some r \<longrightarrow> list_ex (answersAsk i r) evs)
     \<and> (\<forall>i r. (i, r, ForwardAnswered) \<in> set results \<longrightarrow> (\<exists>x. r = Some x \<and> list_ex (answersAsk i x) evs))"

lemma askID_inj: "pre = ''kperm'' \<or> pre = ''kask'' \<Longrightarrow> pre' = ''kperm'' \<or> pre' = ''kask'' \<Longrightarrow> askID pre n = askID pre' k \<Longrightarrow> n = k"
  by (auto simp: askID_def showNat_inj)

lemma askName_fresh: "pre = ''kperm'' \<or> pre = ''kask'' \<Longrightarrow> \<not> askName n (askID pre (Suc n))"
proof
  assume p: "pre = ''kperm'' \<or> pre = ''kask''" and "askName n (askID pre (Suc n))"
  then obtain pre' k where "pre' = ''kperm'' \<or> pre' = ''kask''" "k \<le> n" "askID pre (Suc n) = askID pre' k" unfolding askName_def by blast
  then show False using askID_inj [OF p] by fastforce
qed

lemma askName_mono: "askName n i \<Longrightarrow> askName (Suc n) i"
  by (auto simp: askName_def intro: le_SucI)

lemma askName_new: "pre = ''kperm'' \<or> pre = ''kask'' \<Longrightarrow> askName (Suc n) (askID pre (Suc n))"
  by (auto simp: askName_def)

lemma asksOK_mono: "asksOK evs n perms parked results \<Longrightarrow> asksOK (evs @ [e]) n perms parked results"
  by (fastforce simp: asksOK_def)

lemma asksOK_refused:
  assumes "asksOK evs n perms parked results" and "pre = ''kperm'' \<or> pre = ''kask''"
  shows "asksOK evs (Suc n) perms parked (results @ [(askID pre (Suc n), None, ForwardNoViewers)])"
  using assms askName_fresh [OF assms(2), of n] askName_new [OF assms(2), of n]
  by (auto simp: asksOK_def list_all_iff intro: askName_mono)

lemma asksOK_parked:
  assumes "asksOK evs n perms parked results" and "pre = ''kperm'' \<or> pre = ''kask''" and "pk_chan p = None"
  shows "asksOK evs (Suc n) (askID pre (Suc n) # perms) (parked @ [(askID pre (Suc n), p)]) results"
  using assms askName_fresh [OF assms(2), of n] askName_new [OF assms(2), of n]
  by (auto simp: asksOK_def list_all_iff intro: askName_mono)

lemma asksOK_map:
  assumes "asksOK evs n perms parked results" and "set perms' \<subseteq> set perms" and "\<And>p r. pk_chan (f p) = Some r \<Longrightarrow> pk_chan p = Some r \<or> list_ex (answersAsk i r) evs"
  shows "asksOK evs n perms' (map (\<lambda>(j, p). (j, if j = i then f p else p)) parked) results"
proof -
  have m: "map fst (map (\<lambda>(j, p). (j, if j = i then f p else p)) parked) = map fst parked" by auto
  have "fst ` set (map (\<lambda>(j, p). (j, if j = i then f p else p)) parked) = fst ` set parked" by force
  then show ?thesis using assms unfolding asksOK_def m by (fastforce split: if_splits)
qed

lemma asksOK_settle:
  assumes "asksOK evs n perms parked results" and "(i, p) \<in> set parked" and "out = ForwardAnswered \<Longrightarrow> \<exists>x. r = Some x \<and> list_ex (answersAsk i x) evs"
  shows "asksOK evs n (removeAll i perms) (filter (\<lambda>(j, p). j \<noteq> i) parked) (results @ [(i, r, out)])"
proof -
  have m: "map fst (filter (\<lambda>(j, p). j \<noteq> i) parked) = filter (\<lambda>j. j \<noteq> i) (map fst parked)"
    by (induction parked) auto
  have i: "i \<in> fst ` set parked" using assms(2) by force
  have s: "set perms \<subseteq> fst ` set parked" using assms(1) by (simp add: asksOK_def)
  have q: "set (removeAll i perms) \<subseteq> fst ` set (filter (\<lambda>(j, p). j \<noteq> i) parked)"
  proof
    fix x
    assume "x \<in> set (removeAll i perms)"
    then obtain y where "(x, y) \<in> set parked" "x \<noteq> i" using s by auto
    then have "(x, y) \<in> set (filter (\<lambda>(j, p). j \<noteq> i) parked)" by simp
    then show "x \<in> fst ` set (filter (\<lambda>(j, p). j \<noteq> i) parked)" by (rule image_eqI [rotated]) simp
  qed
  have d: "distinct (filter (\<lambda>j. j \<noteq> i) (map fst parked) @ map fst (results @ [(i, r, out)]))" using assms(1) i by (auto simp: asksOK_def)
  have l: "list_all (askName n) (filter (\<lambda>j. j \<noteq> i) (map fst parked) @ map fst (results @ [(i, r, out)]))"
    using assms(1) i by (auto simp: asksOK_def list_all_iff)
  show ?thesis using assms(1,3) q d l unfolding asksOK_def m by auto
qed

abbreviation asksOf :: "teeEvent list \<Rightarrow> teeServer \<Rightarrow> bool" where
  "asksOf evs s \<equiv> asksOK evs (ts_permSeq s) (ts_perms s) (ts_parked s) (ts_results s)"

lemma asks_forward: "asksOf evs s \<Longrightarrow> pre = ''kperm'' \<or> pre = ''kask'' \<Longrightarrow> asksOf evs (forwardAsk pre method params s)"
  by (simp add: forwardAsk_def Let_def asksOK_refused asksOK_parked)

lemma asks_offer: "asksOf evs s \<Longrightarrow> asksOf evs (offerAsk cfg i s)"
  by (auto simp: offerAsk_def mapParked_def intro!: asksOK_map split: option.split)

lemma asks_settleAsk:
  "asksOf evs s \<Longrightarrow> map_of (ts_parked s) i = Some p \<Longrightarrow> (out = ForwardAnswered \<Longrightarrow> \<exists>x. r = Some x \<and> list_ex (answersAsk i x) evs) \<Longrightarrow> asksOf evs (settleAsk i (r, out) s)"
  by (simp add: settleAsk_def asksOK_settle [OF _ map_of_SomeD])

lemma asks_take: "asksOf evs s \<Longrightarrow> asksOf evs (takeAnswer i s)"
proof (cases "map_of (ts_parked s) i")
  case (Some p)
  assume a: "asksOf evs s"
  have "pk_chan p = Some r \<Longrightarrow> list_ex (answersAsk i r) evs" for r using a map_of_SomeD [OF Some] by (simp add: asksOK_def)
  then show ?thesis using asks_settleAsk [OF a Some] a by (simp add: takeAnswer_def Some split: option.split)
qed (simp add: takeAnswer_def)

lemma asks_end: "asksOf evs s \<Longrightarrow> asksOf evs (askShutdown cfg i s)" "asksOf evs s \<Longrightarrow> asksOf evs (askTimeout cfg i s)"
  by (auto simp: askShutdown_def askTimeout_def emitAskResolution_def intro!: asks_settleAsk split: option.split)

lemma asks_resolve:
  assumes "asksOf evs s" and "\<And>r. result = Some r \<Longrightarrow> list_ex (answersAsk i r) evs"
  shows "asksOf evs (resolveAsk cfg i result s)"
proof -
  have "asksOK evs (ts_permSeq s) (removeAll i (ts_perms s)) (map (\<lambda>(j, p). (j, if j = i then p\<lparr>pk_chan := Some r\<rparr> else p)) (ts_parked s)) (ts_results s)"
    if "result = Some r" for r
    by (rule asksOK_map [OF assms(1)]) (use assms(2) [OF that] in auto)
  then show ?thesis using assms(1) by (simp add: resolveAsk_def emitAskResolution_def mapParked_def Let_def split: option.split)
qed

lemma asks_frame:
  assumes "asksOf evs s"
  shows "asksOf (evs @ [EvFrame v data ans]) (fst (viewerFrame cfg v data ans s))"
proof (cases "harnessAskAnswer data")
  case None
  then show ?thesis using asksOK_mono [OF assms]
    by (simp add: viewerFrame_def relaySteer_def respondError_def respondResult_def Let_def split: route.split relayAnswer.split)
next
  case (Some a)
  obtain i result where a: "a = (i, result)" by (cases a)
  have "asksOf (evs @ [EvFrame v data ans]) (resolveAsk cfg i result s)"
    by (rule asks_resolve [OF asksOK_mono [OF assms]]) (simp add: Some a)
  then show ?thesis by (simp add: viewerFrame_def Some a)
qed

lemma trace_asks: "teeTrace cfg evs s \<Longrightarrow> asksOf evs s"
proof (induction rule: teeTrace.induct)
  case start
  then show ?case by (simp add: newTee_def asksOK_def)
next
  case (step evs s e)
  have m: "asksOf (evs @ [e]) s" using asksOK_mono [OF step.IH] .
  show ?case
  proof (cases e)
    case (EvFrame v data ans)
    then show ?thesis using asks_frame [OF step.IH] by simp
  qed (use m asks_forward [OF m] asks_offer [OF m] asks_take [OF m] asks_end [OF m] in
      \<open>auto simp: EmitRunUpdate_def EmitRunNotice_def EmitRunOutcome_def joinViewer_def addViewer_def removeViewer_def Let_def split: option.splits\<close>)
qed

text \<open>C21: An ask is settled once, and only a viewer answers it. In every trace \<open>forwardAsk\<close> returns at most once for an
  ask, an ask that was returned is not parked any more, and when it returns an answer, a viewer sent that result under
  the id of that ask.\<close>

theorem asks_settle_once:
  assumes "teeTrace cfg evs s"
  shows "distinct (map fst (ts_parked s) @ map fst (ts_results s))
     \<and> list_all (\<lambda>(i, r, out). out = ForwardAnswered \<longrightarrow> (\<exists>x. r = Some x \<and> list_ex (answersAsk i x) evs)) (ts_results s)"
  using trace_asks [OF assms] by (auto simp: asksOK_def list_all_iff)

section \<open>Viewers and the run\<close>

definition relayOK :: "teeConfig \<Rightarrow> teeEvent list \<Rightarrow> string \<times> json \<Rightarrow> bool" where
  "relayOK cfg evs = (\<lambda>(method, params). tc_SteerEnabled cfg \<and> (method = steerMethod \<or> method = ''session/cancel'')
     \<and> list_ex (\<lambda>e. case e of EvAttachRun session \<Rightarrow> session \<noteq> [] \<and> namesSession session (Some params) | _ \<Rightarrow> False) evs)"

lemma intercept_ok:
  "interceptRunFrame cfg data s = RouteSteer rid params \<Longrightarrow> tc_SteerEnabled cfg \<and> ts_runSession s \<noteq> [] \<and> namesSession (ts_runSession s) (Some params)"
  "interceptRunFrame cfg data s = RouteCancel params \<Longrightarrow> tc_SteerEnabled cfg \<and> ts_runSession s \<noteq> [] \<and> namesSession (ts_runSession s) (Some params)"
  by (auto simp: interceptRunFrame_def runRoute_def split: if_splits option.splits json.splits)

lemma step_toRun:
  "ts_toRun (teeStep cfg e s) = ts_toRun s \<or> (\<exists>method params. ts_toRun (teeStep cfg e s) = ts_toRun s @ [(method, params)]
     \<and> tc_SteerEnabled cfg \<and> (method = steerMethod \<or> method = ''session/cancel'') \<and> ts_runSession s \<noteq> [] \<and> namesSession (ts_runSession s) (Some params))"
proof (cases e)
  case (EvFrame v data ans)
  show ?thesis
  proof (cases "harnessAskAnswer data")
    case None
    show ?thesis
    proof (cases "interceptRunFrame cfg data s")
      case (RouteSteer rid params)
      then show ?thesis using intercept_ok(1) [OF RouteSteer]
        by (auto simp: EvFrame None viewerFrame_def relaySteer_def respondError_def respondResult_def Let_def split: relayAnswer.splits)
    next
      case (RouteCancel params)
      then show ?thesis using intercept_ok(2) [OF RouteCancel] by (auto simp: EvFrame None viewerFrame_def)
    qed (auto simp: EvFrame None viewerFrame_def respondError_def)
  qed (auto simp: EvFrame viewerFrame_def resolveAsk_def emitAskResolution_def mapParked_def Let_def split: option.splits)
qed (auto simp: EmitRunUpdate_def EmitRunNotice_def EmitRunOutcome_def joinViewer_def addViewer_def removeViewer_def forwardAsk_def offerAsk_def mapParked_def
    settleAsk_def takeAnswer_def askShutdown_def askTimeout_def emitAskResolution_def Let_def split: option.splits)

lemma runSession_attached: "runSessionOf evs \<noteq> [] \<Longrightarrow> EvAttachRun (runSessionOf evs) \<in> set evs"
proof (induction evs rule: rev_induct)
  case (snoc e evs)
  then show ?case by (cases e) (auto simp: runSessionOf_def)
qed (simp add: runSessionOf_def)

lemma trace_toRun: "teeTrace cfg evs s \<Longrightarrow> list_all (relayOK cfg evs) (ts_toRun s)"
proof (induction rule: teeTrace.induct)
  case (step evs s e)
  have m: "list_all (relayOK cfg (evs @ [e])) (ts_toRun s)" using step.IH by (auto simp: list_all_iff relayOK_def)
  have a: "ts_runSession s \<noteq> [] \<Longrightarrow> EvAttachRun (ts_runSession s) \<in> set evs" using runSession_attached trace_session [OF step.hyps] by simp
  show ?case using step_toRun [of cfg e s] m a by (fastforce simp: relayOK_def list_ex_iff)
qed (simp add: newTee_def)


section \<open>Samples\<close>

definition sampleTee :: teeConfig where
  "sampleTee = \<lparr>tc_SecretKey = ''key'', tc_QueueCap = 0, tc_SteerEnabled = True\<rparr>"

definition answerText :: string where
  "answerText = marshal (JObj [(''id'', JStr ''kask-1''), (''result'', JStr ''yes'')])"

definition steerText :: string where
  "steerText = marshal (JObj [(''id'', JStr ''v1''), (''method'', JStr steerMethod), (''params'', JObj [(''sessionId'', JStr ''s1'')])])"

lemma answer_read: "harnessAskAnswer answerText = Some (''kask-1'', Some (JStr ''yes''))"
  by code_simp

definition outcomeTrace :: "teeEvent list" where
  "outcomeTrace = [EvAttachRun ''s1'', EvOutcome ''stage succeeded'', EvNotice ''late'']"

theorem late_viewer_catches_up_witness:
  "HarnessFrame (runFrame gooseUpdateMethod ''s1'' (noticeUpdate ''stage succeeded'')) \<in> set (vw_out (catchUp sampleTee (fold (teeStep sampleTee) outcomeTrace newTee)))"
proof -
  have p: "ts_pendingAsks (fold (teeStep sampleTee) outcomeTrace newTee) = []" by (simp add: outcomeTrace_def EmitRunOutcome_def EmitRunNotice_def newTee_def)
  have l: "lastEmitted replayKeyOutcome outcomeTrace = Some (runFrame gooseUpdateMethod ''s1'' (noticeUpdate ''stage succeeded''))"
    by (simp add: lastEmitted_def outcomeTrace_def runSessionOf_def replay_keys)
  have q: "queueCap sampleTee = 256" by (simp add: queueCap_def sampleTee_def DefaultQueueCap_def)
  show ?thesis using late_viewer_catches_up [OF teeTrace_fold, of sampleTee outcomeTrace 0 replayKeyOutcome, OF _ _ _ l] by (simp add: p q replayKeys_def)
qed

definition answerTrace :: "teeEvent list" where
  "answerTrace = [EvAttachRun ''s1'', EvJoin 1, EvAdd 1, EvElicitation JNull, EvOffer ''kask-1'', EvFrame 1 answerText (RelayFailed []), EvTakeAnswer ''kask-1'']"

lemma answer_returned: "ts_results (fold (teeStep sampleTee) answerTrace newTee) = [(''kask-1'', Some (JStr ''yes''), ForwardAnswered)]"
proof -
  have i: "askID ''kask'' (Suc 0) = ''kask-1''" by code_simp
  show ?thesis
    by (simp add: answerTrace_def newTee_def joinViewer_def addViewer_def forwardAsk_def i offerAsk_def mapParked_def broadcast_def viewerFrame_def answer_read
        resolveAsk_def emitAskResolution_def takeAnswer_def settleAsk_def Let_def)
qed

theorem asks_settle_once_witness:
  "ts_results (fold (teeStep sampleTee) answerTrace newTee) = [(''kask-1'', Some (JStr ''yes''), ForwardAnswered)] \<and> list_ex (answersAsk ''kask-1'' (JStr ''yes'')) answerTrace"
  using asks_settle_once [OF teeTrace_fold, of sampleTee answerTrace] by (simp add: answer_returned)

definition steerTrace :: "teeEvent list" where
  "steerTrace = [EvAttachRun ''s1'', EvJoin 1, EvAdd 1, EvFrame 1 steerText (RelayResult None)]"

lemma steer_read_eval:
  "(interceptRunFrame sampleTee steerText (newTee\<lparr>ts_runSession := ''s1''\<rparr>) = RouteSteer (JStr ''v1'') (JObj [(''sessionId'', JStr ''s1'')]))
   \<and> (harnessAskAnswer steerText = None)"
  by code_simp

lemma steer_read:
  "interceptRunFrame sampleTee steerText (newTee\<lparr>ts_runSession := ''s1''\<rparr>) = RouteSteer (JStr ''v1'') (JObj [(''sessionId'', JStr ''s1'')])"
  "harnessAskAnswer steerText = None"
  using steer_read_eval by blast+

lemma intercept_cong:
  "ts_runSession s = ts_runSession t \<Longrightarrow> ts_runActive s = ts_runActive t \<Longrightarrow> interceptRunFrame cfg data s = interceptRunFrame cfg data t"
  unfolding interceptRunFrame_def by (simp only:)

lemma steer_relayed: "ts_toRun (fold (teeStep sampleTee) steerTrace newTee) = [(steerMethod, JObj [(''sessionId'', JStr ''s1'')])]"
proof -
  have "interceptRunFrame sampleTee steerText s = RouteSteer (JStr ''v1'') (JObj [(''sessionId'', JStr ''s1'')])"
    if "ts_runSession s = ''s1''" "\<not> ts_runActive s" for s
    using intercept_cong [of s "newTee\<lparr>ts_runSession := ''s1''\<rparr>" sampleTee steerText] steer_read(1) that by (simp add: newTee_def)
  then show ?thesis
    by (simp add: steerTrace_def newTee_def joinViewer_def catchUp_def backlog_def addViewer_def viewerFrame_def steer_read(2) relaySteer_def respondResult_def
        toViewer_def Let_def)
qed


text \<open>A viewer that took its backlog before an ask was recorded and registered after the ask was offered is attached while
  the ask is open and is never sent it.\<close>

definition raceTrace :: "teeEvent list" where
  "raceTrace = [EvAttachRun ''s1'', EvJoin 1, EvAdd 1, EvJoin 2, EvElicitation JNull, EvOffer ''kask-1'', EvAdd 2]"

lemma ask_missed:
  "let s = fold (teeStep sampleTee) raceTrace newTee in
   ts_pendingAsks s = [(''kask-1'', askFrame ''kask-1'' elicitationMethod JNull)] \<and> map_of (ts_viewers s) 2 = Some \<lparr>vw_out = [], vw_closed = False\<rparr>
   \<and> list_all (pk_offered \<circ> snd) (ts_parked s)"
proof -
  have i: "askID ''kask'' (Suc 0) = ''kask-1''" by code_simp
  show ?thesis
    by (simp add: raceTrace_def newTee_def joinViewer_def catchUp_def backlog_def addViewer_def forwardAsk_def i offerAsk_def mapParked_def broadcast_def Let_def)
qed

end
