(* ===== verification/HarnessLadder.thy ===== *)
theory HarnessLadder
  imports HarnessStage Tee "HOL-Library.Sublist"
begin

text \<open>
  The plan ladder the harness shows to viewers (src/harness/cmd/migration-harness/main.go): three rungs, each as a
  sentence and as data, which run through the tee. What is quoted of the task, how often the ladder is sent again, and
  the counts it reports. The parser of URLs is a parameter that gives host and path.
\<close>

section \<open>The excerpt of the task\<close>

definition taskSummaryMaxLen :: nat where "taskSummaryMaxLen = 80"
definition taskSummaryMarkers :: string where "taskSummaryMarkers = ''#*->''"
definition taskSummaryListMarkers :: string where "taskSummaryListMarkers = ''*-''"

definition taskSummaryPreambles :: "string list" where
  "taskSummaryPreambles = [''context'', ''background'', ''overview'', ''prerequisites'', ''assumptions'', ''note'', ''notes'']"

definition isTaskSummaryPreamble :: "string \<Rightarrow> bool" where
  "isTaskSummaryPreamble para = (let word = takeWhile (\<lambda>c. c \<noteq> CHR '' '') para in
     if \<not> hasSuffix word '':'' then False else toLower (butlast word) \<in> set taskSummaryPreambles)"

record summaryState =
  su_summary :: string
  su_fallback :: string
  su_para :: string
  su_lines :: nat
  su_hashed :: bool
  su_listed :: bool

definition emptySummary :: summaryState where
  "emptySummary = \<lparr>su_summary = [], su_fallback = [], su_para = [], su_lines = 0, su_hashed = False, su_listed = False\<rparr>"

definition flushPara :: "summaryState \<Rightarrow> summaryState" where
  "flushPara st =
     (if su_para st = [] then st
      else (let joined = su_para st; skip = (su_hashed st \<and> su_lines st = 1) \<or> isTaskSummaryPreamble joined in
        st\<lparr>su_para := [], su_lines := 0, su_listed := False,
          su_fallback := (if su_fallback st = [] then joined else su_fallback st),
          su_summary := (if su_summary st = [] \<and> \<not> skip then joined else su_summary st)\<rparr>))"

text \<open>A line that is not blank: its markers go, and it is joined to the paragraph.\<close>

definition joinLine :: "bool \<Rightarrow> string \<Rightarrow> summaryState \<Rightarrow> summaryState" where
  "joinLine item line st =
     (let sep = (if su_para st = [] then [] else if item \<and> su_listed st then ''; '' else '' '') in
      st\<lparr>su_para := su_para st @ sep @ joinStr '' '' (fieldsOf line), su_listed := su_listed st \<or> item, su_lines := Suc (su_lines st)\<rparr>)"

definition summaryLine :: "summaryState \<Rightarrow> string \<Rightarrow> summaryState" where
  "summaryLine st raw =
     (let line = trimSpace raw in
      if line = [] then flushPara st
      else (let marked = hd line \<in> set taskSummaryMarkers; item = hd line \<in> set taskSummaryListMarkers;
                st1 = (if su_para st = [] then st\<lparr>su_hashed := hasPrefix line ''#''\<rparr> else st);
                line1 = (if marked then trimSpace (cutLeft (asciiSet taskSummaryMarkers) line) else line) in
        if marked \<and> line1 = [] then st1 else joinLine item line1 st1))"

definition taskSummary :: "string \<Rightarrow> string" where
  "taskSummary text =
     (let st = flushPara (foldl summaryLine emptySummary (splitLines text));
          summary = (if su_summary st = [] then su_fallback st else su_summary st) in
      if length (runes summary) > taskSummaryMaxLen then trimSpace (concat (take (taskSummaryMaxLen - 1) (runes summary))) @ hellip else summary)"

definition summaryParamKey :: string where "summaryParamKey = ''summary''"

fun stringParam :: "(string \<times> json) list \<Rightarrow> string \<Rightarrow> string" where
  "stringParam [] k = []"
| "stringParam ((n, v) # vs) k =
     (if \<not> equalFold n k then stringParam vs k else (case v of JStr t \<Rightarrow> trimSpace t | _ \<Rightarrow> stringParam vs k))"

definition runGoal :: "Config \<Rightarrow> string" where
  "runGoal cfg =
     (let a = stringParam (hf_agent (cf_Params cfg)) summaryParamKey; w = stringParam (hf_workflow (cf_Params cfg)) summaryParamKey in
      if a \<noteq> [] then a else if w \<noteq> [] then w else cf_WorkflowGuide cfg)"

definition taskAndGoal :: "string list \<Rightarrow> Config \<Rightarrow> string \<times> string" where
  "taskAndGoal red cfg =
     (let excerpt = taskSummary (redact red (cf_StageInstructions cfg)) in
      (excerpt, if excerpt = [] then taskSummary (redact red (runGoal cfg)) else []))"

section \<open>Names and numbers\<close>

definition repoDisplayName :: "(string \<Rightarrow> (string \<times> string) option) \<Rightarrow> string \<Rightarrow> string" where
  "repoDisplayName urlParse rawURL =
     (if rawURL = [] then []
      else (case urlParse rawURL of
        None \<Rightarrow> []
      | Some (host, path) \<Rightarrow> if host = [] then []
          else (let p = trimRight (CHR ''/'') path in host @ (if hasSuffix p ''.git'' then take (length p - 4) p else p))))"

definition geoPrefixes :: "string list" where
  "geoPrefixes = [''us-gov.'', ''us.'', ''eu.'', ''apac.'']"

definition bedrockVersion :: "string \<Rightarrow> bool" where
  "bedrockVersion s = (hasPrefix s ''-v'' \<and> (let r = drop 2 s; m = takeWhile isDigit r; e = drop (length m) r in
     m \<noteq> [] \<and> (case e of c # n \<Rightarrow> c = CHR '':'' \<and> n \<noteq> [] \<and> list_all isDigit n | [] \<Rightarrow> False)))"

text \<open>The text before a version suffix, if there is one.\<close>

fun beforeVersion :: "string \<Rightarrow> string option" where
  "beforeVersion [] = None"
| "beforeVersion (c # s) = (if bedrockVersion (c # s) then Some [] else map_option (\<lambda>p. c # p) (beforeVersion s))"

definition modelDisplayName :: "string \<Rightarrow> string" where
  "modelDisplayName model =
     (let name = trimSpace model in
      if name = [] \<or> list_ex (\<lambda>c. c \<in> set [CHR ''/'', CHR '' '', CHR 0x09]) name then model
      else (let geo = find (hasPrefix name) geoPrefixes; name1 = (case geo of Some p \<Rightarrow> drop (length p) name | None \<Rightarrow> name) in
        if geo = None \<and> beforeVersion name1 = None then model
        else (let rest = tl (dropWhile (\<lambda>c. c \<noteq> CHR ''.'') name1);
                  name2 = (if CHR ''.'' \<in> set name1 \<and> rest \<noteq> [] then rest else name1);
                  name3 = (case beforeVersion name2 of Some p \<Rightarrow> p | None \<Rightarrow> name2) in
          if name3 = [] then model else name3)))"

definition ladderTurnSteps :: int where "ladderTurnSteps = 20"

definition shouldEmitTurn :: "int \<Rightarrow> int \<Rightarrow> bool" where
  "shouldEmitTurn n limit =
     (if n \<le> 1 \<or> limit \<le> 0 \<or> n \<ge> limit then True
      else (let step = (limit + ladderTurnSteps - 1) div ladderTurnSteps in if step < 2 then True else n mod step = 0))"

definition turnCeiling :: "Config \<Rightarrow> int \<Rightarrow> int" where
  "turnCeiling cfg turnsUsed =
     (let c0 = NativeTurnLimit (cf_MaxTurns cfg); c1 = (if turnsUsed > c0 then cf_MaxTurns cfg else c0) in
      if c1 > 0 then max c1 turnsUsed else c1)"

section \<open>The rungs\<close>

definition openQuote :: string where "openQuote = [CHR 0xE2, CHR 0x80, CHR 0x9C]"
definition closeQuote :: string where "closeQuote = [CHR 0xE2, CHR 0x80, CHR 0x9D]"

definition planPrepRung :: "(string \<Rightarrow> (string \<times> string) option) \<Rightarrow> string list \<Rightarrow> string \<Rightarrow> string \<Rightarrow> int \<Rightarrow> string" where
  "planPrepRung urlParse red repoURL branch insightCount =
     (let repo = repoDisplayName urlParse repoURL in
      ''Prepare workspace: '' @ (if repo \<noteq> [] then redact red repo else ''clone'')
      @ (if branch \<noteq> [] then '' on branch '' @ branch else [])
      @ (if insightCount < 0 then [] else if insightCount = 0 then '', no analysis insights'' else if insightCount = 1 then '', 1 analysis insight''
         else '', '' @ formatInt insightCount @ '' analysis insights''))"

definition pushTarget :: "string \<Rightarrow> string" where
  "pushTarget branch = (if branch = [] then ''the run branch'' else ''branch '' @ branch)"

definition planPushRung :: "string \<Rightarrow> int \<Rightarrow> int \<Rightarrow> bool \<Rightarrow> string" where
  "planPushRung branch pushes commits finished =
     (if \<not> finished then ''Push results to '' @ pushTarget branch
        @ (if pushes = 1 then '' '' @ emDash @ '' 1 push so far'' else if pushes > 1 then '' '' @ emDash @ '' '' @ formatInt pushes @ '' pushes so far'' else [])
      else if commits = 1 then ''Pushed 1 commit to '' @ pushTarget branch
      else if commits > 1 then ''Pushed '' @ formatInt commits @ '' commits to '' @ pushTarget branch
      else if commits = 0 \<or> pushes = 0 then ''No changes to push to '' @ pushTarget branch
      else ''Pushed results to '' @ pushTarget branch)"

definition turnBudget :: "int \<Rightarrow> int \<Rightarrow> string" where
  "turnBudget turnsUsed limit =
     (if turnsUsed > 0 \<and> limit > 0 then ''turn '' @ formatInt turnsUsed @ '' of '' @ formatInt limit
      else if turnsUsed = 1 then ''1 turn'' else if turnsUsed > 1 then formatInt turnsUsed @ '' turns''
      else if limit = 1 then ''up to 1 turn'' else if limit > 0 then ''up to '' @ formatInt limit @ '' turns'' else [])"

definition planTaskRung :: "Config \<Rightarrow> string list \<Rightarrow> int \<Rightarrow> string" where
  "planTaskRung cfg red turnsUsed =
     (case taskAndGoal red cfg of (excerpt, goal) \<Rightarrow>
        (let quoted = (\<lambda>t. openQuote @ t @ closeQuote);
             work = (case workflowStagePosition cfg of
                 Some (pos, count) \<Rightarrow> ''Stage '' @ showNat pos @ '' of '' @ showNat count @ '' '' @ emDash
                   @ (if excerpt \<noteq> [] then '' agent works the task: '' @ quoted excerpt else if goal \<noteq> [] then '' agent is working on: '' @ quoted goal else '' agent is working'')
               | None \<Rightarrow> if excerpt \<noteq> [] then ''Agent works the task: '' @ quoted excerpt else if goal \<noteq> [] then ''Agent is working on: '' @ quoted goal else ''Agent is working'');
             budget = turnBudget turnsUsed (turnCeiling cfg turnsUsed);
             model = modelDisplayName (cf_Model cfg) in
         work @ (if model \<noteq> [] \<or> budget \<noteq> []
           then '' ('' @ model @ (if model \<noteq> [] \<and> budget \<noteq> [] then '', '' else []) @ budget @ '')'' else [])))"

section \<open>The rungs as data\<close>

definition planMetaKey :: string where "planMetaKey = ''konveyor.io/plan''"

definition planEntry :: "string \<Rightarrow> string \<Rightarrow> (string \<times> json) list \<Rightarrow> json" where
  "planEntry content status meta = JObj [(''_meta'', JObj [(planMetaKey, JObj meta)]), (''content'', JStr content), (''priority'', JStr ''medium''), (''status'', JStr status)]"

definition intJson :: "int \<Rightarrow> json" where
  "intJson n = JNum (formatInt n)"

definition planPrepMeta :: "(string \<Rightarrow> (string \<times> string) option) \<Rightarrow> string list \<Rightarrow> string \<Rightarrow> string \<Rightarrow> int \<Rightarrow> (string \<times> json) list" where
  "planPrepMeta urlParse red repoURL branch insightCount =
     (let repo = repoDisplayName urlParse repoURL in
      (if branch \<noteq> [] then [(''branch'', JStr branch)] else []) @ (if insightCount \<ge> 0 then [(''insights'', intJson insightCount)] else [])
      @ (if repo \<noteq> [] then [(''repo'', JStr (redact red repo))] else []) @ [(''rung'', JStr ''prep'')])"

definition planTaskMeta :: "Config \<Rightarrow> string list \<Rightarrow> int \<Rightarrow> (string \<times> json) list" where
  "planTaskMeta cfg red turnsUsed =
     (case taskAndGoal red cfg of (excerpt, goal) \<Rightarrow>
        (let model = modelDisplayName (cf_Model cfg); limit = turnCeiling cfg turnsUsed in
         (if goal \<noteq> [] then [(''goal'', JStr goal)] else []) @ (if limit > 0 then [(''maxTurns'', intJson limit)] else [])
         @ (if model \<noteq> [] then [(''model'', JStr model)] else []) @ [(''rung'', JStr ''task'')]
         @ (case workflowStagePosition cfg of Some (pos, count) \<Rightarrow> [(''stage'', intJson (int pos)), (''stageCount'', intJson (int count))] | None \<Rightarrow> [])
         @ (if excerpt \<noteq> [] then [(''task'', JStr excerpt)] else []) @ [(''turnsUsed'', intJson turnsUsed)]))"

definition planPushMeta :: "string \<Rightarrow> int \<Rightarrow> int \<Rightarrow> (string \<times> json) list" where
  "planPushMeta branch pushes commits =
     (if branch \<noteq> [] then [(''branch'', JStr branch)] else []) @ (if commits \<ge> 0 then [(''commits'', intJson commits)] else [])
     @ [(''pushes'', intJson pushes), (''rung'', JStr ''push'')]"

section \<open>The ladder and the tee\<close>

text \<open>What the ladder counts, and what it says of the workspace.\<close>

record ladder =
  ld_turnsSeen :: int
  ld_turnBase :: int
  ld_pushesLanded :: int
  ld_commitsPushed :: int
  ld_pushSeq :: nat

definition newLadder :: ladder where
  "newLadder = \<lparr>ld_turnsSeen = 0, ld_turnBase = 0, ld_pushesLanded = 0, ld_commitsPushed = -1, ld_pushSeq = 0\<rparr>"

record ladderConfig =
  lc_cfg :: Config
  lc_red :: "string list"
  lc_repoURL :: string
  lc_branch :: string
  lc_insights :: int
  lc_urlParse :: "string \<Rightarrow> (string \<times> string) option"

definition planUpdate :: "ladderConfig \<Rightarrow> string \<Rightarrow> string \<Rightarrow> string \<Rightarrow> ladder \<Rightarrow> (string \<times> json) list" where
  "planUpdate L prep agentRun finish ld =
     [(''entries'', JArr [
        planEntry (planPrepRung (lc_urlParse L) (lc_red L) (lc_repoURL L) (lc_branch L) (lc_insights L)) prep
          (planPrepMeta (lc_urlParse L) (lc_red L) (lc_repoURL L) (lc_branch L) (lc_insights L)),
        planEntry (planTaskRung (lc_cfg L) (lc_red L) (ld_turnsSeen ld)) agentRun (planTaskMeta (lc_cfg L) (lc_red L) (ld_turnsSeen ld)),
        planEntry (planPushRung (lc_branch L) (ld_pushesLanded ld) (ld_commitsPushed ld) (finish = ''completed'')) finish
          (planPushMeta (lc_branch L) (ld_pushesLanded ld) (ld_commitsPushed ld))]),
      (''sessionUpdate'', JStr ''plan'')]"

text \<open>The closures of \<open>runStage\<close>: the updates they hand to the tee, none without one.\<close>

definition emitPlan :: "bool \<Rightarrow> ladderConfig \<Rightarrow> string \<Rightarrow> string \<Rightarrow> string \<Rightarrow> ladder \<Rightarrow> (string \<times> json) list list" where
  "emitPlan attached L prep agentRun finish ld = (if \<not> attached then [] else [planUpdate L prep agentRun finish ld])"

definition pushID :: "nat \<Rightarrow> string" where
  "pushID n = harnessPushPrefix @ showNat n"

definition emitPush :: "bool \<Rightarrow> string \<Rightarrow> PushOutcome \<times> string option \<Rightarrow> ladder \<Rightarrow> (string \<times> json) list list \<times> ladder" where
  "emitPush attached title res ld =
     (case res of (outcome, err) \<Rightarrow>
        (let ld1 = (if err = None \<and> outcome = PushAdvanced then ld\<lparr>ld_pushesLanded := ld_pushesLanded ld + 1\<rparr> else ld); n = Suc (ld_pushSeq ld) in
         if \<not> attached then ([], ld1)
         else ([[(''kind'', JStr ''execute''), (''sessionUpdate'', JStr ''tool_call''), (''status'', JStr ''in_progress''), (''title'', JStr title), (''toolCallId'', JStr (pushID n))],
            [(''sessionUpdate'', JStr ''tool_call_update''), (''status'', JStr (if err \<noteq> None then ''failed'' else ''completed'')), (''toolCallId'', JStr (pushID n))]],
           ld1\<lparr>ld_pushSeq := n\<rparr>)))"

text \<open>The turn handler.\<close>

definition onTurn :: "bool \<Rightarrow> ladderConfig \<Rightarrow> int \<Rightarrow> ladder \<Rightarrow> (string \<times> json) list list \<times> ladder" where
  "onTurn attached L n ld =
     (let total = ld_turnBase ld + n; ld1 = ld\<lparr>ld_turnsSeen := total\<rparr> in
      (if shouldEmitTurn total (cf_MaxTurns (lc_cfg L)) then emitPlan attached L ''completed'' ''in_progress'' ''pending'' ld1 else [], ld1))"

section \<open>The excerpt hides secrets\<close>

lemma containsStr_sublist: "containsStr s u \<longleftrightarrow> sublist u s"
  unfolding containsStr_suffix hasPrefix_iff sublist_def by blast

lemma sublist_sep:
  assumes "sublist u (a @ sep @ b)" and "u \<noteq> []" and "sep \<noteq> []" and "set u \<inter> set sep = {}"
  shows "sublist u a \<or> sublist u b"
proof -
  have in_sep: "x = []" if "set x \<subseteq> set u" "set x \<subseteq> set sep" for x using that assms(4) by (cases x) auto
  consider "sublist u a" | "sublist u (sep @ b)" | x y where "u = x @ y" "suffix x a" "prefix y (sep @ b)"
    using assms(1) unfolding sublist_append by blast
  then show ?thesis
  proof cases
    case 2
    then consider "sublist u sep" | "sublist u b" | x y where "u = x @ y" "suffix x sep" "prefix y b" unfolding sublist_append by blast
    then show ?thesis
    proof cases
      case 1
      then show ?thesis using in_sep [of u] assms(2) by (auto dest: set_mono_sublist)
    next
      case (3 x y)
      then have "x = []" using in_sep [of x] by (auto dest: set_mono_suffix)
      then show ?thesis using 3 by auto
    qed blast
  next
    case (3 x y)
    have "y = []"
    proof (cases y)
      case (Cons c ys)
      then have "c \<in> set sep" using 3(3) assms(3) by (cases sep) (auto simp: prefix_def)
      then show ?thesis using assms(4) 3(1) Cons by auto
    qed simp
    then show ?thesis using 3 by auto
  qed blast
qed

lemma sublist_grow: "sublist u s \<Longrightarrow> sublist u (a @ s)" "sublist u s \<Longrightarrow> sublist u (s @ a)"
  by (simp_all add: sublist_append)

lemma fieldsFrom_sublist: "f \<in> set (fieldsFrom cur rs) \<Longrightarrow> sublist f (cur @ concat rs)"
proof (induction cur rs rule: fieldsFrom.induct)
  case (2 cur r rs)
  then show ?case by (auto split: if_splits intro: sublist_grow)
qed (auto split: if_splits)

lemma fields_sublist: "f \<in> set (fieldsOf s) \<Longrightarrow> sublist f s"
  using fieldsFrom_sublist [of f "[]" "runeBytes s"] by (simp add: fieldsOf_def concat_runeBytes)

lemma trimSpace_sublist: "sublist (trimSpace s) s"
proof -
  define rs where "rs = dropWhile isSpaceRune (runeBytes s)"
  have "suffix rs (runeBytes s)" unfolding rs_def by (rule suffix_dropWhile)
  moreover have "prefix (rev (dropWhile isSpaceRune (rev rs))) rs" by (metis rev_rev_ident suffix_dropWhile suffix_to_prefix)
  ultimately obtain a b where "runeBytes s = a @ (rev (dropWhile isSpaceRune (rev rs)) @ b)" by (metis prefix_def suffix_def)
  from arg_cong [OF this, of concat] have "s = concat a @ trimSpace s @ concat b" by (simp add: concat_runeBytes trimSpace_def Let_def rs_def)
  then show ?thesis unfolding sublist_def by blast
qed

lemma cutLeft_sublist: "sublist (cutLeft cs s) s"
proof -
  obtain a where "runeBytes s = a @ dropWhile (\<lambda>r. r \<in> set cs) (runeBytes s)" by (metis takeWhile_dropWhile_id)
  from arg_cong [OF this, of concat] have "s = concat a @ cutLeft cs s @ []" by (simp add: concat_runeBytes cutLeft_def)
  then show ?thesis unfolding sublist_def by blast
qed

text \<open>A secret that no rewriting of white space can make or hide: ASCII without a blank or a semicolon.\<close>

definition plainSecret :: "string \<Rightarrow> bool" where
  "plainSecret u \<longleftrightarrow> u \<noteq> [] \<and> list_all (\<lambda>c. byte c < 128 \<and> c \<noteq> CHR '' '' \<and> c \<noteq> CHR '';'') u"

lemma apart_bytes: "plainSecret u \<Longrightarrow> list_all (\<lambda>c. \<not> byte c < 128) sep \<Longrightarrow> set u \<inter> set sep = {}"
  by (auto simp: plainSecret_def list_all_iff)

lemma beyond_ascii: "list_all (\<lambda>c. \<not> byte c < 128) hellip" "list_all (\<lambda>c. \<not> byte c < 128) replacementRune" "replacementRune \<noteq> []" "hellip \<noteq> []"
  by code_simp+

lemma plain_apart: "plainSecret u \<Longrightarrow> set u \<inter> set '' '' = {}" "plainSecret u \<Longrightarrow> set u \<inter> set ''; '' = {}"
  by (auto simp: plainSecret_def list_all_iff)

lemmas plain_apart_marks = apart_bytes [OF _ beyond_ascii(1)] apart_bytes [OF _ beyond_ascii(2)]

lemma joined_free: "plainSecret u \<Longrightarrow> \<forall>f \<in> set fs. \<not> sublist u f \<Longrightarrow> \<not> sublist u (joinStr '' '' fs)"
proof (induction "'' ''" fs rule: joinStr.induct)
  case 1
  then show ?case by (simp add: plainSecret_def)
next
  case (3 w v ws)
  then show ?case using sublist_sep [of u w "'' ''" "joinStr '' '' (v # ws)"] plain_apart(1) by (auto simp: plainSecret_def)
qed simp

definition freeOf :: "string \<Rightarrow> summaryState \<Rightarrow> bool" where
  "freeOf u st \<longleftrightarrow> \<not> sublist u (su_summary st) \<and> \<not> sublist u (su_fallback st) \<and> \<not> sublist u (su_para st)"

lemma flush_free: "u \<noteq> [] \<Longrightarrow> freeOf u st \<Longrightarrow> freeOf u (flushPara st)"
  by (simp add: freeOf_def flushPara_def Let_def)

lemma join_free:
  assumes "plainSecret u" and "freeOf u st" and "\<not> sublist u line"
  shows "freeOf u (joinLine item line st)"
proof -
  have f: "\<not> sublist u (joinStr '' '' (fieldsOf line))"
    using joined_free [OF assms(1)] assms(3) fields_sublist sublist_order.order_trans by blast
  have u: "u \<noteq> []" using assms(1) by (simp add: plainSecret_def)
  show ?thesis
    using assms(2) f sublist_sep [of u "su_para st" "'' ''" "joinStr '' '' (fieldsOf line)"] sublist_sep [of u "su_para st" "''; ''" "joinStr '' '' (fieldsOf line)"]
      plain_apart(1,2) [OF assms(1)] u
    by (auto simp: freeOf_def joinLine_def Let_def)
qed

lemma line_free:
  assumes "plainSecret u" and "freeOf u st" and "\<not> sublist u raw"
  shows "freeOf u (summaryLine st raw)"
proof -
  have u: "u \<noteq> []" using assms(1) by (simp add: plainSecret_def)
  have t: "\<not> sublist u (trimSpace raw)" using assms(3) trimSpace_sublist sublist_order.order_trans by blast
  then have m: "\<not> sublist u (trimSpace (cutLeft (asciiSet taskSummaryMarkers) (trimSpace raw)))"
    using trimSpace_sublist cutLeft_sublist sublist_order.order_trans by blast
  have h: "freeOf u (st\<lparr>su_hashed := b\<rparr>)" for b using assms(2) by (simp add: freeOf_def)
  show ?thesis
    using flush_free [OF u assms(2)] join_free [OF assms(1) assms(2) t] join_free [OF assms(1) h t] join_free [OF assms(1) assms(2) m] join_free [OF assms(1) h m] h assms(2)
    by (simp add: summaryLine_def Let_def)
qed

lemma lines_free: "plainSecret u \<Longrightarrow> freeOf u st \<Longrightarrow> \<forall>l \<in> set ls. \<not> sublist u l \<Longrightarrow> freeOf u (foldl summaryLine st ls)"
  by (induction ls arbitrary: st) (simp_all add: line_free)

lemma joinStr_sublist: "w \<in> set ws \<Longrightarrow> sublist w (joinStr sep ws)"
  by (induction sep ws rule: joinStr.induct) (auto intro: sublist_grow)

lemma split_sublist: "l \<in> set (splitOn d s) \<Longrightarrow> sublist l s"
  using joinStr_sublist [of l "splitOn d s" "[d]"] by (simp add: joinStr_splitOn)

lemma runes_sublist: "sublist u (pre @ concat (take n (runes s))) \<Longrightarrow> plainSecret u \<Longrightarrow> sublist u (pre @ s)"
proof (induction s arbitrary: pre n rule: runes.induct)
  case (2 c s)
  show ?case
  proof (cases n)
    case 0
    then show ?thesis using 2(3) sublist_grow(2) [of u pre] by simp
  next
    case (Suc m)
    define k where "k = runeWidth (c # s)"
    show ?thesis
    proof (cases "k = 0")
      case True
      have "sublist u (pre @ replacementRune @ concat (take m (runes s)))" using 2(3) True Suc by (simp add: runes.simps(2) k_def)
      then have "sublist u pre \<or> sublist u (concat (take m (runes s)))"
        by (rule sublist_sep) (use 2(4) plain_apart_marks(2) beyond_ascii(3) in \<open>auto simp: plainSecret_def\<close>)
      then have "sublist u pre \<or> sublist u s" using 2(1) [OF k_def True, of "[]" m] 2(4) by auto
      then show ?thesis using sublist_grow [of u] by (metis append_Cons append_Nil)
    next
      case False
      have "sublist u ((pre @ take k (c # s)) @ concat (take m (runes (drop k (c # s)))))" using 2(3) False Suc by (simp add: runes.simps(2) k_def Let_def)
      then show ?thesis using 2(2) [OF k_def False, of "pre @ take k (c # s)" m] 2(4) by simp
    qed
  qed
qed simp

lemma summary_free:
  assumes "plainSecret u" and "\<not> sublist u text"
  shows "\<not> sublist u (taskSummary text)"
proof -
  define st where "st = flushPara (foldl summaryLine emptySummary (splitLines text))"
  define summary where "summary = (if su_summary st = [] then su_fallback st else su_summary st)"
  have u: "u \<noteq> []" using assms(1) by (simp add: plainSecret_def)
  have "freeOf u emptySummary" using u by (simp add: freeOf_def emptySummary_def)
  moreover have "\<forall>l \<in> set (splitLines text). \<not> sublist u l" unfolding splitLines_def using assms(2) split_sublist sublist_order.order_trans by blast
  ultimately have "freeOf u st" unfolding st_def using flush_free [OF u] lines_free [OF assms(1)] by blast
  then have s: "\<not> sublist u summary" by (simp add: freeOf_def summary_def)
  then have "\<not> sublist u (concat (take n (runes summary)))" for n using runes_sublist [of u "[]" n summary] assms(1) by auto
  then have "\<not> sublist u (trimSpace (concat (take n (runes summary))))" for n using trimSpace_sublist sublist_order.order_trans by blast
  then have "\<not> sublist u (trimSpace (concat (take n (runes summary))) @ hellip)" for n
    using sublist_sep [of u _ hellip "[]"] u plain_apart_marks(1) [OF assms(1)] beyond_ascii(4) by auto
  moreover have "taskSummary text = (if length (runes summary) > taskSummaryMaxLen then trimSpace (concat (take (taskSummaryMaxLen - 1) (runes summary))) @ hellip else summary)"
    unfolding taskSummary_def Let_def st_def summary_def by (rule refl)
  ultimately show ?thesis using s by simp
qed

text \<open>C27: the ladder does not show a secret. A secret of the redactor that is ASCII without a blank, a semicolon or a
  square bracket is neither in the excerpt of the task nor in the goal that the rung quotes, although both are
  put together from lines, stripped of markers and cut after the redaction.\<close>

theorem ladder_hides_secrets:
  assumes "u \<in> set red" and "plainSecret u" and "CHR ''['' \<notin> set u" and "CHR '']'' \<notin> set u" and "\<not> containsStr ''redacted'' u"
  shows "\<not> containsStr (fst (taskAndGoal red cfg)) u \<and> \<not> containsStr (snd (taskAndGoal red cfg)) u"
proof -
  have u: "u \<noteq> []" using assms(2) by (simp add: plainSecret_def)
  have "\<not> sublist u (taskSummary (redact red t))" for t
    using summary_free [OF assms(2)] redact_hides [OF assms(1) u assms(3,4,5)] by (simp add: containsStr_sublist)
  then show ?thesis using u by (simp add: taskAndGoal_def Let_def containsStr_sublist)
qed

section \<open>The ladder is sent sparingly\<close>

lemma multiples_card:
  fixes c s :: int
  assumes "0 < s" and "0 \<le> c"
  shows "{n \<in> {1..c}. n mod s = 0} \<subseteq> (\<lambda>k. k * s) ` {1..c div s}" and "finite {n \<in> {1..c}. n mod s = 0}" and "int (card {n \<in> {1..c}. n mod s = 0}) \<le> c div s"
proof -
  show sub: "{n \<in> {1..c}. n mod s = 0} \<subseteq> (\<lambda>k. k * s) ` {1..c div s}"
  proof
    fix n
    assume n: "n \<in> {n \<in> {1..c}. n mod s = 0}"
    then have e: "n = n div s * s" by (auto simp: dvd_eq_mod_eq_0 [symmetric])
    have "n div s \<le> c div s" using n assms(1) by (auto intro: zdiv_mono1)
    moreover have "1 \<le> n div s"
    proof (rule ccontr)
      assume "\<not> 1 \<le> n div s"
      then have "n div s * s \<le> 0" using assms(1) by (intro mult_nonpos_nonneg) auto
      then show False using n e by simp
    qed
    ultimately show "n \<in> (\<lambda>k. k * s) ` {1..c div s}" using e by auto
  qed
  show "finite {n \<in> {1..c}. n mod s = 0}" by (rule finite_subset [of _ "{1..c}"]) auto
  have "card {n \<in> {1..c}. n mod s = 0} \<le> card {1..c div s}"
    using card_mono [OF _ sub] card_image_le [of "{1..c div s}" "\<lambda>k. k * s"] by (meson finite_atLeastAtMost_int finite_imageI le_trans)
  then show "int (card {n \<in> {1..c}. n mod s = 0}) \<le> c div s" using assms pos_imp_zdiv_nonneg_iff [of s c] by simp
qed

text \<open>Over a budget of turns the ladder is sent again for at most 21 of them, the first and the last included.\<close>

theorem ladder_is_paced:
  assumes "0 < c"
  shows "shouldEmitTurn 1 c \<and> shouldEmitTurn c c \<and> card {n \<in> {1..c}. shouldEmitTurn n c} \<le> 21"
proof -
  define s where "s = (c + 19) div 20"
  let ?E = "{n \<in> {1..c}. shouldEmitTurn n c}" and ?M = "{n \<in> {1..c}. n mod s = 0}"
  have "card ?E \<le> 21"
  proof (cases "s < 2")
    case True
    then have "c \<le> 20" by (simp add: s_def)
    moreover have "card ?E \<le> card {1..c}" by (rule card_mono) auto
    ultimately show ?thesis by simp
  next
    case False
    have big: "c \<le> 20 * s" unfolding s_def by presburger
    have step: "(c + ladderTurnSteps - 1) div ladderTurnSteps = s" by (simp add: ladderTurnSteps_def s_def)
    have "shouldEmitTurn n c \<Longrightarrow> n \<le> 1 \<or> c \<le> n \<or> n mod s = 0" for n
      unfolding shouldEmitTurn_def Let_def step using False assms by (auto split: if_splits)
    then have sub: "?E \<subseteq> insert 1 (insert c ?M)" by (smt (verit) atLeastAtMost_iff insertCI mem_Collect_eq subsetI)
    have s0: "0 < s" and c0: "0 \<le> c" using False assms by simp_all
    note M = multiples_card [OF s0 c0]
    have fin: "finite (insert 1 (insert c ?M))" using M(2) by simp
    show ?thesis
    proof (cases "c mod s = 0")
      case True
      then have "insert c ?M = ?M" using assms by auto
      then have "card ?E \<le> card (insert 1 ?M)" using card_mono [OF fin sub] by simp
      also have "\<dots> \<le> Suc (card ?M)" using M(2) by (simp add: card_insert_if)
      finally have "card ?E \<le> Suc (card ?M)" .
      moreover have "c div s \<le> 20 * s div s" using big False by (intro zdiv_mono1) auto
      then have "c div s \<le> 20" using False by simp
      ultimately show ?thesis using M(3) False assms by linarith
    next
      case False2: False
      have "card ?E \<le> card (insert 1 (insert c ?M))" using card_mono [OF fin sub] .
      also have "\<dots> \<le> Suc (Suc (card ?M))" using M(2) by (simp add: card_insert_if)
      finally have "card ?E \<le> Suc (Suc (card ?M))" .
      moreover have "c div s < 20"
      proof -
        have "0 < c mod s" using False False2 pos_mod_sign [of s c] by linarith
        then have "c div s * s < c" using div_mult_mod_eq [of c s] by linarith
        then have "c div s * s < 20 * s" using big by linarith
        then show ?thesis using False mult_less_cancel_right_pos [of s "c div s" 20] by simp
      qed
      ultimately show ?thesis using M(3) False assms by linarith
    qed
  qed
  then show ?thesis by (simp add: shouldEmitTurn_def)
qed

section \<open>The ladder in the replay ring\<close>

text \<open>Every update of the ladder is kept for viewers that come later: the last plan, the last push and its result.\<close>

lemma plan_key: "replayKeyFor (planUpdate L prep agentRun finish ld) = replayKeyPlan"
  by (simp add: replayKeyFor_def planUpdate_def strOf_def replayKeyPlan_def)

lemma push_keys: "map replayKeyFor (fst (emitPush True title res ld)) = [replayKeyPush, replayKeyPushUpdate]"
  by (cases res) (simp add: emitPush_def replayKeyFor_def strOf_def replayKeyPlan_def pushID_def Let_def)

text \<open>The count of pushes is the number of those that moved the branch, with a viewer attached or not.\<close>

lemma push_counted: "ld_pushesLanded (snd (emitPush a t r ld)) = ld_pushesLanded ld + (if r = (PushAdvanced, None) then 1 else 0)"
  by (cases r) (simp add: emitPush_def Let_def)

lemma pushes_counted:
  "ld_pushesLanded (foldl (\<lambda>l (a, t, r). snd (emitPush a t r l)) ld ps) = ld_pushesLanded ld + int (length (filter (\<lambda>(a, t, r). r = (PushAdvanced, None)) ps))"
  by (induction ps arbitrary: ld) (auto simp: push_counted split: if_splits)

section \<open>Samples\<close>

definition ladderSecret :: string where "ladderSecret = ''hunter2-token''"

definition ladderCfg :: Config where
  "ladderCfg = sampleConfig\<lparr>cf_StageInstructions := ''## Title'' @ [newlineChar, newlineChar] @ ''- log in with hunter2-token'' @ [newlineChar] @ ''- migrate''\<rparr>"

lemma ladder_excerpt: "taskAndGoal [ladderSecret] ladderCfg = (''log in with [redacted]; migrate'', [])"
  by code_simp

theorem ladder_hides_secrets_witness:
  "fst (taskAndGoal [ladderSecret] ladderCfg) = ''log in with [redacted]; migrate'' \<and> \<not> containsStr (fst (taskAndGoal [ladderSecret] ladderCfg)) ladderSecret"
proof -
  have "plainSecret ladderSecret" "CHR ''['' \<notin> set ladderSecret" "CHR '']'' \<notin> set ladderSecret" "\<not> containsStr ''redacted'' ladderSecret" by code_simp+
  then show ?thesis using ladder_hides_secrets [of ladderSecret "[ladderSecret]" ladderCfg] by (simp add: ladder_excerpt)
qed

theorem ladder_is_paced_witness: "shouldEmitTurn 200 200 \<and> card {n \<in> {1..200}. shouldEmitTurn n 200} \<le> 21"
  using ladder_is_paced [of 200] by simp

end
