(* ===== verification/GooseOutput.thy ===== *)
theory GooseOutput
  imports HarnessText
begin

text \<open>
  What the harness keeps of the agent runtime's own output (src/harness/internal/goose/output.go): everything is passed
  on, and the last error lines are kept, so that the reason of a failed model call can be named. Bytes come in chunks
  as the operating system delivers them; the n-th recorded line is stamped with the n-th reading of the clock.
\<close>

section \<open>The capture\<close>

definition capturedLines :: nat where "capturedLines = 8"
definition capturedLineBytes :: nat where "capturedLineBytes = 4096"

definition errorLineMarkers :: "string list" where
  "errorLineMarkers = [''ERROR'', ''Exception'', ''error:'', ''Error:'']"

record capturedLine =
  cl_at :: int
  cl_text :: string

record outputCapture =
  oc_partial :: string
  oc_truncated :: bool
  oc_lines :: "capturedLine list"
  oc_reads :: nat \<comment> \<open>how often the clock was read\<close>

definition newOutputCapture :: outputCapture where
  "newOutputCapture = \<lparr>oc_partial = [], oc_truncated = False, oc_lines = [], oc_reads = 0\<rparr>"

definition looksLikeErrorLine :: "string \<Rightarrow> bool" where
  "looksLikeErrorLine line = list_ex (containsStr line) errorLineMarkers"

definition escChar :: char where "escChar = CHR 0x1B"

text \<open>A byte that ends an escape sequence.\<close>

definition finalByte :: "char \<Rightarrow> bool" where
  "finalByte c = (0x40 \<le> byte c \<and> byte c \<le> 0x7E)"

definition skipSequence :: "string \<Rightarrow> string" where
  "skipSequence s = (let t = (case s of c # r \<Rightarrow> if c = CHR ''['' then r else s | [] \<Rightarrow> []) in tl (dropWhile (\<lambda>c. \<not> finalByte c) t))"

lemma skipSequence_length: "length (skipSequence s) \<le> length s"
proof -
  have "length (tl (dropWhile P t)) \<le> length t" for P and t :: string
    using length_dropWhile_le [of P t] by simp
  then show ?thesis unfolding skipSequence_def Let_def by (cases s) (auto intro: le_SucI)
qed

function stripSequences :: "string \<Rightarrow> string" where
  "stripSequences [] = []"
| "stripSequences (c # s) = (if c = escChar then stripSequences (skipSequence s) else c # stripSequences s)"
  by pat_completeness auto
termination
  by (relation "measure length") (auto simp: less_Suc_eq_le skipSequence_length)

definition stripANSI :: "string \<Rightarrow> string" where
  "stripANSI s = (if escChar \<notin> set s then s else stripSequences s)"

definition lastN :: "nat \<Rightarrow> 'a list \<Rightarrow> 'a list" where
  "lastN n xs = drop (length xs - n) xs"

definition record_line :: "(nat \<Rightarrow> int) \<Rightarrow> string \<Rightarrow> outputCapture \<Rightarrow> outputCapture" where
  "record_line clock text c =
     (let line = trimSpace (stripANSI text) in
      if line = [] \<or> \<not> looksLikeErrorLine line then c
      else (let kept = oc_lines c @ [\<lparr>cl_at = clock (oc_reads c), cl_text = (if oc_truncated c then line @ hellip else line)\<rparr>] in
        c\<lparr>oc_lines := (if length kept > capturedLines then lastN capturedLines kept else kept), oc_reads := Suc (oc_reads c)\<rparr>))"

definition appendPartial :: "string \<Rightarrow> outputCapture \<Rightarrow> outputCapture" where
  "appendPartial b c =
     (if oc_truncated c then c
      else (let room = capturedLineBytes - length (oc_partial c) in
        if length b > room then c\<lparr>oc_partial := oc_partial c @ take room b, oc_truncated := True\<rparr>
        else c\<lparr>oc_partial := oc_partial c @ b\<rparr>))"

definition endLine :: "(nat \<Rightarrow> int) \<Rightarrow> outputCapture \<Rightarrow> outputCapture" where
  "endLine clock c = (record_line clock (oc_partial c) c)\<lparr>oc_partial := [], oc_truncated := False\<rparr>"

function scan :: "(nat \<Rightarrow> int) \<Rightarrow> string \<Rightarrow> outputCapture \<Rightarrow> outputCapture" where
  "scan clock p c =
     (if p = [] then c
      else (let line = takeWhile (\<lambda>x. x \<noteq> newlineChar) p; rest = dropWhile (\<lambda>x. x \<noteq> newlineChar) p in
        if rest = [] then appendPartial p c
        else scan clock (tl rest) (endLine clock (appendPartial line c))))"
  by pat_completeness auto
termination
proof (relation "measure (\<lambda>(clock, p, c). length p)")
  fix p :: string and rest
  assume "p \<noteq> []" and "rest = dropWhile (\<lambda>x. x \<noteq> newlineChar) p" and "rest \<noteq> []"
  then have "length rest \<le> length p" and "0 < length rest" using length_dropWhile_le [of "\<lambda>x. x \<noteq> newlineChar" p] by simp_all
  then have "length (tl rest) < length p" by (cases rest) simp_all
  then show "((clock, tl rest, c'), clock, p, c) \<in> measure (\<lambda>(clock, p, c). length p)" for clock c c' by simp
qed simp

declare scan.simps [simp del]

text \<open>\<open>Write\<close>: what the writer below is given, and the capture.\<close>

definition WriteOutput :: "(nat \<Rightarrow> int) \<Rightarrow> string \<Rightarrow> string \<times> outputCapture \<Rightarrow> string \<times> outputCapture" where
  "WriteOutput clock p = (\<lambda>(podLog, c). (podLog @ p, scan clock p c))"

definition lastErrorSince :: "int \<Rightarrow> outputCapture \<Rightarrow> string \<times> int" where
  "lastErrorSince since c = (case find (\<lambda>l. cl_at l > since) (rev (oc_lines c)) of
      Some l \<Rightarrow> (cl_text l, cl_at l)
    | None \<Rightarrow> ([], zeroTime))"

section \<open>The lines of the text\<close>

text \<open>What should be kept of a line of the output, and of the whole output so far, however it was cut into chunks.\<close>

definition captureOf :: "string \<Rightarrow> string option" where
  "captureOf line = (let t = trimSpace (stripANSI (take 4096 line)) in
     if t = [] \<or> \<not> looksLikeErrorLine t then None else Some (if length line > 4096 then t @ hellip else t))"

definition errorTexts :: "string \<Rightarrow> string list" where
  "errorTexts text = List.map_filter captureOf (butlast (splitLines text))"

definition stamped :: "(nat \<Rightarrow> int) \<Rightarrow> string list \<Rightarrow> capturedLine list" where
  "stamped clock ts = map (\<lambda>(i, t). \<lparr>cl_at = clock i, cl_text = t\<rparr>) (enumerate 0 ts)"

definition captureState :: "(nat \<Rightarrow> int) \<Rightarrow> string \<Rightarrow> outputCapture" where
  "captureState clock text = \<lparr>oc_partial = take 4096 (last (splitLines text)), oc_truncated = (length (last (splitLines text)) > 4096),
     oc_lines = lastN 8 (stamped clock (errorTexts text)), oc_reads = length (errorTexts text)\<rparr>"

lemma splitOn_extend: "d \<notin> set b \<Longrightarrow> splitOn d (t @ b) = butlast (splitOn d t) @ [last (splitOn d t) @ b]"
proof (induction t)
  case (Cons c t)
  then show ?case by (cases "splitOn d t") (auto split: list.splits)
qed (simp add: splitOn_plain)

lemma splitOn_end: "splitOn d (t @ [d]) = splitOn d t @ [[]]"
proof (induction t)
  case (Cons c t)
  then show ?case by (cases "splitOn d t") auto
qed simp

lemma stamped_snoc: "stamped clock (ts @ [t]) = stamped clock ts @ [\<lparr>cl_at = clock (length ts), cl_text = t\<rparr>]"
  by (simp add: stamped_def enumerate_append_eq)

lemma length_stamped [simp]: "length (stamped clock ts) = length ts"
  by (simp add: stamped_def)

lemma lastN_short: "length xs \<le> n \<Longrightarrow> lastN n xs = xs"
  by (simp add: lastN_def)

lemma lastN_snoc: "0 < n \<Longrightarrow> lastN n (lastN n xs @ [x]) = lastN n (xs @ [x])"
  by (cases "n \<le> length xs") (auto simp: lastN_def Suc_diff_le)

lemma append_extends:
  assumes "newlineChar \<notin> set b"
  shows "appendPartial b (captureState clock t) = captureState clock (t @ b)"
  using splitOn_extend [OF assms, of t]
  by (auto simp: appendPartial_def captureState_def capturedLineBytes_def splitLines_def errorTexts_def Let_def)

lemma errorTexts_end:
  "errorTexts (t @ [newlineChar]) = errorTexts t @ (case captureOf (last (splitLines t)) of Some x \<Rightarrow> [x] | None \<Rightarrow> [])"
proof -
  have "splitLines t = butlast (splitLines t) @ [last (splitLines t)]" by (simp add: splitLines_def)
  then have "errorTexts (t @ [newlineChar]) = List.map_filter captureOf (butlast (splitLines t) @ [last (splitLines t)])"
    by (simp add: errorTexts_def splitLines_def splitOn_end)
  then show ?thesis by (simp add: errorTexts_def map_filter_def split: option.split)
qed

lemma endLine_extends: "endLine clock (captureState clock t) = captureState clock (t @ [newlineChar])"
proof -
  have "\<not> oc_truncated (captureState clock t) \<Longrightarrow> take 4096 (last (splitLines t)) = last (splitLines t)" by (simp add: captureState_def)
  moreover have "length (lastN 8 xs) \<le> 8" for xs :: "capturedLine list" by (simp add: lastN_def)
  ultimately show ?thesis
    using lastN_snoc [of 8 "stamped clock (errorTexts t)"]
    by (auto simp: endLine_def record_line_def captureState_def errorTexts_end captureOf_def capturedLines_def Let_def splitLines_def splitOn_end stamped_snoc lastN_short)
qed

lemma scan_extends: "scan clock p (captureState clock t) = captureState clock (t @ p)"
proof (induction "length p" arbitrary: p t rule: less_induct)
  case less
  let ?line = "takeWhile (\<lambda>x. x \<noteq> newlineChar) p" and ?rest = "dropWhile (\<lambda>x. x \<noteq> newlineChar) p"
  have line: "newlineChar \<notin> set ?line" by (auto dest: set_takeWhileD)
  show ?case
  proof (cases ?rest)
    case Nil
    then have "newlineChar \<notin> set p" by (auto simp: dropWhile_eq_Nil_conv)
    then show ?thesis using append_extends [of p clock t] unfolding scan.simps [of clock p] Let_def Nil by simp
  next
    case (Cons x r)
    have x: "x = newlineChar" using hd_dropWhile [of "\<lambda>x. x \<noteq> newlineChar" p] unfolding Cons by simp
    have p: "p = ?line @ newlineChar # r" using takeWhile_dropWhile_id [of "\<lambda>x. x \<noteq> newlineChar" p] unfolding Cons x by (rule sym)
    then have "length p = length ?line + Suc (length r)" by (metis length_Cons length_append)
    then have "length r < length p" by linarith
    then have "scan clock r (captureState clock ((t @ ?line) @ [newlineChar])) = captureState clock (t @ p)"
      using less [of r "(t @ ?line) @ [newlineChar]"] p by simp
    moreover have "p \<noteq> []" and "tl ?rest = r" and "?rest \<noteq> []" using Cons by auto
    ultimately show ?thesis unfolding scan.simps [of clock p] Let_def by (simp only: if_False append_extends [OF line] endLine_extends)
  qed
qed

text \<open>C26: however the operating system cuts the runtime's output into chunks, the pod log gets every byte, and the capture
  holds the last eight error lines of the whole text, each cut at 4096 bytes and marked when cut, stamped in the order
  of the lines; a line still without its end is kept up to the same bound.\<close>

theorem capture_of_the_text:
  "fold (WriteOutput clock) writes ([], newOutputCapture) = (concat writes, captureState clock (concat writes))"
proof -
  have "fold (WriteOutput clock) writes (pod, captureState clock t) = (pod @ concat writes, captureState clock (t @ concat writes))" for pod t
    by (induction writes arbitrary: pod t) (simp_all add: WriteOutput_def scan_extends)
  from this [of "[]" "[]"] have "fold (WriteOutput clock) writes ([], captureState clock []) = (concat writes, captureState clock (concat writes))" by simp
  moreover have "captureState clock [] = newOutputCapture"
    by (simp add: newOutputCapture_def captureState_def splitLines_def errorTexts_def map_filter_def stamped_def lastN_def)
  ultimately show ?thesis by simp
qed

end
