(* ===== verification/GooseServe.thy ===== *)
theory GooseServe
  imports GooseOutput HarnessConfig FileMounts
begin

text \<open>
  The agent runtime as a process (src/harness/internal/goose/lifecycle.go): where it listens, the environment it is
  given, the credential file written for it, how it is stopped, and the search for the error line of a failed model
  call. What the operating system answers is a record; what the harness does to it is a list of effects.
\<close>

section \<open>Configuration\<close>

definition DefaultACPPort :: int where "DefaultACPPort = 4000"
definition LoopbackACPPort :: int where "LoopbackACPPort = 4001"

record ServeConfig =
  sv_Port :: int
  sv_BindLoopback :: bool
  sv_SecretKey :: string
  sv_Provider :: string
  sv_Model :: string
  sv_APIKey :: string
  sv_Endpoint :: string
  sv_Mode :: string
  sv_MaxTurns :: int

datatype gooseEffect =
    MkdirTemp string
  | WriteSecretFile string string
  | RemoveAll string
  | StartGoose "string list" "string list" \<comment> \<open>arguments and environment\<close>
  | Sigterm
  | Sigkill

record serveWorld =
  gw_LookPath :: "string + string"
  gw_Environ :: "string list"
  gw_adcJSON :: string \<comment> \<open>\<open>GOOGLE_APPLICATION_CREDENTIALS_JSON\<close>\<close>
  gw_MkdirTemp :: "string + string"
  gw_WriteFile :: "string option"
  gw_Start :: "string option"

record ServeProcess =
  sp_port :: int
  sp_secretKey :: string
  sp_tempDirs :: "string list"

section \<open>The environment of the runtime\<close>

definition envVar :: "string \<Rightarrow> string \<Rightarrow> string" where
  "envVar k v = k @ ''='' @ v"

definition filterEnvKey :: "string list \<Rightarrow> string \<Rightarrow> string list" where
  "filterEnvKey env k = filter (\<lambda>e. \<not> hasPrefix e (k @ ''='')) env"

definition adcFile :: string where "adcFile = ''gcp-adc.json''"

definition writeADCFile :: "serveWorld \<Rightarrow> string \<Rightarrow> gooseEffect list \<times> (string + string)" where
  "writeADCFile w content = (case gw_MkdirTemp w of
      Inl e \<Rightarrow> ([], Inl (''create temp dir for ADC: '' @ e))
    | Inr dir \<Rightarrow> (let path = pathClean (dir @ ''/'' @ adcFile) in
        case gw_WriteFile w of
          Some e \<Rightarrow> ([MkdirTemp dir, WriteSecretFile path content], Inl (''write ADC file: '' @ e))
        | None \<Rightarrow> ([MkdirTemp dir, WriteSecretFile path content], Inr path)))"

text \<open>\<open>filepath.Dir\<close>.\<close>

definition pathDir :: "string \<Rightarrow> string" where
  "pathDir p = pathClean (rev (dropWhile (\<lambda>c. c \<noteq> CHR ''/'') (rev p)))"

definition providerName :: "string \<Rightarrow> string" where
  "providerName provider = map (\<lambda>c. if c = CHR ''-'' then CHR ''_'' else c) (toLower provider)"

definition apiKeyEnv :: "string \<Rightarrow> string \<Rightarrow> string list" where
  "apiKeyEnv p apiKey =
     (if apiKey = [] then []
      else if p = ''anthropic'' then [envVar ''ANTHROPIC_API_KEY'' apiKey]
      else if p = ''openai'' then [envVar ''OPENAI_API_KEY'' apiKey]
      else if p = ''google'' then [envVar ''GOOGLE_API_KEY'' apiKey]
      else if p = ''xai'' then [envVar ''XAI_API_KEY'' apiKey]
      else [])"

definition endpointEnv :: "string \<Rightarrow> string \<Rightarrow> string list" where
  "endpointEnv p endpoint =
     (if endpoint = [] then []
      else if p = ''anthropic'' then [envVar ''ANTHROPIC_HOST'' endpoint]
      else if p = ''openai'' then [envVar ''OPENAI_HOST'' endpoint]
      else [])"

definition adcKey :: string where "adcKey = ''GOOGLE_APPLICATION_CREDENTIALS''"
definition adcJSONKey :: string where "adcJSONKey = ''GOOGLE_APPLICATION_CREDENTIALS_JSON''"

definition adcEnv :: "serveWorld \<Rightarrow> string \<Rightarrow> string list \<Rightarrow> gooseEffect list \<times> string list \<times> string list" where
  "adcEnv w p env =
     (if p = ''gcp_vertex_ai'' \<and> gw_adcJSON w \<noteq> []
      then (case writeADCFile w (gw_adcJSON w) of
          (eff, Inl e) \<Rightarrow> (eff, filterEnvKey env adcJSONKey, [])
        | (eff, Inr path) \<Rightarrow> (eff, filterEnvKey (env @ [envVar adcKey path]) adcJSONKey, [pathDir path]))
      else ([], env, []))"

definition providerEnv :: "serveWorld \<Rightarrow> ServeConfig \<Rightarrow> gooseEffect list \<times> string list \<times> string list" where
  "providerEnv w cfg =
     (let p = providerName (sv_Provider cfg);
          env = gw_Environ w @ (if p \<noteq> [] then [envVar ''GOOSE_PROVIDER'' p] else [])
            @ (if sv_Model cfg \<noteq> [] then [envVar ''GOOSE_MODEL'' (sv_Model cfg)] else []) @ apiKeyEnv p (sv_APIKey cfg) in
      case adcEnv w p env of (eff, env1, dirs) \<Rightarrow> (eff, env1 @ endpointEnv p (sv_Endpoint cfg), dirs))"

definition executionEnv :: "string \<Rightarrow> int \<Rightarrow> string list" where
  "executionEnv mode maxTurns =
     (let m = (if mode = [] then ''auto'' else mode); native = NativeTurnLimit maxTurns in
      [envVar ''GOOSE_MODE'' m] @ (if native > 0 then [envVar ''GOOSE_MAX_TURNS'' (formatInt native)] else []))"

section \<open>Start and stop\<close>

definition loopback :: string where "loopback = ''127.0.0.1''"
definition allInterfaces :: string where "allInterfaces = ''0.0.0.0''"

definition secretKeyEnv :: string where "secretKeyEnv = ''GOOSE_SERVER__SECRET_KEY''"

definition StartServe :: "serveWorld \<Rightarrow> ServeConfig \<Rightarrow> gooseEffect list \<times> (string + ServeProcess)" where
  "StartServe w cfg = (case gw_LookPath w of
      Inl e \<Rightarrow> ([], Inl (''goose not found: '' @ e))
    | Inr goosePath \<Rightarrow>
        (let port = (if sv_Port cfg = 0 then DefaultACPPort else sv_Port cfg);
             host = (if sv_SecretKey cfg \<noteq> [] \<and> \<not> sv_BindLoopback cfg then allInterfaces else loopback) in
         case providerEnv w cfg of (eff, penv, tempDirs) \<Rightarrow>
           (let env = penv @ executionEnv (sv_Mode cfg) (sv_MaxTurns cfg)
                  @ (if sv_SecretKey cfg \<noteq> [] then [envVar secretKeyEnv (sv_SecretKey cfg)] else []);
                start = StartGoose [goosePath, ''serve'', ''--host'', host, ''--port'', formatInt port, ''--with-builtin'', ''developer''] env in
            case gw_Start w of
              Some e \<Rightarrow> (eff @ start # map RemoveAll tempDirs, Inl (''start goose serve: '' @ e))
            | None \<Rightarrow> (eff @ [start], Inr \<lparr>sp_port = port, sp_secretKey = sv_SecretKey cfg, sp_tempDirs = tempDirs\<rparr>))))"

text \<open>What happens while the process is stopped: whether it runs, whether it takes the signals, and whether it ends in time.\<close>

record stopWorld =
  sw_alive :: bool
  sw_sigterm :: "string option"
  sw_endsInTime :: bool
  sw_sigkill :: "string option"

definition cleanup :: "ServeProcess \<Rightarrow> gooseEffect list \<times> ServeProcess" where
  "cleanup s = (map RemoveAll (sp_tempDirs s), s\<lparr>sp_tempDirs := []\<rparr>)"

definition stopProcess :: "stopWorld \<Rightarrow> gooseEffect list \<times> string option" where
  "stopProcess w =
     (if \<not> sw_alive w then ([], None)
      else (case sw_sigterm w of
        Some e \<Rightarrow> ([Sigterm], Some (''sigterm: '' @ e))
      | None \<Rightarrow> if sw_endsInTime w then ([Sigterm], None)
          else (case sw_sigkill w of
            Some e \<Rightarrow> ([Sigterm, Sigkill], Some (''sigkill: '' @ e))
          | None \<Rightarrow> ([Sigterm, Sigkill], None))))"

definition StopServe :: "stopWorld \<Rightarrow> ServeProcess \<Rightarrow> gooseEffect list \<times> string option \<times> ServeProcess" where
  "StopServe w s = (case stopProcess w of (eff, err) \<Rightarrow> (case cleanup s of (eff', s') \<Rightarrow> (eff @ eff', err, s')))"

section \<open>The error line of a failed call\<close>

text \<open>One round of the loop sees the capture and then the clock; with no round left the harness still waits.\<close>

fun providerLoop :: "int \<Rightarrow> int \<Rightarrow> int \<Rightarrow> (outputCapture \<times> int) list \<Rightarrow> string option" where
  "providerLoop earliest failedAt deadline [] = None"
| "providerLoop earliest failedAt deadline ((c, now) # rounds) =
     (case lastErrorSince earliest c of (line, readAt) \<Rightarrow>
        if line \<noteq> [] \<and> readAt > failedAt then Some line
        else if \<not> now < deadline then Some line
        else providerLoop earliest failedAt deadline rounds)"

definition ProviderError :: "int \<Rightarrow> int \<Rightarrow> int \<Rightarrow> int \<Rightarrow> (outputCapture \<times> int) list \<Rightarrow> string option" where
  "ProviderError notBefore failedAt grace called rounds =
     (let earliest = (if failedAt - grace < notBefore then notBefore else failedAt - grace) in
      providerLoop earliest failedAt (called + grace) rounds)"

section \<open>The runtime is never open\<close>

lemma startServe_start:
  assumes "StartGoose args env \<in> set (fst (StartServe w cfg))"
  obtains goosePath eff penv dirs where "providerEnv w cfg = (eff, penv, dirs)"
    "args = [goosePath, ''serve'', ''--host'', if sv_SecretKey cfg \<noteq> [] \<and> \<not> sv_BindLoopback cfg then allInterfaces else loopback,
      ''--port'', formatInt (if sv_Port cfg = 0 then DefaultACPPort else sv_Port cfg), ''--with-builtin'', ''developer'']"
    "env = penv @ executionEnv (sv_Mode cfg) (sv_MaxTurns cfg) @ (if sv_SecretKey cfg \<noteq> [] then [envVar secretKeyEnv (sv_SecretKey cfg)] else [])"
proof -
  obtain eff penv dirs where p: "providerEnv w cfg = (eff, penv, dirs)" by (cases "providerEnv w cfg")
  have "StartGoose args env \<notin> set eff"
    using p by (auto simp: providerEnv_def adcEnv_def writeADCFile_def Let_def split: if_splits sum.splits option.splits prod.splits)
  then show ?thesis
    using that [OF p] assms by (auto simp: StartServe_def p Let_def split: sum.splits option.splits)
qed

lemma adc_removed:
  assumes "providerEnv w cfg = (eff, penv, dirs)" and "providerName (sv_Provider cfg) = ''gcp_vertex_ai''" and "gw_adcJSON w \<noteq> []" and "e \<in> set penv"
  shows "\<not> hasPrefix e (adcJSONKey @ ''='')"
  using assms by (auto simp: providerEnv_def adcEnv_def endpointEnv_def filterEnvKey_def Let_def split: sum.splits prod.splits if_splits)

lemma no_adc_json: "\<not> hasPrefix (envVar ''GOOSE_MODE'' m) (adcJSONKey @ ''='')" "\<not> hasPrefix (envVar ''GOOSE_MAX_TURNS'' m) (adcJSONKey @ ''='')"
  "\<not> hasPrefix (envVar secretKeyEnv m) (adcJSONKey @ ''='')"
  by (simp_all add: envVar_def adcJSONKey_def secretKeyEnv_def hasPrefix_def)


section \<open>The credential file\<close>

lemma providerEnv_file:
  assumes "providerEnv w cfg = (eff, penv, dirs)" and "WriteSecretFile path content \<in> set eff"
  shows "gw_WriteFile w = None \<Longrightarrow> dirs = [pathDir path]" and "gw_WriteFile w \<noteq> None \<Longrightarrow> dirs = []"
  using assms by (auto simp: providerEnv_def adcEnv_def writeADCFile_def Let_def split: if_splits sum.splits option.splits prod.splits)

lemma startServe_file:
  "WriteSecretFile path content \<in> set (fst (StartServe w cfg)) \<Longrightarrow> WriteSecretFile path content \<in> set (fst (providerEnv w cfg))"
  by (auto simp: StartServe_def Let_def split: sum.splits option.splits prod.splits)

lemma stop_removes: "d \<in> set (sp_tempDirs s) \<Longrightarrow> RemoveAll d \<in> set (fst (StopServe sw s))"
  by (simp add: StopServe_def cleanup_def split: prod.split)

text \<open>A credential file that was written is removed with its directory: at once when the runtime does not start, and
  else when it is stopped, whether it runs, ignores its signals or has to be killed.\<close>

theorem credentials_removed:
  assumes "WriteSecretFile path content \<in> set (fst (StartServe w cfg))" and "gw_WriteFile w = None"
  shows "case snd (StartServe w cfg) of
       Inl e \<Rightarrow> RemoveAll (pathDir path) \<in> set (fst (StartServe w cfg))
     | Inr s \<Rightarrow> RemoveAll (pathDir path) \<in> set (fst (StopServe sw s))"
proof -
  obtain eff penv dirs where p: "providerEnv w cfg = (eff, penv, dirs)" by (cases "providerEnv w cfg")
  have d: "dirs = [pathDir path]" using providerEnv_file(1) [OF p] startServe_file [OF assms(1)] assms(2) p by simp
  obtain goosePath where g: "gw_LookPath w = Inr goosePath" using assms(1) by (cases "gw_LookPath w") (simp_all add: StartServe_def)
  show ?thesis by (cases "gw_Start w") (simp_all add: StartServe_def g p d Let_def stop_removes)
qed

text \<open>A file whose writing failed is not removed, nor is its directory.\<close>

lemma failed_file_stays:
  assumes "WriteSecretFile path content \<in> set (fst (StartServe w cfg))" and "gw_WriteFile w \<noteq> None"
  shows "\<not> list_ex (\<lambda>e. \<exists>d. e = RemoveAll d) (fst (StartServe w cfg)) \<and> (\<forall>s sw. snd (StartServe w cfg) = Inr s \<longrightarrow> \<not> list_ex (\<lambda>e. \<exists>d. e = RemoveAll d) (fst (StopServe sw s)))"
proof -
  obtain eff penv dirs where p: "providerEnv w cfg = (eff, penv, dirs)" by (cases "providerEnv w cfg")
  have d: "dirs = []" using providerEnv_file(2) [OF p] startServe_file [OF assms(1)] assms(2) p by simp
  have "RemoveAll x \<notin> set eff" for x
    using p by (auto simp: providerEnv_def adcEnv_def writeADCFile_def Let_def split: if_splits sum.splits option.splits prod.splits)
  moreover have "stopProcess sw = (a, b) \<Longrightarrow> RemoveAll x \<notin> set a" for x sw a b by (auto simp: stopProcess_def split: option.splits if_splits)
  ultimately show ?thesis
    by (auto simp: StartServe_def StopServe_def cleanup_def p d Let_def list_ex_iff split: sum.splits option.splits prod.splits)
qed

section \<open>The reason of a failure\<close>

lemma lastErrorSince_line:
  assumes "lastErrorSince since c = (line, readAt)" and "line \<noteq> []"
  shows "\<lparr>cl_at = readAt, cl_text = line\<rparr> \<in> set (oc_lines c)" and "since < readAt"
proof -
  obtain l where f: "find (\<lambda>l. cl_at l > since) (rev (oc_lines c)) = Some l" and l: "line = cl_text l" "readAt = cl_at l"
    using assms by (auto simp: lastErrorSince_def split: option.splits)
  have m: "l \<in> set (oc_lines c)" "since < cl_at l" using f by (auto simp: find_Some_iff) (metis nth_mem set_rev length_rev)
  show "since < readAt" using m(2) l by simp
  have "l = \<lparr>cl_at = readAt, cl_text = line\<rparr>" using l by simp
  then show "\<lparr>cl_at = readAt, cl_text = line\<rparr> \<in> set (oc_lines c)" using m(1) by simp
qed

text \<open>A line that explains the failure of a call: read after the prompt was sent and not longer before the failure than
  the grace, and after the failure unless the wait went on to its end.\<close>

definition explains :: "int \<Rightarrow> int \<Rightarrow> int \<Rightarrow> int \<Rightarrow> string \<Rightarrow> outputCapture \<times> int \<Rightarrow> bool" where
  "explains notBefore failedAt grace deadline line = (\<lambda>(c, now).
     \<exists>readAt. \<lparr>cl_at = readAt, cl_text = line\<rparr> \<in> set (oc_lines c) \<and> notBefore < readAt \<and> failedAt - grace < readAt \<and> (failedAt < readAt \<or> deadline \<le> now))"

lemma providerLoop_result:
  assumes "list_ex (\<lambda>(c, now). deadline \<le> now) rounds" and "notBefore \<le> earliest" and "failedAt - grace \<le> earliest"
  shows "\<exists>line. providerLoop earliest failedAt deadline rounds = Some line
     \<and> (line = [] \<or> list_ex (explains notBefore failedAt grace deadline line) rounds)"
  using assms
proof (induction earliest failedAt deadline rounds rule: providerLoop.induct)
  case (2 earliest failedAt deadline c now rounds)
  obtain line readAt where la: "lastErrorSince earliest c = (line, readAt)" by (cases "lastErrorSince earliest c")
  have ok: "explains notBefore failedAt grace deadline line (c, now)" if "line \<noteq> []" "failedAt < readAt \<or> deadline \<le> now"
    using lastErrorSince_line [OF la that(1)] that(2) 2(3,4) by (force simp: explains_def)
  show ?case
  proof (cases "line \<noteq> [] \<and> readAt > failedAt \<or> \<not> now < deadline")
    case True
    then have "providerLoop earliest failedAt deadline ((c, now) # rounds) = Some line" by (auto simp: la)
    then show ?thesis using ok True by auto
  next
    case False
    then have "list_ex (\<lambda>(c, now). deadline \<le> now) rounds" using 2(2) by simp
    then show ?thesis using 2(1) [OF la [symmetric]] 2(3,4) False by (auto simp: la)
  qed
qed simp

text \<open>Once the grace is over the search for the reason of a failed call returns, and what it returns is either nothing
  or a captured error line from after the prompt was sent and from no longer before the failure than the grace; before
  the grace is over only a line from after the failure is returned.\<close>

theorem provider_error_of_this_call:
  assumes "list_ex (\<lambda>(c, now). called + grace \<le> now) rounds"
  shows "\<exists>line. ProviderError notBefore failedAt grace called rounds = Some line
     \<and> (line = [] \<or> list_ex (explains notBefore failedAt grace (called + grace) line) rounds)"
  unfolding ProviderError_def Let_def by (rule providerLoop_result [OF assms]) auto

section \<open>Samples\<close>

definition sampleServe :: ServeConfig where
  "sampleServe = \<lparr>sv_Port = 0, sv_BindLoopback = False, sv_SecretKey = ''key'', sv_Provider = ''gcp-vertex-ai'', sv_Model = ''m'', sv_APIKey = [],
     sv_Endpoint = [], sv_Mode = [], sv_MaxTurns = 100\<rparr>"

definition sampleServeWorld :: serveWorld where
  "sampleServeWorld = \<lparr>gw_LookPath = Inr ''/bin/goose'', gw_Environ = [''PATH=/bin'', ''GOOGLE_APPLICATION_CREDENTIALS_JSON={}''], gw_adcJSON = ''{}'',
     gw_MkdirTemp = Inr ''/tmp/h'', gw_WriteFile = None, gw_Start = None\<rparr>"

definition sampleArgs :: "string list" where
  "sampleArgs = [''/bin/goose'', ''serve'', ''--host'', ''0.0.0.0'', ''--port'', ''4000'', ''--with-builtin'', ''developer'']"

definition sampleEnv :: "string list" where
  "sampleEnv = [''PATH=/bin'', ''GOOSE_PROVIDER=gcp_vertex_ai'', ''GOOSE_MODEL=m'', ''GOOGLE_APPLICATION_CREDENTIALS=/tmp/h/gcp-adc.json'', ''GOOSE_MODE=auto'',
     ''GOOSE_MAX_TURNS=85'', ''GOOSE_SERVER__SECRET_KEY=key'']"

lemma sample_started: "StartServe sampleServeWorld sampleServe = ([MkdirTemp ''/tmp/h'', WriteSecretFile ''/tmp/h/gcp-adc.json'' ''{}'', StartGoose sampleArgs sampleEnv],
   Inr \<lparr>sp_port = 4000, sp_secretKey = ''key'', sp_tempDirs = [''/tmp/h'']\<rparr>)"
  by code_simp


theorem credentials_removed_witness:
  "RemoveAll (pathDir ''/tmp/h/gcp-adc.json'') \<in> set (fst (StopServe \<lparr>sw_alive = True, sw_sigterm = Some ''gone'', sw_endsInTime = False, sw_sigkill = None\<rparr>
     \<lparr>sp_port = 4000, sp_secretKey = ''key'', sp_tempDirs = [''/tmp/h'']\<rparr>))"
proof -
  have "gw_WriteFile sampleServeWorld = None" by (simp add: sampleServeWorld_def)
  then show ?thesis
    using credentials_removed [of "''/tmp/h/gcp-adc.json''" "''{}''" sampleServeWorld sampleServe
        "\<lparr>sw_alive = True, sw_sigterm = Some ''gone'', sw_endsInTime = False, sw_sigkill = None\<rparr>"]
    by (simp add: sample_started)
qed

definition sampleRounds :: "(outputCapture \<times> int) list" where
  "sampleRounds = [(newOutputCapture, 5), (newOutputCapture\<lparr>oc_lines := [\<lparr>cl_at = 4, cl_text = ''ERROR denied''\<rparr>]\<rparr>, 30)]"

theorem provider_error_of_this_call_witness:
  "\<exists>line. ProviderError 0 10 20 10 sampleRounds = Some line \<and> line = ''ERROR denied'' \<and> list_ex (explains 0 10 20 30 line) sampleRounds"
proof -
  have "list_ex (\<lambda>(c, now). 10 + 20 \<le> now) sampleRounds" by (simp add: sampleRounds_def)
  moreover have "ProviderError 0 10 20 10 sampleRounds = Some ''ERROR denied''"
    by (simp add: ProviderError_def sampleRounds_def lastErrorSince_def newOutputCapture_def)
  ultimately show ?thesis using provider_error_of_this_call [of 10 20 sampleRounds 0 10] by simp
qed

end
