(* ===== verification/AskUser.thy ===== *)
theory AskUser
  imports HarnessText JsonStruct
begin

text \<open>
  The server that gives the agent its ask_user tool (src/harness/internal/askuser/server.go). It reads frames from its
  input, answers requests, and turns a tool call into a question that waits for its answer on the same input. Every tool
  call is a goroutine; reading a line, beginning a call, finishing it and giving it up are the events of a trace. The
  text of a raw value is a parameter, as is the quoting of an unknown tool name.
\<close>

section \<open>Frames\<close>

definition ToolName :: string where "ToolName = ''ask_user''"
definition protocolVersion :: string where "protocolVersion = ''2025-06-18''"
definition elicitMethod :: string where "elicitMethod = ''elicitation/create''"

definition toolDescription :: string where
  "toolDescription = ''Ask the human watching this run a question and wait for the answer. ''
     @ ''Use it whenever you need a decision only a human can make: a missing prerequisite, ''
     @ ''an ambiguous requirement, a choice between approaches, or anything destructive. ''
     @ ''The call blocks until someone answers. If nobody is watching, it says so '' @ emDash @ '' then ''
     @ ''explain what you need and stop instead of guessing.''"

record askError =
  ae_code :: int
  ae_message :: string

record rpcFrame =
  fr_ID :: "json option"
  fr_Method :: string
  fr_Params :: "json option"
  fr_Result :: "json option"
  fr_Error :: "askError option"

record askLib =
  al_quote :: "string \<Rightarrow> string"
  al_raw :: "json \<Rightarrow> string"

definition zeroFrame :: rpcFrame where
  "zeroFrame = \<lparr>fr_ID = None, fr_Method = [], fr_Params = None, fr_Result = None, fr_Error = None\<rparr>"

definition askErrorOf :: "(string \<times> json) list option \<Rightarrow> askError option option" where
  "askErrorOf e = (case e of
      None \<Rightarrow> Some None
    | Some ms \<Rightarrow> (case (intField ''code'' ms, strField ''message'' ms) of
        (Some code, Some message) \<Rightarrow> Some (Some \<lparr>ae_code = code, ae_message = message\<rparr>)
      | _ \<Rightarrow> None))"

definition decodeAskFrame :: "string \<Rightarrow> rpcFrame option" where
  "decodeAskFrame line = (case jsonParse line of
      Some (JObj ms) \<Rightarrow> (case (strField ''jsonrpc'' ms, strField ''method'' ms, Option.bind (ptrField ''error'' ms) askErrorOf) of
          (Some _, Some method, Some err) \<Rightarrow> Some \<lparr>fr_ID = rawField ''id'' ms, fr_Method = method, fr_Params = rawField ''params'' ms,
            fr_Result = rawField ''result'' ms, fr_Error = err\<rparr>
        | _ \<Rightarrow> None)
    | Some JNull \<Rightarrow> Some zeroFrame
    | _ \<Rightarrow> None)"

section \<open>The tool\<close>

record ToolCallArgs =
  ta_Question :: string
  ta_Options :: "string list"

text \<open>Decoding of a list of strings: null leaves an element empty.\<close>

fun strList :: "json list \<Rightarrow> string list option" where
  "strList [] = Some []"
| "strList (v # vs) = (case (intoString [] v, strList vs) of (Some x, Some xs) \<Rightarrow> Some (x # xs) | _ \<Rightarrow> None)"

fun intoStrList :: "string list \<Rightarrow> json \<Rightarrow> string list option" where
  "intoStrList old (JArr vs) = strList vs"
| "intoStrList old JNull = Some []"
| "intoStrList old _ = None"

fun toolArgs :: "json option \<Rightarrow> ToolCallArgs option" where
  "toolArgs None = Some \<lparr>ta_Question = [], ta_Options = []\<rparr>"
| "toolArgs (Some JNull) = Some \<lparr>ta_Question = [], ta_Options = []\<rparr>"
| "toolArgs (Some (JObj ms)) = (case (strField ''question'' ms, foldField intoStrList [] (members ''options'' ms)) of
      (Some q, Some os) \<Rightarrow> Some \<lparr>ta_Question = q, ta_Options = os\<rparr>
    | _ \<Rightarrow> None)"
| "toolArgs _ = None"

definition ElicitationSchema :: "ToolCallArgs \<Rightarrow> json" where
  "ElicitationSchema args = JObj [(''properties'', JObj [(''answer'', JObj ([(''description'', JStr (ta_Question args))]
       @ (if ta_Options args \<noteq> [] then [(''enum'', JArr (map JStr (ta_Options args)))] else [])
       @ [(''title'', JStr ''Answer''), (''type'', JStr ''string'')]))]),
     (''required'', JArr [JStr ''answer'']), (''type'', JStr ''object'')]"

definition toolDefinition :: json where
  "toolDefinition = JObj [(''description'', JStr toolDescription), (''inputSchema'', JObj [
     (''properties'', JObj [
       (''options'', JObj [(''description'', JStr ''Optional fixed choices the human picks from. Omit for a free-text answer.''),
          (''items'', JObj [(''type'', JStr ''string'')]), (''type'', JStr ''array'')]),
       (''question'', JObj [(''description'', JStr ''The question, with enough context to answer it without reading the transcript.''), (''type'', JStr ''string'')])]),
     (''required'', JArr [JStr ''question'']), (''type'', JStr ''object'')]), (''name'', JStr ToolName)]"

text \<open>A decoding whose error is ignored keeps what could be decoded.\<close>

definition leniently :: "('a \<Rightarrow> json \<Rightarrow> 'a option) \<Rightarrow> 'a \<Rightarrow> json list \<Rightarrow> 'a" where
  "leniently dec zero vs = foldl (\<lambda>x v. case dec x v of Some y \<Rightarrow> y | None \<Rightarrow> x) zero vs"

fun intoContent :: "(string \<times> json) list \<Rightarrow> json \<Rightarrow> (string \<times> json) list option" where
  "intoContent old (JObj ms) = Some (old @ ms)"
| "intoContent old JNull = Some []"
| "intoContent old _ = None"

definition replyMembers :: "json option \<Rightarrow> (string \<times> json) list" where
  "replyMembers reply = (case reply of Some (JObj ms) \<Rightarrow> ms | _ \<Rightarrow> [])"

definition replyAction :: "json option \<Rightarrow> string" where
  "replyAction reply = leniently intoString [] (members ''action'' (replyMembers reply))"

definition replyAnswer :: "askLib \<Rightarrow> json option \<Rightarrow> string" where
  "replyAnswer K reply = (case map_of (rev (leniently intoContent [] (members ''content'' (replyMembers reply)))) ''answer'' of
      None \<Rightarrow> []
    | Some raw \<Rightarrow> (case intoString [] raw of Some a \<Rightarrow> a | None \<Rightarrow> al_raw K raw))"

definition answeredPrefix :: string where "answeredPrefix = ''The human answered: ''"

definition AnswerText :: "askLib \<Rightarrow> string + json option \<Rightarrow> string" where
  "AnswerText K res = (case res of
      Inl e \<Rightarrow> ''No human answered (the question could not be delivered: '' @ e @ ''). Do not invent an answer: explain what you need and stop.''
    | Inr reply \<Rightarrow>
        if replyAction reply = ''accept''
        then (if trimSpace (replyAnswer K reply) = []
          then ''The human accepted the question but gave no answer. Decide for yourself if you safely can; otherwise explain what you need and stop.''
          else answeredPrefix @ replyAnswer K reply)
        else if replyAction reply = ''decline''
        then ''The human declined to answer. Decide for yourself if you safely can; otherwise explain what you need and stop.''
        else ''No human answered (nobody is watching this run, or the question timed out). Do not invent an answer: explain what you need and stop.'')"

section \<open>The server\<close>

text \<open>A tool call: begun by a line, waiting for a reply under its key, or answered.\<close>

datatype toolState = Spawned "json option" | Waiting string "rpcFrame option" | Answered

record askServer =
  as_nextID :: nat
  as_pending :: "string list"
  as_tools :: "(json option \<times> toolState) list"
  as_out :: "json list" \<comment> \<open>the frames written\<close>
  as_answers :: "(nat \<times> string \<times> string) list" \<comment> \<open>the text each tool call was given, and the key it asked under\<close>
  as_reading :: bool
  as_cancelled :: bool

definition newAskServer :: askServer where
  "newAskServer = \<lparr>as_nextID = 0, as_pending = [], as_tools = [], as_out = [], as_answers = [], as_reading = True, as_cancelled = False\<rparr>"

definition idJson :: "json option \<Rightarrow> json" where
  "idJson i = (case i of None \<Rightarrow> JNull | Some v \<Rightarrow> v)"

text \<open>\<open>write\<close>: the message goes out unless writing fails.\<close>

definition writeMsg :: "bool \<Rightarrow> json \<Rightarrow> askServer \<Rightarrow> askServer" where
  "writeMsg ok msg s = (if ok then s\<lparr>as_out := as_out s @ [msg]\<rparr> else s)"

definition respondAsk :: "bool \<Rightarrow> json option \<Rightarrow> json \<Rightarrow> askServer \<Rightarrow> askServer" where
  "respondAsk ok i result s = writeMsg ok (JObj [(''id'', idJson i), (''jsonrpc'', JStr ''2.0''), (''result'', result)]) s"

definition respondAskError :: "bool \<Rightarrow> json option \<Rightarrow> int \<Rightarrow> string \<Rightarrow> askServer \<Rightarrow> askServer" where
  "respondAskError ok i code msg s = writeMsg ok (JObj [(''error'', JObj [(''code'', JNum (formatInt code)), (''message'', JStr msg)]),
     (''id'', idJson i), (''jsonrpc'', JStr ''2.0'')]) s"

definition toolResult :: "bool \<Rightarrow> json option \<Rightarrow> string \<Rightarrow> bool \<Rightarrow> askServer \<Rightarrow> askServer" where
  "toolResult ok i text isError s = respondAsk ok i (JObj [(''content'', JArr [JObj [(''text'', JStr text), (''type'', JStr ''text'')]]), (''isError'', JBool isError)]) s"

definition handleRequest :: "bool \<Rightarrow> rpcFrame \<Rightarrow> askServer \<Rightarrow> askServer" where
  "handleRequest ok f s =
     (if fr_Method f = ''initialize'' then respondAsk ok (fr_ID f) (JObj [(''capabilities'', JObj [(''tools'', JObj [])]),
        (''protocolVersion'', JStr protocolVersion), (''serverInfo'', JObj [(''name'', JStr ''konveyor-ask-user''), (''version'', JStr ''0.1.0'')])]) s
      else if fr_Method f = ''ping'' then respondAsk ok (fr_ID f) (JObj []) s
      else if fr_Method f = ''tools/list'' then respondAsk ok (fr_ID f) (JObj [(''tools'', JArr [toolDefinition])]) s
      else respondAskError ok (fr_ID f) (-32601) (''method not found: '' @ fr_Method f) s)"

text \<open>The end of a tool call: its state and the text it was given.\<close>

definition answerTool :: "nat \<Rightarrow> string \<Rightarrow> string \<Rightarrow> askServer \<Rightarrow> askServer" where
  "answerTool i k text s = s\<lparr>as_tools := (as_tools s)[i := (fst (as_tools s ! i), Answered)], as_answers := as_answers s @ [(i, k, text)]\<rparr>"

text \<open>\<open>handleToolCall\<close> up to its question: what the call asks, or the error it is refused with.\<close>

datatype toolRequest = RefuseCall string | NeedsQuestion | Ask ToolCallArgs

definition toolRequest :: "askLib \<Rightarrow> json option \<Rightarrow> toolRequest" where
  "toolRequest K params = (case Option.bind params (intoObj []) of
      None \<Rightarrow> RefuseCall ''invalid tools/call params''
    | Some ms \<Rightarrow> (case strField ''name'' ms of
        None \<Rightarrow> RefuseCall ''invalid tools/call params''
      | Some name \<Rightarrow> if name \<noteq> ToolName then RefuseCall (''unknown tool '' @ al_quote K name)
          else (case toolArgs (rawField ''arguments'' ms) of
            None \<Rightarrow> RefuseCall ''invalid ask_user arguments''
          | Some args \<Rightarrow> (let q = trimSpace (ta_Question args) in if q = [] then NeedsQuestion else Ask (args\<lparr>ta_Question := q\<rparr>)))))"

definition questionFrame :: "nat \<Rightarrow> ToolCallArgs \<Rightarrow> json" where
  "questionFrame n args = JObj [(''id'', JNum (showNat n)), (''jsonrpc'', JStr ''2.0''), (''method'', JStr elicitMethod),
     (''params'', JObj [(''message'', JStr (ta_Question args)), (''requestedSchema'', ElicitationSchema args)])]"

text \<open>The call begins: it is refused, or its question is recorded as pending and written. A question that cannot be written
  is taken back and the call told so.\<close>

definition beginTool :: "askLib \<Rightarrow> nat \<Rightarrow> string option \<Rightarrow> bool \<Rightarrow> askServer \<Rightarrow> askServer" where
  "beginTool K i werr ok s = (if i < length (as_tools s) then (case as_tools s ! i of
      (tid, Spawned params) \<Rightarrow> (case toolRequest K params of
          RefuseCall msg \<Rightarrow> answerTool i [] msg (respondAskError ok tid (-32602) msg s)
        | NeedsQuestion \<Rightarrow> answerTool i [] ''ask_user needs a question.'' (toolResult ok tid ''ask_user needs a question.'' True s)
        | Ask args \<Rightarrow>
            (let n = Suc (as_nextID s); s1 = s\<lparr>as_nextID := n\<rparr> in
             case werr of
               Some e \<Rightarrow> answerTool i [] (AnswerText K (Inl e)) (toolResult ok tid (AnswerText K (Inl e)) False s1)
             | None \<Rightarrow> writeMsg True (questionFrame n args)
                 (s1\<lparr>as_pending := showNat n # as_pending s, as_tools := (as_tools s)[i := (tid, Waiting (showNat n) None)]\<rparr>)))
    | _ \<Rightarrow> s) else s)"

definition askErrorText :: "askError \<Rightarrow> string" where
  "askErrorText e = elicitMethod @ '': '' @ ae_message e @ '' (code '' @ formatInt (ae_code e) @ '')''"

definition callResult :: "rpcFrame \<Rightarrow> string + json option" where
  "callResult f = (case fr_Error f of Some e \<Rightarrow> Inl (askErrorText e) | None \<Rightarrow> Inr (fr_Result f))"

text \<open>The reply arrives, or the context is done first.\<close>

definition finishTool :: "askLib \<Rightarrow> nat \<Rightarrow> bool \<Rightarrow> askServer \<Rightarrow> askServer" where
  "finishTool K i ok s = (if i < length (as_tools s) then (case as_tools s ! i of
      (tid, Waiting k (Some f)) \<Rightarrow> answerTool i k (AnswerText K (callResult f)) (toolResult ok tid (AnswerText K (callResult f)) False s)
    | _ \<Rightarrow> s) else s)"

definition cancelTool :: "askLib \<Rightarrow> nat \<Rightarrow> bool \<Rightarrow> askServer \<Rightarrow> askServer" where
  "cancelTool K i ok s = (if as_cancelled s \<and> i < length (as_tools s) then (case as_tools s ! i of
      (tid, Waiting k ch) \<Rightarrow> answerTool i k (AnswerText K (Inl ''context canceled''))
        (toolResult ok tid (AnswerText K (Inl ''context canceled'')) False (s\<lparr>as_pending := removeAll k (as_pending s)\<rparr>))
    | _ \<Rightarrow> s) else s)"

fun putReply :: "string \<Rightarrow> rpcFrame \<Rightarrow> json option \<times> toolState \<Rightarrow> json option \<times> toolState" where
  "putReply k f (tid, Waiting k' ch) = (tid, Waiting k' (if k' = k then Some f else ch))"
| "putReply k f t = t"

definition askKey :: "askLib \<Rightarrow> rpcFrame \<Rightarrow> string" where
  "askKey K f = trimBoth (CHR 0x22) (al_raw K (idJson (fr_ID f)))"

definition deliver :: "askLib \<Rightarrow> rpcFrame \<Rightarrow> askServer \<Rightarrow> askServer" where
  "deliver K f s = (let k = askKey K f in
     if k \<in> set (as_pending s) then s\<lparr>as_pending := removeAll k (as_pending s), as_tools := map (putReply k f) (as_tools s)\<rparr> else s)"

definition failedFrame :: "string \<Rightarrow> rpcFrame" where
  "failedFrame reason = zeroFrame\<lparr>fr_Error := Some \<lparr>ae_code = -32603, ae_message = reason\<rparr>\<rparr>"

definition failPending :: "string \<Rightarrow> askServer \<Rightarrow> askServer" where
  "failPending reason s = s\<lparr>as_pending := [], as_tools := fold (\<lambda>k ts. map (putReply k (failedFrame reason)) ts) (as_pending s) (as_tools s)\<rparr>"

text \<open>One line of the loop of \<open>Serve\<close>.\<close>

definition serveLine :: "askLib \<Rightarrow> string \<Rightarrow> bool \<Rightarrow> askServer \<Rightarrow> askServer" where
  "serveLine K line ok s =
     (if trimSpace line = [] then s
      else (case decodeAskFrame line of
        None \<Rightarrow> s
      | Some f \<Rightarrow>
          if fr_Method f = [] \<and> fr_ID f \<noteq> None then deliver K f s
          else if fr_Method f \<noteq> [] \<and> fr_ID f = None then s
          else if fr_Method f = ''tools/call'' then s\<lparr>as_tools := as_tools s @ [(fr_ID f, Spawned (fr_Params f))]\<rparr>
          else handleRequest ok f s))"

datatype askEvent =
    EvLine string bool
  | EvBegin nat "string option" bool
  | EvFinish nat bool
  | EvCancel nat bool
  | EvContextDone
  | EvShutdown
  | EvEOF

fun askStep :: "askLib \<Rightarrow> askEvent \<Rightarrow> askServer \<Rightarrow> askServer" where
  "askStep K (EvLine line ok) s = (if as_reading s then serveLine K line ok s else s)"
| "askStep K (EvBegin i werr ok) s = beginTool K i werr ok s"
| "askStep K (EvFinish i ok) s = finishTool K i ok s"
| "askStep K (EvCancel i ok) s = cancelTool K i ok s"
| "askStep K EvContextDone s = s\<lparr>as_cancelled := True\<rparr>"
| "askStep K EvShutdown s = (if as_reading s \<and> as_cancelled s then (failPending ''server shutting down'' s)\<lparr>as_reading := False\<rparr> else s)"
| "askStep K EvEOF s = (if as_reading s then (failPending ''stdin closed'' s)\<lparr>as_reading := False\<rparr> else s)"

inductive askTrace :: "askLib \<Rightarrow> askEvent list \<Rightarrow> askServer \<Rightarrow> bool" for K where
  start: "askTrace K [] newAskServer"
| step: "askTrace K evs s \<Longrightarrow> askTrace K (evs @ [e]) (askStep K e s)"

lemma askTrace_fold: "askTrace K evs (fold (askStep K) evs newAskServer)"
proof (induction evs rule: rev_induct)
  case (snoc e evs)
  then show ?case using askTrace.step by fastforce
qed (simp add: askTrace.start)

section \<open>No answer is invented\<close>

text \<open>A frame from the input that answers the question with this key, and what makes the text of a tool call honest.\<close>

definition heardFrom :: "askLib \<Rightarrow> askEvent list \<Rightarrow> string \<Rightarrow> rpcFrame \<Rightarrow> bool" where
  "heardFrom K evs k f \<longleftrightarrow> (\<exists>line ok. EvLine line ok \<in> set evs \<and> decodeAskFrame line = Some f \<and> fr_Method f = [] \<and> askKey K f = k)"

definition honest :: "askLib \<Rightarrow> askEvent list \<Rightarrow> string \<Rightarrow> string \<Rightarrow> bool" where
  "honest K evs k text \<longleftrightarrow> (hasPrefix text answeredPrefix \<longrightarrow>
     (\<exists>f. heardFrom K evs k f \<and> fr_Error f = None \<and> replyAction (fr_Result f) = ''accept'' \<and> text = answeredPrefix @ replyAnswer K (fr_Result f)))"

definition waitsIn :: "(json option \<times> toolState) list \<Rightarrow> nat \<Rightarrow> string \<Rightarrow> rpcFrame option \<Rightarrow> bool" where
  "waitsIn ts i k ch \<longleftrightarrow> i < length ts \<and> snd (ts ! i) = Waiting k ch"

definition waitOK :: "askLib \<Rightarrow> askEvent list \<Rightarrow> nat \<Rightarrow> string list \<Rightarrow> string \<Rightarrow> rpcFrame option \<Rightarrow> bool" where
  "waitOK K evs n pend k ch \<longleftrightarrow> k \<in> showNat ` {..n} \<and> (ch = None \<longleftrightarrow> k \<in> set pend) \<and> (\<forall>f. ch = Some f \<longrightarrow> fr_Error f \<noteq> None \<or> heardFrom K evs k f)"

definition oneKeyEach :: "(json option \<times> toolState) list \<Rightarrow> bool" where
  "oneKeyEach ts \<longleftrightarrow> (\<forall>i j k ch ch'. waitsIn ts i k ch \<longrightarrow> waitsIn ts j k ch' \<longrightarrow> i = j)"

definition answeredOK :: "askLib \<Rightarrow> askEvent list \<Rightarrow> (json option \<times> toolState) list \<Rightarrow> nat \<times> string \<times> string \<Rightarrow> bool" where
  "answeredOK K evs ts = (\<lambda>(i, k, t). i < length ts \<and> snd (ts ! i) = Answered \<and> honest K evs k t)"

definition askOK :: "askLib \<Rightarrow> askEvent list \<Rightarrow> nat \<Rightarrow> string list \<Rightarrow> (json option \<times> toolState) list \<Rightarrow> (nat \<times> string \<times> string) list \<Rightarrow> bool" where
  "askOK K evs n pend ts answers \<longleftrightarrow> (\<forall>i k ch. waitsIn ts i k ch \<longrightarrow> waitOK K evs n pend k ch) \<and> oneKeyEach ts \<and> set pend \<subseteq> showNat ` {..n}
     \<and> distinct (map fst answers) \<and> list_all (answeredOK K evs ts) answers"

abbreviation askInv :: "askLib \<Rightarrow> askEvent list \<Rightarrow> askServer \<Rightarrow> bool" where
  "askInv K evs s \<equiv> askOK K evs (as_nextID s) (as_pending s) (as_tools s) (as_answers s)"

lemma heardFrom_mono: "heardFrom K evs k f \<Longrightarrow> heardFrom K (evs @ [e]) k f"
  by (auto simp: heardFrom_def)

lemma honest_mono: "honest K evs k t \<Longrightarrow> honest K (evs @ [e]) k t"
  by (auto simp: honest_def intro: heardFrom_mono)

lemma waitOK_mono: "waitOK K evs n pend k ch \<Longrightarrow> waitOK K (evs @ [e]) n pend k ch"
  by (auto simp: waitOK_def intro: heardFrom_mono)

lemma answeredOK_mono: "answeredOK K evs ts a \<Longrightarrow> answeredOK K (evs @ [e]) ts a"
  by (auto simp: answeredOK_def intro: honest_mono)

lemma askOK_mono: "askOK K evs n pend ts answers \<Longrightarrow> askOK K (evs @ [e]) n pend ts answers"
  by (simp add: askOK_def list_all_iff waitOK_mono answeredOK_mono)

lemma waitsIn_update: "waitsIn (ts[i := (x, st)]) j k ch \<longleftrightarrow> (if i = j \<and> i < length ts then st = Waiting k ch else waitsIn ts j k ch)"
  by (auto simp: waitsIn_def nth_list_update)

lemma waitsIn_append: "waitsIn (ts @ [(x, Spawned p)]) i k ch \<longleftrightarrow> waitsIn ts i k ch"
  by (auto simp: waitsIn_def nth_append)

lemma answeredOK_append: "answeredOK K evs ts a \<Longrightarrow> answeredOK K evs (ts @ us) a"
  by (auto simp: answeredOK_def nth_append)

lemma answeredOK_update: "answeredOK K evs ts a \<Longrightarrow> st = Answered \<or> snd (ts ! i) \<noteq> Answered \<Longrightarrow> answeredOK K evs (ts[i := (x, st)]) a"
  by (cases "fst a = i") (auto simp: answeredOK_def)

lemma askOK_spawn: "askOK K evs n pend ts answers \<Longrightarrow> askOK K evs n pend (ts @ [(x, Spawned p)]) answers"
  by (simp add: askOK_def oneKeyEach_def waitsIn_append list_all_iff answeredOK_append)

lemma askOK_answer:
  assumes "askOK K evs n pend ts answers" and i: "i < length ts" "snd (ts ! i) \<noteq> Answered" and "honest K evs k t"
    and p: "pend' = pend \<or> (\<exists>ch. snd (ts ! i) = Waiting k ch) \<and> pend' = removeAll k pend"
  shows "askOK K evs n pend' (ts[i := (x, Answered)]) (answers @ [(i, k, t)])"
proof -
  have new: "i \<notin> fst ` set answers" using assms(1,3) by (force simp: askOK_def answeredOK_def list_all_iff)
  have wait: "waitOK K evs n pend' k' ch" if w: "waitsIn ts j k' ch" and "j \<noteq> i" for j k' ch
  proof -
    have "k' \<noteq> k" if "snd (ts ! i) = Waiting k ch'" for ch'
      using assms(1) w \<open>j \<noteq> i\<close> that i(1) unfolding askOK_def oneKeyEach_def by (metis waitsIn_def)
    then have "k' \<in> set pend' \<longleftrightarrow> k' \<in> set pend" using p by auto
    then show ?thesis using assms(1) w by (auto simp: askOK_def waitOK_def)
  qed
  have "oneKeyEach (ts[i := (x, Answered)])" using assms(1) unfolding askOK_def oneKeyEach_def waitsIn_update by (metis toolState.distinct(5))
  moreover have "list_all (answeredOK K evs (ts[i := (x, Answered)])) (answers @ [(i, k, t)])"
    using assms(1,4) i(1) by (auto simp: askOK_def list_all_iff answeredOK_update) (simp add: answeredOK_def)
  ultimately show ?thesis
    using assms(1) wait new p i(1) by (auto simp: askOK_def waitsIn_update split: if_splits)
qed

lemma askOK_wait:
  assumes "askOK K evs n pend ts answers" and i: "i < length ts" "snd (ts ! i) = Spawned q"
  shows "askOK K evs (Suc n) (showNat (Suc n) # pend) (ts[i := (x, Waiting (showNat (Suc n)) None)]) answers"
proof -
  have fresh: "showNat (Suc n) \<notin> showNat ` {..n}" by (auto simp: showNat_inj)
  have wait: "waitOK K evs (Suc n) (showNat (Suc n) # pend) k ch" and "k \<noteq> showNat (Suc n)" if "waitsIn ts j k ch" for j k ch
  proof -
    have w: "waitOK K evs n pend k ch" using assms(1) that by (auto simp: askOK_def)
    then show k: "k \<noteq> showNat (Suc n)" using fresh unfolding waitOK_def by metis
    show "waitOK K evs (Suc n) (showNat (Suc n) # pend) k ch" using w k by (auto simp: waitOK_def)
  qed
  then have "oneKeyEach (ts[i := (x, Waiting (showNat (Suc n)) None)])"
    using assms(1) unfolding askOK_def oneKeyEach_def waitsIn_update by (metis toolState.inject(2))
  moreover have "waitOK K evs (Suc n) (showNat (Suc n) # pend) (showNat (Suc n)) None" by (simp add: waitOK_def)
  moreover have "list_all (answeredOK K evs (ts[i := (x, Waiting (showNat (Suc n)) None)])) answers"
    using assms(1) i(2) by (auto simp: askOK_def list_all_iff intro!: answeredOK_update)
  ultimately show ?thesis using assms(1) wait by (auto simp: askOK_def waitsIn_update split: if_splits)
qed

text \<open>Replies put into the channels of the calls whose keys are given.\<close>

fun putAll :: "string list \<Rightarrow> rpcFrame \<Rightarrow> json option \<times> toolState \<Rightarrow> json option \<times> toolState" where
  "putAll ks f (tid, Waiting k ch) = (tid, Waiting k (if k \<in> set ks then Some f else ch))"
| "putAll ks f t = t"

lemma putAll_one: "putReply k f = putAll [k] f"
proof
  show "putReply k f t = putAll [k] f t" for t by (cases "([k], f, t)" rule: putAll.cases) simp_all
qed

lemma putAll_Cons: "putAll ks f (putReply k f t) = putAll (k # ks) f t"
  by (cases "(ks, f, t)" rule: putAll.cases) simp_all

lemma fold_putReply: "fold (\<lambda>k ts. map (putReply k f) ts) ks ts = map (putAll ks f) ts"
proof (induction ks arbitrary: ts)
  case Nil
  have "putAll [] f t = t" for t by (cases "([] :: string list, f, t)" rule: putAll.cases) simp_all
  then show ?case by (simp add: map_idI)
qed (simp add: putAll_Cons)

lemma snd_putAll: "snd (putAll ks f t) = (case snd t of Waiting k ch \<Rightarrow> Waiting k (if k \<in> set ks then Some f else ch) | st \<Rightarrow> st)"
  by (cases "(ks, f, t)" rule: putAll.cases) simp_all

lemma waitsIn_putAll: "waitsIn (map (putAll ks f) ts) i k ch \<longleftrightarrow> (\<exists>ch'. waitsIn ts i k ch' \<and> ch = (if k \<in> set ks then Some f else ch'))"
  by (auto simp: waitsIn_def snd_putAll split: toolState.splits)

lemma askOK_put:
  assumes "askOK K evs n pend ts answers" and "set ks \<subseteq> set pend" and "set pend' = set pend - set ks"
    and "fr_Error f \<noteq> None \<or> (\<forall>k \<in> set ks. heardFrom K evs k f)"
  shows "askOK K evs n pend' (map (putAll ks f) ts) answers"
proof -
  have "waitOK K evs n pend' k ch" if "waitsIn (map (putAll ks f) ts) i k ch" for i k ch
  proof -
    obtain ch' where w: "waitsIn ts i k ch'" and c: "ch = (if k \<in> set ks then Some f else ch')" using \<open>waitsIn (map (putAll ks f) ts) i k ch\<close> unfolding waitsIn_putAll by blast
    have "waitOK K evs n pend k ch'" using assms(1) w unfolding askOK_def by blast
    then show ?thesis using assms(2,3,4) unfolding waitOK_def c by (auto split: if_splits)
  qed
  moreover have "oneKeyEach (map (putAll ks f) ts)" using assms(1) unfolding askOK_def oneKeyEach_def waitsIn_putAll by metis
  moreover have "list_all (answeredOK K evs (map (putAll ks f) ts)) answers"
    using assms(1) by (auto simp: askOK_def list_all_iff answeredOK_def snd_putAll)
  ultimately show ?thesis using assms(1,3) unfolding askOK_def by blast
qed

lemma as_writes [simp]:
  "as_nextID (writeMsg ok m s) = as_nextID s" "as_pending (writeMsg ok m s) = as_pending s" "as_tools (writeMsg ok m s) = as_tools s"
  "as_answers (writeMsg ok m s) = as_answers s" "as_cancelled (writeMsg ok m s) = as_cancelled s" "as_reading (writeMsg ok m s) = as_reading s"
  by (simp_all add: writeMsg_def)

lemmas ask_writes = respondAsk_def respondAskError_def toolResult_def

lemma request_writes: "\<exists>m. handleRequest ok f s = writeMsg ok m s"
  by (auto simp: handleRequest_def ask_writes)

lemma honest_others: "\<not> hasPrefix t answeredPrefix \<Longrightarrow> honest K evs k t"
  by (simp add: honest_def)

lemma not_answered [simp]:
  "\<not> hasPrefix (''No human'' @ t) answeredPrefix" "\<not> hasPrefix ''ask_user needs a question.'' answeredPrefix"
  "\<not> hasPrefix (AnswerText K (Inl e)) answeredPrefix"
  by (simp_all add: answeredPrefix_def hasPrefix_def AnswerText_def)

lemma refusals: "toolRequest K params = RefuseCall msg \<Longrightarrow> \<not> hasPrefix msg answeredPrefix"
  by (auto simp: toolRequest_def answeredPrefix_def hasPrefix_def Let_def split: option.splits if_splits)

lemma honest_reply:
  assumes "fr_Error f \<noteq> None \<or> heardFrom K evs k f"
  shows "honest K evs k (AnswerText K (callResult f))"
proof (cases "fr_Error f")
  case None
  then have h: "heardFrom K evs k f" using assms by simp
  show ?thesis
  proof (cases "replyAction (fr_Result f) = ''accept'' \<and> trimSpace (replyAnswer K (fr_Result f)) \<noteq> []")
    case True
    then show ?thesis using h None by (auto simp: honest_def callResult_def AnswerText_def)
  next
    case False
    then have "\<not> hasPrefix (AnswerText K (callResult f)) answeredPrefix"
      using None by (auto simp: callResult_def AnswerText_def answeredPrefix_def hasPrefix_def)
    then show ?thesis by (rule honest_others)
  qed
qed (simp add: callResult_def honest_others)

lemma ask_begin: "askInv K evs s \<Longrightarrow> askInv K evs (beginTool K i werr ok s)"
proof (cases "i < length (as_tools s) \<and> (\<exists>tid params. as_tools s ! i = (tid, Spawned params))")
  case True
  then obtain tid params where i: "i < length (as_tools s)" and t: "as_tools s ! i = (tid, Spawned params)" by blast
  assume inv: "askInv K evs s"
  have answer: "honest K evs k x \<Longrightarrow> askOK K evs (as_nextID s) (as_pending s) ((as_tools s)[i := (tid, Answered)]) (as_answers s @ [(i, k, x)])" for k x
    using askOK_answer [OF inv i _ _ disjI1 [OF refl]] t by simp
  have more: "askOK K evs n pend ts answers \<Longrightarrow> askOK K evs (Suc n) pend ts answers" for n pend ts answers
  proof -
    have "showNat ` {..n} \<subseteq> showNat ` {..Suc n}" by auto
    then show "askOK K evs n pend ts answers \<Longrightarrow> ?thesis" unfolding askOK_def waitOK_def by blast
  qed
  have sp: "snd (as_tools s ! i) = Spawned params" using t by simp
  show ?thesis
    using answer [OF honest_others] askOK_wait [OF inv i sp] more
    by (auto simp: beginTool_def i t answerTool_def ask_writes Let_def refusals split: toolRequest.split option.split)
next
  case False
  then show "askInv K evs s \<Longrightarrow> ?thesis" by (auto simp: beginTool_def split: prod.splits toolState.splits)
qed

lemma ask_finish: "askInv K evs s \<Longrightarrow> askInv K evs (finishTool K i ok s)"
proof (cases "i < length (as_tools s) \<and> (\<exists>tid k f. as_tools s ! i = (tid, Waiting k (Some f)))")
  case True
  then obtain tid k f where i: "i < length (as_tools s)" and t: "as_tools s ! i = (tid, Waiting k (Some f))" by blast
  assume inv: "askInv K evs s"
  have "waitsIn (as_tools s) i k (Some f)" by (simp add: waitsIn_def i t)
  then have "honest K evs k (AnswerText K (callResult f))" using inv honest_reply by (auto simp: askOK_def waitOK_def)
  then show ?thesis using askOK_answer [OF inv i _ _ disjI1 [OF refl]] t by (simp add: finishTool_def i answerTool_def ask_writes)
next
  case False
  then show "askInv K evs s \<Longrightarrow> ?thesis" by (auto simp: finishTool_def split: prod.splits toolState.splits option.splits)
qed

lemma ask_cancel: "askInv K evs s \<Longrightarrow> askInv K evs (cancelTool K i ok s)"
proof (cases "i < length (as_tools s) \<and> (\<exists>tid k ch. as_tools s ! i = (tid, Waiting k ch))")
  case True
  then obtain tid k ch where i: "i < length (as_tools s)" and t: "as_tools s ! i = (tid, Waiting k ch)" by blast
  assume inv: "askInv K evs s"
  show ?thesis
    using askOK_answer [OF inv i _ honest_others disjI2, of "AnswerText K (Inl ''context canceled'')" k] t inv
    by (simp add: cancelTool_def i answerTool_def ask_writes)
next
  case False
  then show "askInv K evs s \<Longrightarrow> ?thesis" by (auto simp: cancelTool_def split: prod.splits toolState.splits)
qed

lemma ask_deliver:
  assumes "askInv K evs s" and "heardFrom K evs (askKey K f) f"
  shows "askInv K evs (deliver K f s)"
  using askOK_put [OF assms(1), of "[askKey K f]" "removeAll (askKey K f) (as_pending s)" f] assms
  by (auto simp: deliver_def Let_def putAll_one)

lemma ask_fail: "askInv K evs s \<Longrightarrow> askInv K evs (failPending reason s)"
  using askOK_put [of K evs "as_nextID s" "as_pending s" "as_tools s" "as_answers s" "as_pending s" "[]" "failedFrame reason"]
  by (simp add: failPending_def fold_putReply failedFrame_def)

lemma ask_line:
  assumes "askInv K evs s"
  shows "askInv K (evs @ [EvLine line ok]) (serveLine K line ok s)"
proof -
  have m: "askInv K (evs @ [EvLine line ok]) s" using askOK_mono [OF assms] .
  show ?thesis
  proof (cases "decodeAskFrame line")
    case (Some f)
    obtain g where g: "handleRequest ok f s = writeMsg ok g s" using request_writes by blast
    have "fr_Method f = [] \<Longrightarrow> heardFrom K (evs @ [EvLine line ok]) (askKey K f) f" using Some by (auto simp: heardFrom_def)
    then show ?thesis using ask_deliver [OF m] m by (simp add: serveLine_def Some g askOK_spawn)
  qed (use m in \<open>simp add: serveLine_def\<close>)
qed

lemma trace_ask: "askTrace K evs s \<Longrightarrow> askInv K evs s"
proof (induction rule: askTrace.induct)
  case start
  then show ?case by (simp add: newAskServer_def askOK_def waitsIn_def oneKeyEach_def)
next
  case (step evs s e)
  have m: "askInv K (evs @ [e]) s" using askOK_mono [OF step.IH] .
  show ?case
    using m ask_line [OF step.IH] ask_begin [OF m] ask_finish [OF m] ask_cancel [OF m] ask_fail [OF m] by (cases e) simp_all
qed

text \<open>C24: the agent is told only what a human said. Under every interleaving of lines, tool calls, replies and shutdown, each
  tool call is given one text at most, and a text that quotes a human's answer is the answer of a reply that came in, under the
  key of that call's own question, accepted and without error.\<close>

theorem no_invented_answer:
  assumes "askTrace K evs s"
  shows "distinct (map fst (as_answers s)) \<and> list_all (\<lambda>(i, k, text). honest K evs k text) (as_answers s)"
  using trace_ask [OF assms] by (auto simp: askOK_def list_all_iff answeredOK_def)

text \<open>When the input ends or the context is done, every call that waits is released: its channel holds a reply, which is
  the answer that came in or the error that says why there is none.\<close>

theorem end_releases_calls:
  assumes "askTrace K evs s" and "waitsIn (as_tools (failPending reason s)) i k ch"
  shows "\<exists>f. ch = Some f \<and> (heardFrom K evs k f \<or> fr_Error f \<noteq> None)"
proof -
  obtain ch' where w: "waitsIn (as_tools s) i k ch'" and c: "ch = (if k \<in> set (as_pending s) then Some (failedFrame reason) else ch')"
    using assms(2) by (auto simp: failPending_def fold_putReply waitsIn_putAll)
  have "waitOK K evs (as_nextID s) (as_pending s) k ch'" using trace_ask [OF assms(1)] w unfolding askOK_def by blast
  then show ?thesis using c by (auto simp: waitOK_def failedFrame_def)
qed

section \<open>Samples\<close>

text \<open>The text of a raw value, for numbers and strings as they are sent.\<close>

definition sampleLib :: askLib where
  "sampleLib = \<lparr>al_quote = (\<lambda>s. s), al_raw = (\<lambda>v. case v of JNum n \<Rightarrow> n | JStr t \<Rightarrow> t | _ \<Rightarrow> [])\<rparr>"

definition callLine :: string where
  "callLine = marshal (JObj [(''id'', JNum ''7''), (''method'', JStr ''tools/call''), (''params'', JObj [(''name'', JStr ''ask_user''),
     (''arguments'', JObj [(''question'', JStr ''Which one?'')])])])"

definition replyLine :: string where
  "replyLine = marshal (JObj [(''id'', JNum ''1''), (''result'', JObj [(''action'', JStr ''accept''), (''content'', JObj [(''answer'', JStr ''the first'')])])])"

definition answeredTrace :: "askEvent list" where
  "answeredTrace = [EvLine callLine True, EvBegin 0 None True, EvLine replyLine True, EvFinish 0 True]"

lemma call_read_eval:
  "(decodeAskFrame callLine = Some \<lparr>fr_ID = Some (JNum ''7''), fr_Method = ''tools/call'', fr_Params = Some (JObj [(''name'', JStr ''ask_user''),
     (''arguments'', JObj [(''question'', JStr ''Which one?'')])]), fr_Result = None, fr_Error = None\<rparr>)
   \<and> (trimSpace callLine \<noteq> [])
   \<and> (toolRequest sampleLib (Some (JObj [(''name'', JStr ''ask_user''), (''arguments'', JObj [(''question'', JStr ''Which one?'')])]))
     = Ask \<lparr>ta_Question = ''Which one?'', ta_Options = []\<rparr>)"
  by code_simp

lemma call_read:
  "decodeAskFrame callLine = Some \<lparr>fr_ID = Some (JNum ''7''), fr_Method = ''tools/call'', fr_Params = Some (JObj [(''name'', JStr ''ask_user''),
     (''arguments'', JObj [(''question'', JStr ''Which one?'')])]), fr_Result = None, fr_Error = None\<rparr>"
  "trimSpace callLine \<noteq> []"
  "toolRequest sampleLib (Some (JObj [(''name'', JStr ''ask_user''), (''arguments'', JObj [(''question'', JStr ''Which one?'')])]))
     = Ask \<lparr>ta_Question = ''Which one?'', ta_Options = []\<rparr>"
  using call_read_eval by blast+

definition replyFrame :: rpcFrame where
  "replyFrame = \<lparr>fr_ID = Some (JNum ''1''), fr_Method = [], fr_Params = None, fr_Result = Some (JObj [(''action'', JStr ''accept''),
     (''content'', JObj [(''answer'', JStr ''the first'')])]), fr_Error = None\<rparr>"

lemma reply_read_eval:
  "(decodeAskFrame replyLine = Some replyFrame)
   \<and> (trimSpace replyLine \<noteq> [])
   \<and> (askKey sampleLib replyFrame = ''1'')
   \<and> (AnswerText sampleLib (callResult replyFrame) = ''The human answered: the first'')
   \<and> (showNat (Suc 0) = ''1'')"
  by code_simp

lemma reply_read:
  "decodeAskFrame replyLine = Some replyFrame" "trimSpace replyLine \<noteq> []" "askKey sampleLib replyFrame = ''1''"
  "AnswerText sampleLib (callResult replyFrame) = ''The human answered: the first''" "showNat (Suc 0) = ''1''"
  using reply_read_eval by blast+

lemma answered_trace: "as_answers (fold (askStep sampleLib) answeredTrace newAskServer) = [(0, ''1'', ''The human answered: the first'')]"
proof -
  have "fr_Method replyFrame = []" "fr_ID replyFrame \<noteq> None" by (simp_all add: replyFrame_def)
  then show ?thesis
    by (simp add: answeredTrace_def newAskServer_def serveLine_def call_read reply_read beginTool_def deliver_def finishTool_def answerTool_def ask_writes writeMsg_def Let_def)
qed

theorem no_invented_answer_witness:
  "as_answers (fold (askStep sampleLib) answeredTrace newAskServer) = [(0, ''1'', ''The human answered: the first'')]
   \<and> honest sampleLib answeredTrace ''1'' ''The human answered: the first''"
  using no_invented_answer [OF askTrace_fold, of sampleLib answeredTrace] by (simp add: answered_trace)

lemma waiting_state: "as_tools (failPending ''stdin closed'' (fold (askStep sampleLib) [EvLine callLine True, EvBegin 0 None True] newAskServer))
   = [(Some (JNum ''7''), Waiting ''1'' (Some (failedFrame ''stdin closed'')))]"
  by (simp add: newAskServer_def serveLine_def call_read reply_read(5) beginTool_def failPending_def writeMsg_def Let_def)

theorem end_releases_calls_witness:
  "waitsIn (as_tools (failPending ''stdin closed'' (fold (askStep sampleLib) [EvLine callLine True, EvBegin 0 None True] newAskServer))) 0 ''1'' (Some (failedFrame ''stdin closed''))
   \<and> (\<exists>f. Some (failedFrame ''stdin closed'') = Some f \<and> (heardFrom sampleLib [EvLine callLine True, EvBegin 0 None True] ''1'' f \<or> fr_Error f \<noteq> None))"
proof
  show w: "waitsIn (as_tools (failPending ''stdin closed'' (fold (askStep sampleLib) [EvLine callLine True, EvBegin 0 None True] newAskServer))) 0 ''1'' (Some (failedFrame ''stdin closed''))"
    unfolding waiting_state waitsIn_def by simp
  show "\<exists>f. Some (failedFrame ''stdin closed'') = Some f \<and> (heardFrom sampleLib [EvLine callLine True, EvBegin 0 None True] ''1'' f \<or> fr_Error f \<noteq> None)"
    by (rule end_releases_calls [OF askTrace_fold w])
qed

text \<open>A call that was read before the end of the input and begins after it is not released: it waits, and no line is read
  any more.\<close>

definition lateTrace :: "askEvent list" where
  "lateTrace = [EvLine callLine True, EvEOF, EvBegin 0 None True]"

lemma late_call_waits:
  "let s = fold (askStep sampleLib) lateTrace newAskServer in \<not> as_reading s \<and> as_tools s = [(Some (JNum ''7''), Waiting ''1'' None)]"
  by (simp add: lateTrace_def newAskServer_def serveLine_def call_read reply_read(5) beginTool_def failPending_def writeMsg_def Let_def)

lemma unread_call_stays:
  assumes "\<not> as_reading s" and "\<not> as_cancelled s" and "waitsIn (as_tools s) i k None" and "e \<noteq> EvContextDone"
  shows "waitsIn (as_tools (askStep K e s)) i k None"
proof (cases e)
  case (EvBegin j werr ok)
  then show ?thesis using assms(3) by (auto simp: beginTool_def answerTool_def ask_writes Let_def waitsIn_def nth_list_update split: prod.splits toolState.splits toolRequest.splits option.splits)
next
  case (EvFinish j ok)
  then show ?thesis using assms(3) by (auto simp: finishTool_def answerTool_def ask_writes waitsIn_def nth_list_update split: prod.splits toolState.splits option.splits)
qed (use assms in \<open>simp_all add: cancelTool_def\<close>)

end
