(* ===== verification/Watcher.thy ===== *)
theory Watcher
  imports HarnessText
begin

text \<open>
  The watcher that pushes while the agent works (src/harness/internal/watcher/watcher.go and patterns.go): which changes
  count, which directories are watched, and the loop that waits for a quiet period before it pushes. The loop takes one
  ready case at a time, so a run of it is a list of events; the answers of the file system come with them.
\<close>

section \<open>Which changes count\<close>

definition excludeDirs :: "string list" where
  "excludeDirs = [''.goose'', ''__pycache__'', ''.git'', ''node_modules'', ''target'']"

definition excludeExts :: "string list" where
  "excludeExts = [''.tmp'', ''.swp'', ''.bak'']"

text \<open>\<open>filepath.Base\<close> and \<open>filepath.Ext\<close>.\<close>

definition pathBase :: "string \<Rightarrow> string" where
  "pathBase p = (if p = [] then ''.'' else (let q = trimRight (CHR ''/'') p in
     if q = [] then ''/'' else rev (takeWhile (\<lambda>c. c \<noteq> CHR ''/'') (rev q))))"

definition pathExt :: "string \<Rightarrow> string" where
  "pathExt b = (if CHR ''.'' \<in> set b then CHR ''.'' # rev (takeWhile (\<lambda>c. c \<noteq> CHR ''.'') (rev b)) else [])"

definition isRelevantChange :: "string \<Rightarrow> bool" where
  "isRelevantChange rel = (\<not> list_ex (\<lambda>part. part \<in> set excludeDirs) (splitOn CHR ''/'' rel) \<and> pathExt (pathBase rel) \<notin> set excludeExts)"

section \<open>Which directories are watched\<close>

text \<open>A directory with its subdirectories, and whether the watch on it could be added.\<close>

datatype dirTree = DirTree (tree_name: string) (tree_path: string) (tree_added: bool) (tree_sub: "dirTree list")

fun addDirRecursive :: "dirTree \<Rightarrow> string list" where
  "addDirRecursive (DirTree n p added sub) =
     (if n \<in> set excludeDirs then [] else (if added then [p] else []) @ concat (map addDirRecursive sub))"

section \<open>The loop\<close>

record fsOp =
  op_create :: bool
  op_write :: bool
  op_remove :: bool
  op_rename :: bool

datatype watchEvent =
    FsEvent fsOp "string option" "dirTree option" \<comment> \<open>the operation, the path relative to the directory, and the new directory if it is one\<close>
  | FsError
  | TimerFires bool \<comment> \<open>whether the push succeeds\<close>
  | ContextDone
  | ChannelClosed

record watcher =
  wt_running :: bool
  wt_timer :: bool
  wt_dirty :: bool
  wt_dirs :: "string list"
  wt_pushes :: nat

definition startWatcher :: "dirTree \<Rightarrow> watcher" where
  "startWatcher root0 = \<lparr>wt_running = True, wt_timer = False, wt_dirty = False, wt_dirs = addDirRecursive root0, wt_pushes = 0\<rparr>"

definition doPush :: "watcher \<Rightarrow> watcher" where
  "doPush w = w\<lparr>wt_pushes := Suc (wt_pushes w)\<rparr>"

definition anyOp :: "fsOp \<Rightarrow> bool" where
  "anyOp o1 = (op_create o1 \<or> op_write o1 \<or> op_remove o1 \<or> op_rename o1)"

fun relevantEvent :: "watchEvent \<Rightarrow> bool" where
  "relevantEvent (FsEvent o1 (Some rel) d) = (anyOp o1 \<and> isRelevantChange rel)"
| "relevantEvent _ = False"

fun watchStep :: "watchEvent \<Rightarrow> watcher \<Rightarrow> watcher" where
  "watchStep (FsEvent o1 rel d) w =
     (if \<not> wt_running w \<or> \<not> anyOp o1 then w
      else (case rel of
        None \<Rightarrow> w
      | Some r \<Rightarrow> if \<not> isRelevantChange r then w
          else w\<lparr>wt_dirs := wt_dirs w @ (case d of Some t \<Rightarrow> if op_create o1 then addDirRecursive t else [] | None \<Rightarrow> []), wt_dirty := True, wt_timer := True\<rparr>))"
| "watchStep FsError w = w"
| "watchStep (TimerFires ok) w =
     (if \<not> wt_running w \<or> \<not> wt_timer w then w
      else (let w1 = w\<lparr>wt_timer := False\<rparr> in if wt_dirty w1 then (doPush w1)\<lparr>wt_dirty := False\<rparr> else w1))"
| "watchStep ContextDone w = w\<lparr>wt_running := False, wt_timer := False\<rparr>"
| "watchStep ChannelClosed w = w\<lparr>wt_running := False\<rparr>"

definition watchLoop :: "dirTree \<Rightarrow> watchEvent list \<Rightarrow> watcher" where
  "watchLoop root0 evs = fold watchStep evs (startWatcher root0)"

section \<open>Every change is pushed, and nothing else\<close>

fun stopEvent :: "watchEvent \<Rightarrow> bool" where
  "stopEvent ContextDone = True"
| "stopEvent ChannelClosed = True"
| "stopEvent _ = False"

text \<open>What is still to be pushed after a list of events: a relevant change with no firing of the timer since.\<close>

fun unpushed :: "bool \<Rightarrow> watchEvent list \<Rightarrow> bool" where
  "unpushed b [] = b"
| "unpushed b (TimerFires ok # evs) = unpushed False evs"
| "unpushed b (e # evs) = unpushed (b \<or> relevantEvent e) evs"

fun pushesOf :: "bool \<Rightarrow> watchEvent list \<Rightarrow> nat" where
  "pushesOf b [] = 0"
| "pushesOf b (TimerFires ok # evs) = (if b then 1 else 0) + pushesOf False evs"
| "pushesOf b (e # evs) = pushesOf (b \<or> relevantEvent e) evs"

lemma watch_run:
  "\<not> list_ex stopEvent evs \<Longrightarrow> wt_running w \<Longrightarrow> wt_timer w = wt_dirty w \<Longrightarrow>
   wt_dirty (fold watchStep evs w) = unpushed (wt_dirty w) evs \<and> wt_timer (fold watchStep evs w) = unpushed (wt_dirty w) evs
   \<and> wt_running (fold watchStep evs w) \<and> wt_pushes (fold watchStep evs w) = wt_pushes w + pushesOf (wt_dirty w) evs"
proof (induction evs arbitrary: w)
  case (Cons e evs)
  have "wt_running (watchStep e w) \<and> wt_timer (watchStep e w) = wt_dirty (watchStep e w)"
    using Cons.prems by (cases e) (auto simp: doPush_def Let_def split: option.split)
  then have ih: "wt_dirty (fold watchStep evs (watchStep e w)) = unpushed (wt_dirty (watchStep e w)) evs
     \<and> wt_timer (fold watchStep evs (watchStep e w)) = unpushed (wt_dirty (watchStep e w)) evs
     \<and> wt_running (fold watchStep evs (watchStep e w))
     \<and> wt_pushes (fold watchStep evs (watchStep e w)) = wt_pushes (watchStep e w) + pushesOf (wt_dirty (watchStep e w)) evs"
    using Cons.IH [of "watchStep e w"] Cons.prems(1) by simp
  show ?case
  proof (cases e)
    case (FsEvent o1 rel d)
    then show ?thesis using ih Cons.prems by (cases rel) (auto split: if_splits)
  qed (use ih Cons.prems in \<open>auto simp: doPush_def Let_def\<close>)
qed simp

text \<open>The watcher pushes each burst of changes once. While it runs, the number of pushes is the number of firings of the
  quiet timer that had a relevant change since the firing before; a change not yet pushed has its timer running; and an
  excluded path, a bare permission change or an error never leads to a push.\<close>

theorem watcher_pushes_bursts:
  assumes "\<not> list_ex stopEvent evs"
  shows "wt_pushes (watchLoop root0 evs) = pushesOf False evs \<and> wt_dirty (watchLoop root0 evs) = unpushed False evs
     \<and> (unpushed False evs \<longrightarrow> wt_timer (watchLoop root0 evs))"
  using watch_run [OF assms, of "startWatcher root0"] by (simp add: watchLoop_def startWatcher_def)

text \<open>Once it has stopped it pushes no more.\<close>

lemma stopped_stays: "\<not> wt_running w \<Longrightarrow> wt_pushes (fold watchStep evs w) = wt_pushes w"
proof (induction evs arbitrary: w)
  case (Cons e evs)
  have "\<not> wt_running (watchStep e w) \<and> wt_pushes (watchStep e w) = wt_pushes w" using Cons.prems by (cases e) simp_all
  then show ?case using Cons.IH [of "watchStep e w"] by simp
qed simp

text \<open>No watched directory is an excluded one or below one.\<close>

fun visible :: "dirTree \<Rightarrow> dirTree set" where
  "visible (DirTree n p added sub) = (if n \<in> set excludeDirs then {} else insert (DirTree n p added sub) (\<Union> (visible ` set sub)))"

lemma watched_dirs: "set (addDirRecursive t) = tree_path ` {d \<in> visible t. tree_added d}"
proof (induction t)
  case (DirTree n p added sub)
  have "{d \<in> visible (DirTree n p added sub). tree_added d} = (if n \<in> set excludeDirs then {} else (if added then {DirTree n p added sub} else {}) \<union> (\<Union>t \<in> set sub. {d \<in> visible t. tree_added d}))"
    by auto
  then show ?case using DirTree by (simp add: image_Un image_UN)
qed

definition writeOp :: fsOp where
  "writeOp = \<lparr>op_create = False, op_write = True, op_remove = False, op_rename = False\<rparr>"

definition sampleWatch :: "watchEvent list" where
  "sampleWatch = [FsEvent writeOp (Some ''src/App.java'') None, FsEvent writeOp (Some ''src/App.java.swp'') None, FsEvent writeOp (Some ''src/B.java'') None, TimerFires True,
     FsEvent writeOp (Some ''target/App.class'') None, TimerFires True]"

theorem watcher_pushes_bursts_witness: "wt_pushes (watchLoop (DirTree ''app'' ''/w/app'' True []) sampleWatch) = 1"
proof -
  have "\<not> list_ex stopEvent sampleWatch" by (simp add: sampleWatch_def)
  moreover have "pushesOf False sampleWatch = 1" by code_simp
  ultimately show ?thesis using watcher_pushes_bursts [of sampleWatch] by simp
qed

end
