(* ===== verification/HubProxy.thy ===== *)
theory HubProxy
  imports HarnessText FileMounts
begin

text \<open>
  The proxies a Hub hands out and what becomes of them: the list read from the Hub (src/harness/internal/hub/proxy.go), the
  policy that chooses a proxy for each Git request (src/harness/internal/proxy/proxy.go), and the Maven user settings
  (src/harness/cmd/migration-harness/maven.go and maven_proxy.go). The packages net, net/url, encoding/xml and httpproxy
  are parameters; what the file system and the Hub answer is a record.
\<close>

section \<open>Proxies of the Hub\<close>

record proxyConfig =
  pc_Kind :: string
  pc_Host :: string
  pc_Port :: int
  pc_Username :: string
  pc_Password :: string
  pc_Excluded :: "string list"

record hubProxyItem =
  hp_ID :: nat
  hp_Enabled :: bool
  hp_Kind :: string
  hp_Host :: string
  hp_Port :: int
  hp_Excluded :: "string list"
  hp_Identity :: "nat option"

record hubIdentity =
  hi_User :: string
  hi_Password :: string

text \<open>An error of the Hub: its status, if it has one; the text of the answer is not looked at.\<close>

record hubError =
  hx_Status :: int
  hx_body :: string

definition proxyLookupFailure :: "(int \<Rightarrow> string) \<Rightarrow> hubError \<Rightarrow> string" where
  "proxyLookupFailure statusText e = (if hx_Status e \<noteq> 0 then ''HTTP '' @ formatInt (hx_Status e) @ '' '' @ statusText (hx_Status e) else ''request failed'')"

fun fetchLoop :: "(int \<Rightarrow> string) \<Rightarrow> (nat \<Rightarrow> hubError + hubIdentity) \<Rightarrow> (nat \<times> hubIdentity) list \<Rightarrow> hubProxyItem list \<Rightarrow> string + proxyConfig list" where
  "fetchLoop st get seen [] = Inr []"
| "fetchLoop st get seen (item # items) =
     (if \<not> hp_Enabled item then fetchLoop st get seen items
      else (let c = \<lparr>pc_Kind = hp_Kind item, pc_Host = hp_Host item, pc_Port = hp_Port item, pc_Username = [], pc_Password = [], pc_Excluded = hp_Excluded item\<rparr> in
        case hp_Identity item of
          None \<Rightarrow> map_sum id (\<lambda>cs. c # cs) (fetchLoop st get seen items)
        | Some i \<Rightarrow> (case (case map_of seen i of Some known \<Rightarrow> Inr known | None \<Rightarrow> get i) of
            Inl e \<Rightarrow> Inl (''read decrypted identity '' @ showNat i @ '' for Hub proxy '' @ showNat (hp_ID item) @ '': '' @ proxyLookupFailure st e)
          | Inr ident \<Rightarrow> map_sum id (\<lambda>cs. c\<lparr>pc_Username := hi_User ident, pc_Password := hi_Password ident\<rparr> # cs) (fetchLoop st get ((i, ident) # seen) items))))"

definition FetchProxies :: "(int \<Rightarrow> string) \<Rightarrow> hubError + hubProxyItem list \<Rightarrow> (nat \<Rightarrow> hubError + hubIdentity) \<Rightarrow> string + proxyConfig list" where
  "FetchProxies st listed get = (case listed of
      Inl e \<Rightarrow> Inl (''list Hub proxies: '' @ proxyLookupFailure st e)
    | Inr items \<Rightarrow> fetchLoop st get [] items)"

section \<open>The policy\<close>

record proxyURL =
  pu_Host :: string
  pu_User :: "(string \<times> string) option"

record target =
  tg_Scheme :: string
  tg_Hostname :: string
  tg_Port :: string

record netLib =
  nl_ParseIP :: "string \<Rightarrow> string option" \<comment> \<open>the address in its usual form\<close>
  nl_IsLoopback :: "string \<Rightarrow> bool"
  nl_ParseCIDR :: "string \<Rightarrow> bool"
  nl_SplitHostPort :: "string \<Rightarrow> (string \<times> string) option"
  nl_URLString :: "proxyURL \<Rightarrow> string"
  nl_UserString :: "string \<times> string \<Rightarrow> string"
  nl_PathEscape :: "string \<Rightarrow> string"
  nl_QueryEscape :: "string \<Rightarrow> string"
  nl_EscapeText :: "string \<Rightarrow> string"
  nl_Parse :: "string \<Rightarrow> proxyURL option"
  nl_ProxyFunc :: "string \<Rightarrow> string \<Rightarrow> target \<Rightarrow> string + proxyURL option" \<comment> \<open>a proxy for both schemes and \<open>NO_PROXY\<close>\<close>

record proxyPolicy =
  po_configs :: "proxyConfig list"
  po_urls :: "(string \<times> proxyURL) list"
  po_excluded :: "string list"
  po_env :: "(string \<times> string) list"
  po_secrets :: "string list"

definition emptyPolicy :: proxyPolicy where
  "emptyPolicy = \<lparr>po_configs = [], po_urls = [], po_excluded = [], po_env = [], po_secrets = []\<rparr>"

definition hasAny :: "string \<Rightarrow> string \<Rightarrow> bool" where
  "hasAny s cs = list_ex (\<lambda>c. c \<in> set cs) s"

definition JoinHostPort :: "string \<Rightarrow> string \<Rightarrow> string" where
  "JoinHostPort host port = (if CHR '':'' \<in> set host \<or> CHR 0x25 \<in> set host then ''['' @ host @ '']:'' @ port else host @ '':'' @ port)"

definition secretForms :: "netLib \<Rightarrow> string \<Rightarrow> string list" where
  "secretForms N v = (if v = [] then [] else [v, nl_PathEscape N v, nl_QueryEscape N v, nl_EscapeText N v])"

definition addProxySecrets :: "netLib \<Rightarrow> proxyURL \<Rightarrow> proxyPolicy \<Rightarrow> proxyPolicy" where
  "addProxySecrets N u p = (case pu_User u of
      None \<Rightarrow> p
    | Some (username, password) \<Rightarrow>
        (let name = (if password \<noteq> [] \<and> length username < MinSecretLen then [] else username) in
         p\<lparr>po_secrets := po_secrets p @ secretForms N name @ secretForms N password @ [nl_URLString N u, nl_UserString N (username, password)]\<rparr>))"

definition badExclusion :: string where
  "badExclusion = ''unsupported Hub proxy exclusion: use a hostname, IP address, CIDR, host:port, or * wildcard''"

definition bracketSet :: "string list" where "bracketSet = asciiSet ''[]''"

definition normalizeHubExclusion :: "netLib \<Rightarrow> string \<Rightarrow> string + string" where
  "normalizeHubExclusion N pattern = (case nl_ParseIP N (cutBoth bracketSet pattern) of
      Some ip \<Rightarrow> Inr ip
    | None \<Rightarrow>
        if nl_ParseCIDR N pattern then Inr pattern
        else (let plain = (\<lambda>host. if host = [] \<or> hasAny host (''/@?#|, '' @ [CHR 0x5C] @ ''[]'' @ [CHR 0x09, CHR 0x0D, CHR 0x0A]) then Inl badExclusion else Inr pattern) in
          if CHR '':'' \<in> set pattern
          then (case nl_SplitHostPort N pattern of
              None \<Rightarrow> Inl badExclusion
            | Some (host, port) \<Rightarrow> (case parseInt64 port of
                None \<Rightarrow> Inl badExclusion
              | Some n \<Rightarrow> if n < 1 \<or> n > 65535 then Inl badExclusion else if nl_ParseIP N host \<noteq> None then Inr pattern else plain host))
          else plain pattern))"

fun addExclusions :: "netLib \<Rightarrow> string list \<Rightarrow> proxyPolicy \<Rightarrow> string + proxyPolicy" where
  "addExclusions N [] p = Inr p"
| "addExclusions N (raw # rs) p =
     (let h = toLower (trimSpace raw) in
      if h = [] then addExclusions N rs p
      else (case normalizeHubExclusion N h of
        Inl e \<Rightarrow> Inl e
      | Inr x \<Rightarrow> addExclusions N rs (if x \<in> set (po_excluded p) then p else p\<lparr>po_excluded := po_excluded p @ [x]\<rparr>)))"

definition badHost :: "netLib \<Rightarrow> string \<Rightarrow> int \<Rightarrow> bool" where
  "badHost N host port = (host = [] \<or> hasAny host (''/@?# '' @ [CHR 0x5C] @ ''|'' @ [CHR 0x09, CHR 0x0D, CHR 0x0A])
     \<or> (CHR '':'' \<in> set host \<and> nl_ParseIP N host = None) \<or> port < 0 \<or> port > 65535)"

definition proxyAddress :: "string \<Rightarrow> int \<Rightarrow> string" where
  "proxyAddress host port = (if port \<noteq> 0 then JoinHostPort host (formatInt port) else if CHR '':'' \<in> set host then ''['' @ host @ '']'' else host)"

definition addConfig :: "(string \<Rightarrow> string) \<Rightarrow> netLib \<Rightarrow> proxyConfig \<Rightarrow> proxyPolicy \<Rightarrow> string + proxyPolicy" where
  "addConfig goQuote N c0 p =
     (if pc_Kind c0 \<noteq> ''http'' \<and> pc_Kind c0 \<noteq> ''https'' then Inl (''unsupported Hub proxy kind '' @ goQuote (pc_Kind c0) @ '' (expected http or https)'')
      else if map_of (po_urls p) (pc_Kind c0) \<noteq> None then Inl (''multiple enabled Hub proxies for '' @ pc_Kind c0)
      else (let c = c0\<lparr>pc_Host := cutBoth bracketSet (pc_Host c0)\<rparr> in
        if badHost N (pc_Host c) (pc_Port c) then Inl (''invalid Hub '' @ pc_Kind c @ '' proxy host or port'')
        else (let u = \<lparr>pu_Host = proxyAddress (pc_Host c) (pc_Port c),
                       pu_User = (if pc_Username c \<noteq> [] \<or> pc_Password c \<noteq> [] then Some (pc_Username c, pc_Password c) else None)\<rparr> in
          addExclusions N (pc_Excluded c) (addProxySecrets N u (p\<lparr>po_urls := po_urls p @ [(pc_Kind c, u)], po_configs := po_configs p @ [c]\<rparr>)))))"

fun addConfigs :: "(string \<Rightarrow> string) \<Rightarrow> netLib \<Rightarrow> proxyConfig list \<Rightarrow> proxyPolicy \<Rightarrow> string + proxyPolicy" where
  "addConfigs goQuote N [] p = Inr p"
| "addConfigs goQuote N (c # cs) p = (case addConfig goQuote N c p of Inl e \<Rightarrow> Inl e | Inr p' \<Rightarrow> addConfigs goQuote N cs p')"

text \<open>A variable of the environment in either case; an explicit empty value counts.\<close>

definition envProxy :: "(string \<Rightarrow> string option) \<Rightarrow> string \<Rightarrow> string option" where
  "envProxy lookup k = (case lookup k of
      Some v \<Rightarrow> if v \<noteq> [] then Some v else (case lookup (toLower k) of Some l \<Rightarrow> if l \<noteq> [] then Some l else Some [] | None \<Rightarrow> Some [])
    | None \<Rightarrow> lookup (toLower k))"

definition addEnv :: "netLib \<Rightarrow> (string \<Rightarrow> string option) \<Rightarrow> string \<Rightarrow> proxyPolicy \<Rightarrow> proxyPolicy" where
  "addEnv N lookup k p = (case envProxy lookup k of
      None \<Rightarrow> p
    | Some v \<Rightarrow>
        (let p1 = p\<lparr>po_env := po_env p @ [(k, v)]\<rparr> in
         if k = ''NO_PROXY'' \<or> v = [] then p1
         else (let p2 = (if CHR 0x40 \<in> set v then p1\<lparr>po_secrets := po_secrets p1 @ [v]\<rparr> else p1) in
           case nl_Parse N (if containsStr v ''://'' then v else ''http://'' @ v) of Some u \<Rightarrow> addProxySecrets N u p2 | None \<Rightarrow> p2)))"

definition NewPolicy :: "(string \<Rightarrow> string) \<Rightarrow> netLib \<Rightarrow> proxyConfig list \<Rightarrow> (string \<Rightarrow> string option) \<Rightarrow> string + proxyPolicy" where
  "NewPolicy goQuote N configs lookup = (case addConfigs goQuote N configs emptyPolicy of
      Inl e \<Rightarrow> Inl e
    | Inr p \<Rightarrow> Inr (addEnv N lookup ''NO_PROXY'' (addEnv N lookup ''HTTPS_PROXY'' (addEnv N lookup ''HTTP_PROXY'' p))))"

text \<open>A pattern in which a star stands for any text on one line.\<close>

fun wildMatch :: "string \<Rightarrow> string \<Rightarrow> bool" where
  "wildMatch [] s = (s = [])"
| "wildMatch (p # ps) [] = (p = CHR ''*'' \<and> wildMatch ps [])"
| "wildMatch (p # ps) (c # s) =
     (if p = CHR ''*'' then wildMatch ps (c # s) \<or> (c \<noteq> newlineChar \<and> wildMatch (p # ps) s) else p = c \<and> wildMatch ps s)"

definition portOf :: "target \<Rightarrow> string" where
  "portOf t = (if tg_Port t \<noteq> [] then tg_Port t else if tg_Scheme t = ''https'' then ''443'' else ''80'')"

definition compileHubExclusion :: "netLib \<Rightarrow> string \<Rightarrow> target \<Rightarrow> bool" where
  "compileHubExclusion N pattern t =
     (if CHR ''*'' \<notin> set pattern then (case nl_ProxyFunc N ''http://proxy'' pattern t of Inr (Some u) \<Rightarrow> False | _ \<Rightarrow> True)
      else (case (case nl_SplitHostPort N pattern of Some hp \<Rightarrow> hp | None \<Rightarrow> (pattern, [])) of (host, port) \<Rightarrow>
        (port = [] \<or> port = portOf t) \<and> wildMatch host (toLower (tg_Hostname t))))"

definition proxyKey :: "string \<Rightarrow> string" where
  "proxyKey scheme = (if scheme = ''http'' then ''HTTP_PROXY'' else ''HTTPS_PROXY'')"

text \<open>The choice for one scheme, if there is one.\<close>

definition selectProxy :: "netLib \<Rightarrow> proxyPolicy \<Rightarrow> string \<Rightarrow> (target \<Rightarrow> string + proxyURL option) option" where
  "selectProxy N p scheme =
     (if scheme \<noteq> ''http'' \<and> scheme \<noteq> ''https'' then None
      else (case map_of (po_env p) (proxyKey scheme) of
        Some v \<Rightarrow> Some (nl_ProxyFunc N v (case map_of (po_env p) ''NO_PROXY'' of Some no \<Rightarrow> no | None \<Rightarrow> []))
      | None \<Rightarrow> (case map_of (po_urls p) scheme of
          None \<Rightarrow> None
        | Some u \<Rightarrow> (case map_of (po_env p) ''NO_PROXY'' of
            Some no \<Rightarrow> Some (nl_ProxyFunc N (nl_URLString N u) no)
          | None \<Rightarrow> Some (\<lambda>t. Inr (if list_ex (\<lambda>x. compileHubExclusion N x t) (po_excluded p) then None else Some u))))))"

definition GitProxy :: "netLib \<Rightarrow> proxyPolicy \<Rightarrow> target \<Rightarrow> string + proxyURL option" where
  "GitProxy N p t =
     (let host = toLower (tg_Hostname t) in
      if host = ''localhost'' \<or> nl_IsLoopback N host then Inr None
      else (case selectProxy N p (toLower (tg_Scheme t)) of None \<Rightarrow> Inr None | Some f \<Rightarrow> f t))"

definition HubProxies :: "proxyPolicy \<Rightarrow> proxyConfig list" where
  "HubProxies p = map (\<lambda>c. c\<lparr>pc_Excluded := po_excluded p\<rparr>) (po_configs p)"

section \<open>Maven settings\<close>

record mavenProxy =
  mp_ID :: string
  mp_Active :: bool
  mp_Protocol :: string
  mp_Host :: string
  mp_Port :: int
  mp_Username :: string
  mp_Password :: string
  mp_NonProxyHosts :: string

text \<open>What the XML decoder finds in a settings file: that it does not parse, that its root is not one settings element, or
  where the root starts and closes, how it is named and in which name space, and whether it has a proxies section.\<close>

record xmlRoot =
  xr_end :: nat
  xr_close :: nat
  xr_name :: string
  xr_space :: string
  xr_hasProxies :: bool

datatype xmlScan = XmlBroken | XmlOtherRoot | XmlRoot xmlRoot

record xmlLib =
  xl_scan :: "string \<Rightarrow> xmlScan"
  xl_marshal :: "string \<Rightarrow> mavenProxy list \<Rightarrow> string option"
  xl_passwords :: "string \<Rightarrow> (string \<times> string) list option" \<comment> \<open>decoded and literal text of the password elements\<close>

datatype mavenError = ProxyConversion string | SettingsError string

definition nonProxyHost :: "netLib \<Rightarrow> string \<Rightarrow> mavenError + string list" where
  "nonProxyHost N raw =
     (let h = toLower (trimSpace raw) in
      if h = [] then Inr []
      else (case nl_ParseIP N (cutBoth bracketSet h) of
        Some ip \<Rightarrow> Inr (ip # (if CHR '':'' \<in> set ip then [''['' @ ip @ '']''] else []))
      | None \<Rightarrow>
          if hasAny h (''/:@?#| '' @ [CHR 0x5C] @ ''[]'' @ [CHR 0x09, CHR 0x0D, CHR 0x0A]) then Inl (ProxyConversion ''unsupported exclusion format'')
          else if hasPrefix h ''.'' then Inr [''*'' @ h] else if CHR ''*'' \<notin> set h then Inr [h, ''*.'' @ h] else Inr [h]))"

fun nonProxyList :: "netLib \<Rightarrow> string list \<Rightarrow> mavenError + string list" where
  "nonProxyList N [] = Inr []"
| "nonProxyList N (raw # rs) = (case nonProxyHost N raw of Inl e \<Rightarrow> Inl e | Inr hs \<Rightarrow> map_sum id (\<lambda>xs. hs @ xs) (nonProxyList N rs))"

definition mavenNonProxyHosts :: "netLib \<Rightarrow> string list \<Rightarrow> mavenError + string" where
  "mavenNonProxyHosts N excluded = map_sum id (joinStr ''|'') (nonProxyList N excluded)"

definition mavenProxyOf :: "netLib \<Rightarrow> proxyConfig \<Rightarrow> mavenError + mavenProxy" where
  "mavenProxyOf N c =
     (if containsStr (pc_Username c) ''${'' \<or> containsStr (pc_Password c) ''${'' then Inl (ProxyConversion ''credentials contain interpolation syntax'')
      else (case mavenNonProxyHosts N (pc_Excluded c) of
        Inl e \<Rightarrow> Inl e
      | Inr hosts \<Rightarrow> Inr \<lparr>mp_ID = ''konveyor-hub-'' @ pc_Kind c, mp_Active = True, mp_Protocol = pc_Kind c, mp_Host = pc_Host c,
          mp_Port = (if pc_Port c = 0 then 80 else pc_Port c), mp_Username = pc_Username c, mp_Password = pc_Password c, mp_NonProxyHosts = hosts\<rparr>))"

fun mavenProxyList :: "netLib \<Rightarrow> proxyConfig list \<Rightarrow> mavenError + mavenProxy list" where
  "mavenProxyList N [] = Inr []"
| "mavenProxyList N (c # cs) = (case mavenProxyOf N c of Inl e \<Rightarrow> Inl e | Inr m \<Rightarrow> map_sum id (\<lambda>ms. m # ms) (mavenProxyList N cs))"

definition withMavenProxies :: "netLib \<Rightarrow> xmlLib \<Rightarrow> string \<Rightarrow> proxyConfig list \<Rightarrow> mavenError + string" where
  "withMavenProxies N X settings0 configs =
     (if configs = [] then Inr settings0
      else (let settings = (if settings0 = [] then ''<settings/>'' else settings0) in
        case xl_scan X settings of
          XmlBroken \<Rightarrow> Inl (SettingsError ''parse Maven settings for Hub proxy configuration'')
        | XmlOtherRoot \<Rightarrow> Inl (SettingsError ''Hub Maven credential must contain one settings element'')
        | XmlRoot r \<Rightarrow>
            if xr_hasProxies r then Inr settings
            else (case mavenProxyList N configs of
              Inl e \<Rightarrow> Inl e
            | Inr ms \<Rightarrow> (case xl_marshal X (xr_space r) ms of
                None \<Rightarrow> Inl (ProxyConversion ''proxy XML encoding failed'')
              | Some section \<Rightarrow>
                  if hasSuffix (take (xr_end r) settings) ''/>''
                  then Inr (take (xr_end r - 2) settings @ ''>'' @ section @ ''</'' @ xr_name r @ ''>'' @ drop (xr_end r) settings)
                  else Inr (take (xr_close r) settings @ section @ drop (xr_close r) settings)))))"

text \<open>The redactor learns every password of a settings file, decoded and literal, with and without surrounding space.\<close>

definition addMavenSettings :: "xmlLib \<Rightarrow> string \<Rightarrow> string list \<Rightarrow> string + string list" where
  "addMavenSettings X settings red = (case xl_passwords X settings of
      None \<Rightarrow> Inl ''parse Maven user settings for secret redaction''
    | Some vs \<Rightarrow> Inr (addSecrets red (concat (map (\<lambda>(d, l). if trimSpace d = [] then [] else [d, trimSpace d, l, trimSpace l]) vs))))"

datatype settingsFile = NoFile | LstatError string | Regular "string + string" | NotRegular | BrokenLink string \<comment> \<open>a link is resolved before the test\<close>

datatype mavenEffect = MkdirM2 | CreateExclusive string | RemoveSettings

record mavenWorld =
  mw_home :: "string + string"
  mw_settings :: settingsFile
  mw_appID :: "string option" \<comment> \<open>why it is not valid\<close>
  mw_identity :: "string + (nat \<times> string) option" \<comment> \<open>number and settings of the credential\<close>
  mw_mkdir :: "string option"
  mw_create :: "string option"
  mw_write :: "string option"
  mw_remove :: "string option"

definition settingsPath :: "string \<Rightarrow> string" where
  "settingsPath home = pathClean (home @ ''/.m2/settings.xml'')"

definition conversionWarning :: "string \<Rightarrow> string" where
  "conversionWarning e = ''skipping automatic Maven proxy configuration: Hub proxies cannot be represented in Maven settings: '' @ e
     @ ''; continuing with supplied/default Maven settings; supply explicit Maven proxy settings if needed''"

definition writeMavenSettings :: "mavenWorld \<Rightarrow> string \<Rightarrow> mavenEffect list \<times> string option" where
  "writeMavenSettings w settings = (case mw_write w of
      None \<Rightarrow> ([CreateExclusive settings], None)
    | Some e \<Rightarrow> ([CreateExclusive settings, RemoveSettings],
        Some (''write Maven user settings: '' @ e @ (case mw_remove w of Some x \<Rightarrow> [newlineChar] @ ''remove incomplete Maven user settings: '' @ x | None \<Rightarrow> []))))"

text \<open>The end of \<open>prepareMavenSettings\<close>: the redactor learns the settings, then they are written where nothing is.\<close>

definition storeSettings :: "xmlLib \<Rightarrow> mavenWorld \<Rightarrow> string list \<Rightarrow> string \<Rightarrow> string list \<times> mavenEffect list \<times> string option" where
  "storeSettings X w red settings = (case addMavenSettings X settings red of
      Inl e \<Rightarrow> (red, [], Some e)
    | Inr red' \<Rightarrow> (case mw_mkdir w of
        Some e \<Rightarrow> (red', [MkdirM2], Some (''create Maven settings directory: '' @ e))
      | None \<Rightarrow> (case mw_create w of
          Some e \<Rightarrow> (red', [MkdirM2], Some (''create Maven user settings: '' @ e))
        | None \<Rightarrow> (case writeMavenSettings w settings of (eff, err) \<Rightarrow> (red', MkdirM2 # eff, err)))))"

definition existingSettings :: "xmlLib \<Rightarrow> string \<Rightarrow> settingsFile \<Rightarrow> string list \<Rightarrow> string list \<times> string option" where
  "existingSettings X path sf red = (case sf of
      BrokenLink e \<Rightarrow> (red, Some (''inspect Maven user settings: '' @ e))
    | NotRegular \<Rightarrow> (red, Some (''Maven user settings path '' @ path @ '' is not a regular file''))
    | LstatError e \<Rightarrow> (red, Some (''inspect Maven user settings: '' @ e))
    | Regular (Inl e) \<Rightarrow> (red, Some (''read Maven user settings for secret redaction: '' @ e))
    | Regular (Inr text) \<Rightarrow> (case addMavenSettings X text red of Inl e \<Rightarrow> (red, Some e) | Inr red' \<Rightarrow> (red', None))
    | NoFile \<Rightarrow> (red, None))"

text \<open>The result: the redactor, what was done, the warning and the error.\<close>

definition generateSettings :: "netLib \<Rightarrow> xmlLib \<Rightarrow> mavenWorld \<Rightarrow> string list \<Rightarrow> (nat \<times> string) option \<Rightarrow> proxyConfig list \<Rightarrow> string list \<times> mavenEffect list \<times> string \<times> string option" where
  "generateSettings N X w red identity proxies =
     (let supplied = (case identity of Some (i, t) \<Rightarrow> t | None \<Rightarrow> []) in
      case withMavenProxies N X supplied proxies of
        Inl (ProxyConversion e) \<Rightarrow>
          if identity = None then (red, [], conversionWarning e, None)
          else (case storeSettings X w red supplied of (red', eff, err) \<Rightarrow> (red', eff, conversionWarning e, err))
      | Inl (SettingsError e) \<Rightarrow> (red, [], [], Some e)
      | Inr generated \<Rightarrow> (case storeSettings X w red generated of (red', eff, err) \<Rightarrow> (red', eff, [], err)))"

definition prepareMavenSettings :: "netLib \<Rightarrow> xmlLib \<Rightarrow> mavenWorld \<Rightarrow> string list \<Rightarrow> proxyConfig list \<Rightarrow> string list \<times> mavenEffect list \<times> string \<times> string option" where
  "prepareMavenSettings N X w red proxies = (case mw_home w of
      Inl e \<Rightarrow> (red, [], [], Some (''resolve home directory: '' @ e))
    | Inr home \<Rightarrow>
        if mw_settings w \<noteq> NoFile then (case existingSettings X (settingsPath home) (mw_settings w) red of (red', err) \<Rightarrow> (red', [], [], err))
        else (case mw_appID w of
          Some e \<Rightarrow> (red, [], [], Some (''invalid APP_ID: '' @ e))
        | None \<Rightarrow> (case mw_identity w of
            Inl e \<Rightarrow> (red, [], [], Some (''fetch Maven credential: '' @ e))
          | Inr None \<Rightarrow> if proxies = [] then (red, [], [], None) else generateSettings N X w red None proxies
          | Inr (Some (i, t)) \<Rightarrow> if trimSpace t = [] then (red, [], [], Some (''Maven credential '' @ showNat i @ '' has empty settings''))
              else generateSettings N X w red (Some (i, t)) proxies)))"

section \<open>What the policy keeps\<close>

lemma addProxySecrets_keeps [simp]:
  "po_configs (addProxySecrets N u p) = po_configs p" "po_urls (addProxySecrets N u p) = po_urls p" "po_excluded (addProxySecrets N u p) = po_excluded p"
  "po_env (addProxySecrets N u p) = po_env p" "set (po_secrets p) \<subseteq> set (po_secrets (addProxySecrets N u p))"
  by (auto simp: addProxySecrets_def Let_def split: option.split)

lemma addProxySecrets_password: "pu_User u = Some (n, v) \<Longrightarrow> set (secretForms N v) \<subseteq> set (po_secrets (addProxySecrets N u p))"
  by (auto simp: addProxySecrets_def Let_def)

lemma addExclusions_keeps:
  "addExclusions N rs p = Inr q \<Longrightarrow> distinct (po_excluded p) \<Longrightarrow> po_configs q = po_configs p \<and> po_urls q = po_urls p \<and> po_secrets q = po_secrets p \<and> distinct (po_excluded q)"
proof (induction rs arbitrary: p)
  case (Cons r rs)
  show ?case
  proof (cases "toLower (trimSpace r) = []")
    case True
    then show ?thesis using Cons by simp
  next
    case False
    then obtain x where x: "normalizeHubExclusion N (toLower (trimSpace r)) = Inr x" using Cons.prems(1) by (cases "normalizeHubExclusion N (toLower (trimSpace r))") simp_all
    define p' where "p' = (if x \<in> set (po_excluded p) then p else p\<lparr>po_excluded := po_excluded p @ [x]\<rparr>)"
    have "addExclusions N rs p' = Inr q" using Cons.prems(1) False x by (simp add: p'_def)
    moreover have "distinct (po_excluded p')" using Cons.prems(2) by (simp add: p'_def)
    ultimately have "po_configs q = po_configs p' \<and> po_urls q = po_urls p' \<and> po_secrets q = po_secrets p' \<and> distinct (po_excluded q)" by (rule Cons.IH)
    then show ?thesis by (simp add: p'_def split: if_splits)
  qed
qed simp

text \<open>The entry of a proxy: its kind, its address, and every form of its password among the secrets.\<close>

definition entryOK :: "netLib \<Rightarrow> string list \<Rightarrow> proxyConfig \<Rightarrow> string \<times> proxyURL \<Rightarrow> bool" where
  "entryOK N secrets c = (\<lambda>(kind, u). kind = pc_Kind c \<and> (kind = ''http'' \<or> kind = ''https'') \<and> \<not> badHost N (pc_Host c) (pc_Port c)
     \<and> pu_Host u = proxyAddress (pc_Host c) (pc_Port c) \<and> set (secretForms N (pc_Password c)) \<subseteq> set secrets)"

definition policyOK :: "netLib \<Rightarrow> proxyPolicy \<Rightarrow> bool" where
  "policyOK N p \<longleftrightarrow> list_all2 (entryOK N (po_secrets p)) (po_configs p) (po_urls p) \<and> distinct (map fst (po_urls p)) \<and> distinct (po_excluded p)"

lemma entryOK_mono: "entryOK N ss c e \<Longrightarrow> set ss \<subseteq> set ss' \<Longrightarrow> entryOK N ss' c e"
  by (auto simp: entryOK_def)

lemma policyOK_grow:
  "policyOK N p \<Longrightarrow> po_configs q = po_configs p \<Longrightarrow> po_urls q = po_urls p \<Longrightarrow> distinct (po_excluded q) \<Longrightarrow> set (po_secrets p) \<subseteq> set (po_secrets q) \<Longrightarrow> policyOK N q"
  by (auto simp: policyOK_def intro: list_all2_mono entryOK_mono)

lemma addConfig_ok:
  assumes "policyOK N p" and "addConfig goQuote N c0 p = Inr q"
  shows "policyOK N q" and "map pc_Password (po_configs q) = map pc_Password (po_configs p) @ [pc_Password c0]"
proof -
  define c where "c = c0\<lparr>pc_Host := cutBoth bracketSet (pc_Host c0)\<rparr>"
  define u where "u = \<lparr>pu_Host = proxyAddress (pc_Host c) (pc_Port c), pu_User = (if pc_Username c \<noteq> [] \<or> pc_Password c \<noteq> [] then Some (pc_Username c, pc_Password c) else None)\<rparr>"
  define p1 where "p1 = addProxySecrets N u (p\<lparr>po_urls := po_urls p @ [(pc_Kind c, u)], po_configs := po_configs p @ [c]\<rparr>)"
  have kind: "pc_Kind c0 = ''http'' \<or> pc_Kind c0 = ''https''" and new: "map_of (po_urls p) (pc_Kind c0) = None" and host: "\<not> badHost N (pc_Host c) (pc_Port c)"
    and q: "addExclusions N (pc_Excluded c) p1 = Inr q"
    using assms(2) by (auto simp: addConfig_def c_def u_def p1_def Let_def split: if_splits)
  have ex: "po_excluded p1 = po_excluded p" by (simp add: p1_def)
  have "set (secretForms N (pc_Password c)) \<subseteq> set (po_secrets p1)"
  proof (cases "pc_Password c = []")
    case False
    then have "pu_User u = Some (pc_Username c, pc_Password c)" by (simp add: u_def)
    then show ?thesis unfolding p1_def by (rule addProxySecrets_password)
  qed (simp add: secretForms_def)
  then have e: "entryOK N (po_secrets p1) c (pc_Kind c, u)" using kind host by (simp add: entryOK_def u_def c_def)
  have grown: "set (po_secrets p) \<subseteq> set (po_secrets p1)" using addProxySecrets_keeps(5) [of "p\<lparr>po_urls := po_urls p @ [(pc_Kind c, u)], po_configs := po_configs p @ [c]\<rparr>" N u] by (simp add: p1_def)
  have old: "list_all2 (entryOK N (po_secrets p1)) (po_configs p) (po_urls p)"
    using assms(1) grown by (auto simp: policyOK_def intro: list_all2_mono entryOK_mono)
  have "pc_Kind c \<notin> fst ` set (po_urls p)" using new by (simp add: map_of_eq_None_iff c_def)
  then have p1: "policyOK N p1" using old e assms(1) ex by (simp add: policyOK_def p1_def list_all2_appendI)
  have k: "po_configs q = po_configs p1 \<and> po_urls q = po_urls p1 \<and> po_secrets q = po_secrets p1 \<and> distinct (po_excluded q)"
    by (rule addExclusions_keeps [OF q]) (use p1 in \<open>simp add: policyOK_def\<close>)
  show "policyOK N q" using policyOK_grow [OF p1] k by simp
  show "map pc_Password (po_configs q) = map pc_Password (po_configs p) @ [pc_Password c0]" using k by (simp add: p1_def c_def)
qed

lemma addConfigs_ok:
  "policyOK N p \<Longrightarrow> addConfigs goQuote N cs p = Inr q \<Longrightarrow> policyOK N q \<and> map pc_Password (po_configs q) = map pc_Password (po_configs p) @ map pc_Password cs"
proof (induction cs arbitrary: p)
  case (Cons c cs)
  then obtain p' where p': "addConfig goQuote N c p = Inr p'" and r: "addConfigs goQuote N cs p' = Inr q" by (auto split: sum.splits)
  show ?case using Cons.IH [OF addConfig_ok(1) [OF Cons.prems(1) p'] r] addConfig_ok(2) [OF Cons.prems(1) p'] by simp
qed simp

lemma addEnv_keeps:
  "po_configs (addEnv N l k p) = po_configs p" "po_urls (addEnv N l k p) = po_urls p" "po_excluded (addEnv N l k p) = po_excluded p" "set (po_secrets p) \<subseteq> set (po_secrets (addEnv N l k p))"
proof -
  have a: "set (po_secrets p) \<subseteq> set (po_secrets (addProxySecrets N u (p\<lparr>po_env := e\<rparr>)))" for u e using addProxySecrets_keeps(5) [of "p\<lparr>po_env := e\<rparr>" N u] by simp
  have b: "set (po_secrets p) \<subseteq> set (po_secrets (addProxySecrets N u (p\<lparr>po_env := e, po_secrets := po_secrets p @ [v]\<rparr>)))" for u e v
    using addProxySecrets_keeps(5) [of "p\<lparr>po_env := e, po_secrets := po_secrets p @ [v]\<rparr>" N u] by simp
  show "set (po_secrets p) \<subseteq> set (po_secrets (addEnv N l k p))" using a b by (simp add: addEnv_def Let_def split: option.split) blast
  show "po_configs (addEnv N l k p) = po_configs p" "po_urls (addEnv N l k p) = po_urls p" "po_excluded (addEnv N l k p) = po_excluded p"
    by (simp_all add: addEnv_def Let_def split: option.split)
qed

lemma addEnv_ok: "policyOK N p \<Longrightarrow> policyOK N (addEnv N l k p)"
  using policyOK_grow [of N p "addEnv N l k p"] addEnv_keeps [where p = p] by (auto simp: policyOK_def)

text \<open>A proxy policy that is built is sound. It has at most one proxy for a scheme, with an address that is valid; every
  form of every password the Hub gave is among the secrets that are masked; a request to the own host is never sent to a
  proxy; and where the environment says nothing, a Git request goes to the Hub's proxy for its scheme or, when an
  exclusion matches, directly.\<close>

theorem proxy_policy_sound:
  assumes "NewPolicy goQuote N configs lookup = Inr p"
  shows "policyOK N p \<and> list_all (\<lambda>c. set (secretForms N (pc_Password c)) \<subseteq> set (po_secrets p)) configs
     \<and> (nl_IsLoopback N (toLower (tg_Hostname t)) \<longrightarrow> GitProxy N p t = Inr None)
     \<and> (po_env p = [] \<longrightarrow> GitProxy N p t = Inr None \<or> (\<exists>u. GitProxy N p t = Inr (Some u) \<and> (toLower (tg_Scheme t), u) \<in> set (po_urls p)
          \<and> \<not> list_ex (\<lambda>x. compileHubExclusion N x t) (po_excluded p)))"
proof -
  obtain p0 where p0: "addConfigs goQuote N configs emptyPolicy = Inr p0"
    and p: "p = addEnv N lookup ''NO_PROXY'' (addEnv N lookup ''HTTPS_PROXY'' (addEnv N lookup ''HTTP_PROXY'' p0))"
    using assms by (auto simp: NewPolicy_def split: sum.splits)
  have e: "policyOK N emptyPolicy" by (simp add: policyOK_def emptyPolicy_def)
  note q = addConfigs_ok [OF e p0]
  then have ok: "policyOK N p" by (simp add: p addEnv_ok)
  have cs: "map pc_Password (po_configs p) = map pc_Password configs" using q by (simp add: p addEnv_keeps emptyPolicy_def)
  have "set (secretForms N (pc_Password c)) \<subseteq> set (po_secrets p)" if "c \<in> set configs" for c
  proof -
    have "pc_Password c \<in> pc_Password ` set (po_configs p)" using that cs by (metis image_eqI image_set)
    then obtain d where d: "d \<in> set (po_configs p)" "pc_Password c = pc_Password d" by blast
    then obtain x where "entryOK N (po_secrets p) d x" using ok unfolding policyOK_def by (metis in_set_conv_nth list_all2_conv_all_nth)
    then show ?thesis using d(2) by (auto simp: entryOK_def)
  qed
  moreover have "GitProxy N p t = Inr None \<or> (\<exists>u. GitProxy N p t = Inr (Some u) \<and> (toLower (tg_Scheme t), u) \<in> set (po_urls p) \<and> \<not> list_ex (\<lambda>x. compileHubExclusion N x t) (po_excluded p))"
    if "po_env p = []"
    using that by (auto simp: GitProxy_def selectProxy_def Let_def split: option.splits dest: map_of_SomeD)
  ultimately show ?thesis using ok by (auto simp: list_all_iff GitProxy_def Let_def)
qed

section \<open>Patterns\<close>

text \<open>What a pattern means: its pieces between the stars, in order, with a text on one line between any two.\<close>

fun weave :: "string list \<Rightarrow> string list \<Rightarrow> string option" where
  "weave [p] [] = Some p"
| "weave (p # ps) (f # fs) = map_option (\<lambda>r. p @ f @ r) (weave ps fs)"
| "weave _ _ = None"

definition wildSpec :: "string \<Rightarrow> string \<Rightarrow> bool" where
  "wildSpec pat s \<longleftrightarrow> (\<exists>fs. weave (splitOn CHR ''*'' pat) fs = Some s \<and> newlineChar \<notin> set (concat fs))"

lemma weave_char: "weave ((c # p) # ps) fs = map_option (\<lambda>r. c # r) (weave (p # ps) fs)"
  by (cases "(p # ps, fs)" rule: weave.cases) (simp_all add: option.map_comp comp_def)

lemma wildSpec_star: "wildSpec (CHR ''*'' # ps) s \<longleftrightarrow> (\<exists>f r. s = f @ r \<and> newlineChar \<notin> set f \<and> wildSpec ps r)"
proof
  assume "wildSpec (CHR ''*'' # ps) s"
  then obtain fs where w: "weave ([] # splitOn CHR ''*'' ps) fs = Some s" and n: "newlineChar \<notin> set (concat fs)" by (auto simp: wildSpec_def)
  obtain q qs where q: "splitOn CHR ''*'' ps = q # qs" by (cases "splitOn CHR ''*'' ps") simp_all
  obtain f fs' where f: "fs = f # fs'" using w q by (cases fs) simp_all
  then obtain r where "weave (splitOn CHR ''*'' ps) fs' = Some r" "s = f @ r" using w by auto
  then show "\<exists>f r. s = f @ r \<and> newlineChar \<notin> set f \<and> wildSpec ps r" using n f by (auto simp: wildSpec_def)
next
  assume "\<exists>f r. s = f @ r \<and> newlineChar \<notin> set f \<and> wildSpec ps r"
  then obtain f r fs where "s = f @ r" "newlineChar \<notin> set f" "weave (splitOn CHR ''*'' ps) fs = Some r" "newlineChar \<notin> set (concat fs)" by (auto simp: wildSpec_def)
  then show "wildSpec (CHR ''*'' # ps) s" unfolding wildSpec_def by (intro exI [of _ "f # fs"]) auto
qed

lemma wildSpec_char:
  assumes "p \<noteq> CHR ''*''"
  shows "wildSpec (p # ps) s \<longleftrightarrow> (\<exists>r. s = p # r \<and> wildSpec ps r)"
proof -
  obtain q qs where q: "splitOn CHR ''*'' ps = q # qs" by (cases "splitOn CHR ''*'' ps") simp_all
  then have "splitOn CHR ''*'' (p # ps) = (p # q) # qs" using assms by simp
  then show ?thesis by (auto simp: wildSpec_def weave_char q)
qed

lemma wildSpec_Nil: "wildSpec [] s \<longleftrightarrow> s = []"
proof
  assume "wildSpec [] s"
  then obtain fs where "weave [[]] fs = Some s" by (auto simp: wildSpec_def)
  then show "s = []" by (cases fs) auto
next
  show "s = [] \<Longrightarrow> wildSpec [] s" unfolding wildSpec_def by (intro exI [of _ "[]"]) simp
qed

lemma star_step:
  "(\<exists>f r. c # s = f @ r \<and> d \<notin> set f \<and> P r) \<longleftrightarrow> P (c # s) \<or> (c \<noteq> d \<and> (\<exists>f r. s = f @ r \<and> d \<notin> set f \<and> P r))" (is "?L \<longleftrightarrow> ?R")
proof
  assume ?L
  then obtain f r where f: "c # s = f @ r" "d \<notin> set f" "P r" by blast
  then show ?R by (cases f) auto
next
  assume ?R
  then consider "P (c # s)" | f r where "c \<noteq> d" "s = f @ r" "d \<notin> set f" "P r" by blast
  then show ?L
  proof cases
    case 1
    then show ?thesis by (intro exI [of _ "[]"] exI [of _ "c # s"]) simp
  next
    case (2 f r)
    then show ?thesis by (intro exI [of _ "c # f"] exI [of _ r]) simp
  qed
qed

text \<open>The matcher of exclusions accepts exactly the texts the pattern means.\<close>

lemma wild_correct: "wildMatch pat s \<longleftrightarrow> wildSpec pat s"
proof (induction pat s rule: wildMatch.induct)
  case (2 p ps)
  then show ?case by (cases "p = CHR ''*''") (auto simp: wildSpec_star wildSpec_char)
next
  case (3 p ps c s)
  show ?case
  proof (cases "p = CHR ''*''")
    case True
    have "wildSpec (p # ps) (c # s) \<longleftrightarrow> wildSpec ps (c # s) \<or> (c \<noteq> newlineChar \<and> wildSpec (p # ps) s)"
      unfolding True wildSpec_star by (rule star_step)
    then show ?thesis using 3 True by simp
  next
    case False
    then show ?thesis using 3(3) by (auto simp: wildSpec_char)
  qed
qed (simp add: wildSpec_Nil)

section \<open>Maven settings are only added\<close>

lemma store_learns:
  assumes "storeSettings X w red t = (red', eff, err)" and "CreateExclusive s \<in> set eff"
  shows "addMavenSettings X s red = Inr red'" and "mw_write w \<noteq> None \<Longrightarrow> RemoveSettings \<in> set eff \<and> err \<noteq> None"
  using assms by (auto simp: storeSettings_def writeMavenSettings_def split: sum.splits option.splits)

lemma generate_learns:
  assumes "generateSettings N X w red identity proxies = (red', eff, warning, err)" and "CreateExclusive s \<in> set eff"
  shows "addMavenSettings X s red = Inr red' \<and> (mw_write w \<noteq> None \<longrightarrow> RemoveSettings \<in> set eff \<and> err \<noteq> None)"
  using assms store_learns
  by (auto simp: generateSettings_def Let_def split: sum.splits mavenError.splits option.splits if_splits prod.splits)


section \<open>Samples\<close>

definition sampleNet :: netLib where
  "sampleNet = \<lparr>nl_ParseIP = (\<lambda>s. if s = ''127.0.0.1'' then Some s else None), nl_IsLoopback = (\<lambda>s. s = ''127.0.0.1''), nl_ParseCIDR = (\<lambda>s. False),
     nl_SplitHostPort = (\<lambda>s. None), nl_URLString = (\<lambda>u. ''http://'' @ pu_Host u), nl_UserString = (\<lambda>(u, p). u @ '':'' @ p), nl_PathEscape = (\<lambda>s. s),
     nl_QueryEscape = (\<lambda>s. s), nl_EscapeText = (\<lambda>s. s), nl_Parse = (\<lambda>s. None), nl_ProxyFunc = (\<lambda>p no t. Inr None)\<rparr>"

definition sampleProxy :: proxyConfig where
  "sampleProxy = \<lparr>pc_Kind = ''https'', pc_Host = ''proxy.corp'', pc_Port = 3128, pc_Username = ''bot'', pc_Password = ''s3cret-word'', pc_Excluded = [''*.corp'']\<rparr>"

definition samplePolicy :: proxyPolicy where
  "samplePolicy = \<lparr>po_configs = [sampleProxy], po_urls = [(''https'', \<lparr>pu_Host = ''proxy.corp:3128'', pu_User = Some (''bot'', ''s3cret-word'')\<rparr>)],
     po_excluded = [''*.corp''], po_env = [],
     po_secrets = [''s3cret-word'', ''s3cret-word'', ''s3cret-word'', ''s3cret-word'', ''http://proxy.corp:3128'', ''bot:s3cret-word'']\<rparr>"

definition sampleTarget :: target where
  "sampleTarget = \<lparr>tg_Scheme = ''https'', tg_Hostname = ''github.com'', tg_Port = []\<rparr>"

lemma sample_policy: "NewPolicy (\<lambda>s. s) sampleNet [sampleProxy] (\<lambda>k. None) = Inr samplePolicy"
  by code_simp

lemma sample_proxied: "GitProxy sampleNet samplePolicy sampleTarget = Inr (Some \<lparr>pu_Host = ''proxy.corp:3128'', pu_User = Some (''bot'', ''s3cret-word'')\<rparr>)"
  by code_simp

theorem proxy_policy_sound_witness:
  "policyOK sampleNet samplePolicy \<and> set (secretForms sampleNet ''s3cret-word'') \<subseteq> set (po_secrets samplePolicy)
   \<and> GitProxy sampleNet samplePolicy sampleTarget = Inr (Some \<lparr>pu_Host = ''proxy.corp:3128'', pu_User = Some (''bot'', ''s3cret-word'')\<rparr>)"
  using proxy_policy_sound [OF sample_policy, of sampleTarget] sample_proxied by (simp add: sampleProxy_def)

definition sampleXml :: xmlLib where
  "sampleXml = \<lparr>xl_scan = (\<lambda>s. XmlBroken), xl_marshal = (\<lambda>sp ms. None), xl_passwords = (\<lambda>s. Some [(''s3cret-word'', ''s3cret-word'')])\<rparr>"

definition sampleMaven :: mavenWorld where
  "sampleMaven = \<lparr>mw_home = Inr ''/home/a'', mw_settings = NoFile, mw_appID = None, mw_identity = Inr (Some (3, ''<settings/>'')), mw_mkdir = None, mw_create = None,
     mw_write = Some ''disk full'', mw_remove = None\<rparr>"

definition sampleMavenResult :: "string list \<times> mavenEffect list \<times> string \<times> string option" where
  "sampleMavenResult = ([''s3cret-word''], [MkdirM2, CreateExclusive ''<settings/>'', RemoveSettings], [], Some ''write Maven user settings: disk full'')"

lemma sample_maven: "prepareMavenSettings sampleNet sampleXml sampleMaven [] [] = sampleMavenResult"
  by code_simp


end
