(* ===== verification/Spec2Isabelle.thy ===== *)
theory Spec2Isabelle
  imports WorkflowController AgentController GatewayController SkillCollectionController SkillCardController Materialize HarnessContract
    HarnessLadder GooseServe AskUser Watcher HubProxy
begin

text \<open>
  A verification library for the agentic controller of Konveyor (src/): a Kubernetes operator that runs
  coding agents in sandbox pods, the loader that assembles the skills such a pod reads, and the harness
  that drives the agent inside it.

  \<^bold>\<open>The program.\<close> Seven custom resources (src/api/v1alpha1) are reconciled by one controller each
  (src/internal/controller). An AgentRun names an Agent, its parameters, gateway, skills and file mounts;
  its controller validates them, creates a Sandbox with the objects it needs, follows the pod and records
  the outcome. An AgentWorkflowRun copies the stages of an AgentWorkflow once and creates one AgentRun per
  stage, in order. Gateways are probed by a Job, SkillCards are checked against their registry, and a
  SkillCollection that names an image is enumerated by a Job that runs the skill loader
  (src/cmd/skill-loader, src/internal/skills). The loader also runs as the init container of every run
  with skills and leaves a manifest (src/api/skill) that the harness reads. The harness (src/harness) clones
  the application, starts the agent runtime, sends it one prompt over the Agent Client Protocol, reads the
  agent's handoff, re-runs the verification commands of the plan, pushes the branch, and reports by its exit
  code and the termination log of its container, from which the controller takes the outcome of the run.

  \<^bold>\<open>How it is modelled.\<close> Every theory opens with the files it translates.
  \<^item> Prelude, Kube, Cluster: results and errors, object metadata, status conditions, the API server. A
    controller is a record of its client and settings; a reconcile returns the writes it makes, in order,
    and a result or an error. Reads are functions of the client, so every theorem holds for every state
    of the cluster, for stale caches and for failing calls. controller-runtime and apimachinery are
    parameters; the locales condition_store, owner_references and dns_names state what is used of them.
  \<^item> ApiTypes: the custom resources, as records with the fields of the Go structs.
  \<^item> Strconv, Names, Json, JsonRoundTrip, FileSystem: the parts of the Go standard library the code
    relies on: UTF-8, decimal and floating point conversion, SHA-256, the JSON encoder and decoder, paths,
    symbolic links and file operations.
  \<^item> FileMounts, Execution, Params, Verification, Skills, SandboxBuild, RunOutcome, Cleanup,
    RunController: src/internal/controller/agentrun_controller.go, execution.go, params.go,
    verification.go and run_cleanup.go.
  \<^item> WorkflowController: agentworkflowrun_controller.go. Pipeline: the abstract specification it refines, stages
    passed one after the other, with the simulation a program has to show to implement it. AgentController: agent_controller.go and
    agentworkflow_controller.go. GatewayController: gateway_controller.go. SkillCardController:
    skillcard_controller.go, imageresolve.go and skillfrontmatter.go. SkillCollectionController:
    skillcollection_controller.go, skillcollection_enumerate.go and skillcollection_rbac.go.
  \<^item> SkillFormat, SkillLoader, SkillManifest, Materialize: src/api/skill, src/internal/skills and
    src/cmd/skill-loader.
  \<^item> JsonStruct, JsonNumbers, Regexp, HarnessText: decoding into structs, numbers in JSON, the regular
    expressions the harness uses (leftmost-first, as regexp matches), redaction and clipping.
  \<^item> AcpSession: src/harness/internal/acp (session.go, jsonrpc.go, wsclient.go), a prompt being the list of
    events its select loop receives. HarnessConfig: internal/config, internal/params and internal/prompt.
    HarnessHandoff, HarnessPlan, HarnessVerify, HarnessOutcome: handoff.go, verify.go, redact.go and
    outcome.go of src/harness/cmd/migration-harness. HarnessGit: internal/git and internal/hub, over a
    repository that is a record of heads, branches, commits and files. HarnessStage: runStage and main of
    main.go; everything outside the process is a field of a record that says what each call answered.
  \<^item> Tee: src/harness/internal/tee. The server is a record, its critical sections are operations, and a trace of
    events is one interleaving of its goroutines, of the viewers and of the timers.
  \<^item> HarnessLadder: the plan ladder of main.go, its text and its data, handed to the tee. GooseOutput,
    GooseServe: src/harness/internal/goose, the runtime as a process, its captured output and what it is started
    with. AskUser: src/harness/internal/askuser, whose tool calls interleave as those of the tee. Watcher:
    src/harness/internal/watcher, its loop over events. HubProxy: the proxies of the Hub and the Maven settings
    (internal/proxy, internal/hub/proxy.go, maven.go and maven_proxy.go), with net and encoding/xml as parameters.
  \<^item> HarnessContract: the composition of the harness and the controller.

  \<^bold>\<open>What is shown.\<close> Invariants over all reachable states of a run, of a workflow run and of a gateway,
  under arbitrary changes of the rest of the cluster between reconciles; that a Sandbox is created only
  for a run that passed every check; that the plan of a workflow run is frozen, its stages run one after
  the other and their outcome decides, and that such a run refines the pipeline; that what a reconcile or the orphan sweep deletes is its own;
  exact outcomes of finished pods, startup deadlines and configuration errors; progress of workflow runs
  and gateways in a healthy environment; equivalence of the validators and of parameter substitution with
  declarative specifications; the environment and the volumes of the pod; staging, containment and
  completeness of skills from card to manifest; and that what one program writes for another (source
  declarations, manifests, probe reports, execution controls, termination logs) is read back as it was
  written. For the harness: when a stage exits 0, when a verification passes and that the verified commit is
  the one pushed, that the termination log fits and keeps the verdict, that credentials do not leave in it,
  that permission asks fail closed and the cost limit cancels once, that under every interleaving an ask is
  settled once, a late viewer is told where the run stands and viewers reach the run only by steering it, that
  no answer of a human is invented, that the runtime is not open without a key and its output is captured whatever
  its chunks, that the ladder shows no secret and is sent sparingly, that Maven settings are only added, and
  that the run's status reports what
  the harness did.

  \<^bold>\<open>Bounds.\<close> Loops are structural or have a measure. The copy of a skill is bounded by the source's own 32
  levels, link resolution by 255 links (filepath.EvalSymlinks) and 40 (the kernel). Integers the code
  keeps at 32 or 64 bits are words or wrapped explicitly; durations saturate as time.Duration does. The
  nesting limit of the JSON decoder (10000) is not modelled.

  \<^bold>\<open>Not modelled.\<close> SetupWithManager and cmd/main.go (registration of watches, indexes, caches and
  flags with the framework), zz_generated.deepcopy.go (generated), log output, and I/O itself: sockets,
  processes and HTTP are parameters. A reconcile reads the clock once. Of the harness: the sockets of
  the tee and the draining of its queues at the end, the scan of XML settings, the link to the skills
  directory and the download of the analysis. The stage itself takes the proxy and Maven settings, the watcher and
  the runtime as answers of the world it runs in, and the theories above model these on their own.
\<close>

end
